(* ===== verification/Prelude.thy ===== *)
theory Prelude
  imports Main "HOL-Library.Word" "HOL-Library.Monad_Syntax" "HOL-Library.Sublist"
begin

text \<open>
  Shared vocabulary of the development: the machine types of the C sources, memory objects
  (a malloc'ed block, a stack array, a receive buffer) as byte lists with bounds-checked
  loads and stores, and the generic facts on words, byte lists and comma separated lists
  that several components use.

  A C function that dereferences memory is a function into \<open>option\<close>: \<open>None\<close> stands for an
  access outside the object (or any other undefined behaviour), never for a value.
\<close>

unbundle bit_operations_syntax

named_theorems mem_simps \<open>loads and stores on memory objects\<close>
named_theorems enc_simps \<open>byte encodings and their inverses\<close>

section \<open>Machine types\<close>

type_synonym u8 = "8 word"
type_synonym u16 = "16 word"
type_synonym u32 = "32 word"
type_synonym u64 = "64 word"

section \<open>Words\<close>

lemma word_ff_mask: "(0xFF :: 'a::len word) = mask 8"
  by (simp add: mask_eq_exp_minus_1)

lemma ucast_and_ff [simp]: "(ucast ((x :: 'a::len word) AND 0xFF) :: u8) = ucast x"
  by (rule bit_word_eqI) (auto simp: word_ff_mask bit_simps dest: bit_imp_le_length)

lemma bit_u8_beyond [simp]: "8 \<le> n \<Longrightarrow> \<not> bit (b :: u8) n"
  by (auto dest: bit_imp_le_length)

lemma u32_wrap: "(4294967296 :: u32) = 0"
  by simp

lemma unat_lt_u32: "unat (w :: u32) < 4294967296"
  using unsigned_less [of w] by simp

lemma unat_ucast_u64: "unat (ucast (x :: u32) :: u64) = unat x"
  using unat_lt_u32 [of x] by (simp add: unsigned_ucast_eq take_bit_nat_eq_self)

lemma unat_u32_plus:
  "unat (a :: u32) + unat b < 4294967296 \<Longrightarrow> unat (a + b) = unat a + unat b"
  by (simp add: unat_word_ariths)

lemma unat_u32_plus_mod: "unat ((a :: u32) + b) = (unat a + unat b) mod 4294967296"
  by (simp add: unat_word_ariths)

lemma unat_lt_u64: "unat (w :: u64) < 18446744073709551616"
  using unsigned_less [of w] by simp

lemma unat_u64_plus_one: "unat w + 1 < 2 ^ 64 \<Longrightarrow> unat (w + 1) = unat w + 1" for w :: u64
  by (simp add: unat_word_ariths)

lemma unat_u32_minus: "b \<le> a \<Longrightarrow> unat ((a :: u32) - b) = unat a - unat b"
  by (simp add: unat_sub)

lemma unat_of_nat_u32: "n < 4294967296 \<Longrightarrow> unat (of_nat n :: u32) = n"
  by (simp add: unat_of_nat)

lemma u32_le_unat: "(a :: u32) \<le> b \<longleftrightarrow> unat a \<le> unat b"
  by (rule word_le_nat_alt)

lemma u32_less_unat: "(a :: u32) < b \<longleftrightarrow> unat a < unat b"
  by (rule word_less_nat_alt)

section \<open>Memory objects\<close>

type_synonym mem = "u8 list"

definition mem_load :: "mem \<Rightarrow> nat \<Rightarrow> nat \<Rightarrow> u8 list option" where
  "mem_load m off n = (if off + n \<le> length m then Some (take n (drop off m)) else None)"

definition mem_store :: "mem \<Rightarrow> nat \<Rightarrow> u8 list \<Rightarrow> mem option" where
  "mem_store m off bs =
     (if off + length bs \<le> length m
      then Some (take off m @ bs @ drop (off + length bs) m) else None)"

lemma mem_load_Some_iff [mem_simps]:
  "mem_load m off n = Some bs \<longleftrightarrow> off + n \<le> length m \<and> bs = take n (drop off m)"
  by (auto simp: mem_load_def)

lemma mem_load_None_iff [mem_simps]: "mem_load m off n = None \<longleftrightarrow> length m < off + n"
  by (auto simp: mem_load_def)

lemma mem_store_Some_iff [mem_simps]:
  "mem_store m off bs = Some m' \<longleftrightarrow>
     off + length bs \<le> length m \<and> m' = take off m @ bs @ drop (off + length bs) m"
  by (auto simp: mem_store_def)

lemma mem_store_None_iff [mem_simps]: "mem_store m off bs = None \<longleftrightarrow> length m < off + length bs"
  by (auto simp: mem_store_def)

text \<open>
  An array on the stack whose size is an expression of 32 bits. The bytes of such an array are all written before they are read; they are zero here
  until then.
\<close>

definition stack_array :: "u32 \<Rightarrow> mem" where
  "stack_array n = replicate (unat n) 0"

lemma drop_zeros: "drop n (replicate (n + k) (0 :: u8)) = replicate k 0"
  by (simp add: drop_replicate)

lemma length_mem_load: "mem_load m off n = Some bs \<Longrightarrow> length bs = n"
  by (auto simp: mem_simps)

lemma length_mem_store: "mem_store m off bs = Some m' \<Longrightarrow> length m' = length m"
  by (auto simp: mem_simps)

lemma take_mem_store: "mem_store m off bs = Some m' \<Longrightarrow> k \<le> off \<Longrightarrow> take k m' = take k m"
  by (auto simp: mem_simps)

lemma take_through_mem_store:
  "mem_store m off bs = Some m' \<Longrightarrow> take (off + length bs) m' = take off m @ bs"
  by (auto simp: mem_simps)

lemma drop_mem_store:
  "mem_store m off bs = Some m' \<Longrightarrow> off + length bs \<le> k \<Longrightarrow> drop k m' = drop k m"
proof -
  assume st: "mem_store m off bs = Some m'" and k: "off + length bs \<le> k"
  then have m': "m' = (take off m @ bs) @ drop (off + length bs) m"
    and len: "length (take off m @ bs) = off + length bs"
    by (auto simp: mem_simps)
  have "drop k m' = drop (k - (off + length bs)) (drop (off + length bs) m)"
    unfolding m' drop_append len using k len by simp
  then show "drop k m' = drop k m" using k by simp
qed

lemma mem_load_store_same:
  "mem_store m off bs = Some m' \<Longrightarrow> mem_load m' off (length bs) = Some bs"
  by (auto simp: mem_simps)

lemma mem_load_prefix:
  "off + n \<le> k \<Longrightarrow> take k m' = take k m \<Longrightarrow> k \<le> length m \<Longrightarrow> k \<le> length m' \<Longrightarrow>
   mem_load m' off n = mem_load m off n"
proof -
  assume k: "off + n \<le> k" and t: "take k m' = take k m"
    and l: "k \<le> length m" "k \<le> length m'"
  have "take n (drop off (take k m')) = take n (drop off (take k m))" using t by simp
  moreover have "n \<le> k - off" using k by simp
  ultimately have "take n (drop off m') = take n (drop off m)"
    by (simp add: drop_take min_absorb1)
  with k l show "mem_load m' off n = mem_load m off n" by (simp add: mem_load_def)
qed

lemma mem_store_append:
  "Option.bind (mem_store m off a) (\<lambda>m1. mem_store m1 (off + length a) b) = mem_store m off (a @ b)"
proof (cases "off + length a \<le> length m")
  case True
  then have "drop (off + length a + length b) (take off m @ a @ drop (off + length a) m) =
             drop (off + length a + length b) m"
    using drop_mem_store [of m off a "take off m @ a @ drop (off + length a) m"
        "off + length a + length b"]
    by (simp add: mem_simps)
  with True show ?thesis
    by (simp add: mem_store_def add.assoc)
next
  case False
  then show ?thesis by (simp add: mem_store_def)
qed

lemma mem_store_append_Some:
  "mem_store m off a = Some m1 \<Longrightarrow> mem_store m1 (off + length a) b = mem_store m off (a @ b)"
  by (simp flip: mem_store_append)

lemma mem_load_split:
  "mem_load m off (length (a @ b)) = Some (a @ b) \<longleftrightarrow>
     mem_load m off (length a) = Some a \<and> mem_load m (off + length a) (length b) = Some b"
proof -
  have "take (length a + length b) (drop off m) =
        take (length a) (drop off m) @ take (length b) (drop (off + length a) m)"
    by (simp add: take_add add.commute)
  moreover have "off + length a \<le> length m \<Longrightarrow> length (take (length a) (drop off m)) = length a"
    by simp
  ultimately show ?thesis
    by (auto simp: mem_load_def append_eq_append_conv)
qed

lemma mem_load_after_store:
  "mem_store m off (a @ bs @ c) = Some m' \<Longrightarrow>
     mem_load m' (off + length a) (length bs) = Some bs"
  using mem_load_store_same [of m off "a @ bs @ c" m'] mem_load_split [of m' off a "bs @ c"]
    mem_load_split [of m' "off + length a" bs c] by simp

end
