(* ===== verification/Ssh_Uint.thy ===== *)
theory Ssh_Uint
  imports Prelude
begin

text \<open>
  Network byte order integers: \<open>lib/datatypes/ssh-uint.c\<close>. \<open>store_uint*\<close> write the value
  most significant byte first through a pointer, \<open>get_uint*\<close> read it back; the pointer is
  a memory object with an offset.
\<close>

section \<open>The byte arrays\<close>

definition be16 :: "u16 \<Rightarrow> u8 list" where
  "be16 value = [ucast (drop_bit 8 value AND 0xFF), ucast (value AND 0xFF)]"

definition be32 :: "u32 \<Rightarrow> u8 list" where
  "be32 value =
     [ucast (drop_bit 24 value AND 0xFF), ucast (drop_bit 16 value AND 0xFF),
      ucast (drop_bit 8 value AND 0xFF), ucast (value AND 0xFF)]"

definition be64 :: "u64 \<Rightarrow> u8 list" where
  "be64 value =
     [ucast (drop_bit 56 value AND 0xFF), ucast (drop_bit 48 value AND 0xFF),
      ucast (drop_bit 40 value AND 0xFF), ucast (drop_bit 32 value AND 0xFF),
      ucast (drop_bit 24 value AND 0xFF), ucast (drop_bit 16 value AND 0xFF),
      ucast (drop_bit 8 value AND 0xFF), ucast (value AND 0xFF)]"

definition of_be16 :: "u8 list \<Rightarrow> u16" where
  "of_be16 tmp = push_bit 8 (ucast (tmp ! 0)) OR ucast (tmp ! 1)"

definition of_be32 :: "u8 list \<Rightarrow> u32" where
  "of_be32 tmp =
     push_bit 24 (ucast (tmp ! 0)) OR push_bit 16 (ucast (tmp ! 1)) OR
     push_bit 8 (ucast (tmp ! 2)) OR ucast (tmp ! 3)"

text \<open>The two halves \<open>a\<close> (64 bits wide) and \<open>b\<close> (32 bits wide) of \<open>get_uint64\<close>.\<close>

definition of_be64 :: "u8 list \<Rightarrow> u64" where
  "of_be64 tmp =
     (let a = push_bit 56 (ucast (tmp ! 0)) OR push_bit 48 (ucast (tmp ! 1)) OR
              push_bit 40 (ucast (tmp ! 2)) OR push_bit 32 (ucast (tmp ! 3));
          b = (push_bit 24 (ucast (tmp ! 4)) OR push_bit 16 (ucast (tmp ! 5)) OR
               push_bit 8 (ucast (tmp ! 6)) OR ucast (tmp ! 7) :: u32)
      in a OR ucast b)"

section \<open>The operations\<close>

definition store_uint16 :: "mem \<Rightarrow> nat \<Rightarrow> u16 \<Rightarrow> mem option" where
  "store_uint16 buff off value = mem_store buff off (be16 value)"

definition store_uint32 :: "mem \<Rightarrow> nat \<Rightarrow> u32 \<Rightarrow> mem option" where
  "store_uint32 buff off value = mem_store buff off (be32 value)"

definition store_uint64 :: "mem \<Rightarrow> nat \<Rightarrow> u64 \<Rightarrow> mem option" where
  "store_uint64 buff off value = mem_store buff off (be64 value)"

definition get_uint16 :: "mem \<Rightarrow> nat \<Rightarrow> u16 option" where
  "get_uint16 buf off = map_option of_be16 (mem_load buf off 2)"

definition get_uint32 :: "mem \<Rightarrow> nat \<Rightarrow> u32 option" where
  "get_uint32 buf off = map_option of_be32 (mem_load buf off 4)"

definition get_uint64 :: "mem \<Rightarrow> nat \<Rightarrow> u64 option" where
  "get_uint64 buf off = map_option of_be64 (mem_load buf off 8)"

text \<open>
  \<open>get_int64\<close>: the low half is assembled in \<open>int32_t\<close> and stored in a \<open>uint32_t\<close>, so it is
  widened without sign. Both halves shift signed integers, which is undefined when a bit reaches the sign: the first and the
  fifth byte must be below 128. The result is the bit pattern of the \<open>int64_t\<close>; \<open>sint\<close> reads it.
\<close>

definition get_int64 :: "mem \<Rightarrow> nat \<Rightarrow> u64 option" where
  "get_int64 buf off = do {
     tmp \<leftarrow> mem_load buf off 8;
     if tmp ! 0 < 128 \<and> tmp ! 4 < 128 then Some (of_be64 tmp) else None }"

section \<open>Round trips\<close>

lemma length_be [simp]: "length (be16 v2) = 2" "length (be32 v4) = 4" "length (be64 v8) = 8"
  by (simp_all add: be16_def be32_def be64_def)

lemma of_be16_be16 [simp, enc_simps]: "of_be16 (be16 v) = v"
proof (rule bit_word_eqI)
  fix n assume "n < LENGTH(16)"
  then consider "n < 8" | "8 \<le> n \<and> n < 16" by fastforce
  then show "bit (of_be16 (be16 v)) n = bit v n"
    by cases (auto simp: of_be16_def be16_def bit_simps)
qed

lemma of_be32_be32 [simp, enc_simps]: "of_be32 (be32 v) = v"
proof (rule bit_word_eqI)
  fix n assume "n < LENGTH(32)"
  then consider "n < 8" | "8 \<le> n \<and> n < 16" | "16 \<le> n \<and> n < 24" | "24 \<le> n \<and> n < 32"
    by fastforce
  then show "bit (of_be32 (be32 v)) n = bit v n"
    by cases (auto simp: of_be32_def be32_def bit_simps)
qed

lemma of_be64_be64 [simp, enc_simps]: "of_be64 (be64 v) = v"
proof (rule bit_word_eqI)
  fix n assume "n < LENGTH(64)"
  then consider "n < 8" | "8 \<le> n \<and> n < 16" | "16 \<le> n \<and> n < 24" | "24 \<le> n \<and> n < 32"
    | "32 \<le> n \<and> n < 40" | "40 \<le> n \<and> n < 48" | "48 \<le> n \<and> n < 56" | "56 \<le> n \<and> n < 64"
    by fastforce
  then show "bit (of_be64 (be64 v)) n = bit v n"
    by cases (auto simp: of_be64_def be64_def bit_simps)
qed

lemma length_4E: "length xs = 4 \<Longrightarrow> \<exists>a b c d. xs = [a, b, c, d]"
  by (auto simp: eval_nat_numeral length_Suc_conv)

lemma be32_of_be32 [enc_simps]: "length bs = 4 \<Longrightarrow> be32 (of_be32 bs) = bs"
proof -
  assume "length bs = 4"
  then obtain a b c d where "bs = [a, b, c, d]" using length_4E by blast
  then show ?thesis
    by (auto simp: of_be32_def be32_def bit_simps intro!: bit_word_eqI)
qed

lemma get_store_uint16: "store_uint16 m off v = Some m' \<Longrightarrow> get_uint16 m' off = Some v"
  using mem_load_store_same [of m off "be16 v" m'] by (simp add: store_uint16_def get_uint16_def)

lemma get_store_uint32: "store_uint32 m off v = Some m' \<Longrightarrow> get_uint32 m' off = Some v"
  using mem_load_store_same [of m off "be32 v" m'] by (simp add: store_uint32_def get_uint32_def)

lemma get_store_uint64: "store_uint64 m off v = Some m' \<Longrightarrow> get_uint64 m' off = Some v"
  using mem_load_store_same [of m off "be64 v" m'] by (simp add: store_uint64_def get_uint64_def)

lemma store_uint32_Some_iff:
  "store_uint32 m off v = Some m' \<longleftrightarrow>
     off + 4 \<le> length m \<and> m' = take off m @ be32 v @ drop (off + 4) m"
  by (simp add: store_uint32_def mem_simps)

lemma get_uint32_Some_iff:
  "get_uint32 m off = Some v \<longleftrightarrow> off + 4 \<le> length m \<and> v = of_be32 (take 4 (drop off m))"
  by (auto simp: get_uint32_def mem_simps)

lemma get_uint32_None_iff: "get_uint32 m off = None \<longleftrightarrow> length m < off + 4"
  by (simp add: get_uint32_def mem_simps)

lemma get_uint32_at: "get_uint32 (xs @ be32 v @ ys) (length xs) = Some v"
  by (simp add: get_uint32_Some_iff)

end
