(* ===== verification/Ssh_String.thy ===== *)
theory Ssh_String
  imports Ssh_Uint
begin

text \<open>
  Counted strings: \<open>lib/ssh/ssh-string.c\<close>. A \<open>struct ssh_string_s\<close> either carries its bytes in
  its own flexible array (\<open>size > 0\<close>, \<open>ptr\<close> points inside) or refers to bytes elsewhere
  (\<open>size = 0\<close>). A pointer to bytes elsewhere is the list of bytes from its target to the
  end of the object it points into, so a length that is too large shows as a load that fails.
  Allocation is a parameter: \<open>alloc n\<close> is the block \<open>malloc\<close> returns for \<open>n\<close> bytes, or
  \<open>None\<close> when it fails.
\<close>

section \<open>Data\<close>

datatype ss_ptr = PNull | PInside | POut mem

record ssh_string_s =
  ss_flags :: u8
  ss_len :: u32
  ss_size :: u32
  ss_ptr :: ss_ptr
  ss_buffer :: mem

definition SSH_STRING_FLAG_HEADER :: "'a::len word" where "SSH_STRING_FLAG_HEADER = 1"
definition SSH_STRING_FLAG_DATA :: "'a::len word" where "SSH_STRING_FLAG_DATA = 2"
definition SSH_STRING_FLAG_ALLOC :: "'a::len word" where "SSH_STRING_FLAG_ALLOC = 4"
definition SSH_STRING_FLAG_COPY :: "'a::len word" where "SSH_STRING_FLAG_COPY = 8"

lemmas ssh_string_flag_defs =
  SSH_STRING_FLAG_HEADER_def SSH_STRING_FLAG_DATA_def
  SSH_STRING_FLAG_ALLOC_def SSH_STRING_FLAG_COPY_def

type_synonym allocator = "nat \<Rightarrow> mem option"

definition SSH_STRING_INIT :: ssh_string_s where
  "SSH_STRING_INIT = \<lparr>ss_flags = 0, ss_len = 0, ss_size = 0, ss_ptr = PNull, ss_buffer = []\<rparr>"

text \<open>What \<open>s->ptr\<close> points at (\<open>None\<close> for \<open>NULL\<close>), and the \<open>s->len\<close> bytes found there.\<close>

definition ss_target :: "ssh_string_s \<Rightarrow> mem option" where
  "ss_target s = (case ss_ptr s of PNull \<Rightarrow> None | PInside \<Rightarrow> Some (ss_buffer s) | POut m \<Rightarrow> Some m)"

definition ss_bytes :: "ssh_string_s \<Rightarrow> u8 list option" where
  "ss_bytes s = Option.bind (ss_target s) (\<lambda>m. mem_load m 0 (unat (ss_len s)))"

text \<open>The well-formed strings: the bytes the length announces are there.\<close>

definition ss_wf :: "ssh_string_s \<Rightarrow> bool" where
  "ss_wf s \<longleftrightarrow>
     (if ss_size s = 0 then (case ss_ptr s of PNull \<Rightarrow> ss_len s = 0 | PInside \<Rightarrow> ss_len s = 0
                               | POut m \<Rightarrow> unat (ss_len s) \<le> length m)
      else ss_ptr s = PInside \<and> length (ss_buffer s) = unat (ss_size s) \<and> ss_len s \<le> ss_size s)"

section \<open>Life cycle\<close>

text \<open>\<open>init_ssh_string\<close> and \<open>set_ssh_string\<close> (a C string \<open>SetC\<close>, another string \<open>SetS\<close>).\<close>

definition init_ssh_string :: "ssh_string_s \<Rightarrow> ssh_string_s" where
  "init_ssh_string s = s\<lparr>ss_flags := 0, ss_ptr := PNull, ss_len := 0, ss_size := 0\<rparr>"

definition c_strlen :: "mem \<Rightarrow> nat option" where
  "c_strlen m = (if 0 \<in> set m then Some (length (takeWhile (\<lambda>b. b \<noteq> 0) m)) else None)"

datatype set_arg = SetNull | SetC mem | SetS ssh_string_s | SetOther mem

definition set_ssh_string :: "ssh_string_s \<Rightarrow> set_arg \<Rightarrow> ssh_string_s option" where
  "set_ssh_string s arg =
     (if ss_size s > 0 then Some s
      else case arg of
        SetC ptr \<Rightarrow> do { n \<leftarrow> c_strlen ptr; Some (s\<lparr>ss_len := of_nat n, ss_ptr := POut ptr\<rparr>) }
      | SetS tmp \<Rightarrow>
          Some (s\<lparr>ss_len := ss_len tmp,
                  ss_ptr := (case ss_target tmp of None \<Rightarrow> PNull | Some m \<Rightarrow> POut m)\<rparr>)
      | SetOther ptr \<Rightarrow> Some s
      | SetNull \<Rightarrow> Some (init_ssh_string s))"

text \<open>
  \<open>create_ssh_string\<close>: the result is the returned pointer and the value \<open>*p_s\<close> has
  afterwards. When \<open>s\<close> exists and the allocation of outside data fails, the function returns
  \<open>NULL\<close> but \<open>*p_s\<close> keeps pointing at the string, now with a \<open>NULL\<close> data pointer.
\<close>

definition copy_over :: "mem \<Rightarrow> mem option \<Rightarrow> nat \<Rightarrow> mem option" where
  "copy_over dst data len =
     (case data of None \<Rightarrow> Some dst
      | Some d \<Rightarrow> do { bs \<leftarrow> mem_load d 0 len; mem_store dst 0 bs })"

definition realloc_mem :: "allocator \<Rightarrow> mem \<Rightarrow> nat \<Rightarrow> mem option" where
  "realloc_mem alloc old n =
     map_option (\<lambda>blk. take n (old @ drop (length old) blk)) (alloc n)"

definition create_ssh_string ::
  "allocator \<Rightarrow> ssh_string_s option \<Rightarrow> u32 \<Rightarrow> mem option \<Rightarrow> u8 \<Rightarrow>
   (ssh_string_s option \<times> ssh_string_s option) option" where
  "create_ssh_string alloc p_s len data flags =
    (case p_s of
       None \<Rightarrow>
         (case alloc (unat len) of
            None \<Rightarrow> Some (None, None)
          | Some blk \<Rightarrow> do {
              buf \<leftarrow> (if len > 0 then copy_over blk data (unat len) else Some blk);
              let s = \<lparr>ss_flags = 0, ss_len = len, ss_size = len, ss_ptr = PInside, ss_buffer = buf\<rparr>;
              Some (Some s, Some s) })
     | Some s \<Rightarrow>
         if ss_size s = 0 then
           (if flags AND SSH_STRING_FLAG_ALLOC \<noteq> 0 then
              (case alloc (unat len) of
                 None \<Rightarrow> Some (None, Some (s\<lparr>ss_ptr := PNull\<rparr>))
               | Some blk \<Rightarrow> do {
                   m \<leftarrow> copy_over blk data (unat len);
                   let s' = s\<lparr>ss_ptr := POut m, ss_len := len,
                              ss_flags := ss_flags s OR SSH_STRING_FLAG_ALLOC\<rparr>;
                   Some (Some s', Some s') })
            else
              let s' = s\<lparr>ss_flags := (if ss_flags s AND SSH_STRING_FLAG_ALLOC \<noteq> 0
                                      then ss_flags s - SSH_STRING_FLAG_ALLOC else ss_flags s),
                         ss_ptr := (case data of None \<Rightarrow> PNull | Some d \<Rightarrow> POut d),
                         ss_len := len\<rparr>
              in Some (Some s', Some s'))
         else if len = ss_len s then do {
           d \<leftarrow> data;
           buf \<leftarrow> copy_over (ss_buffer s) (Some d) (unat len);
           let s' = s\<lparr>ss_buffer := buf\<rparr>;
           Some (Some s', Some s') }
         else
           (case realloc_mem alloc (ss_buffer s) (unat len) of
              None \<Rightarrow> Some (None, None)
            | Some blk \<Rightarrow> do {
                buf \<leftarrow> copy_over blk data (unat len);
                let s' = s\<lparr>ss_len := len, ss_size := len, ss_ptr := PInside, ss_buffer := buf\<rparr>;
                Some (Some s', Some s') }))"

definition clear_ssh_string :: "ssh_string_s \<Rightarrow> ssh_string_s" where
  "clear_ssh_string s =
     (if ss_size s = 0 then
        s\<lparr>ss_flags := (if ss_flags s AND SSH_STRING_FLAG_ALLOC \<noteq> 0
                       then ss_flags s AND NOT SSH_STRING_FLAG_ALLOC else ss_flags s),
          ss_ptr := PNull\<rparr>
      else s\<lparr>ss_buffer := replicate (unat (ss_size s)) 0 @ drop (unat (ss_size s)) (ss_buffer s)\<rparr>)"

text \<open>\<open>free_ssh_string\<close> returns the new value of \<open>*p_s\<close>.\<close>

definition free_ssh_string :: "ssh_string_s option \<Rightarrow> ssh_string_s option" where
  "free_ssh_string p_s =
     (case p_s of None \<Rightarrow> None
      | Some s \<Rightarrow> if ss_size s > 0 then None else Some (clear_ssh_string s))"

definition ssh_string_isempty :: "ssh_string_s option \<Rightarrow> bool" where
  "ssh_string_isempty p =
     (case p of None \<Rightarrow> False
      | Some s \<Rightarrow> \<not> (ss_target s \<noteq> None \<and> ss_len s > 0))"

text \<open>\<open>move_ssh_string\<close> returns both strings.\<close>

definition move_ssh_string ::
  "ssh_string_s \<Rightarrow> ssh_string_s \<Rightarrow> u32 \<Rightarrow> ssh_string_s \<times> ssh_string_s" where
  "move_ssh_string a b flags =
     (if ss_size a = 0 \<and> ss_size b = 0 then
        (a\<lparr>ss_ptr := (case ss_target b of None \<Rightarrow> PNull | Some m \<Rightarrow> POut m),
           ss_len := ss_len b, ss_flags := ss_flags b\<rparr>,
         if flags AND SSH_STRING_FLAG_COPY = 0 then init_ssh_string b else b)
      else (a, b))"

section \<open>Copying and comparing\<close>

text \<open>A \<open>NULL\<close> data pointer is an empty source: copying zero bytes from it does nothing.\<close>

definition ss_src :: "ssh_string_s \<Rightarrow> mem" where
  "ss_src s = (case ss_target s of None \<Rightarrow> [] | Some m \<Rightarrow> m)"

text \<open>
  \<open>create_copy_ssh_string\<close> without a target (\<open>*p_t\<close> is \<open>NULL\<close>): the result code and the
  new value of \<open>*p_t\<close>.
\<close>

definition copy_ssh_string_new ::
  "allocator \<Rightarrow> ssh_string_s \<Rightarrow> (int \<times> ssh_string_s option) option" where
  "copy_ssh_string_new alloc s =
     (if ss_size s = 0 then
        (if ss_flags s AND SSH_STRING_FLAG_ALLOC \<noteq> 0 then
           (case (alloc (unat (ss_len s)), alloc 0) of
              (Some data, Some _) \<Rightarrow> do {
                d \<leftarrow> copy_over data (Some (ss_src s)) (unat (ss_len s));
                Some (0, Some \<lparr>ss_flags = ss_flags s, ss_len = ss_len s, ss_size = 0,
                               ss_ptr = POut d, ss_buffer = []\<rparr>) }
            | _ \<Rightarrow> Some (-1, None))
         else
           (case alloc 0 of
              None \<Rightarrow> Some (-1, None)
            | Some _ \<Rightarrow>
                Some (0, Some \<lparr>ss_flags = ss_flags s, ss_len = ss_len s, ss_size = 0,
                               ss_ptr = (case ss_target s of None \<Rightarrow> PNull | Some m \<Rightarrow> POut m),
                               ss_buffer = []\<rparr>)))
      else
        (case alloc (unat (ss_size s)) of
           None \<Rightarrow> Some (-1, None)
         | Some blk \<Rightarrow> do {
             b \<leftarrow> copy_over blk (Some (ss_buffer s)) (unat (ss_len s));
             Some (0, Some \<lparr>ss_flags = ss_flags s, ss_len = ss_len s, ss_size = ss_size s,
                            ss_ptr = PInside, ss_buffer = b\<rparr>) }))"

text \<open>Writing through the data pointer of a string.\<close>

definition ss_write :: "ssh_string_s \<Rightarrow> mem \<Rightarrow> ssh_string_s" where
  "ss_write t m = (case ss_ptr t of PInside \<Rightarrow> t\<lparr>ss_buffer := m\<rparr> | _ \<Rightarrow> t\<lparr>ss_ptr := POut m\<rparr>)"

text \<open>
  \<open>create_copy_ssh_string\<close> onto an existing string \<open>t\<close>. The source bytes are \<open>s->ptr\<close>
  when \<open>s\<close> has no inside data and \<open>s->buffer\<close> otherwise; the four branches differ in where
  the bytes go and in which fields of \<open>t\<close> are set.
\<close>

definition copy_ssh_string_onto ::
  "allocator \<Rightarrow> ssh_string_s \<Rightarrow> ssh_string_s \<Rightarrow> (int \<times> ssh_string_s option) option" where
  "copy_ssh_string_onto alloc t s =
     (let src = (if ss_size s = 0 then ss_src s else ss_buffer s); len = unat (ss_len s) in
      if ss_size t > 0 then
        (if (if ss_size s = 0 then ss_len t = ss_len s else ss_size t = ss_size s) then do {
           b \<leftarrow> copy_over (ss_buffer t) (Some src) len;
           let t' = t\<lparr>ss_buffer := b\<rparr>;
           Some (0, Some (if ss_size s = 0 then t' else t'\<lparr>ss_flags := ss_flags s\<rparr>)) }
         else
           (case realloc_mem alloc (ss_buffer t) len of
              None \<Rightarrow> Some (-1, None)
            | Some blk \<Rightarrow> do {
                b \<leftarrow> copy_over blk (Some src) len;
                let t' = t\<lparr>ss_ptr := PInside, ss_len := ss_len s, ss_size := ss_len s, ss_buffer := b\<rparr>;
                Some (0, Some (if ss_size s = 0 then t' else t'\<lparr>ss_flags := ss_flags s\<rparr>)) }))
      else
        (if ss_len t = ss_len s then do {
           b \<leftarrow> copy_over (ss_src t) (Some src) len;
           Some (0, Some (ss_write t b)) }
         else
           (case realloc_mem alloc (ss_src t) len of
              None \<Rightarrow> Some (-1, Some (t\<lparr>ss_ptr := PNull\<rparr>))
            | Some blk \<Rightarrow> do {
                b \<leftarrow> copy_over blk (Some src) len;
                Some (0, Some (t\<lparr>ss_ptr := POut b, ss_len := ss_len s\<rparr>)) })))"

definition create_copy_ssh_string ::
  "allocator \<Rightarrow> ssh_string_s option \<Rightarrow> ssh_string_s option \<Rightarrow> (int \<times> ssh_string_s option) option" where
  "create_copy_ssh_string alloc p_t p_s =
     (case p_s of None \<Rightarrow> Some (-1, p_t)
      | Some s \<Rightarrow> (case p_t of None \<Rightarrow> copy_ssh_string_new alloc s
                   | Some t \<Rightarrow> copy_ssh_string_onto alloc t s))"

text \<open>\<open>compare_ssh_string\<close>: the type letter and the untyped pointer are one argument.\<close>

datatype cmp_arg = CmpS ssh_string_s | CmpC mem | CmpOther

definition mem_eq :: "mem \<Rightarrow> mem \<Rightarrow> nat \<Rightarrow> bool option" where
  "mem_eq a b n = do { x \<leftarrow> mem_load a 0 n; y \<leftarrow> mem_load b 0 n; Some (x = y) }"

definition compare_ssh_string :: "ssh_string_s \<Rightarrow> cmp_arg \<Rightarrow> int option" where
  "compare_ssh_string t arg =
     (case arg of
        CmpS s \<Rightarrow>
          if ss_len s = ss_len t then do {
            e \<leftarrow> mem_eq (ss_src s) (ss_src t) (unat (ss_len t));
            Some (if e then 0 else -1) }
          else Some (-1)
      | CmpC data \<Rightarrow> do {
          n \<leftarrow> c_strlen data;
          if (of_nat n :: u32) = ss_len t then do {
            e \<leftarrow> mem_eq data (ss_src t) (unat (ss_len t));
            Some (if e then 0 else -1) }
          else Some (-1) }
      | CmpOther \<Rightarrow> Some (-1))"

definition ssh_string_compare :: "ssh_string_s \<Rightarrow> cmp_arg \<Rightarrow> int option" where
  "ssh_string_compare s arg = compare_ssh_string s arg"

section \<open>Reading and writing strings in messages\<close>

definition get_ssh_string_length :: "ssh_string_s \<Rightarrow> u32 \<Rightarrow> u32" where
  "get_ssh_string_length s flags =
     (if flags AND SSH_STRING_FLAG_HEADER \<noteq> 0 then 4 else 0) +
     (if flags AND SSH_STRING_FLAG_DATA \<noteq> 0 then ss_len s else 0)"

text \<open>The return value and, when the header was read, the value stored through \<open>len\<close>.\<close>

definition read_ssh_string_header :: "mem \<Rightarrow> nat \<Rightarrow> u32 \<Rightarrow> (u32 \<times> u32 option) option" where
  "read_ssh_string_header buffer off sz =
     (if sz \<ge> 4 then do { l \<leftarrow> get_uint32 buffer off; Some (4, Some l) } else Some (0, None))"

definition write_ssh_string_header :: "mem \<Rightarrow> nat \<Rightarrow> u32 \<Rightarrow> u32 \<Rightarrow> (u32 \<times> mem) option" where
  "write_ssh_string_header buffer off sz len =
     (if sz \<ge> 4 + len then do { b \<leftarrow> store_uint32 buffer off len; Some (4, b) }
      else Some (0, buffer))"

text \<open>
  \<open>read_ssh_string\<close>: note that \<open>4 + s->len\<close> is computed in 32 bits. A string with inside
  data is left alone.
\<close>

definition read_ssh_string :: "mem \<Rightarrow> nat \<Rightarrow> u32 \<Rightarrow> ssh_string_s \<Rightarrow> (u32 \<times> ssh_string_s) option" where
  "read_ssh_string buffer off sz s =
     (if ss_size s = 0 then
        let s0 = s\<lparr>ss_len := 0, ss_ptr := PNull\<rparr> in
        if sz \<ge> 4 then do {
          len \<leftarrow> get_uint32 buffer off;
          let s1 = s0\<lparr>ss_len := len\<rparr>;
          if sz \<ge> 4 + len
          then Some (4 + len, s1\<lparr>ss_ptr := POut (drop (off + 4) buffer)\<rparr>)
          else Some (0, s1) }
        else Some (0, s0)
      else Some (0, s))"

text \<open>
  The destination of a write is \<open>NULL\<close> or a pointer into an object; the result is the
  number of bytes and the object afterwards. The type letter and the pointer \<open>ptr\<close> are one
  argument again (\<open>'s'\<close>, \<open>'c'\<close>, \<open>'l'\<close>, anything else).
\<close>

type_synonym dest = "(mem \<times> nat) option"

definition copy_ssh_string_hlpr :: "dest \<Rightarrow> mem option \<Rightarrow> u32 \<Rightarrow> (u32 \<times> mem option) option" where
  "copy_ssh_string_hlpr buffer data len =
     (case buffer of
        None \<Rightarrow> Some (4 + len, None)
      | Some (m, off) \<Rightarrow> do {
          m1 \<leftarrow> store_uint32 m off len;
          m2 \<leftarrow> (case data of None \<Rightarrow> Some m1
                 | Some d \<Rightarrow> do { bs \<leftarrow> mem_load d 0 (unat len); mem_store m1 (off + 4) bs });
          Some (4 + len, Some m2) })"

datatype write_arg = WrS ssh_string_s | WrC mem | WrL "u32 option" | WrOther

definition write_ssh_string :: "dest \<Rightarrow> write_arg \<Rightarrow> (u32 \<times> mem option) option" where
  "write_ssh_string buffer arg =
     (case arg of
        WrS s \<Rightarrow> copy_ssh_string_hlpr buffer (ss_target s) (ss_len s)
      | WrC data \<Rightarrow> do { n \<leftarrow> c_strlen data; copy_ssh_string_hlpr buffer (Some data) (of_nat n) }
      | WrL p \<Rightarrow>
          let len = (case p of Some l \<Rightarrow> l | None \<Rightarrow> 0) in
          (case buffer of
             None \<Rightarrow> Some (4, None)
           | Some (m, off) \<Rightarrow> do { m1 \<leftarrow> store_uint32 m off len; Some (4, Some m1) })
      | WrOther \<Rightarrow> Some (0, map_option fst buffer))"

text \<open>
  \<open>buffer_count_strings\<close>: the \<open>readstring\<close> loop. It need not end, because \<open>4 + len\<close>
  may wrap to zero, so the loop is a partial function.
\<close>

partial_function (option) count_strings_loop ::
  "mem \<Rightarrow> nat \<Rightarrow> u32 \<Rightarrow> u32 \<Rightarrow> u32 \<Rightarrow> u32 \<Rightarrow> u32 option" where
  "count_strings_loop buffer off sz mx count pos =
     Option.bind (get_uint32 buffer (off + unat pos)) (\<lambda>len.
       if pos + 4 + len \<le> sz then
         (if mx > 0 \<and> count + 1 = mx then Some (count + 1)
          else if pos + (4 + len) < sz
          then count_strings_loop buffer off sz mx (count + 1) (pos + (4 + len))
          else Some (count + 1))
       else Some count)"

definition buffer_count_strings :: "mem \<Rightarrow> nat \<Rightarrow> u32 \<Rightarrow> u32 \<Rightarrow> u32 option" where
  "buffer_count_strings buffer off sz mx = count_strings_loop buffer off sz mx 0 0"

section \<open>The wire format\<close>

text \<open>What a string looks like in a message: a 32 bit length and the bytes.\<close>

definition enc_string :: "u8 list \<Rightarrow> u8 list" where
  "enc_string bs = be32 (of_nat (length bs)) @ bs"

lemma length_enc_string [simp]: "length (enc_string bs) = 4 + length bs"
  by (simp add: enc_string_def)

lemma ss_bytes_Some_iff:
  "ss_bytes s = Some bs \<longleftrightarrow>
     (\<exists>m. ss_target s = Some m \<and> unat (ss_len s) \<le> length m \<and> bs = take (unat (ss_len s)) m)"
  by (auto simp: ss_bytes_def bind_eq_Some_conv mem_simps)

lemma length_ss_bytes: "ss_bytes s = Some bs \<Longrightarrow> length bs = unat (ss_len s)"
  by (auto simp: ss_bytes_Some_iff)

lemma ss_len_of_bytes: "ss_bytes s = Some bs \<Longrightarrow> ss_len s = of_nat (length bs)"
  by (simp add: length_ss_bytes)

lemma write_ssh_string_WrS:
  assumes "ss_bytes s = Some bs"
  shows "write_ssh_string (Some (m, off)) (WrS s) =
           map_option (\<lambda>m'. (4 + ss_len s, Some m')) (mem_store m off (enc_string bs))"
proof -
  obtain t where t: "ss_target s = Some t" "unat (ss_len s) \<le> length t"
    "bs = take (unat (ss_len s)) t"
    using assms by (auto simp: ss_bytes_Some_iff)
  have "write_ssh_string (Some (m, off)) (WrS s) =
        map_option (\<lambda>m'. (4 + ss_len s, Some m'))
          (Option.bind (mem_store m off (be32 (ss_len s)))
             (\<lambda>m1. mem_store m1 (off + length (be32 (ss_len s))) bs))"
    using t
    by (auto simp: write_ssh_string_def copy_ssh_string_hlpr_def store_uint32_def mem_load_def
        map_option_case split: option.splits Option.bind_splits)
  also have "\<dots> = map_option (\<lambda>m'. (4 + ss_len s, Some m')) (mem_store m off (enc_string bs))"
    by (simp only: mem_store_append enc_string_def ss_len_of_bytes [OF assms])
  finally show ?thesis .
qed

lemma read_ssh_string_at:
  assumes at: "mem_load m off (4 + length bs) = Some (enc_string bs)"
    and small: "4 + length bs < 4294967296" and fits: "4 + length bs \<le> unat sz"
    and out: "ss_size s = 0"
  shows "\<exists>s'. read_ssh_string m off sz s = Some (4 + of_nat (length bs), s') \<and>
              ss_len s' = of_nat (length bs) \<and> ss_bytes s' = Some bs"
proof -
  have h: "mem_load m off 4 = Some (be32 (of_nat (length bs)))"
    and d: "mem_load m (off + 4) (length bs) = Some bs"
    using at mem_load_split [of m off "be32 (of_nat (length bs))" bs]
    by (simp_all add: enc_string_def)
  have len: "unat (of_nat (length bs) :: u32) = length bs"
    using small by (simp add: unat_of_nat_u32)
  have sz4: "4 \<le> sz" and szl: "4 + of_nat (length bs) \<le> sz"
    using fits small len by (simp_all add: u32_le_unat unat_u32_plus)
  have d': "length bs \<le> length m - (off + 4)" "take (length bs) (drop (off + 4) m) = bs"
    using d by (auto simp: mem_load_def split: if_splits)
  show ?thesis
    using h d' len sz4 szl out
    by (auto simp: read_ssh_string_def get_uint32_def Let_def ss_bytes_def ss_target_def
        mem_load_def [of "drop (off + 4) m"])
qed

section \<open>Bounds\<close>

lemma read_ssh_string_cases:
  assumes "read_ssh_string m off sz s = Some (r, s')" and "ss_size s = 0"
  shows "(r = 0 \<and> ss_ptr s' = PNull) \<or>
         (4 \<le> sz \<and> 4 + ss_len s' \<le> sz \<and> r = 4 + ss_len s' \<and>
          ss_ptr s' = POut (drop (off + 4) m) \<and> get_uint32 m off = Some (ss_len s'))"
  using assms
  by (auto simp: read_ssh_string_def Let_def bind_eq_Some_conv split: if_splits)

lemma read_ssh_string_in_bounds:
  assumes r: "read_ssh_string m off sz s = Some (r, s')" and out: "ss_size s = 0"
    and obj: "off + unat sz \<le> length m"
    and nowrap: "unat (ss_len s') + 4 < 4294967296" and some: "ss_ptr s' \<noteq> PNull"
  shows "unat r = 4 + unat (ss_len s') \<and> unat r \<le> unat sz \<and>
         ss_bytes s' = Some (take (unat (ss_len s')) (drop (off + 4) m))"
proof -
  have c: "4 + ss_len s' \<le> sz" "r = 4 + ss_len s'" "ss_ptr s' = POut (drop (off + 4) m)"
    using read_ssh_string_cases [OF r out] some by auto
  have u: "unat (4 + ss_len s') = 4 + unat (ss_len s')"
    using nowrap by (simp add: unat_u32_plus)
  then have "4 + unat (ss_len s') \<le> unat sz" using c(1) by (simp add: u32_le_unat)
  with c u obj show ?thesis
    by (simp add: ss_bytes_def ss_target_def mem_load_def)
qed

section \<open>Copies and comparisons\<close>

lemma copy_over_Some:
  "length dst = n \<Longrightarrow> n \<le> length d \<Longrightarrow> copy_over dst (Some d) n = Some (take n d)"
  by (simp add: copy_over_def mem_load_def mem_store_def)

lemma copy_over_prefix:
  "n \<le> length dst \<Longrightarrow> n \<le> length d \<Longrightarrow> copy_over dst (Some d) n = Some (take n d @ drop n dst)"
  by (simp add: copy_over_def mem_load_def mem_store_def)

lemma ss_bytes_wf: "ss_wf s \<Longrightarrow> ss_target s \<noteq> None \<Longrightarrow> \<exists>bs. ss_bytes s = Some bs"
  by (auto simp: ss_wf_def ss_bytes_def ss_target_def mem_load_def u32_le_unat
      split: if_splits ss_ptr.splits)

lemma compare_ssh_string_eq:
  assumes "ss_bytes s = Some a" and "ss_bytes t = Some b"
  shows "compare_ssh_string t (CmpS s) = Some (if a = b then 0 else -1)"
proof (cases "ss_len s = ss_len t")
  case True
  with assms show ?thesis
    by (auto simp: compare_ssh_string_def mem_eq_def ss_src_def ss_bytes_Some_iff mem_load_def)
next
  case False
  then have "length a \<noteq> length b"
    using assms by (simp add: length_ss_bytes word_unat_eq_iff)
  with False show ?thesis by (auto simp: compare_ssh_string_def)
qed

definition alloc_ok :: "allocator \<Rightarrow> bool" where
  "alloc_ok alloc \<longleftrightarrow> (\<forall>n b. alloc n = Some b \<longrightarrow> length b = n)"

lemma alloc_okD: "alloc_ok alloc \<Longrightarrow> alloc n = Some b \<Longrightarrow> length b = n"
  by (simp add: alloc_ok_def)

lemma length_realloc_mem:
  "alloc_ok alloc \<Longrightarrow> realloc_mem alloc old n = Some b \<Longrightarrow> length b = n"
  by (auto simp: realloc_mem_def dest: alloc_okD)

lemma ss_wf_src:
  "ss_wf s \<Longrightarrow> ss_bytes s = Some bs \<Longrightarrow>
   unat (ss_len s) \<le> length (if ss_size s = 0 then ss_src s else ss_buffer s) \<and>
   take (unat (ss_len s)) (if ss_size s = 0 then ss_src s else ss_buffer s) = bs"
  by (auto simp: ss_wf_def ss_bytes_Some_iff ss_target_def ss_src_def u32_le_unat
      split: if_splits ss_ptr.splits)

text \<open>
  Copying a well-formed string into a fresh one never faults; it either fails for lack
  of memory, with result \<open>-1\<close> and no string, or returns \<open>0\<close> and a well-formed string with the same
  bytes.
\<close>

lemma create_copy_ssh_string_new:
  assumes "alloc_ok alloc" and "ss_wf s" and "ss_bytes s = Some bs"
  shows "create_copy_ssh_string alloc None (Some s) = Some (-1, None) \<or>
         (\<exists>t. create_copy_ssh_string alloc None (Some s) = Some (0, Some t) \<and>
              ss_wf t \<and> ss_bytes t = Some bs)"
proof (cases "ss_size s = 0")
  case True
  have src: "unat (ss_len s) \<le> length (ss_src s)" "take (unat (ss_len s)) (ss_src s) = bs"
    using ss_wf_src [OF assms(2,3)] True by simp_all
  obtain m where m: "ss_target s = Some m" "ss_src s = m"
    using assms(3) by (cases "ss_target s") (auto simp: ss_bytes_def ss_src_def)
  have cp: "alloc (unat (ss_len s)) = Some d \<Longrightarrow>
      copy_over d (Some (ss_src s)) (unat (ss_len s)) = Some bs" for d
    using src assms(1) by (simp add: copy_over_Some alloc_okD)
  have len: "length bs = unat (ss_len s)" using src by auto
  show ?thesis
    using True cp m src len
    by (simp add: create_copy_ssh_string_def copy_ssh_string_new_def split: option.split)
      (auto simp: ss_wf_def ss_bytes_Some_iff ss_target_def)
next
  case False
  have src: "unat (ss_len s) \<le> length (ss_buffer s)" "take (unat (ss_len s)) (ss_buffer s) = bs"
    using ss_wf_src [OF assms(2,3)] False by simp_all
  have wf: "ss_len s \<le> ss_size s" using assms(2) False by (simp add: ss_wf_def)
  have cp: "alloc (unat (ss_size s)) = Some d \<Longrightarrow> length d = unat (ss_size s) \<and>
      copy_over d (Some (ss_buffer s)) (unat (ss_len s)) = Some (bs @ drop (unat (ss_len s)) d)" for d
    using src wf assms(1) by (auto simp: copy_over_prefix u32_le_unat dest: alloc_okD)
  have len: "length bs = unat (ss_len s)" using src by auto
  show ?thesis
    using False cp wf len
    by (simp add: create_copy_ssh_string_def copy_ssh_string_new_def split: option.split)
      (auto simp: ss_wf_def ss_bytes_Some_iff ss_target_def u32_le_unat)
qed

lemma create_copy_ssh_string_new_example:
  "\<exists>t. create_copy_ssh_string (\<lambda>n. Some (replicate n 0)) None
         (Some \<lparr>ss_flags = 0, ss_len = 2, ss_size = 3, ss_ptr = PInside, ss_buffer = [7, 8, 9]\<rparr>) =
           Some (0, Some t) \<and> ss_bytes t = Some [7, 8]"
  using create_copy_ssh_string_new [of "\<lambda>n. Some (replicate n 0)"
      "\<lparr>ss_flags = 0, ss_len = 2, ss_size = 3, ss_ptr = PInside, ss_buffer = [7, 8, 9]\<rparr>" "[7, 8]"]
  by (auto simp: alloc_ok_def ss_wf_def ss_bytes_def ss_target_def mem_load_def copy_over_prefix
      create_copy_ssh_string_def copy_ssh_string_new_def split: option.splits)

section \<open>Counting strings\<close>

lemma get_uint32_enc_string:
  assumes "mem_load m off (4 + length bs) = Some (enc_string bs)"
  shows "get_uint32 m off = Some (of_nat (length bs))"
  using assms mem_load_split [of m off "be32 (of_nat (length bs))" bs]
  by (simp add: enc_string_def get_uint32_def)

definition enc_strings :: "u8 list list \<Rightarrow> u8 list" where
  "enc_strings bss = concat (map enc_string bss)"

lemma enc_strings_simps [simp]:
  "enc_strings [] = []" "enc_strings (bs # bss) = enc_string bs @ enc_strings bss"
  by (simp_all add: enc_strings_def)

lemma length_enc_strings_ge: "4 * length bss \<le> length (enc_strings bss)"
  by (induction bss) auto

lemma count_strings_loop_enc:
  assumes "mem_load m (off + unat pos) (length (enc_strings bss)) = Some (enc_strings bss)"
    and "bss \<noteq> []" and "unat pos + length (enc_strings bss) = unat sz"
    and "mx = 0 \<or> unat count < unat mx" and "unat count + length bss < 4294967296"
  shows "count_strings_loop m off sz mx count pos =
           Some (if mx = 0 then count + of_nat (length bss)
                 else min (count + of_nat (length bss)) mx)"
  using assms
proof (induction bss arbitrary: pos count)
  case Nil
  then show ?case by simp
next
  case (Cons bs bss)
  define len :: u32 where "len = of_nat (length bs)"
  have small: "unat pos + 4 + length bs + length (enc_strings bss) < 4294967296"
    using Cons.prems(3) unat_lt_u32 [of sz] by simp
  have ulen: "unat len = length bs" using small by (simp add: len_def unat_of_nat_u32)
  have upos: "unat (pos + (4 + len)) = unat pos + 4 + length bs"
    using small ulen by (simp add: unat_u32_plus)
  have split: "mem_load m (off + unat pos) (4 + length bs) = Some (enc_string bs)"
    "mem_load m (off + unat (pos + (4 + len))) (length (enc_strings bss)) = Some (enc_strings bss)"
    using Cons.prems(1) mem_load_split [of m "off + unat pos" "enc_string bs" "enc_strings bss"]
    by (simp_all add: upos add.assoc)
  have g: "get_uint32 m (off + unat pos) = Some len"
    using split(1) by (simp add: get_uint32_enc_string len_def)
  have le: "pos + 4 + len \<le> sz"
    using upos Cons.prems(3) by (simp add: u32_le_unat add.assoc)
  have cnt: "unat (count + 1) = unat count + 1"
    using Cons.prems(5) by (simp add: unat_u32_plus)
  show ?case
  proof (cases "bss = []")
    case True
    have nl: "\<not> pos + (4 + len) < sz"
      using True upos Cons.prems(3) by (simp add: u32_less_unat)
    have mn: "mx \<noteq> 0 \<Longrightarrow> min (count + 1) mx = count + 1"
      using Cons.prems(4) cnt by (auto simp: min_def u32_le_unat)
    show ?thesis
      using True g le nl mn by (subst count_strings_loop.simps) simp
  next
    case False
    have lt: "pos + (4 + len) < sz"
      using False upos Cons.prems(3) length_enc_strings_ge [of bss]
      by (cases bss) (simp_all add: u32_less_unat)
    show ?thesis
    proof (cases "mx > 0 \<and> count + 1 = mx")
      case True
      have "mx \<le> count + of_nat (length (bs # bss))"
        using True Cons.prems(5) by (auto simp: u32_le_unat unat_u32_plus_mod unat_of_nat_u32 unat_of_nat cnt)
      with True g le show ?thesis
        by (subst count_strings_loop.simps) (auto simp: min_def)
    next
      case notmax: False
      have "count_strings_loop m off sz mx (count + 1) (pos + (4 + len)) =
              Some (if mx = 0 then (count + 1) + of_nat (length bss)
                    else min ((count + 1) + of_nat (length bss)) mx)"
      proof (rule Cons.IH)
        show "mx = 0 \<or> unat (count + 1) < unat mx"
          using notmax Cons.prems(4) cnt by (auto simp: word_unat_eq_iff u32_less_unat)
      qed (use split False upos Cons.prems cnt in simp_all)
      with notmax g le lt show ?thesis
        by (subst count_strings_loop.simps) (auto simp: add.assoc add.commute [of 1])
    qed
  qed
qed

text \<open>
  C27: on a buffer that is exactly a sequence of length-prefixed strings,
  \<open>buffer_count_strings\<close> returns; it gives the number of strings, or the maximum when one is set
  and there are more.
\<close>

theorem buffer_count_strings_enc:
  assumes "mem_load m off (length (enc_strings bss)) = Some (enc_strings bss)" and "bss \<noteq> []"
    and "length (enc_strings bss) < 4294967296"
  shows "buffer_count_strings m off (of_nat (length (enc_strings bss))) mx =
           Some (if mx = 0 then of_nat (length bss) else min (of_nat (length bss)) mx)"
proof -
  have "length bss < 4294967296"
    using length_enc_strings_ge [of bss] assms(3) by simp
  then show ?thesis
    using count_strings_loop_enc [of m off 0 bss "of_nat (length (enc_strings bss))" mx 0] assms
    by (simp add: buffer_count_strings_def unat_of_nat_u32 word_unat_eq_iff)
qed

theorem buffer_count_strings_enc_witness:
  "buffer_count_strings (enc_strings [[1], [2, 3], []]) 0 15 2 = Some 2"
  using buffer_count_strings_enc [of "enc_strings [[1], [2, 3], []]" 0 "[[1], [2, 3], []]" 2]
  by (simp add: mem_load_def enc_string_def be32_def min_def)

lemma count_strings_loop_diverges:
  assumes "get_uint32 m off = Some 0xFFFFFFFC" and "0 < sz"
  shows "count_strings_loop m off sz 0 count 0 = None"
proof -
  have "count_strings_loop m off sz mx count pos = Some r \<Longrightarrow>
      \<not> (mx = 0 \<and> pos = 0 \<and> get_uint32 m off = Some 0xFFFFFFFC \<and> 0 < sz)" for mx pos r
    by (erule count_strings_loop.raw_induct [where P = "\<lambda>m off sz mx count pos r.
          \<not> (mx = 0 \<and> pos = 0 \<and> get_uint32 m off = Some 0xFFFFFFFC \<and> 0 < sz)", rotated])
      (auto simp: u32_wrap split: Option.bind_splits if_splits)
  then show ?thesis using assms by (cases "count_strings_loop m off sz 0 count 0") auto
qed

text \<open>
  C28: the length check of \<open>buffer_count_strings\<close> adds in 32 bits. Four bytes \<open>FF FF FF FC\<close>
  at the start of a non-empty buffer make \<open>4 + len\<close> zero, so the position never advances and,
  without a maximum, the function never returns.
\<close>

theorem buffer_count_strings_diverges:
  assumes "get_uint32 m off = Some 0xFFFFFFFC" and "0 < sz"
  shows "buffer_count_strings m off sz 0 = None"
  using count_strings_loop_diverges [OF assms] by (simp add: buffer_count_strings_def)

theorem buffer_count_strings_diverges_witness:
  "get_uint32 [0xFF, 0xFF, 0xFF, 0xFC] 0 = Some 0xFFFFFFFC \<and>
   buffer_count_strings [0xFF, 0xFF, 0xFF, 0xFC] 0 4 0 = None"
proof -
  have g: "get_uint32 [0xFF, 0xFF, 0xFF, 0xFC] 0 = Some 0xFFFFFFFC"
    by (simp add: get_uint32_def mem_load_def of_be32_def)
  then show ?thesis
    using buffer_count_strings_diverges [of "[0xFF, 0xFF, 0xFF, 0xFC]" 0 4] by simp
qed

section \<open>Reading and writing\<close>

text \<open>
  C24: a string written into a message with \<open>write_ssh_string\<close> is read back by
  \<open>read_ssh_string\<close> at the same place, with the same number of bytes consumed, whatever the room
  left after it.
\<close>

theorem read_write_ssh_string:
  assumes "ss_bytes s = Some bs" and "4 + length bs < 4294967296"
    and "write_ssh_string (Some (m, off)) (WrS s) = Some (n, Some m')"
    and "4 + length bs \<le> unat sz" and "ss_size r = 0"
  shows "\<exists>r'. read_ssh_string m' off sz r = Some (n, r') \<and> ss_bytes r' = Some bs \<and>
              length m' = length m \<and> unat n = 4 + length bs"
proof -
  have st: "mem_store m off (enc_string bs) = Some m'" and n: "n = 4 + ss_len s"
    using assms(3) by (auto simp: write_ssh_string_WrS [OF assms(1)])
  have len: "ss_len s = of_nat (length bs)" by (rule ss_len_of_bytes [OF assms(1)])
  have "mem_load m' off (4 + length bs) = Some (enc_string bs)"
    using mem_load_store_same [OF st] by simp
  from read_ssh_string_at [OF this assms(2,4,5)] obtain r' where
    "read_ssh_string m' off sz r = Some (4 + of_nat (length bs), r')" "ss_bytes r' = Some bs"
    by blast
  with n len assms(2) length_mem_store [OF st] show ?thesis
    by (simp add: unat_u32_plus unat_of_nat_u32)
qed

theorem read_write_ssh_string_witness:
  "\<exists>r'. read_ssh_string [0, 0, 0, 2, 7, 8, 0] 0 7 (init_ssh_string SSH_STRING_INIT) = Some (6, r') \<and>
        ss_bytes r' = Some [7, 8]"
proof -
  have i: "ss_size (init_ssh_string SSH_STRING_INIT) = 0"
    by (simp add: init_ssh_string_def SSH_STRING_INIT_def)
  show ?thesis
    using read_write_ssh_string
      [OF _ _ _ _ i, of "\<lparr>ss_flags = 0, ss_len = 2, ss_size = 0, ss_ptr = POut [7, 8], ss_buffer = []\<rparr>"
        "[7, 8]" "[0, 0, 0, 0, 0, 0, 0]" 0 6 "[0, 0, 0, 2, 7, 8, 0]" 7]
    by (simp add: ss_bytes_def ss_target_def mem_load_def write_ssh_string_WrS enc_string_def be32_def
        mem_store_def)
qed

text \<open>
  C26: whatever the message holds, a string read by \<open>read_ssh_string\<close> whose length field
  does not wrap lies within the \<open>sz\<close> bytes the caller declares: its bytes are those after the
  length field and the returned size covers exactly them.
\<close>

theorem read_ssh_string_bounds:
  assumes "read_ssh_string m off sz s = Some (r, s')" and "ss_size s = 0"
    and "off + unat sz \<le> length m"
    and "unat (ss_len s') + 4 < 4294967296" and "ss_ptr s' \<noteq> PNull"
  shows "unat r = 4 + unat (ss_len s') \<and> unat r \<le> unat sz \<and>
         ss_bytes s' = Some (take (unat (ss_len s')) (drop (off + 4) m))"
  by (rule read_ssh_string_in_bounds [OF assms])

theorem read_ssh_string_bounds_witness:
  "ss_bytes \<lparr>ss_flags = 0, ss_len = 2, ss_size = 0, ss_ptr = POut [7, 8, 9], ss_buffer = []\<rparr> = Some [7, 8]"
proof -
  have "read_ssh_string [0, 0, 0, 2, 7, 8, 9] 0 7 SSH_STRING_INIT =
      Some (6, \<lparr>ss_flags = 0, ss_len = 2, ss_size = 0, ss_ptr = POut [7, 8, 9], ss_buffer = []\<rparr>)"
    by (simp add: read_ssh_string_def SSH_STRING_INIT_def get_uint32_def mem_load_def of_be32_def)
  from read_ssh_string_bounds [OF this] show ?thesis
    by (simp add: SSH_STRING_INIT_def)
qed

text \<open>
  The length check adds in 32 bits: with \<open>len = 0xFFFFFFFD\<close> the sum is 1, the check passes, and
  the string that is returned does not lie in the message.
\<close>

lemma read_ssh_string_wraps:
  "\<exists>s'. read_ssh_string [0xFF, 0xFF, 0xFF, 0xFD] 0 4 SSH_STRING_INIT = Some (1, s') \<and>
        ss_len s' = 0xFFFFFFFD \<and> ss_bytes s' = None"
  by (simp add: read_ssh_string_def SSH_STRING_INIT_def get_uint32_def mem_load_def of_be32_def
      ss_bytes_def ss_target_def)

end
