(* ===== verification/Msg_Buffer.thy ===== *)
theory Msg_Buffer
  imports Ssh_String
begin

text \<open>
  The message buffer of \<open>src/lib/datatypes/ssh-msg-buffer.c\<close>: a cursor over a message that is being
  written or read. A buffer without memory only counts; one with memory writes until something does
  not fit, then remembers \<open>ENOBUFS\<close> and goes on counting. The function pointers of the struct are
  always set together, so a flag tells which of the two tables a buffer has.

  The theorems show that a message, strings and counts completed afterwards included, never writes
  outside the memory it was given, that the counting pass gives the size the writing
  pass needs, and what the written bytes are.
\<close>

section \<open>State\<close>

record msg_buffer_s =
  mb_data :: "mem option"
  mb_len :: u32
  mb_pos :: u32
  mb_error :: u32
  mb_write :: bool

definition ENOBUFS :: u32 where "ENOBUFS = 105"
definition EIO :: u32 where "EIO = 5"

definition set_msg_buffer_write :: "msg_buffer_s \<Rightarrow> msg_buffer_s" where
  "set_msg_buffer_write mb = mb\<lparr>mb_write := True\<rparr>"

definition set_msg_buffer_nowrite :: "msg_buffer_s \<Rightarrow> msg_buffer_s" where
  "set_msg_buffer_nowrite mb = mb\<lparr>mb_write := False\<rparr>"

definition set_msg_buffer_fatal_error :: "msg_buffer_s \<Rightarrow> u32 \<Rightarrow> msg_buffer_s" where
  "set_msg_buffer_fatal_error mb error = set_msg_buffer_nowrite (mb\<lparr>mb_error := error\<rparr>)"

definition init_msg_buffer :: msg_buffer_s where
  "init_msg_buffer = \<lparr>mb_data = None, mb_len = 0, mb_pos = 0, mb_error = 0, mb_write = False\<rparr>"

definition set_msg_buffer :: "msg_buffer_s \<Rightarrow> mem option \<Rightarrow> u32 \<Rightarrow> msg_buffer_s" where
  "set_msg_buffer mb data len =
     (case data of
        Some d \<Rightarrow> set_msg_buffer_write (mb\<lparr>mb_data := Some d, mb_len := len, mb_pos := 0, mb_error := 0\<rparr>)
      | None \<Rightarrow> set_msg_buffer_nowrite (mb\<lparr>mb_data := None, mb_len := 0, mb_pos := 0, mb_error := 0\<rparr>))"

definition set_msg_buffer_string :: "msg_buffer_s \<Rightarrow> ssh_string_s \<Rightarrow> msg_buffer_s" where
  "set_msg_buffer_string mb s = set_msg_buffer mb (ss_target s) (ss_len s)"

section \<open>Writing\<close>

definition mb_skip :: "msg_buffer_s \<Rightarrow> u32 \<Rightarrow> msg_buffer_s" where
  "mb_skip mb n = mb\<lparr>mb_pos := mb_pos mb + n\<rparr>"

definition mb_store :: "msg_buffer_s \<Rightarrow> u32 \<Rightarrow> u8 list \<Rightarrow> msg_buffer_s option" where
  "mb_store mb pos bs = do {
     d \<leftarrow> mb_data mb; d \<leftarrow> mem_store d (unat pos) bs; Some (mb\<lparr>mb_data := Some d\<rparr>) }"

definition nowrite_byte :: "msg_buffer_s \<Rightarrow> u8 \<Rightarrow> msg_buffer_s" where
  "nowrite_byte mb b = mb_skip mb 1"

definition dowrite_byte :: "msg_buffer_s \<Rightarrow> u8 \<Rightarrow> msg_buffer_s option" where
  "dowrite_byte mb b =
     (if mb_pos mb < mb_len mb then map_option (\<lambda>mb. mb_skip mb 1) (mb_store mb (mb_pos mb) [b])
      else Some (mb_skip (set_msg_buffer_fatal_error mb ENOBUFS) 1))"

definition nowrite_bytes :: "msg_buffer_s \<Rightarrow> mem \<Rightarrow> u32 \<Rightarrow> msg_buffer_s" where
  "nowrite_bytes mb bytes len = mb_skip mb len"

definition dowrite_bytes :: "msg_buffer_s \<Rightarrow> mem \<Rightarrow> u32 \<Rightarrow> msg_buffer_s option" where
  "dowrite_bytes mb bytes len =
     (if mb_pos mb + len \<le> mb_len mb then do {
        bs \<leftarrow> mem_load bytes 0 (unat len);
        mb \<leftarrow> mb_store mb (mb_pos mb) bs;
        Some (mb_skip mb len) }
      else Some (mb_skip (set_msg_buffer_fatal_error mb ENOBUFS) len))"

definition nowrite_ssh_string :: "msg_buffer_s \<Rightarrow> write_arg \<Rightarrow> msg_buffer_s option" where
  "nowrite_ssh_string mb arg = do { (len, _) \<leftarrow> write_ssh_string None arg; Some (mb_skip mb len) }"

definition dowrite_ssh_string :: "msg_buffer_s \<Rightarrow> write_arg \<Rightarrow> msg_buffer_s option" where
  "dowrite_ssh_string mb arg = do {
     (len, _) \<leftarrow> write_ssh_string None arg;
     if mb_pos mb + len < mb_len mb then do {
       d \<leftarrow> mb_data mb;
       (n, d') \<leftarrow> write_ssh_string (Some (d, unat (mb_pos mb))) arg;
       Some (mb_skip (mb\<lparr>mb_data := d'\<rparr>) n) }
     else Some (mb_skip (set_msg_buffer_fatal_error mb ENOBUFS) len) }"

definition nostore_uint32 :: "msg_buffer_s \<Rightarrow> u32 \<Rightarrow> msg_buffer_s" where
  "nostore_uint32 mb v = mb_skip mb 4"

definition dostore_uint32 :: "msg_buffer_s \<Rightarrow> u32 \<Rightarrow> msg_buffer_s option" where
  "dostore_uint32 mb v =
     (if mb_pos mb + 4 \<le> mb_len mb then map_option (\<lambda>mb. mb_skip mb 4) (mb_store mb (mb_pos mb) (be32 v))
      else Some (mb_skip (set_msg_buffer_fatal_error mb ENOBUFS) 4))"

definition nostore_uint64 :: "msg_buffer_s \<Rightarrow> u64 \<Rightarrow> msg_buffer_s" where
  "nostore_uint64 mb v = mb_skip mb 8"

definition dostore_uint64 :: "msg_buffer_s \<Rightarrow> u64 \<Rightarrow> msg_buffer_s option" where
  "dostore_uint64 mb v =
     (if mb_pos mb + 8 \<le> mb_len mb then map_option (\<lambda>mb. mb_skip mb 8) (mb_store mb (mb_pos mb) (be64 v))
      else Some (mb_skip (set_msg_buffer_fatal_error mb ENOBUFS) 8))"

text \<open>The calls through the table of a buffer.\<close>

definition msg_write_byte :: "msg_buffer_s \<Rightarrow> u8 \<Rightarrow> msg_buffer_s option" where
  "msg_write_byte mb b = (if mb_write mb then dowrite_byte mb b else Some (nowrite_byte mb b))"

definition msg_write_bytes :: "msg_buffer_s \<Rightarrow> mem \<Rightarrow> u32 \<Rightarrow> msg_buffer_s option" where
  "msg_write_bytes mb bytes len =
     (if mb_write mb then dowrite_bytes mb bytes len else Some (nowrite_bytes mb bytes len))"

definition msg_write_ssh_string :: "msg_buffer_s \<Rightarrow> write_arg \<Rightarrow> msg_buffer_s option" where
  "msg_write_ssh_string mb arg =
     (if mb_write mb then dowrite_ssh_string mb arg else nowrite_ssh_string mb arg)"

definition msg_store_uint32 :: "msg_buffer_s \<Rightarrow> u32 \<Rightarrow> msg_buffer_s option" where
  "msg_store_uint32 mb v = (if mb_write mb then dostore_uint32 mb v else Some (nostore_uint32 mb v))"

definition msg_store_uint64 :: "msg_buffer_s \<Rightarrow> u64 \<Rightarrow> msg_buffer_s option" where
  "msg_store_uint64 mb v = (if mb_write mb then dostore_uint64 mb v else Some (nostore_uint64 mb v))"

section \<open>Strings and counts completed afterwards\<close>

definition start_ssh_string :: "msg_buffer_s \<Rightarrow> (u32 \<times> msg_buffer_s) option" where
  "start_ssh_string mb = do { mb' \<leftarrow> msg_write_ssh_string mb (WrL None); Some (mb_pos mb, mb') }"

definition dowrite_complete_ssh_string :: "msg_buffer_s \<Rightarrow> u32 \<Rightarrow> msg_buffer_s option" where
  "dowrite_complete_ssh_string mb pos = do {
     (h, _) \<leftarrow> write_ssh_string None (WrL None);
     d \<leftarrow> mb_data mb;
     (_, d') \<leftarrow> write_ssh_string (Some (d, unat pos)) (WrL (Some (mb_pos mb - pos - h)));
     Some (mb\<lparr>mb_data := d'\<rparr>) }"

definition msg_complete_ssh_string :: "msg_buffer_s \<Rightarrow> u32 \<Rightarrow> msg_buffer_s option" where
  "msg_complete_ssh_string mb pos =
     (if mb_write mb then dowrite_complete_ssh_string mb pos else Some mb)"

definition fill_commalist ::
  "msg_buffer_s \<Rightarrow> (msg_buffer_s \<Rightarrow> msg_buffer_s option) \<Rightarrow> msg_buffer_s option" where
  "fill_commalist mb cb = do {
     (pos, mb) \<leftarrow> start_ssh_string mb;
     mb \<leftarrow> cb mb;
     msg_complete_ssh_string mb pos }"

definition start_count :: "msg_buffer_s \<Rightarrow> (u32 \<times> msg_buffer_s) option" where
  "start_count mb = do { mb' \<leftarrow> msg_store_uint32 mb 0; Some (mb_pos mb, mb') }"

definition dowrite_complete_count :: "msg_buffer_s \<Rightarrow> u32 \<Rightarrow> u32 \<Rightarrow> msg_buffer_s option" where
  "dowrite_complete_count mb pos count = mb_store mb pos (be32 count)"

definition msg_complete_count :: "msg_buffer_s \<Rightarrow> u32 \<Rightarrow> u32 \<Rightarrow> msg_buffer_s option" where
  "msg_complete_count mb pos count =
     (if mb_write mb then dowrite_complete_count mb pos count else Some mb)"

section \<open>Reading\<close>

text \<open>The readers with a place for the result, as every caller gives one.\<close>

definition msg_read_byte :: "msg_buffer_s \<Rightarrow> (u8 option \<times> msg_buffer_s) option" where
  "msg_read_byte mb =
     (if mb_error mb = 0 then
        (if mb_pos mb < mb_len mb then do {
           d \<leftarrow> mb_data mb;
           b \<leftarrow> mem_load d (unat (mb_pos mb)) 1;
           Some (Some (hd b), mb_skip mb 1) }
         else Some (None, mb\<lparr>mb_error := EIO\<rparr>))
      else Some (None, mb))"

text \<open>\<open>msg_read_bytes\<close>: the bytes copied and the length stored through \<open>plen\<close>.\<close>

definition msg_read_bytes :: "msg_buffer_s \<Rightarrow> u32 \<Rightarrow> (u8 list \<times> u32 \<times> msg_buffer_s) option" where
  "msg_read_bytes mb plen =
     (if mb_error mb = 0 then
        (if mb_pos mb < mb_len mb then do {
           let short = plen > mb_len mb - mb_pos mb;
           let len = (if short then mb_len mb - mb_pos mb else plen);
           let mb = (if short then mb\<lparr>mb_error := EIO\<rparr> else mb);
           d \<leftarrow> mb_data mb;
           bs \<leftarrow> mem_load d (unat (mb_pos mb)) (unat len);
           Some (bs, len, mb_skip mb len) }
         else Some ([], plen, mb\<lparr>mb_error := EIO\<rparr>))
      else Some ([], plen, mb))"

definition msg_read_uint32 :: "msg_buffer_s \<Rightarrow> (u32 option \<times> msg_buffer_s) option" where
  "msg_read_uint32 mb =
     (if mb_error mb = 0 then do {
        d \<leftarrow> mb_data mb; v \<leftarrow> get_uint32 d (unat (mb_pos mb)); Some (Some v, mb_skip mb 4) }
      else Some (None, mb))"

definition msg_read_uint64 :: "msg_buffer_s \<Rightarrow> (u64 option \<times> msg_buffer_s) option" where
  "msg_read_uint64 mb =
     (if mb_error mb = 0 then do {
        d \<leftarrow> mb_data mb; v \<leftarrow> get_uint64 d (unat (mb_pos mb)); Some (Some v, mb_skip mb 8) }
      else Some (None, mb))"

definition msg_read_ssh_string_header :: "msg_buffer_s \<Rightarrow> (u32 option \<times> msg_buffer_s) option" where
  "msg_read_ssh_string_header mb =
     (if mb_error mb = 0 \<and> mb_pos mb < mb_len mb then do {
        d \<leftarrow> mb_data mb;
        (n, len) \<leftarrow> read_ssh_string_header d (unat (mb_pos mb)) (mb_len mb - mb_pos mb);
        Some (len, mb_skip mb n) }
      else Some (None, mb))"

definition msg_read_ssh_string :: "msg_buffer_s \<Rightarrow> ssh_string_s \<Rightarrow> (ssh_string_s \<times> msg_buffer_s) option" where
  "msg_read_ssh_string mb s =
     (if mb_error mb = 0 \<and> mb_pos mb < mb_len mb then do {
        d \<leftarrow> mb_data mb;
        (n, s) \<leftarrow> read_ssh_string d (unat (mb_pos mb)) (mb_len mb - mb_pos mb) s;
        Some (s, mb_skip mb n) }
      else Some (s, mb))"

definition msg_count_strings :: "msg_buffer_s \<Rightarrow> u32 \<Rightarrow> u32 option" where
  "msg_count_strings mb mx =
     (case mb_data mb of
        None \<Rightarrow> Some 0
      | Some d \<Rightarrow>
          if mb_pos mb + 4 > mb_len mb then Some 0
          else buffer_count_strings d (unat (mb_pos mb)) (mb_len mb - mb_pos mb) mx)"

section \<open>Messages\<close>

text \<open>
  A message is a sequence of writer calls; a string completed afterwards and a count completed
  afterwards enclose the calls between their start and their completion. Comma lists are the former.
\<close>

datatype msg_item =
    M_byte u8 | M_bytes mem u32 | M_string write_arg | M_uint32 u32 | M_uint64 u64
  | M_nested "msg_item list" | M_count u32 "msg_item list"

fun mb_put :: "msg_item \<Rightarrow> msg_buffer_s \<Rightarrow> msg_buffer_s option"
  and mb_puts :: "msg_item list \<Rightarrow> msg_buffer_s \<Rightarrow> msg_buffer_s option" where
  "mb_put (M_byte b) mb = msg_write_byte mb b"
| "mb_put (M_bytes m n) mb = msg_write_bytes mb m n"
| "mb_put (M_string a) mb = msg_write_ssh_string mb a"
| "mb_put (M_uint32 v) mb = msg_store_uint32 mb v"
| "mb_put (M_uint64 v) mb = msg_store_uint64 mb v"
| "mb_put (M_nested is) mb = fill_commalist mb (mb_puts is)"
| "mb_put (M_count c is) mb = do {
     (pos, mb) \<leftarrow> start_count mb; mb \<leftarrow> mb_puts is mb; msg_complete_count mb pos c }"
| "mb_puts [] mb = Some mb"
| "mb_puts (i # is) mb = do { mb \<leftarrow> mb_put i mb; mb_puts is mb }"

text \<open>The bytes of a message, and the calls whose sources can be read.\<close>

fun arg_bytes :: "write_arg \<Rightarrow> u8 list option" where
  "arg_bytes (WrS s) = ss_bytes s"
| "arg_bytes (WrC m) = map_option (\<lambda>n. take n m) (c_strlen m)"
| "arg_bytes _ = None"

fun msg_bytes :: "msg_item \<Rightarrow> u8 list" and msgs_bytes :: "msg_item list \<Rightarrow> u8 list" where
  "msg_bytes (M_byte b) = [b]"
| "msg_bytes (M_bytes m n) = take (unat n) m"
| "msg_bytes (M_string a) = (case arg_bytes a of Some bs \<Rightarrow> enc_string bs | None \<Rightarrow> [])"
| "msg_bytes (M_uint32 v) = be32 v"
| "msg_bytes (M_uint64 v) = be64 v"
| "msg_bytes (M_nested is) = enc_string (msgs_bytes is)"
| "msg_bytes (M_count c is) = be32 c @ msgs_bytes is"
| "msgs_bytes [] = []"
| "msgs_bytes (i # is) = msg_bytes i @ msgs_bytes is"

fun msg_ok :: "msg_item \<Rightarrow> bool" and msgs_ok :: "msg_item list \<Rightarrow> bool" where
  "msg_ok (M_bytes m n) \<longleftrightarrow> unat n \<le> length m"
| "msg_ok (M_string a) \<longleftrightarrow> (\<exists>bs. arg_bytes a = Some bs)"
| "msg_ok (M_nested is) \<longleftrightarrow> msgs_ok is"
| "msg_ok (M_count c is) \<longleftrightarrow> msgs_ok is"
| "msg_ok _ \<longleftrightarrow> True"
| "msgs_ok [] \<longleftrightarrow> True"
| "msgs_ok (i # is) \<longleftrightarrow> msg_ok i \<and> msgs_ok is"

text \<open>The effect of writing bytes at the cursor.\<close>

definition mb_wrote :: "msg_buffer_s \<Rightarrow> mem \<Rightarrow> u8 list \<Rightarrow> msg_buffer_s" where
  "mb_wrote mb d bs =
     mb\<lparr>mb_data := Some (take (unat (mb_pos mb)) d @ bs @ drop (unat (mb_pos mb) + length bs) d),
        mb_pos := mb_pos mb + of_nat (length bs)\<rparr>"

lemma mb_wrote_fields [simp]:
  "mb_write (mb_wrote mb d bs) = mb_write mb" "mb_len (mb_wrote mb d bs) = mb_len mb"
  "mb_error (mb_wrote mb d bs) = mb_error mb"
  "mb_pos (mb_wrote mb d bs) = mb_pos mb + of_nat (length bs)"
  "mb_data (mb_wrote mb d bs) =
     Some (take (unat (mb_pos mb)) d @ bs @ drop (unat (mb_pos mb) + length bs) d)"
  by (simp_all add: mb_wrote_def)

lemma mb_wrote_Nil: "mb_data mb = Some d \<Longrightarrow> mb_wrote mb d [] = mb"
  by (simp add: mb_wrote_def)

lemma mb_wrote_append:
  assumes "unat (mb_pos mb) + length bs \<le> length d" "unat (mb_pos mb) + length bs < 4294967296"
    and "mb_data (mb_wrote mb d bs) = Some d'"
  shows "mb_wrote (mb_wrote mb d bs) d' cs = mb_wrote mb d (bs @ cs)"
proof -
  have u: "unat (mb_pos mb + of_nat (length bs)) = unat (mb_pos mb) + length bs"
    using assms(2) by (simp add: unat_u32_plus unat_of_nat_u32)
  show ?thesis
    using assms by (auto simp: mb_wrote_def u min_absorb1 min_absorb2 ac_simps)
qed

lemma mb_store_wrote:
  assumes "mb_data mb = Some d" and "unat (mb_pos mb) + length bs \<le> length d" and "n = of_nat (length bs)"
  shows "map_option (\<lambda>mb. mb_skip mb n) (mb_store mb (mb_pos mb) bs) = Some (mb_wrote mb d bs)"
  using assms by (simp add: mb_store_def mem_store_def mb_skip_def mb_wrote_def)

lemma mb_restore:
  assumes "unat (mb_pos mb) + length (as @ cs) \<le> length d" and "length as = length bs"
  shows "mb_store (mb_wrote mb d (as @ cs)) (mb_pos mb) bs = Some (mb_wrote mb d (bs @ cs))"
  using assms by (auto simp: mb_store_def mem_store_def mb_wrote_def min_absorb2 ac_simps)

section \<open>Counting and writing\<close>

lemma hlpr_enc:
  assumes "mem_load t 0 (unat len) = Some bs"
  shows "copy_ssh_string_hlpr (Some (d, off)) (Some t) len =
           map_option (\<lambda>m. (4 + len, Some m)) (mem_store d off (enc_string bs))"
proof -
  have "length bs = unat len" using length_mem_load [OF assms] .
  then have e: "enc_string bs = be32 len @ bs" by (simp add: enc_string_def)
  have "copy_ssh_string_hlpr (Some (d, off)) (Some t) len =
      map_option (\<lambda>m. (4 + len, Some m))
        (Option.bind (mem_store d off (be32 len)) (\<lambda>m1. mem_store m1 (off + length (be32 len)) bs))"
    using assms
    by (auto simp: copy_ssh_string_hlpr_def store_uint32_def map_option_case split: option.splits Option.bind_splits)
  then show ?thesis by (simp only: mem_store_append e)
qed

lemma write_arg_bytes:
  assumes "arg_bytes a = Some bs" and "4 + length bs < 4294967296"
  shows "write_ssh_string None a = Some (of_nat (4 + length bs), None)"
    "write_ssh_string (Some (d, off)) a =
       map_option (\<lambda>m. (of_nat (4 + length bs), Some m)) (mem_store d off (enc_string bs))"
proof -
  have "\<exists>t len. mem_load t 0 (unat len) = Some bs \<and> len = of_nat (length bs) \<and>
      (\<forall>dst. write_ssh_string dst a = copy_ssh_string_hlpr dst (Some t) len)"
  proof (cases a)
    case (WrS s)
    then have b: "ss_bytes s = Some bs" using assms(1) by simp
    then obtain t where "ss_target s = Some t" "mem_load t 0 (unat (ss_len s)) = Some bs"
      by (auto simp: ss_bytes_def bind_eq_Some_conv)
    with WrS ss_len_of_bytes [OF b] show ?thesis by (auto simp: write_ssh_string_def)
  next
    case (WrC m)
    then obtain n where n: "c_strlen m = Some n" "bs = take n m" using assms(1) by auto
    then have "n \<le> length m" by (auto simp: c_strlen_def length_takeWhile_le split: if_splits)
    with n assms(2) WrC show ?thesis
      by (intro exI [of _ m] exI [of _ "of_nat n"])
        (simp add: write_ssh_string_def mem_load_def unat_of_nat_u32 min_absorb2)
  qed (use assms(1) in simp_all)
  then obtain t len where t: "mem_load t 0 (unat len) = Some bs" "len = of_nat (length bs)"
    "\<And>dst. write_ssh_string dst a = copy_ssh_string_hlpr dst (Some t) len" by blast
  show "write_ssh_string None a = Some (of_nat (4 + length bs), None)"
    using t(2,3) by (simp add: copy_ssh_string_hlpr_def)
  show "write_ssh_string (Some (d, off)) a =
       map_option (\<lambda>m. (of_nat (4 + length bs), Some m)) (mem_store d off (enc_string bs))"
    using hlpr_enc [OF t(1)] t(2,3) by simp
qed

lemma write_header: "write_ssh_string None (WrL p) = Some (4, None)"
  "write_ssh_string (Some (d, off)) (WrL p) =
     map_option (\<lambda>m. (4, Some m)) (mem_store d off (be32 (case p of Some l \<Rightarrow> l | None \<Rightarrow> 0)))"
  by (simp_all add: write_ssh_string_def Let_def store_uint32_def map_option_case
      split: option.splits Option.bind_splits)

lemmas mb_table_defs = msg_write_byte_def msg_write_bytes_def msg_write_ssh_string_def
  msg_store_uint32_def msg_store_uint64_def msg_complete_ssh_string_def msg_complete_count_def

lemmas mb_nowrite_defs = nowrite_byte_def nowrite_bytes_def nowrite_ssh_string_def
  nostore_uint32_def nostore_uint64_def

lemma mb_skip_skip [simp]: "mb_skip (mb_skip mb a) b = mb_skip mb (a + b)"
  by (simp add: mb_skip_def add.assoc)

lemma mb_skip_fields [simp]:
  "mb_write (mb_skip mb a) = mb_write mb" "mb_data (mb_skip mb a) = mb_data mb"
  "mb_len (mb_skip mb a) = mb_len mb" "mb_error (mb_skip mb a) = mb_error mb"
  "mb_pos (mb_skip mb a) = mb_pos mb + a"
  by (simp_all add: mb_skip_def)

lemma mb_put_nowrite:
  "\<not> mb_write mb \<Longrightarrow> msg_ok i \<Longrightarrow> length (msg_bytes i) < 4294967296 \<Longrightarrow>
     mb_put i mb = Some (mb_skip mb (of_nat (length (msg_bytes i))))"
  "\<not> mb_write mb \<Longrightarrow> msgs_ok is \<Longrightarrow> length (msgs_bytes is) < 4294967296 \<Longrightarrow>
     mb_puts is mb = Some (mb_skip mb (of_nat (length (msgs_bytes is))))"
proof (induction i mb and "is" mb rule: mb_put_mb_puts.induct)
  case (3 a mb)
  then show ?case using write_arg_bytes(1) by (auto simp: mb_table_defs mb_nowrite_defs)
next
  case (6 "is" mb)
  then show ?case
    by (simp add: fill_commalist_def start_ssh_string_def mb_table_defs mb_nowrite_defs write_header)
next
  case (7 c "is" mb)
  then show ?case
    by (simp add: start_count_def mb_table_defs mb_nowrite_defs)
qed (simp_all add: mb_table_defs mb_nowrite_defs mb_skip_def)

text \<open>A buffer that writes, with memory \<open>d\<close> and room for \<open>n\<close> more bytes and one besides.\<close>

definition mb_room :: "msg_buffer_s \<Rightarrow> mem \<Rightarrow> nat \<Rightarrow> bool" where
  "mb_room mb d n \<longleftrightarrow> mb_write mb \<and> mb_data mb = Some d \<and> unat (mb_len mb) \<le> length d \<and>
     unat (mb_pos mb) + n < unat (mb_len mb)"

lemma mb_roomD:
  assumes "mb_room mb d n" and "k \<le> n"
  shows "mb_write mb" "mb_data mb = Some d" "unat (mb_pos mb) + k \<le> length d" "k < 4294967296"
    "unat (mb_pos mb) + k < 4294967296"
    "mb_pos mb + of_nat k < mb_len mb" "mb_pos mb + of_nat k \<le> mb_len mb" "mb_pos mb < mb_len mb"
proof -
  have lt: "unat (mb_len mb) < 4294967296" by (rule unat_lt_u32)
  have u: "unat (mb_pos mb + of_nat k) = unat (mb_pos mb) + k"
    using assms lt by (simp add: mb_room_def unat_u32_plus unat_of_nat_u32)
  show "mb_write mb" "mb_data mb = Some d" "unat (mb_pos mb) + k \<le> length d" "k < 4294967296"
    "unat (mb_pos mb) + k < 4294967296"
    using assms lt by (simp_all add: mb_room_def)
  show "mb_pos mb + of_nat k < mb_len mb" "mb_pos mb + of_nat k \<le> mb_len mb" "mb_pos mb < mb_len mb"
    using assms u by (simp_all add: mb_room_def u32_less_unat u32_le_unat)
qed

lemma mb_room_wrote:
  assumes "mb_room mb d (length bs + n)"
  shows "\<exists>d'. mb_data (mb_wrote mb d bs) = Some d' \<and> mb_room (mb_wrote mb d bs) d' n \<and>
           (\<forall>cs. mb_wrote (mb_wrote mb d bs) d' cs = mb_wrote mb d (bs @ cs))"
proof -
  note R = mb_roomD [OF assms, of "length bs"]
  have u: "unat (mb_pos mb + of_nat (length bs)) = unat (mb_pos mb) + length bs"
    using R(4,5) by (simp add: unat_u32_plus unat_of_nat_u32)
  have "mb_wrote (mb_wrote mb d bs) d' cs = mb_wrote mb d (bs @ cs)"
    if "mb_data (mb_wrote mb d bs) = Some d'" for cs d'
    using R(3,5) that by (intro mb_wrote_append) simp_all
  then show ?thesis using assms u by (auto simp: mb_room_def)
qed

lemma write_string_room:
  assumes "arg_bytes a = Some bs" and "mb_room mb d (4 + length bs)"
  shows "dowrite_ssh_string mb a = Some (mb_wrote mb d (enc_string bs))"
proof -
  note R = mb_roomD [OF assms(2) order_refl]
  have "mem_store d (unat (mb_pos mb)) (enc_string bs) =
      Some (take (unat (mb_pos mb)) d @ enc_string bs @ drop (unat (mb_pos mb) + length (enc_string bs)) d)"
    using R(3) by (simp add: mem_store_def)
  then show ?thesis
    using R write_arg_bytes [OF assms(1)]
    by (simp add: dowrite_ssh_string_def mb_skip_def mb_wrote_def)
qed

lemma start_string_room:
  assumes "mb_room mb d 4"
  shows "start_ssh_string mb = Some (mb_pos mb, mb_wrote mb d (be32 0))"
proof -
  note R = mb_roomD [OF assms order_refl]
  have "mem_store d (unat (mb_pos mb)) (be32 0) =
      Some (take (unat (mb_pos mb)) d @ be32 0 @ drop (unat (mb_pos mb) + length (be32 0)) d)"
    using R(3) by (simp add: mem_store_def)
  then show ?thesis
    using R
    by (simp add: start_ssh_string_def msg_write_ssh_string_def dowrite_ssh_string_def write_header
        mb_skip_def mb_wrote_def)
qed

lemma complete_string_room:
  assumes "mb_room mb d (4 + length bs)"
  shows "msg_complete_ssh_string (mb_wrote mb d (be32 0 @ bs)) (mb_pos mb) = Some (mb_wrote mb d (enc_string bs))"
proof -
  note R = mb_roomD [OF assms order_refl]
  have len: "mb_pos mb + of_nat (length (be32 0 @ bs)) - mb_pos mb - 4 = of_nat (length bs)" by simp
  have "mb_store (mb_wrote mb d (be32 0 @ bs)) (mb_pos mb) (be32 (of_nat (length bs))) =
      Some (mb_wrote mb d (be32 (of_nat (length bs)) @ bs))"
    using R(3) by (intro mb_restore) simp_all
  then show ?thesis
    using R(1)
    by (auto simp: msg_complete_ssh_string_def dowrite_complete_ssh_string_def write_header mb_store_def
        enc_string_def bind_eq_Some_conv)
qed

lemma fill_commalist_room:
  assumes "mb_room mb d (4 + length bs)"
    and cb: "\<And>d'. mb_room (mb_wrote mb d (be32 0)) d' (length bs) \<Longrightarrow>
      cb (mb_wrote mb d (be32 0)) = Some (mb_wrote (mb_wrote mb d (be32 0)) d' bs)"
  shows "fill_commalist mb cb = Some (mb_wrote mb d (enc_string bs))"
proof -
  have r: "mb_room mb d (length (be32 0) + length bs)" "mb_room mb d 4" using assms(1) by (simp_all add: mb_room_def)
  then obtain d' where d': "mb_room (mb_wrote mb d (be32 0)) d' (length bs)"
    "\<And>cs. mb_wrote (mb_wrote mb d (be32 0)) d' cs = mb_wrote mb d (be32 0 @ cs)"
    using mb_room_wrote [OF r(1)] by blast
  then show ?thesis
    using cb [OF d'(1)] complete_string_room [OF assms(1)] start_string_room [OF r(2)]
    by (simp add: fill_commalist_def)
qed

lemma start_count_room:
  assumes "mb_room mb d (4 + k)"
  shows "start_count mb = Some (mb_pos mb, mb_wrote mb d (be32 0))"
  using mb_roomD [OF assms, of 4]
  by (simp add: start_count_def msg_store_uint32_def dostore_uint32_def mb_store_wrote)

lemma count_room:
  assumes "mb_room mb d (4 + length bs)"
    and cb: "\<And>d'. mb_room (mb_wrote mb d (be32 0)) d' (length bs) \<Longrightarrow>
      cb (mb_wrote mb d (be32 0)) = Some (mb_wrote (mb_wrote mb d (be32 0)) d' bs)"
  shows "Option.bind (start_count mb) (\<lambda>(pos, mb). Option.bind (cb mb) (\<lambda>mb. msg_complete_count mb pos c)) =
         Some (mb_wrote mb d (be32 c @ bs))"
proof -
  have r: "mb_room mb d (length (be32 0) + length bs)" using assms(1) by simp
  then obtain d' where d': "mb_room (mb_wrote mb d (be32 0)) d' (length bs)"
    "\<And>cs. mb_wrote (mb_wrote mb d (be32 0)) d' cs = mb_wrote mb d (be32 0 @ cs)"
    using mb_room_wrote [OF r] by blast
  have "mb_store (mb_wrote mb d (be32 0 @ bs)) (mb_pos mb) (be32 c) = Some (mb_wrote mb d (be32 c @ bs))"
    using mb_roomD(3) [OF r order_refl] by (intro mb_restore) simp_all
  then show ?thesis
    using cb [OF d'(1)] d'(2) mb_roomD(1) [OF r, of 4] start_count_room [OF assms(1)]
    by (simp add: msg_complete_count_def dowrite_complete_count_def)
qed

lemma write_bytes_room:
  assumes "unat n \<le> length m" and "mb_room mb d (unat n)"
  shows "dowrite_bytes mb m n = Some (mb_wrote mb d (take (unat n) m))"
proof -
  note R = mb_roomD [OF assms(2) order_refl]
  have "map_option (\<lambda>mb. mb_skip mb n) (mb_store mb (mb_pos mb) (take (unat n) m)) =
      Some (mb_wrote mb d (take (unat n) m))"
    using assms R by (intro mb_store_wrote) simp_all
  then show ?thesis using assms R by (auto simp: dowrite_bytes_def mem_load_def)
qed

lemma mb_put_room:
  "msg_ok i \<Longrightarrow> mb_room mb d (length (msg_bytes i)) \<Longrightarrow> mb_put i mb = Some (mb_wrote mb d (msg_bytes i))"
  "msgs_ok is \<Longrightarrow> mb_room mb d (length (msgs_bytes is)) \<Longrightarrow> mb_puts is mb = Some (mb_wrote mb d (msgs_bytes is))"
proof (induction i mb and "is" mb arbitrary: d and d rule: mb_put_mb_puts.induct)
  case (1 b mb)
  then show ?case using mb_roomD [OF 1(2) order_refl]
    by (simp add: msg_write_byte_def dowrite_byte_def mb_store_wrote)
next
  case (2 m n mb)
  then show ?case using mb_roomD(1) [OF 2(2) order_refl]
    by (simp add: msg_write_bytes_def write_bytes_room min_absorb2)
next
  case (3 a mb)
  then obtain bs where bs: "arg_bytes a = Some bs" by auto
  with 3(2) have "mb_room mb d (4 + length bs)" by simp
  with write_string_room [OF bs] mb_roomD(1) [OF this order_refl] bs show ?case
    by (simp add: msg_write_ssh_string_def)
next
  case (4 v mb)
  then show ?case using mb_roomD [OF 4(2) order_refl]
    by (simp add: msg_store_uint32_def dostore_uint32_def mb_store_wrote)
next
  case (5 v mb)
  then show ?case using mb_roomD [OF 5(2) order_refl]
    by (simp add: msg_store_uint64_def dostore_uint64_def mb_store_wrote)
next
  case (6 "is" mb)
  then show ?case by (simp add: fill_commalist_room)
next
  case (7 c "is" mb)
  have r: "mb_room mb d (4 + length (msgs_bytes is))" and ok: "msgs_ok is" using 7(2,3) by simp_all
  from count_room [of mb d "msgs_bytes is" "mb_puts is" c, OF r 7(1) [OF start_count_room [OF r] refl ok]] show ?case by simp
next
  case (8 mb)
  then show ?case by (simp add: mb_room_def mb_wrote_Nil)
next
  case (9 i "is" mb)
  have r: "mb_room mb d (length (msg_bytes i) + length (msgs_bytes is))" using 9(4) by simp
  then obtain d' where d': "mb_room (mb_wrote mb d (msg_bytes i)) d' (length (msgs_bytes is))"
    "\<And>cs. mb_wrote (mb_wrote mb d (msg_bytes i)) d' cs = mb_wrote mb d (msg_bytes i @ cs)"
    using mb_room_wrote [OF r] by blast
  have "mb_room mb d (length (msg_bytes i))" using r by (simp add: mb_room_def)
  then show ?case using 9(1,2,3) d' by simp
qed

section \<open>Too little room\<close>

text \<open>
  What a call that takes \<open>k\<close> bytes of the message may do to a buffer: the cursor moves by \<open>k\<close>, nothing
  behind the length is touched, and a buffer that stops writing has the error set.
\<close>

definition mb_adv :: "msg_buffer_s \<Rightarrow> nat \<Rightarrow> msg_buffer_s \<Rightarrow> bool" where
  "mb_adv mb k mb' \<longleftrightarrow>
     unat (mb_pos mb') = unat (mb_pos mb) + k \<and> mb_len mb' = mb_len mb \<and>
     (\<exists>d d'. mb_data mb = Some d \<and> mb_data mb' = Some d' \<and> length d' = length d \<and>
        drop (unat (mb_len mb)) d' = drop (unat (mb_len mb)) d) \<and>
     (if mb_write mb' then mb_write mb \<and> mb_error mb' = mb_error mb
      else if mb_write mb then mb_error mb' = ENOBUFS else mb_error mb' = mb_error mb)"

definition mb_safe :: "msg_buffer_s \<Rightarrow> bool" where
  "mb_safe mb \<longleftrightarrow> (\<exists>d. mb_data mb = Some d \<and> unat (mb_len mb) \<le> length d) \<and>
     (mb_write mb \<longrightarrow> mb_pos mb \<le> mb_len mb)"

lemma mb_adv_refl: "mb_safe mb \<Longrightarrow> mb_adv mb 0 mb"
  by (auto simp: mb_adv_def mb_safe_def)

lemma mb_adv_trans: "mb_adv a j b \<Longrightarrow> mb_adv b k c \<Longrightarrow> mb_adv a (j + k) c"
  by (auto simp: mb_adv_def split: if_splits)

lemma mb_adv_wrote:
  assumes "mb_safe mb" "mb_write mb" "mb_data mb = Some d" "unat (mb_pos mb) + length bs \<le> unat (mb_len mb)"
  shows "mb_adv mb (length bs) (mb_wrote mb d bs)" "mb_safe (mb_wrote mb d bs)"
proof -
  have u: "unat (mb_pos mb + of_nat (length bs)) = unat (mb_pos mb) + length bs"
    using assms(4) unat_lt_u32 [of "mb_len mb"] by (simp add: unat_u32_plus unat_of_nat_u32)
  define d' where "d' = take (unat (mb_pos mb)) d @ bs @ drop (unat (mb_pos mb) + length bs) d"
  have len: "unat (mb_len mb) \<le> length d" using assms(1,3) by (simp add: mb_safe_def)
  then have st: "mem_store d (unat (mb_pos mb)) bs = Some d'" using assms(4) by (simp add: mem_store_def d'_def)
  have w: "mb_data (mb_wrote mb d bs) = Some d'" by (simp add: d'_def)
  note d = length_mem_store [OF st] drop_mem_store [OF st assms(4)]
  show "mb_adv mb (length bs) (mb_wrote mb d bs)"
    unfolding mb_adv_def w using assms(2,3) u d by simp
  show "mb_safe (mb_wrote mb d bs)"
    unfolding mb_safe_def w using assms(4) u d(1) len by (simp add: u32_le_unat)
qed

lemma mb_adv_fatal:
  assumes "mb_safe mb" "mb_write mb" "unat (mb_pos mb) + unat n < 4294967296"
  shows "mb_adv mb (unat n) (mb_skip (set_msg_buffer_fatal_error mb ENOBUFS) n)"
    "mb_safe (mb_skip (set_msg_buffer_fatal_error mb ENOBUFS) n)"
  using assms
  by (auto simp: mb_adv_def mb_safe_def mb_skip_def set_msg_buffer_fatal_error_def
      set_msg_buffer_nowrite_def unat_u32_plus)

lemma mb_adv_skip:
  assumes "mb_safe mb" "\<not> mb_write mb" "unat (mb_pos mb) + k < 4294967296"
  shows "mb_adv mb k (mb_skip mb (of_nat k))" "mb_safe (mb_skip mb (of_nat k))"
  using assms by (auto simp: mb_adv_def mb_safe_def unat_u32_plus unat_of_nat_u32)

lemma mb_adv_store:
  assumes "mb_safe mb" "unat pos + length bs \<le> unat (mb_len mb)"
  shows "\<exists>mb'. mb_store mb pos bs = Some mb' \<and> mb_adv mb 0 mb' \<and> mb_safe mb'"
proof -
  obtain d where d: "mb_data mb = Some d" "unat (mb_len mb) \<le> length d" using assms(1) by (auto simp: mb_safe_def)
  then obtain d' where st: "mem_store d (unat pos) bs = Some d'" using assms(2) by (simp add: mem_store_def)
  note f = length_mem_store [OF st] drop_mem_store [OF st assms(2)]
  show ?thesis
    using assms(1) d f by (simp add: mb_store_def st mb_safe_def mb_adv_def)
qed

definition mb_goes :: "msg_buffer_s \<Rightarrow> nat \<Rightarrow> msg_buffer_s option \<Rightarrow> bool" where
  "mb_goes mb k r \<longleftrightarrow> (\<exists>mb'. r = Some mb' \<and> mb_adv mb k mb' \<and> mb_safe mb')"

lemma mb_goes_trans:
  "mb_goes mb j r \<Longrightarrow> (\<And>mb'. r = Some mb' \<Longrightarrow> mb_adv mb j mb' \<Longrightarrow> mb_safe mb' \<Longrightarrow> mb_goes mb' k (f mb')) \<Longrightarrow>
     mb_goes mb (j + k) (Option.bind r f)"
  unfolding mb_goes_def by (metis bind.bind_lunit mb_adv_trans)

lemma mb_goes_skip:
  "mb_safe mb \<Longrightarrow> \<not> mb_write mb \<Longrightarrow> unat (mb_pos mb) + k < 4294967296 \<Longrightarrow>
     mb_goes mb k (Some (mb_skip mb (of_nat k)))"
  by (auto simp: mb_goes_def intro: mb_adv_skip)

text \<open>A writer that checks for room and writes, or gives up.\<close>

lemma mb_goes_write:
  assumes s: "mb_safe mb" "mb_write mb" and lt: "unat (mb_pos mb) + length bs < 4294967296"
    and d: "mb_data mb = Some d"
    and fit: "P \<Longrightarrow> unat (mb_pos mb) + length bs \<le> unat (mb_len mb)"
    and yes: "P \<Longrightarrow> unat (mb_pos mb) + length bs \<le> length d \<Longrightarrow> w = Some (mb_wrote mb d bs)"
    and n: "n = of_nat (length bs)"
  shows "mb_goes mb (length bs) (if P then w else Some (mb_skip (set_msg_buffer_fatal_error mb ENOBUFS) n))"
proof (cases P)
  case True
  moreover from this have "unat (mb_pos mb) + length bs \<le> length d" using fit s(1) d by (auto simp: mb_safe_def)
  ultimately show ?thesis using yes mb_adv_wrote [OF s d fit] by (simp add: mb_goes_def)
next
  case False
  have u: "unat n = length bs" using lt n by (simp add: unat_of_nat_u32)
  show ?thesis using False mb_adv_fatal [OF s, of n] lt u by (simp add: mb_goes_def)
qed

lemma mb_fits:
  assumes "unat (mb_pos mb) + k < 4294967296"
  shows "mb_pos mb + of_nat k \<le> mb_len mb \<longleftrightarrow> unat (mb_pos mb) + k \<le> unat (mb_len mb)"
    "mb_pos mb + of_nat k < mb_len mb \<longleftrightarrow> unat (mb_pos mb) + k < unat (mb_len mb)"
  using assms by (simp_all add: u32_le_unat u32_less_unat unat_u32_plus unat_of_nat_u32)

lemma mb_safe_data: "mb_safe mb \<Longrightarrow> \<exists>d. mb_data mb = Some d"
  by (auto simp: mb_safe_def)

lemma write_byte_goes:
  assumes "mb_safe mb" "unat (mb_pos mb) + 1 < 4294967296"
  shows "mb_goes mb 1 (msg_write_byte mb b)"
proof (cases "mb_write mb")
  case True
  obtain d where d: "mb_data mb = Some d" using mb_safe_data [OF assms(1)] by blast
  have "mb_goes mb (length [b]) (dowrite_byte mb b)"
    unfolding dowrite_byte_def
  proof (rule mb_goes_write [OF assms(1) True _ d])
    assume P: "mb_pos mb < mb_len mb"
    then show "unat (mb_pos mb) + length [b] \<le> unat (mb_len mb)" by (simp add: u32_less_unat)
    assume "unat (mb_pos mb) + length [b] \<le> length d"
    then show "map_option (\<lambda>mb. mb_skip mb 1) (mb_store mb (mb_pos mb) [b]) = Some (mb_wrote mb d [b])"
      using d by (simp add: mb_store_wrote)
  qed (use assms(2) in simp_all)
  then show ?thesis using True by (simp add: msg_write_byte_def)
next
  case False
  then show ?thesis using mb_goes_skip [OF assms(1), of 1] assms(2) by (simp add: msg_write_byte_def nowrite_byte_def)
qed

lemma write_bytes_goes:
  assumes "mb_safe mb" "unat (mb_pos mb) + unat n < 4294967296" "unat n \<le> length m"
  shows "mb_goes mb (unat n) (msg_write_bytes mb m n)"
proof (cases "mb_write mb")
  case True
  obtain d where d: "mb_data mb = Some d" using mb_safe_data [OF assms(1)] by blast
  let ?bs = "take (unat n) m"
  have l: "length ?bs = unat n" using assms(3) by simp
  have "mb_goes mb (length ?bs) (dowrite_bytes mb m n)"
    unfolding dowrite_bytes_def
  proof (rule mb_goes_write [OF assms(1) True _ d])
    assume P: "mb_pos mb + n \<le> mb_len mb"
    then show "unat (mb_pos mb) + length ?bs \<le> unat (mb_len mb)"
      using mb_fits(1) [of mb "unat n"] assms(2) l by simp
    assume "unat (mb_pos mb) + length ?bs \<le> length d"
    then have "map_option (\<lambda>mb. mb_skip mb n) (mb_store mb (mb_pos mb) ?bs) = Some (mb_wrote mb d ?bs)"
      using d l by (intro mb_store_wrote) simp_all
    then show "Option.bind (mem_load m 0 (unat n)) (\<lambda>bs. Option.bind (mb_store mb (mb_pos mb) bs)
        (\<lambda>mb. Some (mb_skip mb n))) = Some (mb_wrote mb d ?bs)"
      using assms(3) by (auto simp: mem_load_def)
  qed (use assms(2) l in simp_all)
  then show ?thesis using True l by (simp add: msg_write_bytes_def)
next
  case False
  then show ?thesis using mb_goes_skip [OF assms(1), of "unat n"] assms(2)
    by (simp add: msg_write_bytes_def nowrite_bytes_def)
qed

lemma store_goes:
  assumes "mb_safe mb" "mb_write mb" "unat (mb_pos mb) + length bs < 4294967296" "n = of_nat (length bs)"
  shows "mb_goes mb (length bs)
     (if mb_pos mb + n \<le> mb_len mb then map_option (\<lambda>mb. mb_skip mb n) (mb_store mb (mb_pos mb) bs)
      else Some (mb_skip (set_msg_buffer_fatal_error mb ENOBUFS) n))"
proof -
  obtain d where d: "mb_data mb = Some d" using mb_safe_data [OF assms(1)] by blast
  show ?thesis
    using assms d mb_fits(1) [OF assms(3)]
    by (intro mb_goes_write [OF assms(1,2,3) d] mb_store_wrote) simp_all
qed

lemma store_uint32_goes:
  assumes "mb_safe mb" "unat (mb_pos mb) + 4 < 4294967296"
  shows "mb_goes mb 4 (msg_store_uint32 mb v)"
  using store_goes [OF assms(1), of "be32 v" 4] mb_goes_skip [OF assms(1), of 4] assms(2)
  by (simp add: msg_store_uint32_def dostore_uint32_def nostore_uint32_def)

lemma store_uint64_goes:
  assumes "mb_safe mb" "unat (mb_pos mb) + 8 < 4294967296"
  shows "mb_goes mb 8 (msg_store_uint64 mb v)"
  using store_goes [OF assms(1), of "be64 v" 8] mb_goes_skip [OF assms(1), of 8] assms(2)
  by (simp add: msg_store_uint64_def dostore_uint64_def nostore_uint64_def)

text \<open>The strings, their header alone included.\<close>

lemma write_string_goes:
  assumes s: "mb_safe mb" and lt: "unat (mb_pos mb) + length bs < 4294967296"
    and none: "write_ssh_string None a = Some (of_nat (length bs), None)"
    and some: "\<And>d off. write_ssh_string (Some (d, off)) a =
       map_option (\<lambda>m. (of_nat (length bs), Some m)) (mem_store d off bs)"
  shows "mb_goes mb (length bs) (msg_write_ssh_string mb a)"
proof (cases "mb_write mb")
  case True
  obtain d where d: "mb_data mb = Some d" using mb_safe_data [OF s] by blast
  let ?n = "of_nat (length bs) :: u32"
  have w: "Option.bind (write_ssh_string (Some (d, unat (mb_pos mb))) a)
      (\<lambda>(n, d'). Some (mb_skip (mb\<lparr>mb_data := d'\<rparr>) n)) = Some (mb_wrote mb d bs)"
    if "unat (mb_pos mb) + length bs \<le> length d"
    using that by (simp add: some mem_store_def mb_skip_def mb_wrote_def)
  have "mb_goes mb (length bs)
     (if mb_pos mb + ?n < mb_len mb then
        Option.bind (write_ssh_string (Some (d, unat (mb_pos mb))) a)
          (\<lambda>(n, d'). Some (mb_skip (mb\<lparr>mb_data := d'\<rparr>) n))
      else Some (mb_skip (set_msg_buffer_fatal_error mb ENOBUFS) ?n))"
    using mb_fits(2) [OF lt] by (intro mb_goes_write [OF s True lt d] w) simp_all
  then show ?thesis using True d none
    by (simp add: msg_write_ssh_string_def dowrite_ssh_string_def split: if_splits)
next
  case False
  then show ?thesis using mb_goes_skip [OF s False lt] none
    by (simp add: msg_write_ssh_string_def nowrite_ssh_string_def)
qed

text \<open>The completions write in place, at a position the start has left room for.\<close>

lemma complete_string_goes:
  assumes "mb_safe mb" "mb_write mb \<Longrightarrow> unat pos + 4 \<le> unat (mb_len mb)"
  shows "mb_goes mb 0 (msg_complete_ssh_string mb pos)"
proof (cases "mb_write mb")
  case True
  let ?bs = "be32 (mb_pos mb - pos - 4)"
  have "mb_goes mb 0 (mb_store mb pos ?bs)"
    using mb_adv_store [OF assms(1), of pos ?bs] assms(2) [OF True] by (simp add: mb_goes_def)
  moreover have "msg_complete_ssh_string mb pos = mb_store mb pos ?bs"
    using True by (simp add: msg_complete_ssh_string_def dowrite_complete_ssh_string_def write_header
        mb_store_def map_option_case split: Option.bind_splits option.splits)
  ultimately show ?thesis by simp
next
  case False
  then show ?thesis using mb_adv_refl [OF assms(1)] assms(1) by (simp add: mb_goes_def msg_complete_ssh_string_def)
qed

lemma complete_count_goes:
  assumes "mb_safe mb" "mb_write mb \<Longrightarrow> unat pos + 4 \<le> unat (mb_len mb)"
  shows "mb_goes mb 0 (msg_complete_count mb pos c)"
  using mb_adv_store [OF assms(1), of pos "be32 c"] assms mb_adv_refl [OF assms(1)]
  by (auto simp: mb_goes_def msg_complete_count_def dowrite_complete_count_def)

lemma mb_adv_room:
  assumes "mb_adv mb k mb'" "mb_safe mb'" "mb_write mb'"
  shows "unat (mb_pos mb) + k \<le> unat (mb_len mb')"
  using assms by (simp add: mb_adv_def mb_safe_def u32_le_unat)

lemma mb_adv_pos: "mb_adv mb k mb' \<Longrightarrow> unat (mb_pos mb') = unat (mb_pos mb) + k"
  by (simp add: mb_adv_def)

lemma enclosed_goes:
  assumes st: "mb_goes mb 4 st"
    and cb: "\<And>mb1. st = Some mb1 \<Longrightarrow> mb_safe mb1 \<Longrightarrow> unat (mb_pos mb1) = unat (mb_pos mb) + 4 \<Longrightarrow>
      mb_goes mb1 n (cb mb1)"
    and co: "\<And>mb2. mb_safe mb2 \<Longrightarrow> (mb_write mb2 \<Longrightarrow> unat (mb_pos mb) + 4 \<le> unat (mb_len mb2)) \<Longrightarrow>
      mb_goes mb2 0 (co mb2)"
  shows "mb_goes mb (4 + n) (Option.bind st (\<lambda>mb1. Option.bind (cb mb1) co))"
proof (rule mb_goes_trans [OF st])
  fix mb1
  assume 1: "st = Some mb1" "mb_adv mb 4 mb1" "mb_safe mb1"
  have cb1: "mb_goes mb1 n (cb mb1)" using cb 1 mb_adv_pos by blast
  have "mb_goes mb1 (n + 0) (Option.bind (cb mb1) co)"
  proof (rule mb_goes_trans [OF cb1])
    fix mb2
    assume 2: "mb_adv mb1 n mb2" "mb_safe mb2"
    show "mb_goes mb2 0 (co mb2)"
      using mb_adv_room [OF 2] mb_adv_pos [OF 1(2)] by (intro co 2) simp
  qed
  then show "mb_goes mb1 n (Option.bind (cb mb1) co)" by simp
qed

lemma fill_commalist_goes:
  assumes "mb_safe mb" "unat (mb_pos mb) + 4 < 4294967296"
    and "\<And>mb1. mb_safe mb1 \<Longrightarrow> unat (mb_pos mb1) = unat (mb_pos mb) + 4 \<Longrightarrow> mb_goes mb1 n (cb mb1)"
  shows "mb_goes mb (4 + n) (fill_commalist mb cb)"
proof -
  have st: "mb_goes mb 4 (msg_write_ssh_string mb (WrL None))"
    using write_string_goes [OF assms(1), of "be32 0" "WrL None"] assms(2) by (simp add: write_header)
  have "mb_goes mb (4 + n) (Option.bind (msg_write_ssh_string mb (WrL None))
      (\<lambda>mb1. Option.bind (cb mb1) (\<lambda>mb2. msg_complete_ssh_string mb2 (mb_pos mb))))"
    by (intro enclosed_goes [OF st] assms(3) complete_string_goes) simp_all
  then show ?thesis by (simp add: fill_commalist_def start_ssh_string_def)
qed

lemma count_goes:
  assumes "mb_safe mb" "unat (mb_pos mb) + 4 < 4294967296"
    and "\<And>mb1. start_count mb = Some (mb_pos mb, mb1) \<Longrightarrow> mb_safe mb1 \<Longrightarrow>
      unat (mb_pos mb1) = unat (mb_pos mb) + 4 \<Longrightarrow> mb_goes mb1 n (cb mb1)"
  shows "mb_goes mb (4 + n)
    (Option.bind (start_count mb) (\<lambda>(pos, mb). Option.bind (cb mb) (\<lambda>mb. msg_complete_count mb pos c)))"
proof -
  have "mb_goes mb (4 + n) (Option.bind (msg_store_uint32 mb 0)
      (\<lambda>mb1. Option.bind (cb mb1) (\<lambda>mb2. msg_complete_count mb2 (mb_pos mb) c)))"
    by (intro enclosed_goes store_uint32_goes assms complete_count_goes) (simp_all add: start_count_def)
  then show ?thesis by (simp add: start_count_def)
qed

lemma mb_put_goes:
  "msg_ok i \<Longrightarrow> mb_safe mb \<Longrightarrow> unat (mb_pos mb) + length (msg_bytes i) < 4294967296 \<Longrightarrow>
     mb_goes mb (length (msg_bytes i)) (mb_put i mb)"
  "msgs_ok is \<Longrightarrow> mb_safe mb \<Longrightarrow> unat (mb_pos mb) + length (msgs_bytes is) < 4294967296 \<Longrightarrow>
     mb_goes mb (length (msgs_bytes is)) (mb_puts is mb)"
proof (induction i mb and "is" mb rule: mb_put_mb_puts.induct)
  case (2 m n mb)
  then show ?case using write_bytes_goes [of mb n m] by (simp add: min_absorb2)
next
  case (3 a mb)
  then obtain bs where "arg_bytes a = Some bs" by auto
  with 3 show ?case
    using write_string_goes [of mb "enc_string bs" a] write_arg_bytes [of a bs] by simp
next
  case (6 "is" mb)
  then show ?case by (auto intro!: fill_commalist_goes)
next
  case (7 c "is" mb)
  have "mb_goes mb (4 + length (msgs_bytes is)) (Option.bind (start_count mb)
      (\<lambda>(pos, mb). Option.bind (mb_puts is mb) (\<lambda>mb. msg_complete_count mb pos c)))"
    using 7 by (intro count_goes) simp_all
  then show ?case by simp
next
  case (8 mb)
  then show ?case using mb_adv_refl by (simp add: mb_goes_def)
next
  case (9 i "is" mb)
  have "mb_goes mb (length (msg_bytes i) + length (msgs_bytes is)) (Option.bind (mb_put i mb) (mb_puts is))"
    using 9 mb_adv_pos [of mb "length (msg_bytes i)"] by (intro mb_goes_trans) simp_all
  then show ?case by simp
qed (use write_byte_goes in \<open>simp_all add: store_uint32_goes store_uint64_goes\<close>)

section \<open>Properties\<close>

text \<open>
  C22: The counting pass of a message and the pass that writes it agree. The calls made on a buffer
  without memory give its size; made again on a buffer with at least one byte more, they all succeed,
  set no error, end at the same position, and leave in the memory exactly the bytes of the message,
  with every enclosed string and count completed.
\<close>

theorem msg_size_write:
  assumes "msgs_ok is" and "length (msgs_bytes is) < unat len" and "unat len \<le> length d"
  shows "\<exists>mb0. mb_puts is init_msg_buffer = Some mb0 \<and> mb_pos mb0 < len \<and>
           mb_puts is (set_msg_buffer mb (Some d) len) =
             Some \<lparr>mb_data = Some (msgs_bytes is @ drop (length (msgs_bytes is)) d), mb_len = len,
                   mb_pos = mb_pos mb0, mb_error = 0, mb_write = True\<rparr>"
proof -
  let ?n = "length (msgs_bytes is)" and ?mb = "set_msg_buffer mb (Some d) len"
  have lt: "?n < 4294967296" using assms(2) unat_lt_u32 [of len] by linarith
  have "mb_puts is init_msg_buffer = Some (mb_skip init_msg_buffer (of_nat ?n))"
    using assms(1) lt by (intro mb_put_nowrite(2)) (simp_all add: init_msg_buffer_def)
  moreover have "mb_room ?mb d ?n"
    using assms by (simp add: mb_room_def set_msg_buffer_def set_msg_buffer_write_def)
  ultimately show ?thesis
    using mb_put_room(2) [OF assms(1), of ?mb d] assms(2) lt
    by (simp add: init_msg_buffer_def set_msg_buffer_def set_msg_buffer_write_def mb_wrote_def
        u32_less_unat unat_of_nat_u32)
qed

theorem msg_size_write_witness:
  "\<exists>mb0. mb_puts [M_byte 20, M_nested [M_bytes [97, 98] 2]] init_msg_buffer = Some mb0 \<and> mb_pos mb0 < 9 \<and>
     mb_puts [M_byte 20, M_nested [M_bytes [97, 98] 2]] (set_msg_buffer init_msg_buffer (Some [0, 0, 0, 0, 0, 0, 0, 0, 0]) 9) =
       Some \<lparr>mb_data = Some [20, 0, 0, 0, 2, 97, 98, 0, 0], mb_len = 9, mb_pos = mb_pos mb0, mb_error = 0,
             mb_write = True\<rparr>"
  using msg_size_write [of "[M_byte 20, M_nested [M_bytes [97, 98] 2]]" 9 "[0, 0, 0, 0, 0, 0, 0, 0, 0]" init_msg_buffer]
  by (simp add: enc_string_def be32_def)

text \<open>
  C21: A message written into memory that is too small never writes outside it. For every sequence of
  writer calls, enclosed strings and counts included, and every length of the buffer, the calls
  return, the position is the size of the message, the bytes behind the length are untouched, and the
  error is \<open>ENOBUFS\<close> when the message does not fit, 0 or \<open>ENOBUFS\<close> otherwise.
\<close>

theorem msg_overflow_safe:
  assumes "msgs_ok is" and "length (msgs_bytes is) < 4294967296" and "unat len \<le> length d"
  shows "\<exists>mb' d'. mb_puts is (set_msg_buffer mb (Some d) len) = Some mb' \<and>
           mb_pos mb' = of_nat (length (msgs_bytes is)) \<and> mb_data mb' = Some d' \<and>
           length d' = length d \<and> drop (unat len) d' = drop (unat len) d \<and>
           mb_error mb' \<in> {0, ENOBUFS} \<and>
           (unat len < length (msgs_bytes is) \<longrightarrow> mb_error mb' = ENOBUFS)"
proof -
  let ?mb = "set_msg_buffer mb (Some d) len"
  have f: "mb_write ?mb" "mb_data ?mb = Some d" "mb_len ?mb = len" "mb_pos ?mb = 0" "mb_error ?mb = 0"
    by (simp_all add: set_msg_buffer_def set_msg_buffer_write_def)
  have "mb_safe ?mb" using f assms(3) by (simp add: mb_safe_def)
  then obtain mb' where mb': "mb_puts is ?mb = Some mb'" "mb_adv ?mb (length (msgs_bytes is)) mb'" "mb_safe mb'"
    using mb_put_goes(2) [OF assms(1), of ?mb] assms(2) f(4) by (auto simp: mb_goes_def)
  have pos: "mb_pos mb' = of_nat (length (msgs_bytes is))"
    using mb_adv_pos [OF mb'(2)] f(4) by (metis add_0 unat_0 of_nat_unat ucast_id)
  have "mb_error mb' = ENOBUFS" if "unat len < length (msgs_bytes is)"
    using mb_adv_room [OF mb'(2,3)] mb'(2) f that by (auto simp: mb_adv_def split: if_splits)
  with mb'(1) pos show ?thesis using mb'(2) f by (auto simp: mb_adv_def split: if_splits)
qed

theorem msg_overflow_safe_witness:
  "\<exists>mb' d'. mb_puts [M_byte 20, M_nested [M_uint64 1]] (set_msg_buffer init_msg_buffer (Some [1, 2, 3, 4, 5, 6, 7, 8, 9]) 8) = Some mb' \<and>
     mb_pos mb' = 13 \<and> mb_data mb' = Some d' \<and> length d' = 9 \<and> drop 8 d' = [9] \<and> mb_error mb' = ENOBUFS"
  using msg_overflow_safe [of "[M_byte 20, M_nested [M_uint64 1]]" 8 "[1, 2, 3, 4, 5, 6, 7, 8, 9]" init_msg_buffer]
  by (auto simp: enc_string_def)

section \<open>Where the code differs from its intent\<close>

text \<open>A string that fills the buffer exactly is refused: \<open>dowrite_ssh_string\<close> compares with \<open><\<close>.\<close>

lemma string_exact_fit_refused:
  "map_option mb_error (msg_write_ssh_string (set_msg_buffer init_msg_buffer (Some [0, 0, 0, 0, 0]) 5) (WrC [97, 0])) =
     Some ENOBUFS"
  by (simp add: msg_write_ssh_string_def dowrite_ssh_string_def set_msg_buffer_def set_msg_buffer_write_def
      write_ssh_string_def c_strlen_def copy_ssh_string_hlpr_def set_msg_buffer_fatal_error_def
      set_msg_buffer_nowrite_def)

text \<open>The 32 bit reader does not look at the length: three bytes are enough to read outside the memory.\<close>

lemma msg_read_uint32_overreads:
  "msg_read_uint32 (set_msg_buffer init_msg_buffer (Some [0, 0, 0]) 3) = None"
  by (simp add: msg_read_uint32_def set_msg_buffer_def set_msg_buffer_write_def init_msg_buffer_def
      get_uint32_def mem_load_def)

text \<open>A string that does not fit in what is left of the message is no error to the string reader.\<close>

lemma msg_read_ssh_string_silent:
  "map_option (\<lambda>(s, mb). (mb_pos mb, mb_error mb))
     (msg_read_ssh_string (set_msg_buffer init_msg_buffer (Some [0, 0, 0, 9, 1]) 5) SSH_STRING_INIT) = Some (0, 0)"
  by (simp add: msg_read_ssh_string_def set_msg_buffer_def set_msg_buffer_write_def init_msg_buffer_def
      read_ssh_string_def SSH_STRING_INIT_def get_uint32_def mem_load_def of_be32_def)

end
