(* ===== verification/List_Lock.thy ===== *)
theory List_Lock
  imports Prelude
begin

text \<open>
  The read/write lock of lists, \<open>src/lib/list/lock.c\<close>. The word \<open>value\<close> holds a bit for a writer that
  waits (\<open>PREWRITE\<close>), a bit for a writer (\<open>WRITE\<close>) and four times the number of readers.

  Every operation runs under the mutex of the signal object and gives it up only in
  \<open>signal_condwait\<close>, so the unit of interleaving is a region between two such points: the entry of
  an operation and each wake up of its loop. A wake up may happen at any time, which covers
  broadcasts and spurious wake ups. The system is a step relation over the lock and the
  program counters of a fixed number of threads; the theorems are mutual exclusion,
  that a waiting writer keeps new readers out, and that threads that wait on a free
  lock are not stuck.
\<close>

section \<open>The lock\<close>

definition SIMPLE_LOCK_PREWRITE :: u32 where "SIMPLE_LOCK_PREWRITE = 1"
definition SIMPLE_LOCK_WRITE :: u32 where "SIMPLE_LOCK_WRITE = 2"
definition SIMPLE_LOCK_READ :: u32 where "SIMPLE_LOCK_READ = 4"

lemmas simple_lock_defs = SIMPLE_LOCK_PREWRITE_def SIMPLE_LOCK_WRITE_def SIMPLE_LOCK_READ_def

text \<open>Thread identifiers are positive, 0 stands for no thread; signal objects are numbered.\<close>

record list_lock_s =
  lk_value :: u32
  lk_threadidw :: nat
  lk_threadidpw :: nat
  lk_signal :: nat

section \<open>The regions of the operations\<close>

text \<open>
  \<open>write_lock_list\<close>: the entry up to the loop, the loop condition, the body after a wake up when
  it does not break, and what follows the loop. \<open>tmp\<close> and \<open>block\<close> are the local variables.
\<close>

definition wl_enter :: "nat \<Rightarrow> list_lock_s \<Rightarrow> list_lock_s \<times> u32 \<times> u32" where
  "wl_enter self lock =
     (let block = SIMPLE_LOCK_WRITE OR SIMPLE_LOCK_PREWRITE; tmp = 0 in
      if lk_value lock AND SIMPLE_LOCK_PREWRITE = 0 \<or> lk_threadidpw lock = self then
        (lock\<lparr>lk_value := lk_value lock OR SIMPLE_LOCK_PREWRITE, lk_threadidpw := self\<rparr>,
         tmp OR SIMPLE_LOCK_PREWRITE, block AND NOT SIMPLE_LOCK_PREWRITE)
      else (lock, tmp, block))"

definition wl_blocked :: "list_lock_s \<Rightarrow> u32 \<Rightarrow> bool" where
  "wl_blocked lock block \<longleftrightarrow>
     lk_value lock AND block \<noteq> 0 \<or> lk_value lock > (SIMPLE_LOCK_WRITE OR SIMPLE_LOCK_PREWRITE)"

definition wl_retry :: "nat \<Rightarrow> list_lock_s \<Rightarrow> u32 \<Rightarrow> u32 \<Rightarrow> list_lock_s \<times> u32 \<times> u32" where
  "wl_retry self lock tmp block =
     (if block AND SIMPLE_LOCK_PREWRITE \<noteq> 0 \<and> lk_value lock AND SIMPLE_LOCK_PREWRITE = 0 then
        (lock\<lparr>lk_value := lk_value lock OR SIMPLE_LOCK_PREWRITE, lk_threadidpw := self\<rparr>,
         tmp OR SIMPLE_LOCK_PREWRITE, block AND NOT SIMPLE_LOCK_PREWRITE)
      else (lock, tmp, block))"

definition wl_finish :: "nat \<Rightarrow> list_lock_s \<Rightarrow> u32 \<Rightarrow> list_lock_s" where
  "wl_finish self lock tmp =
     lock\<lparr>lk_value := (lk_value lock OR SIMPLE_LOCK_WRITE) AND NOT tmp,
          lk_threadidw := self, lk_threadidpw := 0\<rparr>"

text \<open>Where a thread is after a region: still in the loop with its locals, or holding the lock.\<close>

datatype pc = Idle | WWait u32 u32 | Writing | RWait | Reading

definition wl_loop :: "nat \<Rightarrow> list_lock_s \<times> u32 \<times> u32 \<Rightarrow> list_lock_s \<times> pc" where
  "wl_loop self x = (case x of (lock, tmp, block) \<Rightarrow>
     if wl_blocked lock block then (lock, WWait tmp block)
     else (wl_finish self lock tmp, Writing))"

definition write_lock_list :: "nat \<Rightarrow> list_lock_s \<Rightarrow> list_lock_s \<times> pc" where
  "write_lock_list self lock = wl_loop self (wl_enter self lock)"

definition write_lock_wake :: "nat \<Rightarrow> u32 \<Rightarrow> u32 \<Rightarrow> list_lock_s \<Rightarrow> list_lock_s \<times> pc" where
  "write_lock_wake self tmp block lock =
     (if \<not> wl_blocked lock block then (wl_finish self lock tmp, Writing)
      else wl_loop self (wl_retry self lock tmp block))"

definition write_unlock_list :: "list_lock_s \<Rightarrow> list_lock_s" where
  "write_unlock_list lock =
     lock\<lparr>lk_value := lk_value lock AND NOT SIMPLE_LOCK_WRITE, lk_threadidw := 0\<rparr>"

text \<open>\<open>read_lock_list\<close>: entry and wake up are the same region.\<close>

definition read_lock_list :: "list_lock_s \<Rightarrow> list_lock_s \<times> pc" where
  "read_lock_list lock =
     (if lk_value lock AND (SIMPLE_LOCK_WRITE OR SIMPLE_LOCK_PREWRITE) \<noteq> 0 then (lock, RWait)
      else (lock\<lparr>lk_value := lk_value lock + SIMPLE_LOCK_READ\<rparr>, Reading))"

definition read_unlock_list :: "list_lock_s \<Rightarrow> list_lock_s" where
  "read_unlock_list lock =
     (if lk_value lock \<ge> SIMPLE_LOCK_READ
      then lock\<lparr>lk_value := lk_value lock - SIMPLE_LOCK_READ\<rparr> else lock)"

section \<open>The system of threads\<close>

text \<open>Thread \<open>i\<close> of the list has the identifier \<open>i + 1\<close>.\<close>

type_synonym sys = "list_lock_s \<times> pc list"

inductive ll_step :: "sys \<Rightarrow> sys \<Rightarrow> bool" where
  write_enter: "i < length ts \<Longrightarrow> ts ! i = Idle \<Longrightarrow> write_lock_list (i + 1) l = (l', c) \<Longrightarrow>
     ll_step (l, ts) (l', ts[i := c])"
| write_wake: "i < length ts \<Longrightarrow> ts ! i = WWait tmp block \<Longrightarrow>
     write_lock_wake (i + 1) tmp block l = (l', c) \<Longrightarrow> ll_step (l, ts) (l', ts[i := c])"
| write_exit: "i < length ts \<Longrightarrow> ts ! i = Writing \<Longrightarrow>
     ll_step (l, ts) (write_unlock_list l, ts[i := Idle])"
| read_enter: "i < length ts \<Longrightarrow> ts ! i = Idle \<Longrightarrow> read_lock_list l = (l', c) \<Longrightarrow>
     ll_step (l, ts) (l', ts[i := c])"
| read_wake: "i < length ts \<Longrightarrow> ts ! i = RWait \<Longrightarrow> read_lock_list l = (l', c) \<Longrightarrow>
     ll_step (l, ts) (l', ts[i := c])"
| read_exit: "i < length ts \<Longrightarrow> ts ! i = Reading \<Longrightarrow>
     ll_step (l, ts) (read_unlock_list l, ts[i := Idle])"

inductive_cases ll_stepE: "ll_step s s'"

definition ll_init :: "nat \<Rightarrow> sys" where
  "ll_init n = (\<lparr>lk_value = 0, lk_threadidw = 0, lk_threadidpw = 0, lk_signal = 0\<rparr>, replicate n Idle)"

section \<open>The value word\<close>

definition lv_readers :: "u32 \<Rightarrow> nat" where
  "lv_readers v = unat v div 4"

lemma lv_readers_drop_bit: "lv_readers v = unat (drop_bit 2 v)"
  by (simp add: lv_readers_def drop_bit_eq_div unat_div)

lemma and_one_zero_iff: "v AND (1 :: u32) = 0 \<longleftrightarrow> \<not> bit v 0"
  by (simp add: and_one_eq bit_0 odd_iff_mod_2_eq_one)

lemma and_two_zero_iff: "v AND (2 :: u32) = 0 \<longleftrightarrow> \<not> bit v 1"
  using and_exp_eq_0_iff_not_bit [of v 1] by simp

lemma and_three_zero_iff: "v AND (3 :: u32) = 0 \<longleftrightarrow> \<not> bit v 0 \<and> \<not> bit v 1"
proof -
  have "(3 :: u32) = 1 OR 2" by simp
  then show ?thesis
    by (simp only: bit.conj_disj_distrib or_eq_0_iff and_one_zero_iff and_two_zero_iff)
qed

lemma gt_three_iff: "(3 :: u32) < v \<longleftrightarrow> 0 < lv_readers v"
  by (auto simp: lv_readers_def u32_less_unat div_greater_zero_iff)

lemma lv_or:
  "bit (v OR (1 :: u32)) 0" "bit (v OR (1 :: u32)) (Suc 0) = bit v (Suc 0)" "lv_readers (v OR 1) = lv_readers v"
  "bit (v OR (2 :: u32)) 0 = bit v 0" "bit (v OR (2 :: u32)) (Suc 0)" "lv_readers (v OR 2) = lv_readers v"
  by (simp_all add: lv_readers_drop_bit drop_bit_or bit_or_iff bit_1_iff)

lemma bit_andnot: "bit (v AND NOT m) n \<longleftrightarrow> bit v n \<and> \<not> bit m n" for v m :: u32
  by (auto simp: bit_simps dest: bit_imp_le_length)

lemma lv_readers_andnot:
  assumes "drop_bit 2 m = 0"
  shows "lv_readers (v AND NOT m) = lv_readers v"
proof -
  have "\<not> bit m (2 + n)" for n
    using arg_cong [OF assms, of "\<lambda>w. bit w n"] by (simp add: bit_drop_bit_eq)
  then have "drop_bit 2 (v AND NOT m) = drop_bit 2 v"
    by (intro bit_eqI) (simp only: bit_drop_bit_eq comp_apply bit_andnot not_False_eq_True simp_thms)
  then show ?thesis by (simp add: lv_readers_drop_bit)
qed

lemma lv_plus:
  assumes "lv_readers v < 1073741823"
  shows "bit (v + 4) 0 = bit v 0" "bit (v + 4) (Suc 0) = bit v (Suc 0)"
    "lv_readers (v + 4) = Suc (lv_readers v)"
proof -
  have u: "unat (v + 4) = unat v + 4"
    using assms by (simp add: unat_u32_plus lv_readers_def)
  have b: "bit w n = bit (unat w) n" if "n < 32" for w :: u32 and n
    using that by (simp add: bit_unsigned_iff)
  show "bit (v + 4) 0 = bit v 0" "bit (v + 4) (Suc 0) = bit v (Suc 0)"
    by (simp_all only: b u) (simp_all add: bit_0 bit_Suc, presburger)
  show "lv_readers (v + 4) = Suc (lv_readers v)" by (simp add: lv_readers_def u)
qed

lemma lv_minus:
  assumes "4 \<le> v"
  shows "bit (v - 4) 0 = bit v 0" "bit (v - 4) (Suc 0) = bit v (Suc 0)"
    "lv_readers (v - 4) = lv_readers v - 1"
proof -
  have u: "unat (v - 4) = unat v - 4" using assms by (simp add: unat_u32_minus)
  have lt: "lv_readers (v - 4) < 1073741823"
    using u unat_lt_u32 [of v] by (simp add: lv_readers_def)
  show "bit (v - 4) 0 = bit v 0" "bit (v - 4) (Suc 0) = bit v (Suc 0)"
    "lv_readers (v - 4) = lv_readers v - 1"
    using lv_plus [OF lt] by simp_all
qed

lemma ge_four_iff: "(4 :: u32) \<le> v \<longleftrightarrow> 0 < lv_readers v"
  by (auto simp: lv_readers_def u32_le_unat div_greater_zero_iff)

lemma write_bits:
  "\<not> bit SIMPLE_LOCK_WRITE 0" "bit SIMPLE_LOCK_WRITE (Suc 0)" "drop_bit 2 SIMPLE_LOCK_WRITE = 0"
  by (simp_all add: SIMPLE_LOCK_WRITE_def)

lemmas lv_simps = and_one_zero_iff and_two_zero_iff and_three_zero_iff gt_three_iff ge_four_iff lv_or
  bit_andnot lv_readers_andnot lv_plus lv_minus

section \<open>The invariant\<close>

definition readers :: "pc list \<Rightarrow> nat" where
  "readers ts = length (filter (\<lambda>c. c = Reading) ts)"

definition writers :: "pc list \<Rightarrow> nat" where
  "writers ts = length (filter (\<lambda>c. c = Writing) ts)"

definition holds_pre :: "pc \<Rightarrow> bool" where
  "holds_pre c \<longleftrightarrow> c = WWait SIMPLE_LOCK_PREWRITE SIMPLE_LOCK_WRITE"

lemma holds_pre_simps [simp]:
  "\<not> holds_pre Idle" "\<not> holds_pre Writing" "\<not> holds_pre RWait" "\<not> holds_pre Reading"
  "holds_pre (WWait tmp block) \<longleftrightarrow> tmp = 1 \<and> block = 2"
  by (simp_all add: holds_pre_def simple_lock_defs)

definition pc_ok :: "pc \<Rightarrow> bool" where
  "pc_ok c = (case c of WWait tmp block \<Rightarrow> holds_pre c \<or> (tmp = 0 \<and> block = 3) | _ \<Rightarrow> True)"

definition pre_holders :: "pc list \<Rightarrow> nat" where
  "pre_holders ts = length (filter holds_pre ts)"

definition ll_inv :: "sys \<Rightarrow> bool" where
  "ll_inv s = (case s of (l, ts) \<Rightarrow>
     length ts < 1073741824 \<and> list_all pc_ok ts \<and>
     lv_readers (lk_value l) = readers ts \<and>
     writers ts = (if bit (lk_value l) 1 then 1 else 0) \<and>
     pre_holders ts = (if bit (lk_value l) 0 then 1 else 0) \<and>
     (writers ts > 0 \<longrightarrow> readers ts = 0) \<and>
     (\<forall>i < length ts. lk_threadidpw l = i + 1 \<longrightarrow> holds_pre (ts ! i)))"

lemma filter_count_update:
  assumes "i < length ts"
  shows "length (filter P (ts[i := c])) + (if P (ts ! i) then 1 else 0) =
         length (filter P ts) + (if P c then 1 else 0)"
proof -
  have "filter P ts = filter P (take i ts) @ filter P [ts ! i] @ filter P (drop (Suc i) ts)"
    using id_take_nth_drop [OF assms] by (metis append_Cons append_Nil filter_append)
  then show ?thesis using assms by (simp add: upd_conv_take_nth_drop)
qed

lemma count_updates:
  assumes "i < length ts"
  shows "readers (ts[i := c]) + (if ts ! i = Reading then 1 else 0) = readers ts + (if c = Reading then 1 else 0)"
    "writers (ts[i := c]) + (if ts ! i = Writing then 1 else 0) = writers ts + (if c = Writing then 1 else 0)"
    "pre_holders (ts[i := c]) + (if holds_pre (ts ! i) then 1 else 0) = pre_holders ts + (if holds_pre c then 1 else 0)"
  unfolding readers_def writers_def pre_holders_def by (rule filter_count_update [OF assms])+

lemma ll_inv_init: "n < 1073741824 \<Longrightarrow> ll_inv (ll_init n)"
  by (simp add: ll_inv_def ll_init_def pc_ok_def lv_readers_def readers_def writers_def pre_holders_def
      holds_pre_def list_all_iff)

text \<open>
  What a region of thread \<open>i\<close> may do to the lock while its own place changes from \<open>c\<close> to \<open>c'\<close>.
\<close>

definition ll_local :: "nat \<Rightarrow> list_lock_s \<Rightarrow> pc \<Rightarrow> list_lock_s \<Rightarrow> pc \<Rightarrow> bool" where
  "ll_local i l c l' c' \<longleftrightarrow>
     pc_ok c' \<and>
     lv_readers (lk_value l') + of_bool (c = Reading) = lv_readers (lk_value l) + of_bool (c' = Reading) \<and>
     of_bool (bit (lk_value l') 1) + of_bool (c = Writing) =
       of_bool (bit (lk_value l) 1) + (of_bool (c' = Writing) :: nat) \<and>
     of_bool (bit (lk_value l') 0) + of_bool (holds_pre c) =
       of_bool (bit (lk_value l) 0) + (of_bool (holds_pre c') :: nat) \<and>
     (bit (lk_value l') 1 \<longrightarrow> lv_readers (lk_value l') = 0) \<and>
     (lk_threadidpw l' = i + 1 \<longrightarrow> holds_pre c') \<and>
     (lk_threadidpw l' = lk_threadidpw l \<or> lk_threadidpw l' = 0 \<or> lk_threadidpw l' = i + 1)"

lemma ll_inv_local:
  assumes inv: "ll_inv (l, ts)" and i: "i < length ts" and loc: "ll_local i l (ts ! i) l' c"
  shows "ll_inv (l', ts[i := c])"
proof -
  let ?ts = "ts[i := c]"
  note cu = count_updates [OF i, of c]
  have ok: "list_all pc_ok ?ts"
    using inv loc i by (auto simp: ll_inv_def ll_local_def list_all_length nth_list_update)
  have r: "lv_readers (lk_value l') = readers ?ts"
    using inv loc cu(1) by (auto simp: ll_inv_def ll_local_def of_bool_def split: if_splits)
  have w: "writers ?ts = (if bit (lk_value l') 1 then 1 else 0)"
    using inv loc cu(2) by (auto simp: ll_inv_def ll_local_def of_bool_def split: if_splits)
  have p: "pre_holders ?ts = (if bit (lk_value l') 0 then 1 else 0)"
    using inv loc cu(3) by (auto simp: ll_inv_def ll_local_def of_bool_def split: if_splits)
  have t: "\<forall>j < length ?ts. lk_threadidpw l' = j + 1 \<longrightarrow> holds_pre (?ts ! j)"
  proof -
    have "\<forall>j < length ts. lk_threadidpw l = j + 1 \<longrightarrow> holds_pre (ts ! j)"
      using inv by (simp add: ll_inv_def)
    moreover have "lk_threadidpw l' = i + 1 \<longrightarrow> holds_pre c"
      "lk_threadidpw l' = lk_threadidpw l \<or> lk_threadidpw l' = 0 \<or> lk_threadidpw l' = i + 1"
      using loc by (simp_all add: ll_local_def)
    ultimately have "lk_threadidpw l' = j + 1 \<longrightarrow> j < length ts \<longrightarrow> holds_pre (ts[i := c] ! j)" for j
      by (cases "j = i") auto
    then show ?thesis by simp
  qed
  show ?thesis
    using inv loc ok r w p t by (auto simp: ll_inv_def ll_local_def split: if_splits)
qed

lemma ll_inv_at:
  assumes "ll_inv (l, ts)" and "i < length ts"
  shows "pc_ok (ts ! i)" "ts ! i = Writing \<Longrightarrow> bit (lk_value l) 1 \<and> lv_readers (lk_value l) = 0"
    "ts ! i = Reading \<Longrightarrow> 0 < lv_readers (lk_value l) \<and> \<not> bit (lk_value l) 1"
    "holds_pre (ts ! i) \<Longrightarrow> bit (lk_value l) 0"
    "lk_threadidpw l = i + 1 \<Longrightarrow> holds_pre (ts ! i)"
    "bit (lk_value l) 1 \<Longrightarrow> lv_readers (lk_value l) = 0"
    "ts ! i \<noteq> Reading \<Longrightarrow> lv_readers (lk_value l) < 1073741823"
proof -
  note cu = count_updates [OF assms(2), of Idle] filter_count_update [OF assms(2), of "\<lambda>_. True" Idle]
  show "pc_ok (ts ! i)" using assms by (simp add: ll_inv_def list_all_length)
  show "lk_threadidpw l = i + 1 \<Longrightarrow> holds_pre (ts ! i)" using assms by (simp add: ll_inv_def)
  show "bit (lk_value l) 1 \<Longrightarrow> lv_readers (lk_value l) = 0" using assms by (simp add: ll_inv_def)
  show "ts ! i = Writing \<Longrightarrow> bit (lk_value l) 1 \<and> lv_readers (lk_value l) = 0"
    using assms cu by (auto simp: ll_inv_def split: if_splits)
  show "ts ! i = Reading \<Longrightarrow> 0 < lv_readers (lk_value l) \<and> \<not> bit (lk_value l) 1"
    using assms cu by (auto simp: ll_inv_def split: if_splits)
  show "holds_pre (ts ! i) \<Longrightarrow> bit (lk_value l) 0"
    using assms cu by (auto simp: ll_inv_def split: if_splits)
  have "readers ts < length ts" if "ts ! i \<noteq> Reading"
    using that assms(2) unfolding readers_def by (meson length_filter_less nth_mem)
  then show "ts ! i \<noteq> Reading \<Longrightarrow> lv_readers (lk_value l) < 1073741823"
    using assms by (auto simp: ll_inv_def)
qed

lemma wl_finish_local:
  assumes "\<not> wl_blocked l block" and "tmp = 1 \<and> block = 2 \<and> bit (lk_value l) 0 \<or> tmp = 0 \<and> block = 3"
    and "c \<noteq> Reading" and "c \<noteq> Writing" and "holds_pre c \<longleftrightarrow> tmp = 1"
  shows "ll_local i l c (wl_finish (i + 1) l tmp) Writing"
proof -
  have z: "lv_readers (lk_value l) = 0" "\<not> bit (lk_value l) 1"
    using assms(1,2) by (auto simp: wl_blocked_def simple_lock_defs lv_simps)
  have d: "drop_bit 2 tmp = 0" "\<not> bit tmp (Suc 0)" "bit tmp 0 \<longleftrightarrow> tmp = 1"
    using assms(2) by auto
  show ?thesis
    using assms z d
    by (auto simp: ll_local_def wl_finish_def simple_lock_defs pc_ok_def holds_pre_def lv_or bit_andnot
        lv_readers_andnot wl_blocked_def and_three_zero_iff)
qed

lemma ll_local_trans:
  assumes "ll_local i l c l' c'" and "ll_local i l' c' l'' c''"
  shows "ll_local i l c l'' c''"
proof -
  have "lk_threadidpw l'' = lk_threadidpw l \<or> lk_threadidpw l'' = 0 \<or> lk_threadidpw l'' = i + 1"
    using assms by (auto simp: ll_local_def)
  moreover have "lv_readers (lk_value l'') + of_bool (c = Reading) =
      lv_readers (lk_value l) + of_bool (c'' = Reading)"
    "of_bool (bit (lk_value l'') 1) + of_bool (c = Writing) =
      of_bool (bit (lk_value l) 1) + (of_bool (c'' = Writing) :: nat)"
    "of_bool (bit (lk_value l'') 0) + of_bool (holds_pre c) =
      of_bool (bit (lk_value l) 0) + (of_bool (holds_pre c'') :: nat)"
    using assms unfolding ll_local_def by linarith+
  ultimately show ?thesis using assms(2) by (simp add: ll_local_def)
qed

lemma ll_local_same:
  assumes "pc_ok c'" and "c \<noteq> Reading" "c \<noteq> Writing" "c' \<noteq> Reading" "c' \<noteq> Writing"
    and "holds_pre c' = holds_pre c" and "lk_threadidpw l = i + 1 \<longrightarrow> holds_pre c"
    and "bit (lk_value l) 1 \<longrightarrow> lv_readers (lk_value l) = 0"
  shows "ll_local i l c l c'"
  using assms by (simp add: ll_local_def)

lemma ll_local_claim:
  assumes "\<not> bit (lk_value l) 0" and "c \<noteq> Reading" "c \<noteq> Writing" "\<not> holds_pre c"
    and "bit (lk_value l) 1 \<longrightarrow> lv_readers (lk_value l) = 0"
  shows "ll_local i l c (l\<lparr>lk_value := lk_value l OR 1, lk_threadidpw := i + 1\<rparr>) (WWait 1 2)"
  using assms by (simp add: ll_local_def pc_ok_def lv_or)

lemma wl_loop_local:
  assumes "wl_loop (i + 1) (l, tmp, block) = (l', c)" and "pc_ok (WWait tmp block)"
    and "holds_pre (WWait tmp block) \<longrightarrow> bit (lk_value l) 0"
    and "lk_threadidpw l = i + 1 \<longrightarrow> holds_pre (WWait tmp block)"
    and "bit (lk_value l) 1 \<longrightarrow> lv_readers (lk_value l) = 0"
  shows "ll_local i l (WWait tmp block) l' c"
proof (cases "wl_blocked l block")
  case True
  then have "l' = l" "c = WWait tmp block" using assms(1) by (auto simp: wl_loop_def)
  then show ?thesis using assms by (simp add: ll_local_same)
next
  case False
  have "tmp = 1 \<and> block = 2 \<and> bit (lk_value l) 0 \<or> tmp = 0 \<and> block = 3"
    using assms(2,3) by (auto simp: pc_ok_def)
  with False show ?thesis
    using assms(1) wl_finish_local [OF False, of tmp "WWait tmp block" i] by (auto simp: wl_loop_def)
qed

lemma ll_local_bit1:
  "ll_local i l c l' c' \<Longrightarrow> bit (lk_value l') 1 \<longrightarrow> lv_readers (lk_value l') = 0"
  by (simp add: ll_local_def)

lemma write_lock_list_local:
  assumes "write_lock_list (i + 1) l = (l', c)" and "lk_threadidpw l \<noteq> i + 1"
    and "bit (lk_value l) 1 \<longrightarrow> lv_readers (lk_value l) = 0"
  shows "ll_local i l Idle l' c"
proof (cases "bit (lk_value l) 0")
  case True
  then have "wl_enter (i + 1) l = (l, 0, 3)"
    using assms(2) by (simp add: wl_enter_def simple_lock_defs lv_simps)
  with True have "ll_local i l (WWait 0 3) l' c"
    using assms by (intro wl_loop_local) (simp_all add: write_lock_list_def pc_ok_def)
  moreover have "ll_local i l Idle l (WWait 0 3)"
    using assms by (intro ll_local_same) (simp_all add: pc_ok_def)
  ultimately show ?thesis by (rule ll_local_trans [rotated])
next
  case False
  let ?l = "l\<lparr>lk_value := lk_value l OR 1, lk_threadidpw := i + 1\<rparr>"
  have cl: "ll_local i l Idle ?l (WWait 1 2)"
    using False assms(3) by (intro ll_local_claim) simp_all
  have "wl_enter (i + 1) l = (?l, 1, 2)"
    using False by (simp add: wl_enter_def simple_lock_defs lv_simps)
  then have "ll_local i ?l (WWait 1 2) l' c"
    using assms ll_local_bit1 [OF cl]
    by (intro wl_loop_local) (simp_all add: write_lock_list_def pc_ok_def lv_or)
  with cl show ?thesis by (rule ll_local_trans)
qed

lemma write_lock_wake_local:
  assumes "write_lock_wake (i + 1) tmp block l = (l', c)" and "pc_ok (WWait tmp block)"
    and "lk_threadidpw l = i + 1 \<longrightarrow> holds_pre (WWait tmp block)"
    and "holds_pre (WWait tmp block) \<longrightarrow> bit (lk_value l) 0"
    and "bit (lk_value l) 1 \<longrightarrow> lv_readers (lk_value l) = 0"
  shows "ll_local i l (WWait tmp block) l' c"
proof (cases "wl_blocked l block \<and> block = 3 \<and> \<not> bit (lk_value l) 0")
  case True
  let ?l = "l\<lparr>lk_value := lk_value l OR 1, lk_threadidpw := i + 1\<rparr>"
  have t: "tmp = 0" using assms(2) True by (auto simp: pc_ok_def)
  have cl: "ll_local i l (WWait tmp block) ?l (WWait 1 2)"
    using True t assms(5) by (intro ll_local_claim) simp_all
  have "wl_retry (i + 1) l tmp block = (?l, 1, 2)"
    using True t by (simp add: wl_retry_def simple_lock_defs lv_simps)
  then have "ll_local i ?l (WWait 1 2) l' c"
    using assms True t ll_local_bit1 [OF cl]
    by (intro wl_loop_local) (auto simp: write_lock_wake_def pc_ok_def lv_or)
  with cl show ?thesis by (rule ll_local_trans)
next
  case False
  then have "write_lock_wake (i + 1) tmp block l = wl_loop (i + 1) (l, tmp, block)"
    using assms(2)
    by (auto simp: write_lock_wake_def wl_loop_def wl_retry_def simple_lock_defs lv_simps pc_ok_def)
  then show ?thesis using assms by (intro wl_loop_local) simp_all
qed

lemma read_lock_list_local:
  assumes "read_lock_list l = (l', c)" and "c0 = Idle \<or> c0 = RWait"
    and "lk_threadidpw l = i + 1 \<longrightarrow> holds_pre c0" and "lv_readers (lk_value l) < 1073741823"
    and "bit (lk_value l) 1 \<longrightarrow> lv_readers (lk_value l) = 0"
  shows "ll_local i l c0 l' c"
  using assms
  by (auto simp: read_lock_list_def simple_lock_defs ll_local_def pc_ok_def lv_plus and_three_zero_iff
      split: if_splits)

lemma unlock_local:
  "bit (lk_value l) 1 \<Longrightarrow> lv_readers (lk_value l) = 0 \<Longrightarrow> lk_threadidpw l \<noteq> i + 1 \<Longrightarrow>
     ll_local i l Writing (write_unlock_list l) Idle"
  "0 < lv_readers (lk_value l) \<Longrightarrow> \<not> bit (lk_value l) 1 \<Longrightarrow> lk_threadidpw l \<noteq> i + 1 \<Longrightarrow>
     ll_local i l Reading (read_unlock_list l) Idle"
  by (simp_all add: write_unlock_list_def read_unlock_list_def ll_local_def pc_ok_def
      bit_andnot lv_readers_andnot lv_minus ge_four_iff SIMPLE_LOCK_READ_def write_bits)

lemma ll_inv_step:
  assumes "ll_step s s'" and "ll_inv s"
  shows "ll_inv s'"
  using assms
proof (cases rule: ll_step.cases)
  case (write_enter i ts l l' c)
  note at = ll_inv_at [OF assms(2) [unfolded write_enter(1)] write_enter(3)]
  have "ll_local i l (ts ! i) l' c"
    using write_enter at by (auto intro!: write_lock_list_local)
  then show ?thesis using write_enter assms(2) by (simp add: ll_inv_local)
next
  case (write_wake i ts tmp block l l' c)
  note at = ll_inv_at [OF assms(2) [unfolded write_wake(1)] write_wake(3)]
  have "ll_local i l (ts ! i) l' c"
    using write_wake at by (auto intro!: write_lock_wake_local)
  then show ?thesis using write_wake assms(2) by (simp add: ll_inv_local)
next
  case (write_exit i ts l)
  note at = ll_inv_at [OF assms(2) [unfolded write_exit(1)] write_exit(3)]
  have "ll_local i l (ts ! i) (write_unlock_list l) Idle"
    using write_exit at by (auto intro!: unlock_local)
  then show ?thesis using write_exit assms(2) by (simp add: ll_inv_local)
next
  case (read_enter i ts l l' c)
  note at = ll_inv_at [OF assms(2) [unfolded read_enter(1)] read_enter(3)]
  have "ll_local i l (ts ! i) l' c"
    using read_enter at by (auto intro!: read_lock_list_local)
  then show ?thesis using read_enter assms(2) by (simp add: ll_inv_local)
next
  case (read_wake i ts l l' c)
  note at = ll_inv_at [OF assms(2) [unfolded read_wake(1)] read_wake(3)]
  have "ll_local i l (ts ! i) l' c"
    using read_wake at by (auto intro!: read_lock_list_local)
  then show ?thesis using read_wake assms(2) by (simp add: ll_inv_local)
next
  case (read_exit i ts l)
  note at = ll_inv_at [OF assms(2) [unfolded read_exit(1)] read_exit(3)]
  have "ll_local i l (ts ! i) (read_unlock_list l) Idle"
    using read_exit at by (auto intro!: unlock_local)
  then show ?thesis using read_exit assms(2) by (simp add: ll_inv_local)
qed

lemma ll_inv_reachable: "ll_step\<^sup>*\<^sup>* s s' \<Longrightarrow> ll_inv s \<Longrightarrow> ll_inv s'"
  by (induction rule: rtranclp_induct) (auto intro: ll_inv_step)

section \<open>Properties\<close>

lemma two_in_filter:
  assumes "i < length xs" "j < length xs" "i \<noteq> j" "P (xs ! i)" "P (xs ! j)"
  shows "2 \<le> length (filter P xs)"
proof -
  have "{i, j} \<subseteq> {k. k < length xs \<and> P (xs ! k)}" using assms by auto
  then have "card {i, j} \<le> card {k. k < length xs \<and> P (xs ! k)}" by (intro card_mono) auto
  with assms(3) show ?thesis by (simp add: length_filter_conv_card)
qed

lemma one_in_filter: "i < length xs \<Longrightarrow> P (xs ! i) \<Longrightarrow> 0 < length (filter P xs)"
  by (auto simp: filter_empty_conv)

text \<open>
  C2: mutual exclusion of the list lock. In every state that fewer than \<open>2^30\<close> threads can reach
  from the free lock, whatever the order of their lock and unlock calls and of the wake
  ups, a thread that writes is the only one that reads or writes.
\<close>

theorem list_lock_exclusive:
  assumes "n < 1073741824" and "ll_step\<^sup>*\<^sup>* (ll_init n) (l, ts)"
    and "i < length ts" and "j < length ts" and "i \<noteq> j" and "ts ! i = Writing"
  shows "ts ! j \<noteq> Writing \<and> ts ! j \<noteq> Reading"
proof -
  have inv: "ll_inv (l, ts)" by (rule ll_inv_reachable [OF assms(2) ll_inv_init [OF assms(1)]])
  have w: "writers ts \<le> 1" using inv by (simp add: ll_inv_def)
  have "0 < writers ts" using one_in_filter [OF assms(3), of "\<lambda>c. c = Writing"] assms(6)
    by (simp add: writers_def)
  then have "readers ts = 0" using inv by (simp add: ll_inv_def)
  moreover have "ts ! j = Writing \<Longrightarrow> 2 \<le> writers ts"
    using two_in_filter [OF assms(3-5), of "\<lambda>c. c = Writing"] assms(6) by (simp add: writers_def)
  moreover have "ts ! j = Reading \<Longrightarrow> 0 < readers ts"
    using one_in_filter [OF assms(4), of "\<lambda>c. c = Reading"] by (simp add: readers_def)
  ultimately show ?thesis using w by auto
qed

lemma ll_init_2:
  "ll_init 2 = (\<lparr>lk_value = 0, lk_threadidw = 0, lk_threadidpw = 0, lk_signal = 0\<rparr>, [Idle, Idle])"
  by (simp add: ll_init_def numeral_2_eq_2)

lemma ll_example_step:
  "ll_step (ll_init 2) (\<lparr>lk_value = 2, lk_threadidw = 1, lk_threadidpw = 0, lk_signal = 0\<rparr>, [Writing, Idle])"
  unfolding ll_init_2
  using ll_step.write_enter [of 0 "[Idle, Idle]" "\<lparr>lk_value = 0, lk_threadidw = 0, lk_threadidpw = 0, lk_signal = 0\<rparr>"
      "\<lparr>lk_value = 2, lk_threadidw = 1, lk_threadidpw = 0, lk_signal = 0\<rparr>" Writing]
  by (simp add: write_lock_list_def wl_enter_def wl_loop_def wl_blocked_def wl_finish_def simple_lock_defs)

lemma ll_example_waiting:
  "ll_step\<^sup>*\<^sup>* (ll_init 2)
     (\<lparr>lk_value = 3, lk_threadidw = 1, lk_threadidpw = 2, lk_signal = 0\<rparr>, [Writing, WWait 1 2])"
proof -
  let ?l = "\<lparr>lk_value = 2, lk_threadidw = 1, lk_threadidpw = 0, lk_signal = 0\<rparr>"
  let ?l' = "\<lparr>lk_value = 3, lk_threadidw = 1, lk_threadidpw = 2, lk_signal = 0\<rparr>"
  have "ll_step (?l, [Writing, Idle]) (?l', [Writing, WWait 1 2])"
    using ll_step.write_enter [of 1 "[Writing, Idle]" ?l ?l' "WWait 1 2"]
    by (simp add: write_lock_list_def wl_enter_def wl_loop_def wl_blocked_def simple_lock_defs)
  with ll_example_step show ?thesis
    by (meson r_into_rtranclp rtranclp.rtrancl_into_rtrancl)
qed

theorem list_lock_exclusive_witness:
  "[Writing, Idle] ! 1 \<noteq> Writing \<and> [Writing, Idle] ! 1 \<noteq> Reading"
  using list_lock_exclusive [OF _ r_into_rtranclp [of ll_step, OF ll_example_step], of 0 1] by simp

text \<open>
  A waiting writer is not overtaken. Once a thread holds the \<open>PREWRITE\<close> mark, a thread
  that asks for a read lock, or is woken up while it waits for one, does not get it.
\<close>

lemma prewrite_stops_readers:
  assumes "n < 1073741824" and "ll_step\<^sup>*\<^sup>* (ll_init n) (l, ts)"
    and "i < length ts" and "ts ! i = WWait SIMPLE_LOCK_PREWRITE block"
  shows "read_lock_list l = (l, RWait)"
proof -
  have inv: "ll_inv (l, ts)" by (rule ll_inv_reachable [OF assms(2) ll_inv_init [OF assms(1)]])
  have "holds_pre (ts ! i)"
    using ll_inv_at(1) [OF inv assms(3)] assms(4) by (auto simp: pc_ok_def SIMPLE_LOCK_PREWRITE_def)
  then have "bit (lk_value l) 0" by (rule ll_inv_at(4) [OF inv assms(3)])
  then show ?thesis by (simp add: read_lock_list_def simple_lock_defs and_three_zero_iff)
qed

lemma prewrite_stops_readers_example:
  "read_lock_list \<lparr>lk_value = 3, lk_threadidw = 1, lk_threadidpw = 2, lk_signal = 0\<rparr> =
     (\<lparr>lk_value = 3, lk_threadidw = 1, lk_threadidpw = 2, lk_signal = 0\<rparr>, RWait)"
  using prewrite_stops_readers [OF _ ll_example_waiting, of 1 2] by (simp add: SIMPLE_LOCK_PREWRITE_def)

text \<open>
  C31: the lock is not left stuck. When nobody reads or writes and some thread waits, a
  single wake up of some waiting thread gives it the lock.
\<close>

theorem list_lock_progress:
  assumes "n < 1073741824" and "ll_step\<^sup>*\<^sup>* (ll_init n) (l, ts)"
    and "\<forall>c \<in> set ts. c \<noteq> Reading \<and> c \<noteq> Writing" and "\<exists>c \<in> set ts. c \<noteq> Idle"
  shows "\<exists>i l' c. i < length ts \<and> (c = Reading \<or> c = Writing) \<and> ts ! i \<noteq> Idle \<and>
           ll_step (l, ts) (l', ts[i := c])"
proof -
  have inv: "ll_inv (l, ts)" by (rule ll_inv_reachable [OF assms(2) ll_inv_init [OF assms(1)]])
  have r0: "readers ts = 0" "writers ts = 0"
    using assms(3) by (auto simp: readers_def writers_def filter_empty_conv)
  then have v: "lv_readers (lk_value l) = 0" "\<not> bit (lk_value l) 1"
    using inv by (auto simp: ll_inv_def split: if_splits)
  have "\<exists>i < length ts. ts ! i \<noteq> Idle \<and> (bit (lk_value l) 0 \<longrightarrow> holds_pre (ts ! i))"
  proof (cases "bit (lk_value l) 0")
    case True
    then have "pre_holders ts = 1" using inv by (simp add: ll_inv_def)
    then obtain c where "c \<in> set ts" "holds_pre c"
      unfolding pre_holders_def by (metis filter_empty_conv length_0_conv zero_neq_one)
    then show ?thesis by (metis in_set_conv_nth holds_pre_simps(1))
  qed (use assms(4) in \<open>metis in_set_conv_nth\<close>)
  then obtain i where i: "i < length ts" "ts ! i \<noteq> Idle" "bit (lk_value l) 0 \<longrightarrow> holds_pre (ts ! i)"
    by blast
  have ok: "pc_ok (ts ! i)" by (rule ll_inv_at(1) [OF inv i(1)])
  show ?thesis
  proof (cases "ts ! i")
    case (WWait tmp block)
    then have "\<not> wl_blocked l block"
      using v i(3) ok by (auto simp: wl_blocked_def simple_lock_defs lv_simps pc_ok_def)
    then have "write_lock_wake (i + 1) tmp block l = (wl_finish (i + 1) l tmp, Writing)"
      by (simp add: write_lock_wake_def)
    then show ?thesis using ll_step.write_wake [OF i(1) WWait] i(1,2) by blast
  next
    case RWait
    then have "read_lock_list l = (l\<lparr>lk_value := lk_value l + SIMPLE_LOCK_READ\<rparr>, Reading)"
      using v i(3) by (simp add: read_lock_list_def and_three_zero_iff SIMPLE_LOCK_WRITE_def SIMPLE_LOCK_PREWRITE_def)
    then show ?thesis using ll_step.read_wake [OF i(1) RWait] i(1,2) by blast
  qed (use i assms(3) nth_mem in \<open>fastforce+\<close>)
qed

theorem list_lock_progress_witness:
  "\<exists>i l' c. i < 2 \<and> (c = Reading \<or> c = Writing) \<and> [Idle, WWait 1 2] ! i \<noteq> Idle \<and>
     ll_step (\<lparr>lk_value = 1, lk_threadidw = 0, lk_threadidpw = 2, lk_signal = 0\<rparr>, [Idle, WWait 1 2])
             (l', [Idle, WWait 1 2][i := c])"
proof -
  let ?l = "\<lparr>lk_value = 3, lk_threadidw = 1, lk_threadidpw = 2, lk_signal = 0\<rparr>"
  let ?l' = "\<lparr>lk_value = 1, lk_threadidw = 0, lk_threadidpw = 2, lk_signal = 0\<rparr>"
  have "ll_step (?l, [Writing, WWait 1 2]) (?l', [Idle, WWait 1 2])"
    using ll_step.write_exit [of 0 "[Writing, WWait 1 2]" ?l]
    by (simp add: write_unlock_list_def simple_lock_defs)
  then have "ll_step\<^sup>*\<^sup>* (ll_init 2) (?l', [Idle, WWait 1 2])"
    by (rule rtranclp.rtrancl_into_rtrancl [OF ll_example_waiting])
  from list_lock_progress [OF _ this] show ?thesis by (simp add: numeral_2_eq_2)
qed

end
