(* ===== verification/Simple_List.thy ===== *)
theory Simple_List
  imports List_Lock
begin

text \<open>
  The doubly linked lists of \<open>src/lib/list/simple-list.c\<close>, on a heap. A header contains two
  sentinel elements, \<open>head\<close> and \<open>tail\<close>, and a table of operations that depends on the number of
  elements (none, one, more); an element has a table of its own for its kind (sentinel,
  standing alone, in a list).

  The heap maps the address of an element to its fields; the sentinels of header \<open>h\<close> live at
  the addresses \<open>Head h\<close> and \<open>Tail h\<close>. An operation gives \<open>None\<close> when it follows a \<open>NULL\<close> pointer.
  The representation predicate \<open>list_rep\<close> relates a header to the sequence of its elements; the
  theorems show that every operation does to that sequence what its name says, keeps the
  predicate, and leaves the lists of other headers alone.
\<close>

section \<open>The heap\<close>

datatype addr = Head nat | Tail nat | Elem nat

datatype element_ops = system_head_element_ops | system_tail_element_ops | standalone_element_ops
  | default_element_ops

datatype header_ops = empty_header_ops | one_list_ops | default_header_ops

record list_element_s =
  le_h :: "nat option"
  le_n :: "addr option"
  le_p :: "addr option"
  le_ops :: "element_ops option"
  le_lock :: list_lock_s

record list_header_s =
  lh_flags :: u32
  lh_count :: u64
  lh_lock :: list_lock_s
  lh_ops :: "header_ops option"

record list_heap =
  hp_el :: "addr \<Rightarrow> list_element_s"
  hp_hd :: "nat \<Rightarrow> list_header_s"

definition upd_el :: "addr \<Rightarrow> (list_element_s \<Rightarrow> list_element_s) \<Rightarrow> list_heap \<Rightarrow> list_heap" where
  "upd_el a f hp = hp\<lparr>hp_el := (hp_el hp)(a := f (hp_el hp a))\<rparr>"

definition upd_hd :: "nat \<Rightarrow> (list_header_s \<Rightarrow> list_header_s) \<Rightarrow> list_heap \<Rightarrow> list_heap" where
  "upd_hd h f hp = hp\<lparr>hp_hd := (hp_hd hp)(h := f (hp_hd hp h))\<rparr>"

definition set_n :: "addr \<Rightarrow> addr option \<Rightarrow> list_heap \<Rightarrow> list_heap" where
  "set_n a v = upd_el a (\<lambda>e. e\<lparr>le_n := v\<rparr>)"

definition set_p :: "addr \<Rightarrow> addr option \<Rightarrow> list_heap \<Rightarrow> list_heap" where
  "set_p a v = upd_el a (\<lambda>e. e\<lparr>le_p := v\<rparr>)"

definition set_header_ops :: "nat \<Rightarrow> header_ops \<Rightarrow> list_heap \<Rightarrow> list_heap" where
  "set_header_ops h ops = upd_hd h (\<lambda>x. x\<lparr>lh_ops := Some ops\<rparr>)"

definition SIMPLE_LIST_TYPE_EMPTY :: u8 where "SIMPLE_LIST_TYPE_EMPTY = 1"
definition SIMPLE_LIST_TYPE_DEFAULT :: u8 where "SIMPLE_LIST_TYPE_DEFAULT = 2"
definition SIMPLE_LIST_TYPE_ONE :: u8 where "SIMPLE_LIST_TYPE_ONE = 3"
definition SIMPLE_LIST_FLAG_INIT :: u32 where "SIMPLE_LIST_FLAG_INIT = 2"

text \<open>The signal object all lists share has the number 1.\<close>

definition list_shared_signal :: nat where "list_shared_signal = 1"

definition init_list_lock :: list_lock_s where
  "init_list_lock = \<lparr>lk_value = 0, lk_threadidw = 0, lk_threadidpw = 0, lk_signal = list_shared_signal\<rparr>"

definition init_list_element :: "addr \<Rightarrow> nat option \<Rightarrow> list_heap \<Rightarrow> list_heap" where
  "init_list_element e h hp =
     upd_el e (\<lambda>_. \<lparr>le_h = h, le_n = None, le_p = None,
       le_ops = Some (case h of None \<Rightarrow> standalone_element_ops | Some _ \<Rightarrow> default_element_ops),
       le_lock = (case h of None \<Rightarrow> init_list_lock
                  | Some hdr \<Rightarrow> init_list_lock\<lparr>lk_signal := lk_signal (lh_lock (hp_hd hp hdr))\<rparr>)\<rparr>) hp"

section \<open>Moving along a list\<close>

text \<open>The calls \<open>(* e->ops->get_element)(e)\<close>; the inner option is a pointer that may be \<open>NULL\<close>.\<close>

definition get_element :: "list_heap \<Rightarrow> addr \<Rightarrow> addr option option" where
  "get_element hp e = (case le_ops (hp_el hp e) of
     None \<Rightarrow> None
   | Some system_head_element_ops \<Rightarrow> Some None
   | Some system_tail_element_ops \<Rightarrow> Some None
   | Some standalone_element_ops \<Rightarrow> Some (Some e)
   | Some default_element_ops \<Rightarrow> Some (Some e))"

definition get_next_element_default :: "list_heap \<Rightarrow> addr \<Rightarrow> addr option option" where
  "get_next_element_default hp e = do { n \<leftarrow> le_n (hp_el hp e); get_element hp n }"

definition get_prev_element_default :: "list_heap \<Rightarrow> addr \<Rightarrow> addr option option" where
  "get_prev_element_default hp e = do { p \<leftarrow> le_p (hp_el hp e); get_element hp p }"

definition get_next_element_head :: "list_heap \<Rightarrow> addr \<Rightarrow> addr option option" where
  "get_next_element_head hp e = (case le_h (hp_el hp e) of
     None \<Rightarrow> Some None
   | Some h \<Rightarrow> if lh_count (hp_hd hp h) > 0 then get_next_element_default hp e else Some None)"

definition get_prev_element_tail :: "list_heap \<Rightarrow> addr \<Rightarrow> addr option option" where
  "get_prev_element_tail hp e = (case le_h (hp_el hp e) of
     None \<Rightarrow> Some None
   | Some h \<Rightarrow> if lh_count (hp_hd hp h) > 0 then get_prev_element_default hp e else Some None)"

definition get_next_element :: "list_heap \<Rightarrow> addr \<Rightarrow> addr option option" where
  "get_next_element hp e = (case le_ops (hp_el hp e) of
     None \<Rightarrow> None
   | Some system_head_element_ops \<Rightarrow> get_next_element_head hp e
   | Some system_tail_element_ops \<Rightarrow> Some None
   | Some standalone_element_ops \<Rightarrow> Some None
   | Some default_element_ops \<Rightarrow> get_next_element_default hp e)"

definition get_prev_element :: "list_heap \<Rightarrow> addr \<Rightarrow> addr option option" where
  "get_prev_element hp e = (case le_ops (hp_el hp e) of
     None \<Rightarrow> None
   | Some system_head_element_ops \<Rightarrow> Some None
   | Some system_tail_element_ops \<Rightarrow> get_prev_element_tail hp e
   | Some standalone_element_ops \<Rightarrow> Some None
   | Some default_element_ops \<Rightarrow> get_prev_element_default hp e)"

section \<open>Inserting and deleting\<close>

definition insert_element_after_default :: "list_heap \<Rightarrow> nat \<Rightarrow> addr \<Rightarrow> addr \<Rightarrow> list_heap option" where
  "insert_element_after_default hp h p e =
     (let n = le_n (hp_el hp p);
          hp = init_list_element e (Some h) hp in
      do {
        na \<leftarrow> n;
        let hp = set_p na (Some e) hp;
        let hp = set_n p (Some e) hp;
        let hp = set_p e (Some p) hp;
        let hp = set_n e n hp;
        Some (upd_hd h (\<lambda>x. x\<lparr>lh_count := lh_count x + 1\<rparr>) hp) })"

definition insert_element_before_default :: "list_heap \<Rightarrow> nat \<Rightarrow> addr \<Rightarrow> addr \<Rightarrow> list_heap option" where
  "insert_element_before_default hp h n e =
     (let p = le_p (hp_el hp n);
          hp = init_list_element e (Some h) hp in
      do {
        pa \<leftarrow> p;
        let hp = set_n pa (Some e) hp;
        let hp = set_p n (Some e) hp;
        let hp = set_n e (Some n) hp;
        let hp = set_p e p hp;
        Some (upd_hd h (\<lambda>x. x\<lparr>lh_count := lh_count x + 1\<rparr>) hp) })"

definition delete_element_common :: "list_heap \<Rightarrow> addr \<Rightarrow> list_heap option" where
  "delete_element_common hp e = do {
     n \<leftarrow> le_n (hp_el hp e);
     let p = le_p (hp_el hp e);
     let hp = set_p n p hp;
     pa \<leftarrow> p;
     let hp = set_n pa (Some n) hp;
     Some (init_list_element e None hp) }"

definition delete_element_default :: "list_heap \<Rightarrow> nat \<Rightarrow> addr \<Rightarrow> list_heap option" where
  "delete_element_default hp h e = do {
     hp \<leftarrow> delete_element_common hp e;
     let hp = upd_hd h (\<lambda>x. x\<lparr>lh_count := lh_count x - 1\<rparr>) hp;
     Some (if lh_count (hp_hd hp h) = 1 then set_header_ops h one_list_ops hp
           else if lh_count (hp_hd hp h) = 0 then set_header_ops h empty_header_ops hp
           else hp) }"

definition delete_element_one :: "list_heap \<Rightarrow> nat \<Rightarrow> addr \<Rightarrow> list_heap option" where
  "delete_element_one hp h e = do {
     hp \<leftarrow> delete_element_common hp e;
     Some (set_header_ops h empty_header_ops (upd_hd h (\<lambda>x. x\<lparr>lh_count := lh_count x - 1\<rparr>) hp)) }"

definition insert_common_empty_header :: "list_heap \<Rightarrow> nat \<Rightarrow> addr \<Rightarrow> addr \<Rightarrow> list_heap option" where
  "insert_common_empty_header hp h a e = do {
     hp \<leftarrow> insert_element_after_default hp h (Head h) e;
     Some (set_header_ops h one_list_ops hp) }"

definition insert_after_element_one :: "list_heap \<Rightarrow> nat \<Rightarrow> addr \<Rightarrow> addr \<Rightarrow> list_heap option" where
  "insert_after_element_one hp h a e = do {
     hp \<leftarrow> insert_element_after_default hp h a e;
     Some (set_header_ops h default_header_ops hp) }"

definition insert_before_element_one :: "list_heap \<Rightarrow> nat \<Rightarrow> addr \<Rightarrow> addr \<Rightarrow> list_heap option" where
  "insert_before_element_one hp h b e = do {
     hp \<leftarrow> insert_element_before_default hp h b e;
     Some (set_header_ops h default_header_ops hp) }"

text \<open>The calls through the table of a header.\<close>

definition hd_insert_after :: "list_heap \<Rightarrow> nat \<Rightarrow> addr \<Rightarrow> addr \<Rightarrow> list_heap option" where
  "hd_insert_after hp h a e = (case lh_ops (hp_hd hp h) of
     None \<Rightarrow> None
   | Some empty_header_ops \<Rightarrow> insert_common_empty_header hp h a e
   | Some one_list_ops \<Rightarrow> insert_after_element_one hp h a e
   | Some default_header_ops \<Rightarrow> insert_element_after_default hp h a e)"

definition hd_insert_before :: "list_heap \<Rightarrow> nat \<Rightarrow> addr \<Rightarrow> addr \<Rightarrow> list_heap option" where
  "hd_insert_before hp h b e = (case lh_ops (hp_hd hp h) of
     None \<Rightarrow> None
   | Some empty_header_ops \<Rightarrow> insert_common_empty_header hp h b e
   | Some one_list_ops \<Rightarrow> insert_before_element_one hp h b e
   | Some default_header_ops \<Rightarrow> insert_element_before_default hp h b e)"

definition hd_delete :: "list_heap \<Rightarrow> nat \<Rightarrow> addr \<Rightarrow> list_heap option" where
  "hd_delete hp h e = (case lh_ops (hp_hd hp h) of
     None \<Rightarrow> None
   | Some empty_header_ops \<Rightarrow> Some hp
   | Some one_list_ops \<Rightarrow> delete_element_one hp h e
   | Some default_header_ops \<Rightarrow> delete_element_default hp h e)"

definition hd_get_head :: "list_heap \<Rightarrow> nat \<Rightarrow> addr option option" where
  "hd_get_head hp h = (case lh_ops (hp_hd hp h) of
     None \<Rightarrow> None | Some empty_header_ops \<Rightarrow> Some None | Some _ \<Rightarrow> Some (le_n (hp_el hp (Head h))))"

definition hd_get_tail :: "list_heap \<Rightarrow> nat \<Rightarrow> addr option option" where
  "hd_get_tail hp h = (case lh_ops (hp_hd hp h) of
     None \<Rightarrow> None | Some empty_header_ops \<Rightarrow> Some None | Some _ \<Rightarrow> Some (le_p (hp_el hp (Tail h))))"

section \<open>The operations of users\<close>

definition add_list_element_last :: "list_heap \<Rightarrow> nat \<Rightarrow> addr \<Rightarrow> list_heap option" where
  "add_list_element_last hp h e = hd_insert_before (init_list_element e (Some h) hp) h (Tail h) e"

definition add_list_element_first :: "list_heap \<Rightarrow> nat \<Rightarrow> addr \<Rightarrow> list_heap option" where
  "add_list_element_first hp h e = hd_insert_after (init_list_element e (Some h) hp) h (Head h) e"

definition add_list_element_after :: "list_heap \<Rightarrow> nat \<Rightarrow> addr \<Rightarrow> addr \<Rightarrow> list_heap option" where
  "add_list_element_after hp h p e = hd_insert_after (init_list_element e (Some h) hp) h p e"

definition add_list_element_before :: "list_heap \<Rightarrow> nat \<Rightarrow> addr \<Rightarrow> addr \<Rightarrow> list_heap option" where
  "add_list_element_before hp h n e = hd_insert_before (init_list_element e (Some h) hp) h n e"

text \<open>\<open>_rm_default\<close> and \<open>_rm_nothing\<close>, chosen by the table of the element.\<close>

definition rm_default :: "list_heap \<Rightarrow> addr \<Rightarrow> list_heap option" where
  "rm_default hp e = (case le_h (hp_el hp e) of
     None \<Rightarrow> Some hp
   | Some h \<Rightarrow> if lh_ops (hp_hd hp h) = None then Some hp else hd_delete hp h e)"

definition remove_list_element :: "list_heap \<Rightarrow> addr option \<Rightarrow> list_heap option" where
  "remove_list_element hp p_e = (case p_e of
     None \<Rightarrow> Some hp
   | Some e \<Rightarrow> (if le_ops (hp_el hp e) = Some default_element_ops then rm_default hp e else Some hp))"

definition get_list_head :: "list_heap \<Rightarrow> nat \<Rightarrow> addr option option" where
  "get_list_head hp h = hd_get_head hp h"

definition get_list_tail :: "list_heap \<Rightarrow> nat \<Rightarrow> addr option option" where
  "get_list_tail hp h = hd_get_tail hp h"

definition remove_list_head :: "list_heap \<Rightarrow> nat \<Rightarrow> (addr option \<times> list_heap) option" where
  "remove_list_head hp h = do {
     e \<leftarrow> get_list_head hp h; hp \<leftarrow> remove_list_element hp e; Some (e, hp) }"

definition remove_list_tail :: "list_heap \<Rightarrow> nat \<Rightarrow> (addr option \<times> list_heap) option" where
  "remove_list_tail hp h = do {
     e \<leftarrow> get_list_tail hp h; hp \<leftarrow> remove_list_element hp e; Some (e, hp) }"

text \<open>The search loops follow the pointers and may not end on a heap that is not a list.\<close>

partial_function (option) search_forw_loop ::
  "list_heap \<Rightarrow> (addr \<Rightarrow> int) \<Rightarrow> addr option \<Rightarrow> addr option option" where
  "search_forw_loop hp condition p_e = (case p_e of
     None \<Rightarrow> Some None
   | Some e \<Rightarrow> if condition e = 0 then Some (Some e)
       else Option.bind (get_next_element_default hp e) (\<lambda>n. search_forw_loop hp condition n))"

partial_function (option) search_back_loop ::
  "list_heap \<Rightarrow> (addr \<Rightarrow> int) \<Rightarrow> addr option \<Rightarrow> addr option option" where
  "search_back_loop hp condition p_e = (case p_e of
     None \<Rightarrow> Some None
   | Some e \<Rightarrow> if condition e = 0 then Some (Some e)
       else Option.bind (get_prev_element_default hp e) (\<lambda>p. search_back_loop hp condition p))"

definition search_list_element_forw :: "list_heap \<Rightarrow> nat \<Rightarrow> (addr \<Rightarrow> int) \<Rightarrow> addr option option" where
  "search_list_element_forw hp h condition = do { e \<leftarrow> get_list_head hp h; search_forw_loop hp condition e }"

definition search_list_element_back :: "list_heap \<Rightarrow> nat \<Rightarrow> (addr \<Rightarrow> int) \<Rightarrow> addr option option" where
  "search_list_element_back hp h condition = do { e \<leftarrow> get_list_tail hp h; search_back_loop hp condition e }"

definition init_list_header :: "list_heap \<Rightarrow> nat option \<Rightarrow> u8 \<Rightarrow> addr option \<Rightarrow> list_heap option" where
  "init_list_header hp p_h type e = (case p_h of
     None \<Rightarrow> Some hp
   | Some h \<Rightarrow>
     if lh_flags (hp_hd hp h) AND SIMPLE_LIST_FLAG_INIT \<noteq> 0 then Some hp
     else
       let hp = upd_el (Head h) (\<lambda>_. \<lparr>le_h = Some h, le_n = Some (Tail h), le_p = Some (Tail h),
                  le_ops = Some system_head_element_ops, le_lock = init_list_lock\<rparr>) hp;
           hp = upd_el (Tail h) (\<lambda>_. \<lparr>le_h = Some h, le_n = Some (Head h), le_p = Some (Head h),
                  le_ops = Some system_tail_element_ops, le_lock = init_list_lock\<rparr>) hp;
           hp = upd_hd h (\<lambda>x. \<lparr>lh_flags = lh_flags x OR SIMPLE_LIST_FLAG_INIT, lh_count = 0,
                  lh_lock = init_list_lock, lh_ops = Some empty_header_ops\<rparr>) hp in
       if type = SIMPLE_LIST_TYPE_ONE then
         (case e of Some e \<Rightarrow> add_list_element_first hp h e | None \<Rightarrow> Some hp)
       else if type = SIMPLE_LIST_TYPE_DEFAULT then Some (set_header_ops h default_header_ops hp)
       else Some hp)"

definition list_element_is_first :: "list_heap \<Rightarrow> addr \<Rightarrow> int option" where
  "list_element_is_first hp e = do {
     h \<leftarrow> le_h (hp_el hp e); Some (if le_p (hp_el hp e) = Some (Head h) then 0 else -1) }"

definition list_element_is_last :: "list_heap \<Rightarrow> addr \<Rightarrow> int option" where
  "list_element_is_last hp e = do { h \<leftarrow> le_h (hp_el hp e); Some (if e = Tail h then 0 else -1) }"

definition set_signal_list_header :: "list_heap \<Rightarrow> nat \<Rightarrow> nat \<Rightarrow> list_heap" where
  "set_signal_list_header hp h s = upd_hd h (\<lambda>x. x\<lparr>lh_lock := (lh_lock x)\<lparr>lk_signal := s\<rparr>\<rparr>) hp"

section \<open>Linked sequences\<close>

text \<open>A sequence of addresses linked by the maps \<open>N\<close> (next) and \<open>P\<close> (previous).\<close>

fun linked :: "(addr \<Rightarrow> addr option) \<Rightarrow> (addr \<Rightarrow> addr option) \<Rightarrow> addr list \<Rightarrow> bool" where
  "linked N P (a # b # xs) \<longleftrightarrow> N a = Some b \<and> P b = Some a \<and> linked N P (b # xs)"
| "linked N P _ \<longleftrightarrow> True"

lemma in_tlD: "x \<in> set (tl xs) \<Longrightarrow> x \<in> set xs"
  by (cases xs) auto

lemma linked_append:
  "linked N P (xs @ a # b # ys) \<longleftrightarrow>
     linked N P (xs @ [a]) \<and> N a = Some b \<and> P b = Some a \<and> linked N P (b # ys)"
  by (induction N P xs rule: linked.induct) auto

lemma linked_cong:
  assumes "\<forall>a \<in> set (butlast xs). N' a = N a" and "\<forall>a \<in> set (tl xs). P' a = P a"
  shows "linked N' P' xs = linked N P xs"
  using assms by (induction N P xs rule: linked.induct) auto

lemma linked_at:
  assumes "linked N P (xs @ a # b # ys)"
  shows "N a = Some b" and "P b = Some a"
  using assms by (simp_all add: linked_append)

lemma linked_insert:
  assumes "linked N P (xs @ p # n # ys)" and "distinct (xs @ p # n # ys)" and "e \<notin> set (xs @ p # n # ys)"
  shows "linked (N(p \<mapsto> e, e \<mapsto> n)) (P(n \<mapsto> e, e \<mapsto> p)) (xs @ p # e # n # ys)"
proof -
  let ?N = "N(p \<mapsto> e, e \<mapsto> n)" and ?P = "P(n \<mapsto> e, e \<mapsto> p)"
  have l: "linked N P (xs @ [p])" "linked N P (n # ys)"
    using assms(1) by (simp_all add: linked_append)
  have "linked ?N ?P (xs @ [p]) = linked N P (xs @ [p])"
    using assms(2,3) by (intro linked_cong) (auto dest!: in_tlD)
  moreover have "linked ?N ?P (n # ys) = linked N P (n # ys)"
    using assms(2,3) by (intro linked_cong) (auto dest: in_set_butlastD)
  ultimately show ?thesis
    using l assms(2,3) by (auto simp: linked_append)
qed

lemma linked_delete:
  assumes "linked N P (xs @ p # e # n # ys)" and "distinct (xs @ p # e # n # ys)"
  shows "linked (N(p \<mapsto> n, e := u)) (P(n \<mapsto> p, e := v)) (xs @ p # n # ys)"
proof -
  let ?N = "N(p \<mapsto> n, e := u)" and ?P = "P(n \<mapsto> p, e := v)"
  have l: "linked N P (xs @ [p])" "linked N P (n # ys)"
    using assms(1) by (simp_all add: linked_append)
  have "linked ?N ?P (xs @ [p]) = linked N P (xs @ [p])"
    using assms(2) by (intro linked_cong) (auto dest!: in_tlD)
  moreover have "linked ?N ?P (n # ys) = linked N P (n # ys)"
    using assms(2) by (intro linked_cong) (auto dest: in_set_butlastD)
  ultimately show ?thesis
    using l assms(2) by (auto simp: linked_append)
qed

section \<open>The representation predicate\<close>

abbreviation next_of :: "list_heap \<Rightarrow> addr \<Rightarrow> addr option" where
  "next_of hp \<equiv> \<lambda>a. le_n (hp_el hp a)"

abbreviation prev_of :: "list_heap \<Rightarrow> addr \<Rightarrow> addr option" where
  "prev_of hp \<equiv> \<lambda>a. le_p (hp_el hp a)"

definition header_ops_for :: "nat \<Rightarrow> header_ops" where
  "header_ops_for n = (if n = 0 then empty_header_ops else if n = 1 then one_list_ops else default_header_ops)"

definition path :: "nat \<Rightarrow> addr list \<Rightarrow> addr list" where
  "path h xs = Head h # xs @ [Tail h]"

definition list_rep :: "list_heap \<Rightarrow> nat \<Rightarrow> addr list \<Rightarrow> bool" where
  "list_rep hp h xs \<longleftrightarrow>
     linked (next_of hp) (prev_of hp) (path h xs) \<and> distinct xs \<and>
     (\<forall>x \<in> set xs. (\<exists>i. x = Elem i) \<and> le_h (hp_el hp x) = Some h \<and>
                   le_ops (hp_el hp x) = Some default_element_ops) \<and>
     le_ops (hp_el hp (Head h)) = Some system_head_element_ops \<and> le_h (hp_el hp (Head h)) = Some h \<and>
     le_ops (hp_el hp (Tail h)) = Some system_tail_element_ops \<and> le_h (hp_el hp (Tail h)) = Some h \<and>
     unat (lh_count (hp_hd hp h)) = length xs \<and>
     lh_ops (hp_hd hp h) = Some (header_ops_for (length xs))"

text \<open>What an operation on header \<open>h\<close> that touches the element \<open>e\<close> leaves alone.\<close>

definition list_frame :: "list_heap \<Rightarrow> list_heap \<Rightarrow> nat \<Rightarrow> addr list \<Rightarrow> bool" where
  "list_frame hp hp' h xs \<longleftrightarrow>
     (\<forall>a. a \<notin> set (path h xs) \<longrightarrow> hp_el hp' a = hp_el hp a) \<and> (\<forall>h'. h' \<noteq> h \<longrightarrow> hp_hd hp' h' = hp_hd hp h')"

lemma list_repD:
  assumes "list_rep hp h xs"
  shows "linked (next_of hp) (prev_of hp) (path h xs)" "distinct xs"
    "x \<in> set xs \<Longrightarrow> \<exists>i. x = Elem i" "x \<in> set xs \<Longrightarrow> le_h (hp_el hp x) = Some h"
    "x \<in> set xs \<Longrightarrow> le_ops (hp_el hp x) = Some default_element_ops"
    "le_ops (hp_el hp (Head h)) = Some system_head_element_ops" "le_h (hp_el hp (Head h)) = Some h"
    "le_ops (hp_el hp (Tail h)) = Some system_tail_element_ops" "le_h (hp_el hp (Tail h)) = Some h"
    "unat (lh_count (hp_hd hp h)) = length xs"
    "lh_ops (hp_hd hp h) = Some (header_ops_for (length xs))"
  using assms unfolding list_rep_def by blast+

lemmas heap_defs = upd_el_def upd_hd_def set_n_def set_p_def set_header_ops_def init_list_element_def

lemma distinct_path: "list_rep hp h xs \<Longrightarrow> distinct (path h xs)"
  by (auto simp: list_rep_def path_def)

lemma elem_not_sentinel: "list_rep hp h xs \<Longrightarrow> Elem i \<notin> set xs \<Longrightarrow> Elem i \<notin> set (path h xs)"
  by (auto simp: path_def)

lemma list_rep_other:
  assumes "list_rep hp h' ys" and "list_frame hp hp' h xs" and "h' \<noteq> h" and "set ys \<inter> set xs = {}"
    and "\<forall>x \<in> set xs. \<exists>i. x = Elem i"
  shows "list_rep hp' h' ys"
proof -
  have out: "a \<notin> set (path h xs)" if "a \<in> set (path h' ys)" for a
    using that assms(1,3-5) by (auto simp: path_def list_rep_def)
  have el: "hp_el hp' a = hp_el hp a" if "a \<in> set (path h' ys)" for a
    using out [OF that] assms(2) by (simp add: list_frame_def)
  have "linked (next_of hp') (prev_of hp') (path h' ys) = linked (next_of hp) (prev_of hp) (path h' ys)"
    using el by (intro linked_cong) (auto dest: in_set_butlastD list.set_sel(2) simp: path_def)
  then show ?thesis
    using assms el by (simp add: list_rep_def list_frame_def path_def)
qed

section \<open>The effect of an insertion\<close>

definition inserted :: "list_heap \<Rightarrow> list_heap \<Rightarrow> nat \<Rightarrow> addr \<Rightarrow> addr \<Rightarrow> addr \<Rightarrow> bool" where
  "inserted hp hp' h p e n \<longleftrightarrow>
     next_of hp' = (next_of hp)(p \<mapsto> e, e \<mapsto> n) \<and> prev_of hp' = (prev_of hp)(n \<mapsto> e, e \<mapsto> p) \<and>
     (\<forall>a. a \<noteq> e \<longrightarrow> le_ops (hp_el hp' a) = le_ops (hp_el hp a) \<and> le_h (hp_el hp' a) = le_h (hp_el hp a)) \<and>
     le_ops (hp_el hp' e) = Some default_element_ops \<and> le_h (hp_el hp' e) = Some h \<and>
     (\<forall>a. a \<notin> {p, e, n} \<longrightarrow> hp_el hp' a = hp_el hp a) \<and>
     lh_count (hp_hd hp' h) = lh_count (hp_hd hp h) + 1 \<and>
     (\<forall>h'. h' \<noteq> h \<longrightarrow> hp_hd hp' h' = hp_hd hp h')"

lemma insertedD:
  assumes "inserted hp hp' h p e n"
  shows "next_of hp' = (next_of hp)(p \<mapsto> e, e \<mapsto> n)" "prev_of hp' = (prev_of hp)(n \<mapsto> e, e \<mapsto> p)"
    "a \<noteq> e \<Longrightarrow> le_ops (hp_el hp' a) = le_ops (hp_el hp a)"
    "a \<noteq> e \<Longrightarrow> le_h (hp_el hp' a) = le_h (hp_el hp a)"
    "le_ops (hp_el hp' e) = Some default_element_ops" "le_h (hp_el hp' e) = Some h"
    "a \<notin> {p, e, n} \<Longrightarrow> hp_el hp' a = hp_el hp a"
    "lh_count (hp_hd hp' h) = lh_count (hp_hd hp h) + 1"
    "h' \<noteq> h \<Longrightarrow> hp_hd hp' h' = hp_hd hp h'"
  using assms unfolding inserted_def by blast+

lemma insert_after_default_inserted:
  assumes "next_of hp p = Some n" and "e \<noteq> p" "e \<noteq> n" "p \<noteq> n"
  shows "\<exists>hp'. insert_element_after_default hp h p e = Some hp' \<and> inserted hp hp' h p e n \<and>
               lh_ops (hp_hd hp' h) = lh_ops (hp_hd hp h)"
  using assms
  by (simp add: insert_element_after_default_def heap_defs Let_def inserted_def fun_eq_iff)

lemma insert_before_default_inserted:
  assumes "prev_of hp n = Some p" and "e \<noteq> p" "e \<noteq> n" "p \<noteq> n"
  shows "\<exists>hp'. insert_element_before_default hp h n e = Some hp' \<and> inserted hp hp' h p e n \<and>
               lh_ops (hp_hd hp' h) = lh_ops (hp_hd hp h)"
  using assms
  by (simp add: insert_element_before_default_def heap_defs Let_def inserted_def fun_eq_iff)

lemma inserted_init:
  "inserted (init_list_element e x hp) hp' h p e n \<Longrightarrow> e \<noteq> p \<Longrightarrow> e \<noteq> n \<Longrightarrow> inserted hp hp' h p e n"
  by (auto simp: inserted_def heap_defs fun_eq_iff split: if_splits)

lemma inserted_set_ops: "inserted hp hp' h p e n \<Longrightarrow> inserted hp (set_header_ops h ops hp') h p e n"
  by (simp add: inserted_def set_header_ops_def upd_hd_def)

lemma path_split:
  "path h (ys @ zs) = butlast (Head h # ys) @ last (Head h # ys) # hd (zs @ [Tail h]) # tl (zs @ [Tail h])"
proof -
  have "path h (ys @ zs) = (Head h # ys) @ (zs @ [Tail h])" by (simp add: path_def)
  also have "Head h # ys = butlast (Head h # ys) @ [last (Head h # ys)]" by simp
  also have "zs @ [Tail h] = hd (zs @ [Tail h]) # tl (zs @ [Tail h])" by simp
  finally show ?thesis by (simp only: append_assoc append_Cons append_Nil)
qed

lemma path_insert:
  "path h (ys @ e # zs) =
     butlast (Head h # ys) @ last (Head h # ys) # e # hd (zs @ [Tail h]) # tl (zs @ [Tail h])"
proof -
  have "path h (ys @ e # zs) = (Head h # ys) @ e # (zs @ [Tail h])" by (simp add: path_def)
  also have "Head h # ys = butlast (Head h # ys) @ [last (Head h # ys)]" by simp
  also have "zs @ [Tail h] = hd (zs @ [Tail h]) # tl (zs @ [Tail h])" by simp
  finally show ?thesis by (simp only: append_assoc append_Cons append_Nil)
qed

lemma inserted_list_rep:
  assumes rep: "list_rep hp h (ys @ zs)" and ins: "inserted hp hp' h p e n"
    and p: "p = last (Head h # ys)" and n: "n = hd (zs @ [Tail h])"
    and e: "e = Elem i" "e \<notin> set (ys @ zs)"
    and small: "length (ys @ zs) + 1 < 2 ^ 64"
    and ops: "lh_ops (hp_hd hp' h) = Some (header_ops_for (length (ys @ zs) + 1))"
  shows "list_rep hp' h (ys @ e # zs) \<and> list_frame hp hp' h (ys @ e # zs)"
proof -
  let ?as = "butlast (Head h # ys)" and ?bs = "tl (zs @ [Tail h])"
  have ps: "path h (ys @ zs) = ?as @ p # n # ?bs" using path_split p n by simp
  have pi: "path h (ys @ e # zs) = ?as @ p # e # n # ?bs" using path_insert p n by simp
  have d: "distinct (path h (ys @ zs))" by (rule distinct_path [OF rep])
  have ne: "e \<notin> set (path h (ys @ zs))" using elem_not_sentinel [OF rep] e by blast
  note R = list_repD [OF rep] and I = insertedD [OF ins]
  have lk: "linked (next_of hp') (prev_of hp') (path h (ys @ e # zs))"
    unfolding I(1,2) pi using linked_insert R(1) d ne unfolding ps by blast
  have "unat (lh_count (hp_hd hp h) + 1) = unat (lh_count (hp_hd hp h)) + 1"
    using R(10) small by (intro unat_u64_plus_one) simp
  then have cnt: "unat (lh_count (hp_hd hp' h)) = length (ys @ e # zs)"
    using R(10) I(8) by simp
  have els: "(\<exists>j. x = Elem j) \<and> le_h (hp_el hp' x) = Some h \<and> le_ops (hp_el hp' x) = Some default_element_ops"
    if "x \<in> set (ys @ e # zs)" for x
  proof (cases "x = e")
    case True
    then show ?thesis using I(5,6) e(1) by blast
  next
    case False
    then have "x \<in> set (ys @ zs)" using that by auto
    with False show ?thesis using I(3,4) R(3-5) by simp
  qed
  have dis: "distinct (ys @ e # zs)" using R(2) e(2) by auto
  have "list_rep hp' h (ys @ e # zs)"
    unfolding list_rep_def using lk dis els cnt ops R(6-9) I(3,4) [of "Head h"] I(3,4) [of "Tail h"] e(1) by auto
  moreover have "list_frame hp hp' h (ys @ e # zs)"
    unfolding list_frame_def pi using I(7,9) by simp
  ultimately show ?thesis ..
qed

lemma neighbours:
  assumes "list_rep hp h (ys @ zs)"
  shows "next_of hp (last (Head h # ys)) = Some (hd (zs @ [Tail h]))"
    "prev_of hp (hd (zs @ [Tail h])) = Some (last (Head h # ys))"
    "last (Head h # ys) \<noteq> hd (zs @ [Tail h])"
    "last (Head h # ys) \<in> set (path h (ys @ zs))" "hd (zs @ [Tail h]) \<in> set (path h (ys @ zs))"
proof -
  have g: "distinct (xs @ a # b # ys) \<Longrightarrow> a \<noteq> b" "a \<in> set (xs @ a # b # ys)" "b \<in> set (xs @ a # b # ys)"
    for xs ys and a b :: addr by simp_all
  note f = list_repD(1) [OF assms] distinct_path [OF assms]
  show "next_of hp (last (Head h # ys)) = Some (hd (zs @ [Tail h]))"
    "prev_of hp (hd (zs @ [Tail h])) = Some (last (Head h # ys))"
    using f(1) unfolding path_split by (rule linked_at)+
  show "last (Head h # ys) \<noteq> hd (zs @ [Tail h])" using f(2) unfolding path_split by (rule g)
  show "last (Head h # ys) \<in> set (path h (ys @ zs))" "hd (zs @ [Tail h]) \<in> set (path h (ys @ zs))"
    unfolding path_split by (rule g)+
qed

lemma hd_insert_inserted:
  assumes "list_rep hp h (ys @ zs)" and "e = Elem i" "e \<notin> set (ys @ zs)"
    and "p = last (Head h # ys)" "n = hd (zs @ [Tail h])" and "hp0 = init_list_element e (Some h) hp"
  shows "\<exists>hp'. hd_insert_after hp0 h p e = Some hp' \<and> inserted hp hp' h p e n \<and>
               lh_ops (hp_hd hp' h) = Some (header_ops_for (length (ys @ zs) + 1))"
    "\<exists>hp'. hd_insert_before hp0 h n e = Some hp' \<and> inserted hp hp' h p e n \<and>
               lh_ops (hp_hd hp' h) = Some (header_ops_for (length (ys @ zs) + 1))"
proof -
  note N = neighbours [OF assms(1), folded assms(4,5)]
  have ne: "e \<noteq> p" "e \<noteq> n" using N(4,5) elem_not_sentinel [OF assms(1)] assms(2,3) by auto
  have n0: "next_of hp0 p = Some n" "prev_of hp0 n = Some p" "hp_hd hp0 = hp_hd hp"
    using N(1,2) ne by (simp_all add: assms(6) heap_defs)
  obtain a where a: "insert_element_after_default hp0 h p e = Some a" "inserted hp a h p e n"
    "lh_ops (hp_hd a h) = lh_ops (hp_hd hp h)"
    using insert_after_default_inserted [OF n0(1) ne N(3)] inserted_init ne n0(3) assms(6) by metis
  obtain b where b: "insert_element_before_default hp0 h n e = Some b" "inserted hp b h p e n"
    "lh_ops (hp_hd b h) = lh_ops (hp_hd hp h)"
    using insert_before_default_inserted [OF n0(2) ne N(3)] inserted_init ne n0(3) assms(6) by metis
  have ops: "lh_ops (hp_hd (set_header_ops h x hp') h) = Some x" for x hp'
    by (simp add: set_header_ops_def upd_hd_def)
  have emp: "ys @ zs = [] \<Longrightarrow> p = Head h" using assms(4) by simp
  have e: "insert_common_empty_header hp0 h x e = Some (set_header_ops h one_list_ops a)"
    if "ys @ zs = []" for x using a emp [OF that] by (simp add: insert_common_empty_header_def)
  note oh = list_repD(11) [OF assms(1)]
  show "\<exists>hp'. hd_insert_after hp0 h p e = Some hp' \<and> inserted hp hp' h p e n \<and>
               lh_ops (hp_hd hp' h) = Some (header_ops_for (length (ys @ zs) + 1))"
    using a e oh inserted_set_ops [OF a(2)]
    by (cases "ys @ zs = []"; cases "length (ys @ zs) = 1")
      (auto simp: hd_insert_after_def insert_after_element_one_def n0(3) ops header_ops_for_def)
  show "\<exists>hp'. hd_insert_before hp0 h n e = Some hp' \<and> inserted hp hp' h p e n \<and>
               lh_ops (hp_hd hp' h) = Some (header_ops_for (length (ys @ zs) + 1))"
    using a b e oh inserted_set_ops [OF a(2)] inserted_set_ops [OF b(2)]
    by (cases "ys @ zs = []"; cases "length (ys @ zs) = 1")
      (auto simp: hd_insert_before_def insert_before_element_one_def n0(3) ops header_ops_for_def)
qed

lemma insert_list_rep:
  assumes "list_rep hp h (ys @ zs)" and "e = Elem i" "e \<notin> set (ys @ zs)" "length (ys @ zs) + 1 < 2 ^ 64"
  shows "\<exists>hp'. add_list_element_after hp h (last (Head h # ys)) e = Some hp' \<and>
           list_rep hp' h (ys @ e # zs) \<and> list_frame hp hp' h (ys @ e # zs)"
    "\<exists>hp'. add_list_element_before hp h (hd (zs @ [Tail h])) e = Some hp' \<and>
           list_rep hp' h (ys @ e # zs) \<and> list_frame hp hp' h (ys @ e # zs)"
  unfolding add_list_element_after_def add_list_element_before_def
  using hd_insert_inserted [OF assms(1-3) refl refl refl] inserted_list_rep [OF assms(1)] assms(2-4)
  by metis+

section \<open>The effect of a deletion\<close>

definition deleted :: "list_heap \<Rightarrow> list_heap \<Rightarrow> nat \<Rightarrow> addr \<Rightarrow> addr \<Rightarrow> addr \<Rightarrow> bool" where
  "deleted hp hp' h p e n \<longleftrightarrow>
     next_of hp' = (next_of hp)(p \<mapsto> n, e := None) \<and> prev_of hp' = (prev_of hp)(n \<mapsto> p, e := None) \<and>
     (\<forall>a. a \<noteq> e \<longrightarrow> le_ops (hp_el hp' a) = le_ops (hp_el hp a)) \<and>
     (\<forall>a. a \<noteq> e \<longrightarrow> le_h (hp_el hp' a) = le_h (hp_el hp a)) \<and>
     le_ops (hp_el hp' e) = Some standalone_element_ops \<and> le_h (hp_el hp' e) = None \<and>
     (\<forall>a. a \<notin> {p, e, n} \<longrightarrow> hp_el hp' a = hp_el hp a)"

lemma delete_common_deleted:
  assumes "next_of hp e = Some n" "prev_of hp e = Some p" and "e \<noteq> p" "e \<noteq> n" "p \<noteq> n"
  shows "\<exists>hp'. delete_element_common hp e = Some hp' \<and> deleted hp hp' h p e n \<and> hp_hd hp' = hp_hd hp"
  using assms by (simp add: delete_element_common_def heap_defs Let_def deleted_def fun_eq_iff)

lemma deletedD:
  assumes "deleted hp hp' h p e n"
  shows "next_of hp' = (next_of hp)(p \<mapsto> n, e := None)" "prev_of hp' = (prev_of hp)(n \<mapsto> p, e := None)"
    "a \<noteq> e \<Longrightarrow> le_ops (hp_el hp' a) = le_ops (hp_el hp a)"
    "a \<noteq> e \<Longrightarrow> le_h (hp_el hp' a) = le_h (hp_el hp a)"
    "le_ops (hp_el hp' e) = Some standalone_element_ops" "le_h (hp_el hp' e) = None"
    "a \<notin> {p, e, n} \<Longrightarrow> hp_el hp' a = hp_el hp a"
  using assms unfolding deleted_def by blast+

lemma deleted_upd_hd: "deleted hp (upd_hd h' f hp') h p e n = deleted hp hp' h p e n"
  by (simp add: deleted_def upd_hd_def)

lemma deleted_list_rep:
  assumes rep: "list_rep hp h (ys @ e # zs)" and del: "deleted hp hp' h p e n"
    and p: "p = last (Head h # ys)" and n: "n = hd (zs @ [Tail h])"
    and cnt: "lh_count (hp_hd hp' h) = lh_count (hp_hd hp h) - 1"
    and oth: "\<forall>h'. h' \<noteq> h \<longrightarrow> hp_hd hp' h' = hp_hd hp h'"
    and ops: "lh_ops (hp_hd hp' h) = Some (header_ops_for (length (ys @ zs)))"
  shows "list_rep hp' h (ys @ zs) \<and> list_frame hp hp' h (ys @ e # zs)"
proof -
  let ?as = "butlast (Head h # ys)" and ?bs = "tl (zs @ [Tail h])"
  have ps: "path h (ys @ zs) = ?as @ p # n # ?bs" using path_split p n by simp
  have pi: "path h (ys @ e # zs) = ?as @ p # e # n # ?bs" using path_insert p n by simp
  note R = list_repD [OF rep] and D = deletedD [OF del]
  have lk: "linked (next_of hp') (prev_of hp') (path h (ys @ zs))"
    unfolding D(1,2) ps using linked_delete R(1) distinct_path [OF rep] unfolding pi by blast
  have "unat (lh_count (hp_hd hp h) - 1) = unat (lh_count (hp_hd hp h)) - 1"
    using R(10) by (intro unat_minus_one) auto
  then have c: "unat (lh_count (hp_hd hp' h)) = length (ys @ zs)" using R(10) cnt by simp
  have ne: "e \<notin> set (ys @ zs)" "e \<noteq> Head h" "e \<noteq> Tail h" using R(2) R(3) [of e] by auto
  have els: "(\<exists>j. x = Elem j) \<and> le_h (hp_el hp' x) = Some h \<and> le_ops (hp_el hp' x) = Some default_element_ops"
    if "x \<in> set (ys @ zs)" for x
  proof -
    have "x \<noteq> e" "x \<in> set (ys @ e # zs)" using that ne(1) by auto
    then show ?thesis using D(3,4) R(3-5) by simp
  qed
  have "list_rep hp' h (ys @ zs)"
    unfolding list_rep_def
    using lk R(2) els c ops R(6-9) D(3,4) [of "Head h"] D(3,4) [of "Tail h"] ne by auto
  moreover have "list_frame hp hp' h (ys @ e # zs)"
    unfolding list_frame_def pi using D(7) oth by simp
  ultimately show ?thesis ..
qed

lemma hd_delete_list_rep:
  assumes "list_rep hp h (ys @ e # zs)"
  shows "\<exists>hp'. hd_delete hp h e = Some hp' \<and> list_rep hp' h (ys @ zs) \<and>
    list_frame hp hp' h (ys @ e # zs) \<and> le_ops (hp_el hp' e) = Some standalone_element_ops \<and>
    le_h (hp_el hp' e) = None"
proof -
  let ?p = "last (Head h # ys)" and ?n = "hd (zs @ [Tail h])"
  have r: "list_rep hp h ((ys @ [e]) @ zs)" using assms by simp
  have np: "next_of hp e = Some ?n" "prev_of hp e = Some ?p" "e \<noteq> ?p" "e \<noteq> ?n"
    using neighbours [OF r] neighbours [OF assms] by auto
  have g: "distinct (xs @ a # b # c # ys) \<Longrightarrow> a \<noteq> c" for xs ys and a b c :: addr by simp
  have "?p \<noteq> ?n" using distinct_path [OF assms] unfolding path_insert by (rule g)
  then obtain c where c: "delete_element_common hp e = Some c" "deleted hp c h ?p e ?n" "hp_hd c = hp_hd hp"
    using delete_common_deleted [OF np] by blast
  note R = list_repD [OF assms]
  have cnt: "lh_count (hp_hd hp h) - 1 = of_nat (length (ys @ zs))"
  proof -
    have "of_nat (unat (lh_count (hp_hd hp h))) = lh_count (hp_hd hp h)" by simp
    then have "lh_count (hp_hd hp h) = of_nat (length (ys @ e # zs))" unfolding R(10) by simp
    then show ?thesis by simp
  qed
  have small: "length (ys @ zs) < 2 ^ 64"
    using R(10) unat_lt_u64 [of "lh_count (hp_hd hp h)"] by simp
  let ?c = "upd_hd h (\<lambda>x. x\<lparr>lh_count := lh_count x - 1\<rparr>) c"
  have fin: "list_rep hp' h (ys @ zs) \<and> list_frame hp hp' h (ys @ e # zs) \<and>
      le_ops (hp_el hp' e) = Some standalone_element_ops \<and> le_h (hp_el hp' e) = None"
    if "hp' = upd_hd h f c" "lh_count (hp_hd hp' h) = lh_count (hp_hd hp h) - 1"
      "lh_ops (hp_hd hp' h) = Some (header_ops_for (length (ys @ zs)))" for hp' f
  proof -
    have d: "deleted hp hp' h ?p e ?n" using c(2) that(1) by (simp add: deleted_upd_hd)
    moreover have "\<forall>h'. h' \<noteq> h \<longrightarrow> hp_hd hp' h' = hp_hd hp h'"
      using that(1) c(3) by (simp add: upd_hd_def)
    ultimately show ?thesis
      using deleted_list_rep [OF assms d refl refl that(2)] that(3) deletedD(5,6) [OF d] by simp
  qed
  show ?thesis
  proof (cases "ys @ zs = []")
    case True
    let ?r = "upd_hd h (\<lambda>x. x\<lparr>lh_count := lh_count x - 1, lh_ops := Some empty_header_ops\<rparr>) c"
    have "hd_delete hp h e = Some ?r"
      using True R(11) c by (simp add: hd_delete_def header_ops_for_def delete_element_one_def
          set_header_ops_def upd_hd_def)
    then show ?thesis
      using True c fin [OF refl, of "\<lambda>x. x\<lparr>lh_count := lh_count x - 1, lh_ops := Some empty_header_ops\<rparr>"]
      by (simp add: upd_hd_def header_ops_for_def)
  next
    case False
    define w where "w = lh_count (hp_hd hp h) - 1"
    have uw: "unat w = length (ys @ zs)"
      using small unfolding w_def cnt unat_of_nat by (simp del: length_append)
    have dops: "lh_ops (hp_hd hp h) = Some default_header_ops"
      using R(11) False by (simp add: header_ops_for_def)
    have w0: "w \<noteq> 0" using uw False by auto
    show ?thesis
    proof (cases "w = 1")
      case True
      let ?f = "\<lambda>x. x\<lparr>lh_count := lh_count x - 1, lh_ops := Some one_list_ops\<rparr>"
      have "hd_delete hp h e = Some (upd_hd h ?f c)"
        using True dops c
        by (simp add: hd_delete_def delete_element_default_def set_header_ops_def upd_hd_def Let_def w_def)
      moreover have "length (ys @ zs) = 1" using True uw by simp
      ultimately show ?thesis
        using c fin [OF refl, of ?f] by (simp add: upd_hd_def header_ops_for_def)
    next
      case w1: False
      let ?f = "\<lambda>x. x\<lparr>lh_count := lh_count x - 1\<rparr>"
      have "hd_delete hp h e = Some (upd_hd h ?f c)"
        using w1 w0 dops c
        by (simp add: hd_delete_def delete_element_default_def set_header_ops_def upd_hd_def Let_def w_def)
      moreover have "length (ys @ zs) \<noteq> 1" using w1 uw by (auto simp: word_unat_eq_iff)
      ultimately show ?thesis
        using c False dops fin [OF refl, of ?f] by (simp add: upd_hd_def header_ops_for_def)
    qed
  qed
qed

lemma remove_list_rep:
  assumes "list_rep hp h (ys @ e # zs)"
  shows "\<exists>hp'. remove_list_element hp (Some e) = Some hp' \<and> list_rep hp' h (ys @ zs) \<and>
    list_frame hp hp' h (ys @ e # zs) \<and> le_ops (hp_el hp' e) = Some standalone_element_ops \<and>
    le_h (hp_el hp' e) = None"
  using hd_delete_list_rep [OF assms] list_repD(4,5) [OF assms, of e] list_repD(11) [OF assms]
  by (simp add: remove_list_element_def rm_default_def)

lemma get_list_head_rep:
  "list_rep hp h xs \<Longrightarrow> get_list_head hp h = Some (if xs = [] then None else Some (hd xs))"
  using neighbours(1) [of hp h "[]" xs] list_repD(11) [of hp h xs]
  by (simp add: get_list_head_def hd_get_head_def header_ops_for_def hd_append)

lemma get_list_tail_rep:
  "list_rep hp h xs \<Longrightarrow> get_list_tail hp h = Some (if xs = [] then None else Some (last xs))"
  using neighbours(2) [of hp h xs "[]"] list_repD(11) [of hp h xs]
  by (simp add: get_list_tail_def hd_get_tail_def header_ops_for_def)

section \<open>Searching\<close>

lemma get_next_default_rep:
  assumes "list_rep hp h (ys @ x # zs)"
  shows "get_next_element_default hp x = Some (if zs = [] then None else Some (hd zs))"
proof -
  have "next_of hp x = Some (hd (zs @ [Tail h]))"
    using neighbours(1) [of hp h "ys @ [x]" zs] assms by simp
  moreover have "zs \<noteq> [] \<Longrightarrow> le_ops (hp_el hp (hd zs)) = Some default_element_ops"
    using list_repD(5) [OF assms, of "hd zs"] by simp
  ultimately show ?thesis
    using list_repD(8) [OF assms] by (simp add: get_next_element_default_def get_element_def hd_append)
qed

lemma get_prev_default_rep:
  assumes "list_rep hp h (ys @ x # zs)"
  shows "get_prev_element_default hp x = Some (if ys = [] then None else Some (last ys))"
proof -
  have "prev_of hp x = Some (last (Head h # ys))"
    using neighbours(2) [of hp h ys "x # zs"] assms by simp
  moreover have "ys \<noteq> [] \<Longrightarrow> le_ops (hp_el hp (last ys)) = Some default_element_ops"
    using list_repD(5) [OF assms, of "last ys"] by simp
  ultimately show ?thesis
    using list_repD(6) [OF assms] by (simp add: get_prev_element_default_def get_element_def)
qed

lemma search_forw_loop_rep:
  "list_rep hp h (ys @ zs) \<Longrightarrow>
     search_forw_loop hp cond (if zs = [] then None else Some (hd zs)) = Some (find (\<lambda>x. cond x = 0) zs)"
proof (induction zs arbitrary: ys)
  case Nil
  then show ?case by (subst search_forw_loop.simps) simp
next
  case (Cons x zs)
  then show ?case
    using Cons.IH [of "ys @ [x]"] get_next_default_rep [OF Cons.prems]
    by (subst search_forw_loop.simps) simp
qed

lemma search_back_loop_rep:
  "list_rep hp h (ys @ zs) \<Longrightarrow>
     search_back_loop hp cond (if ys = [] then None else Some (last ys)) = Some (find (\<lambda>x. cond x = 0) (rev ys))"
proof (induction ys arbitrary: zs rule: rev_induct)
  case Nil
  then show ?case by (subst search_back_loop.simps) simp
next
  case (snoc x ys)
  then show ?case
    using snoc.IH [of "x # zs"] get_prev_default_rep [of hp h ys x zs]
    by (subst search_back_loop.simps) simp
qed

section \<open>Properties\<close>

text \<open>
  C3: inserting is inserting in the sequence. On a header that represents a sequence, adding a
  new element after the last element of a prefix, or before the first of a suffix, or first, or last,
  succeeds and gives a header that represents the sequence with the element at that place; no
  other element and no other header changes.
\<close>

theorem add_list_element_refines:
  assumes "list_rep hp h (ys @ zs)" and "Elem i \<notin> set (ys @ zs)" and "length (ys @ zs) + 1 < 2 ^ 64"
  shows "(\<exists>hp'. add_list_element_after hp h (last (Head h # ys)) (Elem i) = Some hp' \<and>
            list_rep hp' h (ys @ Elem i # zs) \<and> list_frame hp hp' h (ys @ Elem i # zs)) \<and>
         (\<exists>hp'. add_list_element_before hp h (hd (zs @ [Tail h])) (Elem i) = Some hp' \<and>
            list_rep hp' h (ys @ Elem i # zs) \<and> list_frame hp hp' h (ys @ Elem i # zs)) \<and>
         (\<exists>hp'. add_list_element_first hp h (Elem i) = Some hp' \<and>
            list_rep hp' h (Elem i # ys @ zs) \<and> list_frame hp hp' h (Elem i # ys @ zs)) \<and>
         (\<exists>hp'. add_list_element_last hp h (Elem i) = Some hp' \<and>
            list_rep hp' h (ys @ zs @ [Elem i]) \<and> list_frame hp hp' h (ys @ zs @ [Elem i]))"
  using insert_list_rep [OF assms(1) refl assms(2,3)]
    insert_list_rep(1) [of hp h "[]" "ys @ zs" "Elem i" i] insert_list_rep(2) [of hp h "ys @ zs" "[]" "Elem i" i] assms
  by (simp add: add_list_element_first_def add_list_element_last_def add_list_element_after_def
      add_list_element_before_def)

definition empty_heap :: list_heap where
  "empty_heap = \<lparr>hp_el = \<lambda>_. \<lparr>le_h = None, le_n = None, le_p = None, le_ops = Some standalone_element_ops,
                   le_lock = init_list_lock\<rparr>,
                hp_hd = \<lambda>_. \<lparr>lh_flags = 0, lh_count = 0, lh_lock = init_list_lock, lh_ops = None\<rparr>\<rparr>"

lemma init_list_header_rep:
  assumes "lh_flags (hp_hd hp h) AND SIMPLE_LIST_FLAG_INIT = 0"
  shows "\<exists>hp'. init_list_header hp (Some h) SIMPLE_LIST_TYPE_EMPTY e = Some hp' \<and> list_rep hp' h [] \<and>
               list_frame hp hp' h []"
  using assms
  by (simp add: init_list_header_def Let_def SIMPLE_LIST_TYPE_EMPTY_def SIMPLE_LIST_TYPE_ONE_def
      SIMPLE_LIST_TYPE_DEFAULT_def heap_defs list_rep_def path_def list_frame_def header_ops_for_def)

lemma init_empty_heap:
  "\<exists>hp. init_list_header empty_heap (Some 0) SIMPLE_LIST_TYPE_EMPTY None = Some hp \<and> list_rep hp 0 []"
  using init_list_header_rep [of empty_heap 0 None] by (auto simp: empty_heap_def)

theorem add_list_element_refines_witness:
  "\<exists>hp hp'. init_list_header empty_heap (Some 0) SIMPLE_LIST_TYPE_EMPTY None = Some hp \<and>
     add_list_element_last hp 0 (Elem 7) = Some hp' \<and> list_rep hp' 0 [Elem 7]"
proof -
  obtain hp where "init_list_header empty_heap (Some 0) SIMPLE_LIST_TYPE_EMPTY None = Some hp" "list_rep hp 0 ([] @ [])"
    using init_empty_heap by auto
  then show ?thesis using add_list_element_refines [of hp 0 "[]" "[]" 7] by auto
qed

text \<open>
  C4: removing an element takes it out of the sequence, leaves it standing alone and changes
  no other header; taking the head or the tail of an empty list gives \<open>NULL\<close> and changes nothing.
\<close>

theorem remove_list_element_refines:
  assumes "list_rep hp h xs"
  shows "(\<forall>e \<in> set xs. \<exists>hp'. remove_list_element hp (Some e) = Some hp' \<and> list_rep hp' h (remove1 e xs) \<and>
            list_frame hp hp' h xs \<and> le_ops (hp_el hp' e) = Some standalone_element_ops) \<and>
         (if xs = [] then remove_list_head hp h = Some (None, hp) \<and> remove_list_tail hp h = Some (None, hp)
          else (\<exists>hp'. remove_list_head hp h = Some (Some (hd xs), hp') \<and> list_rep hp' h (tl xs)) \<and>
               (\<exists>hp'. remove_list_tail hp h = Some (Some (last xs), hp') \<and> list_rep hp' h (butlast xs)))"
proof -
  have any: "\<exists>hp'. remove_list_element hp (Some e) = Some hp' \<and> list_rep hp' h (ys @ zs) \<and>
      list_frame hp hp' h xs \<and> le_ops (hp_el hp' e) = Some standalone_element_ops"
    if "xs = ys @ e # zs" for e ys zs
    using remove_list_rep [of hp h ys e zs] assms that by auto
  have "\<exists>hp'. remove_list_element hp (Some e) = Some hp' \<and> list_rep hp' h (remove1 e xs) \<and>
      list_frame hp hp' h xs \<and> le_ops (hp_el hp' e) = Some standalone_element_ops" if e: "e \<in> set xs" for e
  proof -
    obtain ys zs where s: "xs = ys @ e # zs" using e by (meson split_list)
    then have "remove1 e xs = ys @ zs" using list_repD(2) [OF assms] by (simp add: remove1_append)
    with any [OF s] show ?thesis by simp
  qed
  moreover have "xs \<noteq> [] \<Longrightarrow> \<exists>hp'. remove_list_head hp h = Some (Some (hd xs), hp') \<and> list_rep hp' h (tl xs)"
    using any [of "[]" "hd xs" "tl xs"] get_list_head_rep [OF assms] by (auto simp: remove_list_head_def)
  moreover have "xs \<noteq> [] \<Longrightarrow> \<exists>hp'. remove_list_tail hp h = Some (Some (last xs), hp') \<and> list_rep hp' h (butlast xs)"
    using any [of "butlast xs" "last xs" "[]"] get_list_tail_rep [OF assms] by (auto simp: remove_list_tail_def)
  ultimately show ?thesis
    using get_list_head_rep [OF assms] get_list_tail_rep [OF assms]
    by (simp add: remove_list_head_def remove_list_tail_def remove_list_element_def)
qed

theorem remove_list_element_refines_witness:
  "\<exists>hp. init_list_header empty_heap (Some 0) SIMPLE_LIST_TYPE_EMPTY None = Some hp \<and>
     remove_list_head hp 0 = Some (None, hp)"
  using init_empty_heap remove_list_element_refines [of _ 0 "[]"] by (auto simp del: split_paired_Ex)

text \<open>
  C33: the search loops end and find the first, or the last, element that meets the condition;
  they give \<open>NULL\<close> exactly when there is none.
\<close>

theorem search_list_element_refines:
  assumes "list_rep hp h xs"
  shows "search_list_element_forw hp h cond = Some (find (\<lambda>x. cond x = 0) xs) \<and>
         search_list_element_back hp h cond = Some (find (\<lambda>x. cond x = 0) (rev xs))"
  using search_forw_loop_rep [of hp h "[]" xs cond] search_back_loop_rep [of hp h xs "[]" cond] assms
  by (simp add: search_list_element_forw_def search_list_element_back_def get_list_head_rep get_list_tail_rep)

theorem search_list_element_refines_witness:
  "\<exists>hp. init_list_header empty_heap (Some 0) SIMPLE_LIST_TYPE_EMPTY None = Some hp \<and>
     search_list_element_forw hp 0 (\<lambda>_. 0) = Some None"
  using init_empty_heap search_list_element_refines [of _ 0 "[]" "\<lambda>_. 0"] by auto

text \<open>
  \<open>list_element_is_last\<close> compares the element itself with the tail sentinel, where
  \<open>list_element_is_first\<close> compares its neighbour: it denies for the last element too.
\<close>

lemma list_element_is_first_rep:
  "list_rep hp h (x # xs) \<Longrightarrow> list_element_is_first hp x = Some 0"
  using neighbours(2) [of hp h "[]" "x # xs"] list_repD(4) [of hp h "x # xs" x]
  by (simp add: list_element_is_first_def)

lemma list_element_is_last_never:
  "list_rep hp h xs \<Longrightarrow> x \<in> set xs \<Longrightarrow> list_element_is_last hp x = Some (-1)"
  using list_repD(3,4) [of hp h xs x] by (auto simp: list_element_is_last_def)

text \<open>
  A header initialised with \<open>SIMPLE_LIST_TYPE_DEFAULT\<close> has the operations of a list with
  elements but none: its head is the tail sentinel.
\<close>

lemma init_default_head_is_sentinel:
  "\<exists>hp. init_list_header empty_heap (Some 0) SIMPLE_LIST_TYPE_DEFAULT None = Some hp \<and>
        get_list_head hp 0 = Some (Some (Tail 0))"
  by (simp add: init_list_header_def Let_def SIMPLE_LIST_TYPE_ONE_def SIMPLE_LIST_TYPE_DEFAULT_def
      heap_defs get_list_head_def hd_get_head_def empty_heap_def)

section \<open>Lists as queues\<close>

text \<open>
  What the users of a list rely on when they use it as a queue: a representation of sequences,
  adding at the end, and taking from the front.
\<close>

primrec push_all :: "('s \<Rightarrow> 'e \<Rightarrow> 's option) \<Rightarrow> 's \<Rightarrow> 'e list \<Rightarrow> 's option" where
  "push_all push s [] = Some s"
| "push_all push s (e # es) = Option.bind (push s e) (\<lambda>s. push_all push s es)"

primrec pop_n :: "('s \<Rightarrow> ('e option \<times> 's) option) \<Rightarrow> 's \<Rightarrow> nat \<Rightarrow> ('e option list \<times> 's) option" where
  "pop_n pop s 0 = Some ([], s)"
| "pop_n pop s (Suc n) = Option.bind (pop s) (\<lambda>(x, s). map_option (\<lambda>(xs, s). (x # xs, s)) (pop_n pop s n))"

locale fifo =
  fixes rep :: "'s \<Rightarrow> 'e list \<Rightarrow> bool"
    and elem_ok :: "'e \<Rightarrow> bool"
    and room :: nat
    and push :: "'s \<Rightarrow> 'e \<Rightarrow> 's option"
    and pop :: "'s \<Rightarrow> ('e option \<times> 's) option"
  assumes push_rep: "rep s xs \<Longrightarrow> elem_ok e \<Longrightarrow> e \<notin> set xs \<Longrightarrow> length xs + 1 < room \<Longrightarrow>
      \<exists>s'. push s e = Some s' \<and> rep s' (xs @ [e])"
    and pop_empty: "rep s [] \<Longrightarrow> pop s = Some (None, s)"
    and pop_rep: "rep s (x # xs) \<Longrightarrow> \<exists>s'. pop s = Some (Some x, s') \<and> rep s' xs"
begin

lemma push_all_rep:
  "rep s xs \<Longrightarrow> list_all elem_ok es \<Longrightarrow> distinct (xs @ es) \<Longrightarrow> length xs + length es < room \<Longrightarrow>
     \<exists>s'. push_all push s es = Some s' \<and> rep s' (xs @ es)"
proof (induction es arbitrary: s xs)
  case (Cons e es)
  then obtain s1 where "push s e = Some s1" "rep s1 (xs @ [e])"
    using push_rep [of s xs e] by auto
  with Cons show ?case using Cons.IH [of s1 "xs @ [e]"] by auto
qed simp

lemma pop_n_rep:
  "rep s (xs @ ys) \<Longrightarrow> \<exists>s'. pop_n pop s (length xs) = Some (map Some xs, s') \<and> rep s' ys"
proof (induction xs arbitrary: s)
  case (Cons x xs)
  then obtain s1 where "pop s = Some (Some x, s1)" "rep s1 (xs @ ys)"
    using pop_rep [of s x "xs @ ys"] by auto
  with Cons.IH [of s1] show ?case by auto
qed simp

lemma push_pop:
  assumes "rep s []" and "list_all elem_ok es" and "distinct es" and "length es < room"
  shows "\<exists>s1 s2. push_all push s es = Some s1 \<and> pop_n pop s1 (length es) = Some (map Some es, s2) \<and> rep s2 []"
  using push_all_rep [of s "[]" es] pop_n_rep [of _ es "[]"] assms by fastforce

end

interpretation lq: fifo "\<lambda>hp. list_rep hp h" "\<lambda>e. \<exists>i. e = Elem i" "2 ^ 64"
  "\<lambda>hp. add_list_element_last hp h" "\<lambda>hp. remove_list_head hp h" for h
proof
  fix s xs e
  assume "list_rep s h xs" "\<exists>i. e = Elem i" "e \<notin> set xs" "length xs + 1 < 2 ^ 64"
  then show "\<exists>s'. add_list_element_last s h e = Some s' \<and> list_rep s' h (xs @ [e])"
    using insert_list_rep(2) [of s h xs "[]" e]
    by (auto simp: add_list_element_last_def add_list_element_before_def)
next
  fix s
  assume "list_rep s h []"
  then show "remove_list_head s h = Some (None, s)"
    by (simp add: remove_list_head_def get_list_head_rep remove_list_element_def)
next
  fix s x xs
  assume "list_rep s h (x # xs)"
  then show "\<exists>s'. remove_list_head s h = Some (Some x, s') \<and> list_rep s' h xs"
    using remove_list_rep [of s h "[]" x xs] by (auto simp: remove_list_head_def get_list_head_rep)
qed

text \<open>
  C32: a list used as a queue is first in, first out. Adding distinct elements at the end of an
  empty list and then taking as many from its head gives them in the order they were added
  and leaves the list empty.
\<close>

theorem list_fifo:
  assumes "list_rep hp h []" and "distinct es" and "list_all (\<lambda>e. \<exists>i. e = Elem i) es"
    and "length es < 2 ^ 64"
  shows "\<exists>hp1 hp2. push_all (\<lambda>hp. add_list_element_last hp h) hp es = Some hp1 \<and>
           pop_n (\<lambda>hp. remove_list_head hp h) hp1 (length es) = Some (map Some es, hp2) \<and> list_rep hp2 h []"
  by (rule lq.push_pop [OF assms(1,3,2,4)])

theorem list_fifo_witness:
  "\<exists>hp hp1 hp2. push_all (\<lambda>hp. add_list_element_last hp 0) hp [Elem 3, Elem 1] = Some hp1 \<and>
     pop_n (\<lambda>hp. remove_list_head hp 0) hp1 2 = Some ([Some (Elem 3), Some (Elem 1)], hp2)"
proof -
  obtain hp where "list_rep hp 0 []" using init_empty_heap by blast
  then have "\<exists>hp1 hp2. push_all (\<lambda>hp. add_list_element_last hp 0) hp [Elem 3, Elem 1] = Some hp1 \<and>
      pop_n (\<lambda>hp. remove_list_head hp 0) hp1 (length [Elem 3, Elem 1]) =
        Some (map Some [Elem 3, Elem 1], hp2) \<and> list_rep hp2 0 []"
    by (rule list_fifo) simp_all
  moreover have "length [Elem 3, Elem 1] = 2" by simp
  ultimately show ?thesis by (metis list.map)
qed

end
