(* ===== verification/Locking.thy ===== *)
theory Locking
  imports Prelude
begin

text \<open>
  The read and write locks with queues, upgrade and downgrade of \<open>src/lib/lock/locking.c\<close>.

  A lock is known by a number; it belongs to one thread at a time. What a function does between taking the mutex and
  releasing it, or waiting for the condition, is one step. A call that has to wait leaves its lock pending; a wake up tries
  again. The two lists hold the numbers of the locks, as the linked lists of \<open>Simple_List\<close> represent sequences; to
  add a lock that is in a list already would break the links and has no result, \<open>None\<close>.

  The calls go through pointers in the lock, which hold the names of the functions here. The field \<open>thread\<close> is only
  written, except by a static function that nothing calls, and is left out.
\<close>

section \<open>State\<close>

definition OSNS_LOCK_TYPE_NONE :: u8 where "OSNS_LOCK_TYPE_NONE = 0"
definition OSNS_LOCK_TYPE_READ :: u8 where "OSNS_LOCK_TYPE_READ = 1"
definition OSNS_LOCK_TYPE_WRITE :: u8 where "OSNS_LOCK_TYPE_WRITE = 2"

text \<open>The flags of a lock are bits: \<open>LIST\<close> is 1, \<open>EFFECTIVE\<close> 4, \<open>UPGRADED\<close> 16. No other is used.\<close>

datatype lock_cb =
    CB_unset
  | CB_nonelock | CB_noneunlock | CB_upgrade_nonelock | CB_prenonelock
  | CB_readlock | CB_readunlock | CB_upgrade_readlock | CB_downgrade_readlock | CB_prereadlock
  | CB_writelock | CB_writeunlock | CB_upgrade_writelock | CB_prewritelock

record osns_lock_s =
  ol_type :: u8
  ol_LIST :: bool
  ol_EFFECTIVE :: bool
  ol_UPGRADED :: bool
  ol_lock :: lock_cb
  ol_unlock :: lock_cb
  ol_upgrade :: lock_cb
  ol_downgrade :: lock_cb
  ol_prelock :: lock_cb

text \<open>Of the flags of the locking, \<open>ALLOC_MUTEX\<close> and \<open>ALLOC_COND\<close> are set together.\<close>

record osns_locking_s =
  lk_ALLOC :: bool
  lk_UPGRADE :: bool
  lk_readlocks :: "nat list"
  lk_readers :: u32
  lk_writelocks :: "nat list"
  lk_writers :: u32

record lock_state =
  lks :: osns_locking_s
  locks :: "nat \<Rightarrow> osns_lock_s"
  pending :: "nat \<Rightarrow> lock_cb option"

definition OSNS_LOCKING_FLAG_ALLOC_LOCK :: u32 where "OSNS_LOCKING_FLAG_ALLOC_LOCK = 1"

text \<open>\<open>mutex_ok\<close> and \<open>cond_ok\<close> tell whether the allocations succeed; \<open>None\<close> is the return value -1.\<close>

definition init_osns_locking :: "u32 \<Rightarrow> bool \<Rightarrow> bool \<Rightarrow> osns_locking_s option" where
  "init_osns_locking flags mutex_ok cond_ok =
     (if flags AND NOT OSNS_LOCKING_FLAG_ALLOC_LOCK \<noteq> 0 then None
      else if flags AND OSNS_LOCKING_FLAG_ALLOC_LOCK \<noteq> 0 \<and> \<not> (mutex_ok \<and> cond_ok) then None
      else Some \<lparr>lk_ALLOC = (flags AND OSNS_LOCKING_FLAG_ALLOC_LOCK \<noteq> 0), lk_UPGRADE = False, lk_readlocks = [],
             lk_readers = 0, lk_writelocks = [], lk_writers = 0\<rparr>)"

text \<open>The locks that are still in a list are freed, in this order.\<close>

definition clear_osns_locking :: "osns_locking_s \<Rightarrow> nat list \<times> osns_locking_s" where
  "clear_osns_locking k = (lk_readlocks k @ lk_writelocks k, k\<lparr>lk_ALLOC := False, lk_readlocks := [], lk_writelocks := []\<rparr>)"

definition init_osns_nonelock :: "osns_lock_s \<Rightarrow> osns_lock_s" where
  "init_osns_nonelock lock = lock\<lparr>ol_type := OSNS_LOCK_TYPE_NONE, ol_LIST := False, ol_EFFECTIVE := False,
     ol_UPGRADED := False, ol_lock := CB_nonelock, ol_unlock := CB_noneunlock, ol_upgrade := CB_upgrade_nonelock,
     ol_prelock := CB_prenonelock\<rparr>"

definition init_osns_readlock :: osns_lock_s where
  "init_osns_readlock = \<lparr>ol_type = OSNS_LOCK_TYPE_READ, ol_LIST = False, ol_EFFECTIVE = False, ol_UPGRADED = False,
     ol_lock = CB_readlock, ol_unlock = CB_readunlock, ol_upgrade = CB_upgrade_readlock,
     ol_downgrade = CB_downgrade_readlock, ol_prelock = CB_prereadlock\<rparr>"

definition init_osns_writelock :: osns_lock_s where
  "init_osns_writelock = \<lparr>ol_type = OSNS_LOCK_TYPE_WRITE, ol_LIST = False, ol_EFFECTIVE = False, ol_UPGRADED = False,
     ol_lock = CB_writelock, ol_unlock = CB_writeunlock, ol_upgrade = CB_upgrade_writelock,
     ol_downgrade = CB_upgrade_writelock, ol_prelock = CB_prewritelock\<rparr>"

section \<open>The lists\<close>

definition upd_lock :: "nat \<Rightarrow> (osns_lock_s \<Rightarrow> osns_lock_s) \<Rightarrow> lock_state \<Rightarrow> lock_state" where
  "upd_lock l f s = s\<lparr>locks := (locks s)(l := f (locks s l))\<rparr>"

definition upd_lks :: "(osns_locking_s \<Rightarrow> osns_locking_s) \<Rightarrow> lock_state \<Rightarrow> lock_state" where
  "upd_lks f s = s\<lparr>lks := f (lks s)\<rparr>"

definition in_lists :: "lock_state \<Rightarrow> nat \<Rightarrow> bool" where
  "in_lists s l \<longleftrightarrow> l \<in> set (lk_readlocks (lks s)) \<or> l \<in> set (lk_writelocks (lks s))"

definition add_reader :: "bool \<Rightarrow> nat \<Rightarrow> lock_state \<Rightarrow> lock_state option" where
  "add_reader first l s =
     (if in_lists s l then None
      else Some (upd_lks (\<lambda>k. k\<lparr>lk_readlocks := (if first then l # lk_readlocks k else lk_readlocks k @ [l]),
             lk_readers := lk_readers k + 1\<rparr>) s))"

definition add_writer :: "bool \<Rightarrow> nat \<Rightarrow> lock_state \<Rightarrow> lock_state option" where
  "add_writer first l s =
     (if in_lists s l then None
      else Some (upd_lks (\<lambda>k. k\<lparr>lk_writelocks := (if first then l # lk_writelocks k else lk_writelocks k @ [l]),
             lk_writers := lk_writers k + 1\<rparr>) s))"

text \<open>\<open>remove_list_element\<close> takes the lock out of the list it is in; the caller counts.\<close>

definition remove_element :: "nat \<Rightarrow> lock_state \<Rightarrow> lock_state" where
  "remove_element l = upd_lks (\<lambda>k. k\<lparr>lk_readlocks := remove1 l (lk_readlocks k),
     lk_writelocks := remove1 l (lk_writelocks k)\<rparr>)"

definition dec_readers :: "lock_state \<Rightarrow> lock_state" where
  "dec_readers = upd_lks (\<lambda>k. k\<lparr>lk_readers := lk_readers k - 1\<rparr>)"

definition dec_writers :: "lock_state \<Rightarrow> lock_state" where
  "dec_writers = upd_lks (\<lambda>k. k\<lparr>lk_writers := lk_writers k - 1\<rparr>)"

definition list_first :: "lock_state \<Rightarrow> nat \<Rightarrow> bool" where
  "list_first s l \<longleftrightarrow> (\<exists>ls. lk_readlocks (lks s) = l # ls) \<or> (\<exists>ls. lk_writelocks (lks s) = l # ls)"

section \<open>The operations\<close>

text \<open>
  A step gives the value that is returned, or \<open>None\<close> when the caller waits for the condition.
\<close>

type_synonym lock_step = "nat \<Rightarrow> lock_state \<Rightarrow> (lock_state \<times> int option) option"

definition returns :: "int \<Rightarrow> nat \<Rightarrow> lock_state \<Rightarrow> (lock_state \<times> int option) option" where
  "returns v l s = Some (s\<lparr>pending := (pending s)(l := None)\<rparr>, Some v)"

definition waits :: "lock_cb \<Rightarrow> nat \<Rightarrow> lock_state \<Rightarrow> (lock_state \<times> int option) option" where
  "waits cb l s = Some (s\<lparr>pending := (pending s)(l := Some cb)\<rparr>, None)"

definition effective :: "nat \<Rightarrow> lock_state \<Rightarrow> lock_state" where
  "effective l = upd_lock l (\<lambda>x. x\<lparr>ol_EFFECTIVE := True\<rparr>)"

definition osns_readlock :: lock_step where
  "osns_readlock l s =
     (if \<not> ol_LIST (locks s l) then
        (if lk_writers (lks s) > 0 then waits CB_readlock l s
         else do {
           s \<leftarrow> add_reader False l s;
           returns 0 l (effective l (upd_lock l (\<lambda>x. x\<lparr>ol_LIST := True\<rparr>) s)) })
      else returns 0 l (effective l s))"

definition osns_readunlock :: lock_step where
  "osns_readunlock l s =
     (let s = (if ol_LIST (locks s l)
               then dec_readers (upd_lock l (\<lambda>x. x\<lparr>ol_LIST := False\<rparr>) (remove_element l s)) else s)
      in returns 0 l (upd_lock l (\<lambda>x. x\<lparr>ol_EFFECTIVE := False\<rparr>) s))"

definition writelock_wait :: lock_step where
  "writelock_wait l s =
     (if lk_readers (lks s) > 0 \<and> \<not> list_first s l then waits CB_writelock l s
      else returns 0 l (effective l s))"

definition osns_writelock :: lock_step where
  "osns_writelock l s = do {
     s \<leftarrow> (if \<not> ol_LIST (locks s l)
           then do { s \<leftarrow> add_writer False l s; Some (upd_lock l (\<lambda>x. x\<lparr>ol_LIST := True\<rparr>) s) } else Some s);
     if \<not> ol_EFFECTIVE (locks s l) then writelock_wait l s else returns 0 l s }"

definition osns_writeunlock :: lock_step where
  "osns_writeunlock l s =
     (let s = (if ol_LIST (locks s l)
               then upd_lock l (\<lambda>x. x\<lparr>ol_LIST := False\<rparr>) (dec_writers (remove_element l s)) else s);
          s = (if ol_UPGRADED (locks s l)
               then upd_lock l (\<lambda>x. x\<lparr>ol_UPGRADED := False\<rparr>) (upd_lks (\<lambda>k. k\<lparr>lk_UPGRADE := False\<rparr>) s) else s)
      in returns 0 l (upd_lock l (\<lambda>x. x\<lparr>ol_EFFECTIVE := False\<rparr>) s))"

definition osns_prewritelock :: lock_step where
  "osns_prewritelock l s = do {
     s \<leftarrow> (if \<not> ol_LIST (locks s l)
           then do { s \<leftarrow> add_writer False l s; Some (upd_lock l (\<lambda>x. x\<lparr>ol_LIST := True\<rparr>) s) } else Some s);
     returns 0 l s }"

definition upgrade_wait :: lock_step where
  "upgrade_wait l s =
     (if lk_readers (lks s) > 0 then waits CB_upgrade_readlock l s else returns 0 l (effective l s))"

text \<open>The pointers of a lock that becomes a write lock; the source assigns \<open>downgrade\<close> the \<open>prelock\<close> function too.\<close>

definition osns_upgrade_readlock :: lock_step where
  "osns_upgrade_readlock l s =
     (if ol_type (locks s l) \<noteq> OSNS_LOCK_TYPE_READ then returns 0 l s
      else if lk_UPGRADE (lks s) then returns (-1) l s
      else do {
        let s = upd_lks (\<lambda>k. k\<lparr>lk_UPGRADE := True\<rparr>) s;
        let s = (if ol_LIST (locks s l) then dec_readers (remove_element l s) else s);
        s \<leftarrow> add_writer True l s;
        let s = upd_lock l (\<lambda>x. x\<lparr>ol_LIST := True, ol_type := OSNS_LOCK_TYPE_WRITE, ol_lock := CB_writelock,
          ol_unlock := CB_writeunlock, ol_upgrade := CB_upgrade_writelock, ol_downgrade := CB_prewritelock,
          ol_prelock := CB_prewritelock, ol_UPGRADED := True\<rparr>) s;
        upgrade_wait l s })"

definition osns_downgrade_readlock :: lock_step where
  "osns_downgrade_readlock l s =
     (if \<not> ol_UPGRADED (locks s l) \<or> ol_type (locks s l) \<noteq> OSNS_LOCK_TYPE_WRITE then returns 0 l s
      else do {
        let s = upd_lks (\<lambda>k. k\<lparr>lk_UPGRADE := False\<rparr>) s;
        let s = (if ol_LIST (locks s l) then dec_writers (remove_element l s) else s);
        s \<leftarrow> add_reader True l s;
        let s = upd_lock l (\<lambda>x. x\<lparr>ol_LIST := True, ol_type := OSNS_LOCK_TYPE_READ, ol_lock := CB_readlock,
          ol_unlock := CB_readunlock, ol_upgrade := CB_upgrade_readlock, ol_prelock := CB_prereadlock,
          ol_UPGRADED := False\<rparr>) s;
        returns 0 l (effective l s) })"

definition osns_prereadlock :: lock_step where
  "osns_prereadlock l s = do {
     let s = (if ol_LIST (locks s l) then dec_readers (remove_element l s) else s);
     s \<leftarrow> add_writer True l s;
     let s = upd_lock l (\<lambda>x. x\<lparr>ol_type := OSNS_LOCK_TYPE_WRITE, ol_lock := CB_writelock, ol_unlock := CB_writeunlock,
       ol_upgrade := CB_upgrade_writelock, ol_prelock := CB_prewritelock\<rparr>) s;
     returns 0 l s }"

primrec call_lock_cb :: "lock_cb \<Rightarrow> lock_step" where
  "call_lock_cb CB_unset = (\<lambda>l s. None)"
| "call_lock_cb CB_nonelock = returns 0"
| "call_lock_cb CB_noneunlock = returns 0"
| "call_lock_cb CB_upgrade_nonelock = returns 0"
| "call_lock_cb CB_prenonelock = returns 0"
| "call_lock_cb CB_readlock = osns_readlock"
| "call_lock_cb CB_readunlock = osns_readunlock"
| "call_lock_cb CB_upgrade_readlock = osns_upgrade_readlock"
| "call_lock_cb CB_downgrade_readlock = osns_downgrade_readlock"
| "call_lock_cb CB_prereadlock = osns_prereadlock"
| "call_lock_cb CB_writelock = osns_writelock"
| "call_lock_cb CB_writeunlock = osns_writeunlock"
| "call_lock_cb CB_upgrade_writelock = returns 0"
| "call_lock_cb CB_prewritelock = osns_prewritelock"

definition osns_lock :: lock_step where "osns_lock l s = call_lock_cb (ol_lock (locks s l)) l s"
definition osns_unlock :: lock_step where "osns_unlock l s = call_lock_cb (ol_unlock (locks s l)) l s"
definition osns_prelock :: lock_step where "osns_prelock l s = call_lock_cb (ol_prelock (locks s l)) l s"
definition osns_upgradelock :: lock_step where "osns_upgradelock l s = call_lock_cb (ol_upgrade (locks s l)) l s"
definition osns_downgradelock :: lock_step where "osns_downgradelock l s = call_lock_cb (ol_downgrade (locks s l)) l s"

text \<open>A waiting call that is woken up: the loop around \<open>pthread_cond_wait\<close>.\<close>

definition lock_wake :: "lock_cb \<Rightarrow> lock_step" where
  "lock_wake cb = (if cb = CB_readlock then osns_readlock else if cb = CB_writelock then writelock_wait else upgrade_wait)"

section \<open>Runs\<close>

text \<open>
  What the threads do: initialise a lock, call an operation with a lock that does not wait, and be woken up. A step that has no defined
  behaviour leads to \<open>None\<close>: to initialise a lock that is in a list breaks the links of the list, as adding it twice does.
  The fields that an initialisation leaves alone hold no function.
\<close>

datatype lock_init = Init_none | Init_read | Init_write

primrec init_lock :: "lock_init \<Rightarrow> osns_lock_s \<Rightarrow> osns_lock_s" where
  "init_lock Init_none x = init_osns_nonelock (x\<lparr>ol_downgrade := CB_unset\<rparr>)"
| "init_lock Init_read x = init_osns_readlock"
| "init_lock Init_write x = init_osns_writelock"

datatype lock_op = Op_lock | Op_unlock | Op_prelock | Op_upgrade | Op_downgrade

primrec call_op :: "lock_op \<Rightarrow> lock_step" where
  "call_op Op_lock = osns_lock"
| "call_op Op_unlock = osns_unlock"
| "call_op Op_prelock = osns_prelock"
| "call_op Op_upgrade = osns_upgradelock"
| "call_op Op_downgrade = osns_downgradelock"

datatype lock_event = Ev_init lock_init nat | Ev_call lock_op nat | Ev_wake nat

inductive lock_run :: "lock_state \<Rightarrow> lock_event \<Rightarrow> lock_state option \<Rightarrow> bool" where
  run_init: "pending s l = None \<Longrightarrow>
    lock_run s (Ev_init i l) (if in_lists s l then None else Some (upd_lock l (init_lock i) s))"
| run_call: "pending s l = None \<Longrightarrow> lock_run s (Ev_call f l) (map_option fst (call_op f l s))"
| run_wake: "pending s l = Some cb \<Longrightarrow> lock_run s (Ev_wake l) (map_option fst (lock_wake cb l s))"

text \<open>
  What the callers must keep to, as the lemmas at the end of this theory show: they do not initialise a lock that is in a list, prelock a read lock
  only while it is held, and do not downgrade a lock of type \<open>NONE\<close>. The runs of such callers, up to a fault.
\<close>

definition allowed :: "lock_state \<Rightarrow> lock_event \<Rightarrow> bool" where
  "allowed s ev = (case ev of
     Ev_init i l \<Rightarrow> \<not> in_lists s l
   | Ev_call f l \<Rightarrow> (f = Op_prelock \<and> ol_type (locks s l) = OSNS_LOCK_TYPE_READ \<longrightarrow> ol_LIST (locks s l)) \<and>
       (f = Op_downgrade \<longrightarrow> ol_type (locks s l) \<noteq> OSNS_LOCK_TYPE_NONE)
   | Ev_wake l \<Rightarrow> True)"

inductive lock_reach :: "lock_state \<Rightarrow> lock_state option \<Rightarrow> bool" for s0 where
  reach_start: "lock_reach s0 (Some s0)"
| reach_step: "lock_reach s0 (Some s) \<Longrightarrow> allowed s ev \<Longrightarrow> lock_run s ev out \<Longrightarrow> lock_reach s0 out"

definition start_state :: "lock_state \<Rightarrow> bool" where
  "start_state s \<longleftrightarrow> (\<exists>flags a b. init_osns_locking flags a b = Some (lks s)) \<and> (\<forall>l. pending s l = None) \<and>
     (\<forall>l. locks s l \<in> {init_osns_readlock, init_osns_writelock})"

section \<open>The invariant\<close>

text \<open>The pointers of a lock are those of its type.\<close>

definition pointers_ok :: "osns_lock_s \<Rightarrow> bool" where
  "pointers_ok x \<longleftrightarrow>
     (ol_type x = OSNS_LOCK_TYPE_READ \<and> ol_lock x = CB_readlock \<and> ol_unlock x = CB_readunlock \<and>
        ol_upgrade x = CB_upgrade_readlock \<and> ol_prelock x = CB_prereadlock \<and> \<not> ol_UPGRADED x) \<or>
     (ol_type x = OSNS_LOCK_TYPE_WRITE \<and> ol_lock x = CB_writelock \<and> ol_unlock x = CB_writeunlock \<and>
        ol_upgrade x = CB_upgrade_writelock \<and> ol_prelock x = CB_prewritelock) \<or>
     (ol_type x = OSNS_LOCK_TYPE_NONE \<and> ol_lock x = CB_nonelock \<and> ol_unlock x = CB_noneunlock \<and>
        ol_upgrade x = CB_upgrade_nonelock \<and> ol_prelock x = CB_prenonelock \<and> \<not> ol_UPGRADED x \<and> \<not> ol_LIST x)"

text \<open>
  The state of one lock \<open>x\<close>, in the readers (\<open>r\<close>) or the writers (\<open>w\<close>), with the upgrade flag of the locking \<open>up\<close> and
  pending call \<open>p\<close>: it is in a list exactly when its flag says so, in the list of its type; an upgraded lock is a queued writer; a
  lock that waits is where its call put it.
\<close>

definition local_ok :: "osns_lock_s \<Rightarrow> bool \<Rightarrow> bool \<Rightarrow> bool \<Rightarrow> lock_cb option \<Rightarrow> bool" where
  "local_ok x r w up p \<longleftrightarrow> pointers_ok x \<and> (ol_LIST x \<longleftrightarrow> r \<or> w) \<and>
     (r \<longrightarrow> ol_type x = OSNS_LOCK_TYPE_READ) \<and> (w \<longrightarrow> ol_type x = OSNS_LOCK_TYPE_WRITE) \<and>
     (ol_UPGRADED x \<longrightarrow> up \<and> w \<and> ol_downgrade x = CB_prewritelock) \<and>
     (ol_downgrade x = CB_prewritelock \<longrightarrow> ol_type x = OSNS_LOCK_TYPE_WRITE) \<and>
     (ol_downgrade x = CB_unset \<longrightarrow> ol_type x = OSNS_LOCK_TYPE_NONE) \<and>
     ol_downgrade x \<in> {CB_unset, CB_downgrade_readlock, CB_upgrade_writelock, CB_prewritelock} \<and>
     (p = None \<or> p = Some CB_readlock \<and> ol_type x = OSNS_LOCK_TYPE_READ \<and> \<not> ol_LIST x \<or>
      p = Some CB_writelock \<and> w \<or> p = Some CB_upgrade_readlock \<and> ol_UPGRADED x)"

abbreviation rl :: "lock_state \<Rightarrow> nat list" where "rl s \<equiv> lk_readlocks (lks s)"
abbreviation wl :: "lock_state \<Rightarrow> nat list" where "wl s \<equiv> lk_writelocks (lks s)"
abbreviation up :: "lock_state \<Rightarrow> bool" where "up s \<equiv> lk_UPGRADE (lks s)"

definition lock_ok :: "lock_state \<Rightarrow> nat \<Rightarrow> bool" where
  "lock_ok s l \<longleftrightarrow> local_ok (locks s l) (l \<in> set (rl s)) (l \<in> set (wl s)) (up s) (pending s l)"

definition lists_ok :: "lock_state \<Rightarrow> bool" where
  "lists_ok s \<longleftrightarrow> distinct (rl s @ wl s) \<and> lk_readers (lks s) = of_nat (length (rl s)) \<and>
     lk_writers (lks s) = of_nat (length (wl s))"

definition upgrade_ok :: "lock_state \<Rightarrow> bool" where
  "upgrade_ok s \<longleftrightarrow> (up s \<longrightarrow> (\<exists>l. ol_UPGRADED (locks s l))) \<and>
     (\<forall>l l'. ol_UPGRADED (locks s l) \<and> ol_UPGRADED (locks s l') \<longrightarrow> l = l')"

definition lock_inv :: "lock_state \<Rightarrow> bool" where
  "lock_inv s \<longleftrightarrow> lists_ok s \<and> upgrade_ok s \<and> (\<forall>l. lock_ok s l)"

lemmas type_defs = OSNS_LOCK_TYPE_NONE_def OSNS_LOCK_TYPE_READ_def OSNS_LOCK_TYPE_WRITE_def

text \<open>Every step is of this form: one lock, its place in the lists, and its pending call change.\<close>

definition put :: "nat \<Rightarrow> osns_lock_s \<Rightarrow> nat list \<Rightarrow> nat list \<Rightarrow> bool \<Rightarrow> lock_cb option \<Rightarrow> lock_state \<Rightarrow> lock_state" where
  "put l x r w u p s = s\<lparr>lks := (lks s)\<lparr>lk_UPGRADE := u, lk_readlocks := r, lk_readers := of_nat (length r),
       lk_writelocks := w, lk_writers := of_nat (length w)\<rparr>,
     locks := (locks s)(l := x), pending := (pending s)(l := p)\<rparr>"

definition put_ok :: "nat \<Rightarrow> osns_lock_s \<Rightarrow> nat list \<Rightarrow> nat list \<Rightarrow> bool \<Rightarrow> lock_cb option \<Rightarrow> lock_state \<Rightarrow> bool" where
  "put_ok l x r w u p s \<longleftrightarrow> distinct (r @ w) \<and> set r - {l} = set (rl s) - {l} \<and> set w - {l} = set (wl s) - {l} \<and>
     local_ok x (l \<in> set r) (l \<in> set w) u p \<and>
     (ol_UPGRADED x = ol_UPGRADED (locks s l) \<and> u = up s \<or>
      ol_UPGRADED x \<and> u \<and> \<not> up s \<or> \<not> ol_UPGRADED x \<and> \<not> u \<and> ol_UPGRADED (locks s l))"

lemma local_ok_up: "local_ok x r w u p \<Longrightarrow> (ol_UPGRADED x \<Longrightarrow> u') \<Longrightarrow> local_ok x r w u' p"
  unfolding local_ok_def by blast

lemma put_inv:
  assumes inv: "lock_inv s" and ok: "put_ok l x r w u p s"
  shows "lock_inv (put l x r w u p s)"
proof -
  let ?s = "put l x r w u p s"
  have up: "ol_UPGRADED (locks s j) \<Longrightarrow> up s" for j
    using inv by (simp add: lock_inv_def lock_ok_def local_ok_def)
  have one: "ol_UPGRADED (locks s j) \<Longrightarrow> ol_UPGRADED (locks s j') \<Longrightarrow> j = j'" and ex: "up s \<Longrightarrow> \<exists>j. ol_UPGRADED (locks s j)" for j j'
    using inv by (auto simp: lock_inv_def upgrade_ok_def)
  have "lists_ok ?s" using ok by (simp add: lists_ok_def put_def put_ok_def)
  moreover have "upgrade_ok ?s"
    using ok up one ex unfolding upgrade_ok_def put_ok_def by (simp add: put_def) metis
  moreover have "lock_ok ?s j" for j
  proof (cases "j = l")
    case False
    have m: "j \<in> set r \<longleftrightarrow> j \<in> set (rl s)" "j \<in> set w \<longleftrightarrow> j \<in> set (wl s)"
      using ok False by (auto simp: put_ok_def)
    have "ol_UPGRADED (locks s j) \<Longrightarrow> u" using ok up one False by (auto simp: put_ok_def)
    moreover have "lock_ok s j" using inv by (simp add: lock_inv_def)
    ultimately show ?thesis using False m local_ok_up by (simp add: lock_ok_def put_def)
  qed (use ok in \<open>simp add: lock_ok_def put_def put_ok_def\<close>)
  ultimately show ?thesis by (simp add: lock_inv_def)
qed

lemma of_nat_remove1: "x \<in> set xs \<Longrightarrow> (of_nat (length (remove1 x xs)) :: u32) = of_nat (length xs) - 1"
proof -
  assume "x \<in> set xs"
  then have "length xs = Suc (length (remove1 x xs))" 
    using length_pos_if_in_set [of x xs] by (simp add: length_remove1)
  then show ?thesis by simp
qed

lemmas step_defs = upd_lock_def upd_lks_def in_lists_def remove_element_def dec_readers_def dec_writers_def effective_def
  returns_def waits_def add_reader_def add_writer_def

lemma lock_ok_facts:
  assumes "lock_inv s"
  shows "local_ok (locks s l) (l \<in> set (rl s)) (l \<in> set (wl s)) (up s) (pending s l)"
    and "distinct (rl s @ wl s)" and "lk_readers (lks s) = of_nat (length (rl s))"
    and "lk_writers (lks s) = of_nat (length (wl s))"
  using assms by (simp_all add: lock_inv_def lock_ok_def lists_ok_def)

lemma put_same:
  assumes "lock_inv s"
  shows "s\<lparr>pending := (pending s)(l := p)\<rparr> = put l (locks s l) (rl s) (wl s) (up s) p s"
    and "(upd_lock l f s)\<lparr>pending := (pending s)(l := p)\<rparr> = put l (f (locks s l)) (rl s) (wl s) (up s) p s"
  using lock_ok_facts(3,4) [OF assms] by (simp_all add: put_def upd_lock_def)

lemma local_ok_none: "local_ok x r w u p \<Longrightarrow> local_ok x r w u None"
  by (simp add: local_ok_def)

lemma pointers_ok_flags [simp]:
  "pointers_ok (x\<lparr>ol_EFFECTIVE := b\<rparr>) = pointers_ok x"
  "pointers_ok x \<Longrightarrow> pointers_ok (x\<lparr>ol_UPGRADED := False\<rparr>)"
  "pointers_ok x \<Longrightarrow> ol_type x \<noteq> OSNS_LOCK_TYPE_NONE \<or> \<not> b \<Longrightarrow> pointers_ok (x\<lparr>ol_LIST := b\<rparr>)"
  unfolding pointers_ok_def by (simp_all, (elim disjE, simp_all)+)

lemma local_ok_effective [simp]: "local_ok (x\<lparr>ol_EFFECTIVE := b\<rparr>) r w u p = local_ok x r w u p"
  by (simp add: local_ok_def)

lemma put_same_inv:
  assumes "lock_inv s" and "local_ok x (l \<in> set (rl s)) (l \<in> set (wl s)) (up s) p"
    and "ol_UPGRADED x = ol_UPGRADED (locks s l)"
  shows "lock_inv (put l x (rl s) (wl s) (up s) p s)"
  by (rule put_inv [OF assms(1)]) (use assms(2,3) lock_ok_facts(2) [OF assms(1)] in \<open>simp add: put_ok_def\<close>)

lemma readlock_inv:
  assumes "lock_inv s" and "ol_type (locks s l) = OSNS_LOCK_TYPE_READ" and "osns_readlock l s = Some (s', v)"
  shows "lock_inv s'"
proof -
  let ?x = "locks s l"
  note f = lock_ok_facts(1) [OF assms(1), of l] lock_ok_facts(2-4) [OF assms(1)]
  consider "s' = put l (?x\<lparr>ol_EFFECTIVE := True\<rparr>) (rl s) (wl s) (up s) None s"
    | "\<not> ol_LIST ?x" "s' = put l ?x (rl s) (wl s) (up s) (Some CB_readlock) s"
    | "\<not> ol_LIST ?x" "s' = put l (?x\<lparr>ol_LIST := True, ol_EFFECTIVE := True\<rparr>) (rl s @ [l]) (wl s) (up s) None s"
    using assms(3) f(3,4) by (auto simp: osns_readlock_def step_defs put_def split: if_splits)
  then show ?thesis
  proof cases
    case 1
    then show ?thesis by (simp add: put_same_inv assms(1) local_ok_none [OF f(1)])
  next
    case 2
    have "local_ok ?x (l \<in> set (rl s)) (l \<in> set (wl s)) (up s) (Some CB_readlock)"
      using f(1) 2(1) assms(2) by (auto simp: local_ok_def)
    then show ?thesis using 2 assms(1) by (auto intro: put_same_inv)
  next
    case 3
    have "l \<notin> set (rl s)" "l \<notin> set (wl s)" using f(1) 3(1) by (simp_all add: local_ok_def)
    moreover have "local_ok (?x\<lparr>ol_LIST := True, ol_EFFECTIVE := True\<rparr>) True False (up s) None"
      using f(1) 3(1) assms(2) by (auto simp: local_ok_def type_defs)
    ultimately show ?thesis using 3 f(2) by (auto intro!: put_inv [OF assms(1)] simp: put_ok_def)
  qed
qed

lemma readunlock_inv:
  assumes "lock_inv s" and "ol_type (locks s l) = OSNS_LOCK_TYPE_READ" and "pending s l = None"
    and "osns_readunlock l s = Some (s', v)"
  shows "lock_inv s'"
proof -
  let ?x = "locks s l"
  note f = lock_ok_facts(1) [OF assms(1), of l] lock_ok_facts(2-4) [OF assms(1)]
  show ?thesis
  proof (cases "ol_LIST ?x")
    case True
    then have l: "l \<in> set (rl s)" "l \<notin> set (wl s)" using f assms(2) by (auto simp: local_ok_def type_defs)
    have "s' = put l (?x\<lparr>ol_LIST := False, ol_EFFECTIVE := False\<rparr>) (remove1 l (rl s)) (wl s) (up s) None s"
      using assms(4) True l f(3,4)
      by (auto simp: osns_readunlock_def Let_def step_defs put_def of_nat_remove1 remove1_idem)
    moreover have "local_ok (?x\<lparr>ol_LIST := False, ol_EFFECTIVE := False\<rparr>) False False (up s) None"
      using f(1) l by (auto simp: local_ok_def)
    ultimately show ?thesis using f(2) l by (auto intro!: put_inv [OF assms(1)] simp: put_ok_def)
  next
    case False
    then have "s' = put l (?x\<lparr>ol_EFFECTIVE := False\<rparr>) (rl s) (wl s) (up s) None s"
      using assms(4) f(3,4) by (auto simp: osns_readunlock_def Let_def step_defs put_def)
    then show ?thesis by (simp add: put_same_inv assms(1) local_ok_none [OF f(1)])
  qed
qed

lemma writelock_wait_put:
  assumes "lock_inv s" and "writelock_wait l s = Some (s', v)"
  obtains "s' = put l (locks s l) (rl s) (wl s) (up s) (Some CB_writelock) s"
  | "s' = put l ((locks s l)\<lparr>ol_EFFECTIVE := True\<rparr>) (rl s) (wl s) (up s) None s"
  using assms lock_ok_facts(3,4) [OF assms(1)]
  by (auto simp: writelock_wait_def step_defs put_def split: if_splits)

lemma writelock_wait_inv:
  assumes "lock_inv s" and "l \<in> set (wl s)" and "writelock_wait l s = Some (s', v)"
  shows "lock_inv s'"
  using assms(1,3)
proof (cases rule: writelock_wait_put)
  case 1
  have "local_ok (locks s l) (l \<in> set (rl s)) (l \<in> set (wl s)) (up s) (Some CB_writelock)"
    using lock_ok_facts(1) [OF assms(1), of l] assms(2) by (auto simp: local_ok_def)
  then show ?thesis using 1 by (simp add: put_same_inv assms(1))
next
  case 2
  then show ?thesis by (simp add: put_same_inv assms(1) local_ok_none [OF lock_ok_facts(1)])
qed

text \<open>Queueing a write lock at the end.\<close>

lemma queue_writer_inv:
  assumes "lock_inv s" and "ol_type (locks s l) = OSNS_LOCK_TYPE_WRITE" and "pending s l = None" and "\<not> ol_LIST (locks s l)"
    and "add_writer False l s = Some s1" and "s2 = upd_lock l (\<lambda>x. x\<lparr>ol_LIST := True\<rparr>) s1"
  shows "lock_inv s2 \<and> l \<in> set (wl s2) \<and> pending s2 = pending s"
proof -
  note f = lock_ok_facts(1) [OF assms(1), of l] lock_ok_facts(2-4) [OF assms(1)]
  have "s2 = put l ((locks s l)\<lparr>ol_LIST := True\<rparr>) (rl s) (wl s @ [l]) (up s) None s"
    using assms(3,5,6) f(3,4) [symmetric]
    by (auto simp: step_defs put_def add.commute fun_upd_idem split: if_splits)
  moreover have "lock_inv \<dots>"
  proof (rule put_inv [OF assms(1)])
    have "l \<notin> set (rl s)" "l \<notin> set (wl s)" using f(1) assms(4) by (simp_all add: local_ok_def)
    moreover have "local_ok ((locks s l)\<lparr>ol_LIST := True\<rparr>) False True (up s) None"
      using f(1) assms(2,4) by (auto simp: local_ok_def type_defs)
    ultimately show "put_ok l ((locks s l)\<lparr>ol_LIST := True\<rparr>) (rl s) (wl s @ [l]) (up s) None s"
      using f(2) by (auto simp: put_ok_def)
  qed
  ultimately show ?thesis using assms(3) by (auto simp: put_def fun_upd_idem)
qed

lemma writelock_inv:
  assumes "lock_inv s" and "ol_type (locks s l) = OSNS_LOCK_TYPE_WRITE" and "pending s l = None"
    and "osns_writelock l s = Some (s', v) \<or> osns_prewritelock l s = Some (s', v)"
  shows "lock_inv s'"
proof -
  obtain s2 where s2: "lock_inv s2" "l \<in> set (wl s2)" "pending s2 = pending s"
    and s': "writelock_wait l s2 = Some (s', v) \<or> returns 0 l s2 = Some (s', v)"
  proof (cases "ol_LIST (locks s l)")
    case True
    then have "l \<in> set (wl s)"
      using lock_ok_facts(1) [OF assms(1), of l] assms(2) by (auto simp: local_ok_def type_defs)
    then show ?thesis using that [of s] True assms by (auto simp: osns_writelock_def osns_prewritelock_def split: if_splits)
  next
    case False
    then show ?thesis
      using that assms(4) queue_writer_inv [OF assms(1-3) False]
      by (auto simp: osns_writelock_def osns_prewritelock_def bind_eq_Some_conv split: if_splits)
  qed
  have "s2\<lparr>pending := (pending s2)(l := None)\<rparr> = s2" using assms(3) s2(3) by (simp add: fun_upd_idem)
  then show ?thesis
    using s' writelock_wait_inv [OF s2(1,2)] s2(1) by (auto simp: returns_def)
qed

lemma clear_same:
  "\<not> ol_LIST x \<Longrightarrow> x\<lparr>ol_LIST := False\<rparr> = x" "\<not> ol_UPGRADED x \<Longrightarrow> x\<lparr>ol_UPGRADED := False\<rparr> = x"
  by simp_all

lemma writeunlock_inv:
  assumes "lock_inv s" and "ol_type (locks s l) = OSNS_LOCK_TYPE_WRITE" and "osns_writeunlock l s = Some (s', v)"
  shows "lock_inv s'"
proof -
  let ?x = "locks s l"
  note f = lock_ok_facts(1) [OF assms(1), of l] lock_ok_facts(2-4) [OF assms(1)]
  have r: "l \<notin> set (rl s)" using f(1) assms(2) by (auto simp: local_ok_def type_defs)
  then have "remove1 l (rl s) = rl s" by (simp add: remove1_idem)
  moreover have "l \<in> set (wl s) \<longleftrightarrow> ol_LIST ?x" using f(1) r by (auto simp: local_ok_def)
  ultimately have "s' = put l (?x\<lparr>ol_LIST := False, ol_UPGRADED := False, ol_EFFECTIVE := False\<rparr>) (rl s) (remove1 l (wl s))
      (up s \<and> \<not> ol_UPGRADED ?x) None s"
    using assms(3) f(3,4) [symmetric]
    by (auto simp: osns_writeunlock_def Let_def step_defs put_def of_nat_remove1 remove1_idem clear_same split: if_splits)
  moreover have "local_ok (?x\<lparr>ol_LIST := False, ol_UPGRADED := False, ol_EFFECTIVE := False\<rparr>) False False u None" for u
    using f(1) assms(2) by (auto simp: local_ok_def type_defs)
  moreover have "ol_UPGRADED ?x \<Longrightarrow> up s" using f(1) by (simp add: local_ok_def)
  ultimately show ?thesis
    using f(2) r by (auto intro!: put_inv [OF assms(1)] simp: put_ok_def)
qed

text \<open>A read lock that is put in front of the writers, with or without the upgrade.\<close>

lemma to_writer_inv:
  assumes "lock_inv s" and "ol_type (locks s l) = OSNS_LOCK_TYPE_READ" and "local_ok x False True (ol_UPGRADED x \<or> up s) p"
    and "ol_UPGRADED x \<Longrightarrow> \<not> up s"
  shows "lock_inv (put l x (remove1 l (rl s)) (l # wl s) (ol_UPGRADED x \<or> up s) p s)"
proof -
  note f = lock_ok_facts(1) [OF assms(1), of l] lock_ok_facts(2-4) [OF assms(1)]
  have "l \<notin> set (wl s)" using f(1) assms(2) by (auto simp: local_ok_def type_defs)
  moreover have "\<not> ol_UPGRADED (locks s l)" using f(1) assms(2) by (auto simp: local_ok_def type_defs)
  ultimately have "put_ok l x (remove1 l (rl s)) (l # wl s) (ol_UPGRADED x \<or> up s) p s"
    using f(2) assms(3,4) by (auto simp: put_ok_def)
  then show ?thesis by (rule put_inv [OF assms(1)])
qed

lemma upgrade_wait_inv:
  assumes "lock_inv s" and "ol_UPGRADED (locks s l)" and "upgrade_wait l s = Some (s', v)"
  shows "lock_inv s'"
proof -
  note f = lock_ok_facts(1) [OF assms(1), of l] lock_ok_facts(2-4) [OF assms(1)]
  have p: "local_ok (locks s l) (l \<in> set (rl s)) (l \<in> set (wl s)) (up s) (Some CB_upgrade_readlock)"
    using f(1) assms(2) by (auto simp: local_ok_def)
  consider "s' = put l (locks s l) (rl s) (wl s) (up s) (Some CB_upgrade_readlock) s"
    | "s' = put l ((locks s l)\<lparr>ol_EFFECTIVE := True\<rparr>) (rl s) (wl s) (up s) None s"
    using assms(3) f(3,4) by (auto simp: upgrade_wait_def step_defs put_def split: if_splits)
  then show ?thesis by cases (simp_all add: put_same_inv assms(1) p local_ok_none [OF f(1)])
qed

lemma upgrade_inv:
  assumes "lock_inv s" and "pending s l = None" and "osns_upgrade_readlock l s = Some (s', v)"
  shows "lock_inv s'"
proof -
  let ?x = "locks s l"
  let ?y = "?x\<lparr>ol_LIST := True, ol_type := OSNS_LOCK_TYPE_WRITE, ol_lock := CB_writelock, ol_unlock := CB_writeunlock,
    ol_upgrade := CB_upgrade_writelock, ol_downgrade := CB_prewritelock, ol_prelock := CB_prewritelock, ol_UPGRADED := True\<rparr>"
  note f = lock_ok_facts(1) [OF assms(1), of l] lock_ok_facts(2-4) [OF assms(1)]
  show ?thesis
  proof (cases "ol_type ?x = OSNS_LOCK_TYPE_READ \<and> \<not> up s")
    case False
    then have "s' = s"
      using assms(2,3) by (auto simp: osns_upgrade_readlock_def returns_def fun_upd_idem split: if_splits)
    then show ?thesis using assms(1) by simp
  next
    case True
    then have w: "l \<notin> set (wl s)" "ol_LIST ?x \<longleftrightarrow> l \<in> set (rl s)" using f(1) by (auto simp: local_ok_def type_defs)
    let ?t = "put l ?y (remove1 l (rl s)) (l # wl s) True None s"
    have "upgrade_wait l ?t = Some (s', v)"
      using True assms(2,3) w f(3,4) [symmetric]
      by (auto simp: osns_upgrade_readlock_def Let_def step_defs put_def of_nat_remove1 remove1_idem add.commute fun_upd_idem
          split: if_splits)
    moreover have "lock_inv ?t"
      using to_writer_inv [OF assms(1), of l ?y None] True by (simp add: local_ok_def pointers_ok_def type_defs)
    ultimately show ?thesis by (auto intro: upgrade_wait_inv simp: put_def)
  qed
qed

lemma prereadlock_inv:
  assumes "lock_inv s" and "pending s l = None" and "ol_type (locks s l) = OSNS_LOCK_TYPE_READ" and "ol_LIST (locks s l)"
    and "osns_prereadlock l s = Some (s', v)"
  shows "lock_inv s'"
proof -
  let ?x = "locks s l"
  let ?y = "?x\<lparr>ol_type := OSNS_LOCK_TYPE_WRITE, ol_lock := CB_writelock, ol_unlock := CB_writeunlock,
    ol_upgrade := CB_upgrade_writelock, ol_prelock := CB_prewritelock\<rparr>"
  note f = lock_ok_facts(1) [OF assms(1), of l] lock_ok_facts(2-4) [OF assms(1)]
  have w: "l \<notin> set (wl s)" "l \<in> set (rl s)" "\<not> ol_UPGRADED ?x"
    using f(1) assms(3,4) by (auto simp: local_ok_def type_defs)
  then have "s' = put l ?y (remove1 l (rl s)) (l # wl s) (up s) None s"
    using assms(2,4,5) f(3,4) [symmetric]
    by (auto simp: osns_prereadlock_def Let_def step_defs put_def of_nat_remove1 remove1_idem add.commute split: if_splits)
  moreover have "local_ok ?y False True (up s) None"
    using f(1) assms(4) w by (auto simp: local_ok_def pointers_ok_def type_defs)
  ultimately show ?thesis using to_writer_inv [OF assms(1,3), of ?y None] w by simp
qed

text \<open>The calls through the pointers.\<close>

lemma returns_inv: "lock_inv s \<Longrightarrow> returns c l s = Some (s', v) \<Longrightarrow> lock_inv s'"
  by (auto simp: returns_def put_same(1) intro!: put_same_inv local_ok_none lock_ok_facts(1))

lemma pointers_cases:
  assumes "lock_inv s"
  obtains "ol_type (locks s l) = OSNS_LOCK_TYPE_READ" "ol_lock (locks s l) = CB_readlock"
    "ol_unlock (locks s l) = CB_readunlock" "ol_upgrade (locks s l) = CB_upgrade_readlock"
    "ol_prelock (locks s l) = CB_prereadlock"
  | "ol_type (locks s l) = OSNS_LOCK_TYPE_WRITE" "ol_lock (locks s l) = CB_writelock"
    "ol_unlock (locks s l) = CB_writeunlock" "ol_upgrade (locks s l) = CB_upgrade_writelock"
    "ol_prelock (locks s l) = CB_prewritelock"
  | "ol_type (locks s l) = OSNS_LOCK_TYPE_NONE" "ol_lock (locks s l) = CB_nonelock"
    "ol_unlock (locks s l) = CB_noneunlock" "ol_upgrade (locks s l) = CB_upgrade_nonelock"
    "ol_prelock (locks s l) = CB_prenonelock"
proof -
  have "pointers_ok (locks s l)" using lock_ok_facts(1) [OF assms, of l] by (simp add: local_ok_def)
  then show thesis unfolding pointers_ok_def using that by (elim disjE conjE) simp_all
qed

lemma lock_calls_inv:
  assumes "lock_inv s" and "pending s l = None"
    and "osns_lock l s = Some (s', v) \<or> osns_unlock l s = Some (s', v) \<or> osns_upgradelock l s = Some (s', v) \<or>
      osns_prelock l s = Some (s', v) \<and> (ol_type (locks s l) = OSNS_LOCK_TYPE_READ \<longrightarrow> ol_LIST (locks s l))"
  shows "lock_inv s'"
  using assms(1)
proof (cases rule: pointers_cases [of s l])
  case 1
  then show ?thesis
    using assms(3) readlock_inv [OF assms(1) 1(1)] readunlock_inv [OF assms(1) 1(1) assms(2)]
      upgrade_inv [OF assms(1,2)] prereadlock_inv [OF assms(1,2) 1(1)]
    by (auto simp: osns_lock_def osns_unlock_def osns_upgradelock_def osns_prelock_def)
next
  case 2
  then show ?thesis
    using assms(3) writelock_inv [OF assms(1) 2(1) assms(2)] writeunlock_inv [OF assms(1) 2(1)] returns_inv [OF assms(1)]
    by (auto simp: osns_lock_def osns_unlock_def osns_upgradelock_def osns_prelock_def)
next
  case 3
  then show ?thesis
    using assms(3) returns_inv [OF assms(1)]
    by (auto simp: osns_lock_def osns_unlock_def osns_upgradelock_def osns_prelock_def)
qed

text \<open>The downgrade pointer never reaches an upgraded lock: it holds the function that queues a writer by then.\<close>

lemma downgrade_inv:
  assumes "lock_inv s" and "pending s l = None" and "osns_downgradelock l s = Some (s', v)"
  shows "lock_inv s'"
proof -
  note f = lock_ok_facts(1) [OF assms(1), of l]
  consider "ol_downgrade (locks s l) = CB_prewritelock" "ol_type (locks s l) = OSNS_LOCK_TYPE_WRITE"
    | "ol_downgrade (locks s l) = CB_downgrade_readlock" "\<not> ol_UPGRADED (locks s l)"
    | "ol_downgrade (locks s l) = CB_upgrade_writelock" | "ol_downgrade (locks s l) = CB_unset"
    using f by (auto simp: local_ok_def)
  then show ?thesis
  proof cases
    case 1
    then show ?thesis using assms writelock_inv [OF assms(1) 1(2) assms(2)] by (auto simp: osns_downgradelock_def)
  next
    case 2
    then show ?thesis
      using assms(3) returns_inv [OF assms(1)] by (auto simp: osns_downgradelock_def osns_downgrade_readlock_def)
  qed (use assms(3) returns_inv [OF assms(1)] in \<open>auto simp: osns_downgradelock_def\<close>)
qed

lemma wake_inv:
  assumes "lock_inv s" and "pending s l = Some cb" and "lock_wake cb l s = Some (s', v)"
  shows "lock_inv s'"
proof -
  note f = lock_ok_facts(1) [OF assms(1), of l]
  consider "cb = CB_readlock" "ol_type (locks s l) = OSNS_LOCK_TYPE_READ"
    | "cb = CB_writelock" "l \<in> set (wl s)" | "cb = CB_upgrade_readlock" "ol_UPGRADED (locks s l)"
    using f assms(2) by (auto simp: local_ok_def)
  then show ?thesis
    using assms(3) readlock_inv [OF assms(1)] writelock_wait_inv [OF assms(1)] upgrade_wait_inv [OF assms(1)]
    by cases (auto simp: lock_wake_def)
qed

lemma init_ok:
  "local_ok init_osns_readlock False False u None" "local_ok init_osns_writelock False False u None"
  "\<not> ol_UPGRADED init_osns_readlock" "\<not> ol_UPGRADED init_osns_writelock" "\<not> ol_UPGRADED (init_osns_nonelock x)"
  by (simp_all add: local_ok_def pointers_ok_def init_osns_nonelock_def init_osns_readlock_def init_osns_writelock_def type_defs)

lemma init_none_ok: "local_ok (init_osns_nonelock (x\<lparr>ol_downgrade := CB_unset\<rparr>)) False False u None"
  by (simp add: local_ok_def pointers_ok_def init_osns_nonelock_def type_defs)

lemma init_inv:
  assumes "lock_inv s" and "\<not> in_lists s l" and "pending s l = None" and "\<not> ol_UPGRADED (locks s l)"
    and "local_ok x False False (up s) None" and "\<not> ol_UPGRADED x"
  shows "lock_inv (upd_lock l (\<lambda>y. x) s)"
proof -
  have "upd_lock l (\<lambda>y. x) s = put l x (rl s) (wl s) (up s) None s"
    using assms(3) lock_ok_facts(3,4) [OF assms(1)] by (simp add: put_def upd_lock_def fun_upd_idem)
  then show ?thesis using assms(2,4-6) by (simp add: put_same_inv assms(1) in_lists_def)
qed

lemma init_locking_facts:
  "init_osns_locking flags a b = Some k \<Longrightarrow>
     \<not> lk_UPGRADE k \<and> lk_readlocks k = [] \<and> lk_readers k = 0 \<and> lk_writelocks k = [] \<and> lk_writers k = 0"
  by (auto simp: init_osns_locking_def split: if_splits)

lemma start_inv:
  assumes "start_state s"
  shows "lock_inv s"
proof -
  have "lists_ok s \<and> rl s = [] \<and> wl s = [] \<and> \<not> up s"
    using assms by (auto simp: start_state_def lists_ok_def dest: init_locking_facts)
  moreover have "\<not> ol_UPGRADED (locks s l) \<and> local_ok (locks s l) False False u None \<and> pending s l = None" for l u
    using assms init_ok unfolding start_state_def by (metis insertE singletonD)
  ultimately show ?thesis by (simp add: lock_inv_def upgrade_ok_def lock_ok_def)
qed

text \<open>No operation faults: a lock whose flag is not set is in no list, and one that was removed is in none any more.\<close>

lemma in_lists_flag: "lock_inv s \<Longrightarrow> in_lists s l \<longleftrightarrow> ol_LIST (locks s l)"
  using lock_ok_facts(1) [of s l] by (auto simp: local_ok_def in_lists_def)

lemma removed_not_in_lists: "lock_inv s \<Longrightarrow> \<not> in_lists (remove_element l s) l"
  using lock_ok_facts(2) [of s] by (simp add: in_lists_def remove_element_def upd_lks_def)

lemma in_lists_same [simp]:
  "in_lists (dec_readers s) l = in_lists s l" "in_lists (dec_writers s) l = in_lists s l"
  "in_lists (upd_lks (\<lambda>k. k\<lparr>lk_UPGRADE := u\<rparr>) s) l = in_lists s l"
  "remove_element l (upd_lks (\<lambda>k. k\<lparr>lk_UPGRADE := u\<rparr>) s) = upd_lks (\<lambda>k. k\<lparr>lk_UPGRADE := u\<rparr>) (remove_element l s)"
  "locks (upd_lks f s) = locks s"
  by (simp_all add: in_lists_def dec_readers_def dec_writers_def upd_lks_def remove_element_def)

lemmas total_defs = returns_def waits_def add_reader_def add_writer_def Let_def

lemma operations_total:
  assumes "lock_inv s"
  shows "osns_readlock l s \<noteq> None" "osns_readunlock l s \<noteq> None" "osns_writelock l s \<noteq> None" "osns_writeunlock l s \<noteq> None"
    "osns_prewritelock l s \<noteq> None" "osns_upgrade_readlock l s \<noteq> None" "osns_downgrade_readlock l s \<noteq> None" "osns_prereadlock l s \<noteq> None"
    "writelock_wait l s \<noteq> None" "upgrade_wait l s \<noteq> None"
  using in_lists_flag [OF assms, of l] removed_not_in_lists [OF assms, of l]
  by (auto simp: osns_readlock_def osns_readunlock_def osns_writelock_def osns_writeunlock_def osns_prewritelock_def writelock_wait_def
      osns_upgrade_readlock_def upgrade_wait_def osns_downgrade_readlock_def osns_prereadlock_def total_defs)

lemma call_op_total:
  assumes "lock_inv s" and "allowed s (Ev_call f l)"
  shows "call_op f l s \<noteq> None"
proof -
  note f = lock_ok_facts(1) [OF assms(1), of l] and t = operations_total [OF assms(1)]
  have r: "returns v l s \<noteq> None" for v by (simp add: returns_def)
  have "ol_downgrade (locks s l) \<noteq> CB_unset" if "f = Op_downgrade" using assms(2) f that by (auto simp: allowed_def local_ok_def)
  moreover have "ol_downgrade (locks s l) \<in> {CB_unset, CB_downgrade_readlock, CB_upgrade_writelock, CB_prewritelock}"
    using f by (simp add: local_ok_def)
  ultimately have "call_op f l s \<noteq> None" if "f = Op_downgrade" using t r that by (auto simp: osns_downgradelock_def)
  moreover have "call_op f l s \<noteq> None" if "f \<noteq> Op_downgrade"
    using assms(1) t r that
    by (cases rule: pointers_cases [of s l]; cases f)
      (simp_all add: osns_lock_def osns_unlock_def osns_upgradelock_def osns_prelock_def)
  ultimately show ?thesis by blast
qed

lemma call_op_inv:
  assumes "lock_inv s" and "pending s l = None" and "allowed s (Ev_call f l)" and "call_op f l s = Some (s', v)"
  shows "lock_inv s'"
  using assms(3,4) lock_calls_inv [OF assms(1,2), of s' v] downgrade_inv [OF assms(1,2), of s' v] by (cases f) (simp_all add: allowed_def)

lemma lock_run_ok:
  assumes "lock_run s ev out" and "allowed s ev" and "lock_inv s"
  shows "\<exists>s'. out = Some s' \<and> lock_inv s'"
  using assms(1)
proof cases
  case (run_init l i)
  then have l: "\<not> in_lists s l" using assms(2) by (simp add: allowed_def)
  moreover have "\<not> ol_UPGRADED (locks s l)"
    using lock_ok_facts(1) [OF assms(3), of l] l by (auto simp: local_ok_def in_lists_def)
  ultimately show ?thesis
    using run_init init_inv [OF assms(3) l _ _ init_none_ok init_ok(5)] init_inv [OF assms(3) l _ _ init_ok(1,3)]
      init_inv [OF assms(3) l _ _ init_ok(2,4)] by (cases i) (simp_all add: upd_lock_def)
next
  case (run_call l f)
  then obtain s' v where "call_op f l s = Some (s', v)" using call_op_total [OF assms(3), of f l] assms(2) by auto
  then show ?thesis using run_call call_op_inv [OF assms(3), of l f] assms(2) by simp
next
  case (run_wake l cb)
  then obtain s' v where "lock_wake cb l s = Some (s', v)" using operations_total [OF assms(3), of l] by (fastforce simp: lock_wake_def)
  then show ?thesis using run_wake wake_inv [OF assms(3), of l cb] by simp
qed

lemma lock_reach_ok: "lock_reach s0 out \<Longrightarrow> lock_inv s0 \<Longrightarrow> \<exists>s. out = Some s \<and> lock_inv s"
  by (induction rule: lock_reach.induct) (auto dest: lock_run_ok)

lemma reach_inv: "start_state s0 \<Longrightarrow> lock_reach s0 (Some s) \<Longrightarrow> lock_inv s"
  using lock_reach_ok [of s0 "Some s"] start_inv by auto

section \<open>What the locks promise\<close>

text \<open>
  C29: callers that do not initialise a lock that is in a list, prelock a read lock only while it is held, and do not downgrade a lock of type
  \<open>NONE\<close>, may otherwise do what they want with their locks, in any order and with any wake ups: no step
  has undefined behaviour, in particular no lock is added to a list it is in, and the state of the locks stays consistent. No lock is twice in the lists, the
  two counters are the lengths of the lists, a lock is in the list of its type exactly when its flag says so, its pointers are those of its
  type, at most one lock is upgraded, and a waiting lock is where its call left it. That readers and writers exclude each
  other is not part of this, and is not so.
\<close>

theorem lock_reachable_inv:
  assumes "start_state s0" and "lock_reach s0 out"
  shows "\<exists>s. out = Some s \<and> lock_inv s"
  using lock_reach_ok [OF assms(2)] start_inv [OF assms(1)] by blast

definition locks_0 :: lock_state where
  "locks_0 = \<lparr>lks = the (init_osns_locking 1 True True),
     locks = (\<lambda>l. if l < 2 then init_osns_readlock else init_osns_writelock), pending = (\<lambda>l. None)\<rparr>"

lemma locks_0_start: "start_state locks_0"
proof -
  have "init_osns_locking 1 True True = Some (lks locks_0)"
    by (simp add: locks_0_def init_osns_locking_def OSNS_LOCKING_FLAG_ALLOC_LOCK_def)
  then show ?thesis unfolding start_state_def by (auto simp: locks_0_def)
qed

lemmas locks_0_simps = locks_0_def init_osns_locking_def OSNS_LOCKING_FLAG_ALLOC_LOCK_def init_osns_readlock_def
  init_osns_writelock_def osns_lock_def osns_prelock_def osns_upgradelock_def osns_downgradelock_def

text \<open>A sequence of calls, one after the other.\<close>

fun calls :: "(lock_op \<times> nat) list \<Rightarrow> lock_state \<Rightarrow> lock_state option" where
  "calls [] s = Some s"
| "calls ((f, l) # fs) s = do { (s', v) \<leftarrow> call_op f l s; calls fs s' }"

lemma calls_reach:
  assumes "calls fs s = Some s'" and "lock_reach s0 (Some s)" and "\<forall>(f, l) \<in> set fs. f \<in> {Op_lock, Op_unlock, Op_upgrade}"
    and "\<forall>n < length fs. \<forall>t. calls (take n fs) s = Some t \<longrightarrow> pending t (snd (fs ! n)) = None"
  shows "lock_reach s0 (Some s')"
  using assms
proof (induction fs arbitrary: s)
  case (Cons x fs)
  obtain f l where x: "x = (f, l)" by (cases x)
  with Cons.prems(1) obtain t v where t: "call_op f l s = Some (t, v)" "calls fs t = Some s'" by (auto simp: bind_eq_Some_conv)
  have "pending s l = None" using Cons.prems(4) x by force
  then have "lock_run s (Ev_call f l) (Some t)" using run_call [of s l f] t(1) by simp
  moreover have "allowed s (Ev_call f l)" using Cons.prems(3) x by (auto simp: allowed_def)
  ultimately have "lock_reach s0 (Some t)" using Cons.prems(2) reach_step by blast
  moreover have "\<forall>n < length fs. \<forall>u. calls (take n fs) t = Some u \<longrightarrow> pending u (snd (fs ! n)) = None"
  proof (intro allI impI)
    fix n u assume "n < length fs" "calls (take n fs) t = Some u"
    then show "pending u (snd (fs ! n)) = None" using Cons.prems(4) [rule_format, of "Suc n" u] x t(1) by simp
  qed
  ultimately show ?case using Cons.IH [OF t(2)] Cons.prems(3) by simp
qed simp

lemmas calls_simps = locks_0_simps osns_readlock_def osns_writelock_def writelock_wait_def osns_upgrade_readlock_def
  upgrade_wait_def osns_prewritelock_def osns_prereadlock_def list_first_def step_defs type_defs All_less_Suc

theorem lock_reachable_inv_witness:
  "\<exists>s. start_state locks_0 \<and> calls [(Op_lock, 0), (Op_lock, 2), (Op_upgrade, 0)] locks_0 = Some s \<and> lock_inv s"
proof -
  let ?fs = "[(Op_lock, 0), (Op_lock, 2), (Op_upgrade, 0)]"
  obtain s where e: "calls ?fs locks_0 = Some s" by (simp add: calls_simps)
  then have "lock_reach locks_0 (Some s)" by (rule calls_reach [OF _ reach_start]) (auto simp: calls_simps numeral_eq_Suc)
  then show ?thesis using lock_reachable_inv [OF locks_0_start] locks_0_start e by blast
qed

text \<open>
  A reader only joins when no writer is queued, and a queued writer, first or not, holds back every reader that
  comes later: in a reachable state with fewer than \<open>2^32\<close> queued writers, locking a read lock that is not held either joins at the
  end of the readers and returns 0, when there is no writer, or waits and changes nothing.
\<close>

lemma readers_wait_for_writers:
  assumes "start_state s0" and "lock_reach s0 (Some s)" and "pending s l = None"
    and "ol_type (locks s l) = OSNS_LOCK_TYPE_READ" and "\<not> ol_LIST (locks s l)"
    and "length (lk_writelocks (lks s)) < 2 ^ 32"
  shows "\<exists>s' v. osns_lock l s = Some (s', v) \<and>
    (if lk_writelocks (lks s) = []
     then v = Some 0 \<and> lk_readlocks (lks s') = lk_readlocks (lks s) @ [l] \<and> lk_writelocks (lks s') = [] \<and>
       ol_EFFECTIVE (locks s' l) \<and> pending s' l = None
     else v = None \<and> lks s' = lks s \<and> locks s' = locks s \<and> pending s' l = Some CB_readlock)"
proof -
  have inv: "lock_inv s" using assms(1,2) by (rule reach_inv)
  note f = lock_ok_facts(1) [OF inv, of l] lock_ok_facts(2-4) [OF inv]
  have "ol_lock (locks s l) = CB_readlock" using inv by (cases rule: pointers_cases [of s l]) (use assms(4) in \<open>simp_all add: type_defs\<close>)
  moreover have "\<not> in_lists s l" using f(1) assms(5) by (simp add: local_ok_def in_lists_def)
  moreover have "lk_writers (lks s) > 0 \<longleftrightarrow> wl s \<noteq> []"
    using f(4) assms(6) by (auto simp: word_gt_0 of_nat_eq_0_iff word_of_nat_eq_0_iff dest: nat_dvd_not_less)
  ultimately show ?thesis
    using assms(5) by (simp add: osns_lock_def osns_readlock_def returns_def waits_def add_reader_def effective_def upd_lock_def upd_lks_def)
qed

lemma readers_wait_for_writers_example:
  "\<exists>s s'. calls [(Op_lock, 2)] locks_0 = Some s \<and> lk_writelocks (lks s) = [2] \<and>
     osns_lock 0 s = Some (s', None) \<and> locks s' = locks s"
proof -
  obtain s where e: "calls [(Op_lock, 2)] locks_0 = Some s" by (simp add: calls_simps)
  then have "lock_reach locks_0 (Some s)" by (rule calls_reach [OF _ reach_start]) (auto simp: calls_simps)
  moreover have "lk_writelocks (lks s) = [2] \<and> pending s 0 = None \<and> locks s 0 = init_osns_readlock"
    using e by (auto simp: calls_simps)
  ultimately show ?thesis
    using readers_wait_for_writers [OF locks_0_start, of s 0] e by (auto simp: init_osns_readlock_def)
qed

text \<open>
  C30: only one reader upgrades at a time: in a reachable state, asking for the upgrade of a held read lock while another
  lock is upgraded returns -1 and changes nothing; otherwise the lock becomes the first of the writers, and no other lock is upgraded.
\<close>

theorem upgrade_unique:
  assumes "start_state s0" and "lock_reach s0 (Some s)" and "pending s l = None"
    and "ol_type (locks s l) = OSNS_LOCK_TYPE_READ"
  shows "\<exists>s' v. osns_upgradelock l s = Some (s', v) \<and>
    (if \<exists>j. ol_UPGRADED (locks s j) then v = Some (-1) \<and> s' = s
     else v \<noteq> Some (-1) \<and> lk_writelocks (lks s') = l # lk_writelocks (lks s) \<and> l \<notin> set (lk_readlocks (lks s')) \<and>
       (\<forall>j. ol_UPGRADED (locks s' j) \<longleftrightarrow> j = l))"
proof -
  have inv: "lock_inv s" using assms(1,2) by (rule reach_inv)
  note f = lock_ok_facts(1) [OF inv, of l] lock_ok_facts(2-4) [OF inv]
  have p: "ol_upgrade (locks s l) = CB_upgrade_readlock"
    using inv by (cases rule: pointers_cases [of s l]) (use assms(4) in \<open>simp_all add: type_defs\<close>)
  have u: "up s \<longleftrightarrow> (\<exists>j. ol_UPGRADED (locks s j))"
    using inv by (auto simp: lock_inv_def upgrade_ok_def lock_ok_def local_ok_def)
  show ?thesis
  proof (cases "up s")
    case True
    then show ?thesis using u p assms(3,4) by (simp add: osns_upgradelock_def osns_upgrade_readlock_def returns_def fun_upd_idem)
  next
    case False
    have "l \<notin> set (wl s)" "ol_LIST (locks s l) \<longleftrightarrow> l \<in> set (rl s)" using f(1) assms(4) by (auto simp: local_ok_def type_defs)
    then show ?thesis using False u p assms(4) f(2)
      by (auto simp: osns_upgradelock_def osns_upgrade_readlock_def upgrade_wait_def step_defs remove1_idem)
  qed
qed

theorem upgrade_unique_witness:
  "\<exists>s. calls [(Op_lock, 0), (Op_lock, 1), (Op_upgrade, 0)] locks_0 = Some s \<and>
     osns_upgradelock 1 s = Some (s, Some (-1))"
proof -
  let ?fs = "[(Op_lock, 0), (Op_lock, 1), (Op_upgrade, 0)]"
  obtain s where e: "calls ?fs locks_0 = Some s" by (simp add: calls_simps)
  then have "lock_reach locks_0 (Some s)" by (rule calls_reach [OF _ reach_start]) (auto simp: calls_simps numeral_eq_Suc)
  moreover have "pending s 1 = None" "ol_type (locks s 1) = OSNS_LOCK_TYPE_READ" "\<exists>j. ol_UPGRADED (locks s j)"
    using e by (auto simp: calls_simps intro: exI [of _ 0])
  ultimately have "osns_upgradelock 1 s = Some (s, Some (-1))"
    using upgrade_unique [OF locks_0_start, of s 1] by (simp split: if_splits)
  then show ?thesis using e by blast
qed

section \<open>Where the code does not do what its comments say\<close>

text \<open>
  The write lock waits while there are readers \<^emph>\<open>and\<close> it is not the first. Without readers a second writer
  does not wait for the first, and the first writer does not wait for the readers.
\<close>

lemma two_writers_effective:
  "\<exists>s. calls [(Op_lock, 2), (Op_lock, 3)] locks_0 = Some s \<and> pending s 2 = None \<and> pending s 3 = None \<and>
     ol_EFFECTIVE (locks s 2) \<and> ol_EFFECTIVE (locks s 3) \<and> lk_writelocks (lks s) = [2, 3]"
  by (simp add: calls_simps)

lemma reader_and_writer_effective:
  "\<exists>s. calls [(Op_lock, 0), (Op_lock, 2)] locks_0 = Some s \<and> pending s 0 = None \<and> pending s 2 = None \<and>
     ol_EFFECTIVE (locks s 0) \<and> ol_EFFECTIVE (locks s 2) \<and> lk_readlocks (lks s) = [0] \<and> lk_writelocks (lks s) = [2]"
  by (simp add: calls_simps)

text \<open>The upgrade stores the function that queues a writer as the downgrade, so a downgrade returns 0 and changes nothing.\<close>

lemma downgrade_has_no_effect:
  assumes "lock_inv s" and "ol_UPGRADED (locks s l)" and "pending s l = None"
  shows "osns_downgradelock l s = Some (s, Some 0)"
proof -
  have "ol_downgrade (locks s l) = CB_prewritelock" "ol_LIST (locks s l)"
    using lock_ok_facts(1) [OF assms(1), of l] assms(2) by (auto simp: local_ok_def)
  then show ?thesis
    using assms(3) by (simp add: osns_downgradelock_def osns_prewritelock_def returns_def fun_upd_idem)
qed

text \<open>
  A read lock that is not held and is prelocked is in the list of writers without its flag; locking it adds it again. One that is held keeps
  \<open>EFFECTIVE\<close>, so that locking it returns at once, with another reader still there.
\<close>

lemma prelock_then_lock_breaks_list: "calls [(Op_prelock, 0), (Op_lock, 0)] locks_0 = None"
  by (simp add: calls_simps)

lemma prelock_keeps_effective:
  "\<exists>s. calls [(Op_lock, 0), (Op_lock, 1), (Op_prelock, 0), (Op_lock, 0)] locks_0 = Some s \<and> pending s 0 = None \<and>
     ol_type (locks s 0) = OSNS_LOCK_TYPE_WRITE \<and> ol_EFFECTIVE (locks s 0) \<and> lk_readlocks (lks s) = [1]"
  by (simp add: calls_simps)

lemma nonelock_downgrade_unset:
  "osns_downgradelock l (upd_lock l (\<lambda>x. init_osns_nonelock (x\<lparr>ol_downgrade := CB_unset\<rparr>)) s) = None"
  by (simp add: osns_downgradelock_def upd_lock_def init_osns_nonelock_def)

end
