(* ===== verification/Namelist.thy ===== *)
theory Namelist
  imports Ssh_String
begin

text \<open>
  Comma separated lists of names, \<open>src/lib/datatypes/ssh-namelist.c\<close>. The first section relates the
  way the code looks a name up, by searching \<open>,name,\<close> in \<open>,list,\<close>, to membership in the list
  of entries; the key exchange uses the same lemma.
\<close>

section \<open>Comma lists\<close>

abbreviation comma :: u8 where "comma \<equiv> 0x2C"

fun split_comma :: "u8 list \<Rightarrow> u8 list list" where
  "split_comma [] = [[]]"
| "split_comma (x # xs) =
     (if x = comma then [] # split_comma xs
      else (case split_comma xs of [] \<Rightarrow> [[x]] | y # ys \<Rightarrow> (x # y) # ys))"

definition wrapped :: "u8 list list \<Rightarrow> u8 list" where
  "wrapped ns = concat (map (\<lambda>n. comma # n) ns) @ [comma]"

lemma wrapped_simps [simp]: "wrapped [] = [comma]" "wrapped (n # ns) = comma # n @ wrapped ns"
  by (simp_all add: wrapped_def)

lemma split_comma_nonempty [simp]: "split_comma xs \<noteq> []"
  by (induction xs) (auto split: list.splits)

lemma split_comma_no_comma: "n \<in> set (split_comma xs) \<Longrightarrow> comma \<notin> set n"
  by (induction xs arbitrary: n) (auto split: if_splits list.splits)

lemma split_comma_subset: "n \<in> set (split_comma xs) \<Longrightarrow> set n \<subseteq> set xs"
  by (induction xs arbitrary: n) (force split: if_splits list.splits)+

lemma wrapped_split: "wrapped (split_comma xs) = comma # xs @ [comma]"
  by (induction xs) (auto split: list.splits)

lemma split_comma_append: "split_comma (xs @ comma # ys) = split_comma xs @ split_comma ys"
  by (induction xs) (auto split: list.splits)

lemma split_comma_single: "comma \<notin> set n \<Longrightarrow> split_comma n = [n]"
  by (induction n) auto

lemma comma_prefix_eq:
  assumes "comma \<notin> set n" "comma \<notin> set m" "prefix (n @ [comma]) (m @ comma # r)"
  shows "n = m"
  using assms by (induction n arbitrary: m) (case_tac m; auto)+

lemma sublist_skip: "comma \<notin> set m \<Longrightarrow> sublist (comma # n) (m @ r) \<longleftrightarrow> sublist (comma # n) r"
  by (induction m) (auto simp: sublist_Cons_right)

lemma wrapped_Cons_ex: "\<exists>r. wrapped ns = comma # r"
  by (cases ns) auto

lemma sublist_wrapped_iff:
  assumes "comma \<notin> set n" and "\<forall>m \<in> set ns. comma \<notin> set m"
  shows "sublist (comma # n @ [comma]) (wrapped ns) \<longleftrightarrow> n \<in> set ns"
  using assms(2)
proof (induction ns)
  case Nil
  show ?case by (auto simp: sublist_Cons_right)
next
  case (Cons m ns)
  obtain r where r: "wrapped ns = comma # r" using wrapped_Cons_ex by blast
  have "prefix (comma # n @ [comma]) (wrapped (m # ns)) \<longleftrightarrow> n = m"
    using assms(1) Cons.prems comma_prefix_eq [of n m r] by (auto simp: r)
  moreover have "sublist (comma # n @ [comma]) (m @ wrapped ns) \<longleftrightarrow> n \<in> set ns"
    using Cons by (simp add: sublist_skip)
  ultimately show ?case by (simp add: sublist_Cons_right)
qed

lemma sublist_comma_iff:
  "comma \<notin> set n \<Longrightarrow>
     sublist (comma # n @ [comma]) (comma # xs @ [comma]) \<longleftrightarrow> n \<in> set (split_comma xs)"
  using sublist_wrapped_iff [of n "split_comma xs"] split_comma_no_comma by (auto simp: wrapped_split)

section \<open>C strings\<close>

text \<open>The string at the start of a memory: it must be ended by a zero byte.\<close>

definition c_str :: "mem \<Rightarrow> u8 list option" where
  "c_str m = (if 0 \<in> set m then Some (takeWhile (\<lambda>b. b \<noteq> 0) m) else None)"

lemma c_str_terminated: "0 \<notin> set s \<Longrightarrow> c_str (s @ 0 # r) = Some s"
  by (auto simp: c_str_def takeWhile_tail)

section \<open>The operations\<close>

record commalist_s =
  cl_list :: "mem option"
  cl_len :: u32
  cl_size :: u32

definition ENAMETOOLONG :: u32 where "ENAMETOOLONG = 36"

text \<open>The result, the list and the error; without a list the function only gives a length.\<close>

definition add_name_to_commalist ::
  "mem \<Rightarrow> commalist_s option \<Rightarrow> u32 \<Rightarrow> (u32 \<times> commalist_s option \<times> u32) option" where
  "add_name_to_commalist name p_clist error = do {
     s \<leftarrow> c_str name;
     let lenname = (of_nat (length s) :: u32);
     case p_clist of
       None \<Rightarrow> Some (lenname + 1, None, error)
     | Some clist \<Rightarrow>
         if cl_len clist + lenname + 1 > cl_size clist then Some (0, Some clist, ENAMETOOLONG)
         else if cl_len clist = 0 then do {
           l \<leftarrow> cl_list clist;
           l \<leftarrow> mem_store l 0 s;
           Some (lenname, Some (clist\<lparr>cl_list := Some l, cl_len := cl_len clist + lenname\<rparr>), error) }
         else do {
           l \<leftarrow> cl_list clist;
           l \<leftarrow> mem_store l (unat (cl_len clist)) [comma];
           l \<leftarrow> mem_store l (unat (cl_len clist) + 1) s;
           Some (lenname + 1, Some (clist\<lparr>cl_list := Some l, cl_len := cl_len clist + (lenname + 1)\<rparr>), error) } }"

definition free_list_commalist :: "commalist_s \<Rightarrow> commalist_s" where
  "free_list_commalist clist = \<lparr>cl_list = None, cl_len = 0, cl_size = 0\<rparr>"

text \<open>
  The lengths are 32 bits wide: the length of a string is cut off, and the size of an array on the stack wraps.
\<close>

definition wrap_comma :: "u8 list \<Rightarrow> mem option" where
  "wrap_comma s = do {
     let len = (of_nat (length s) :: u32);
     tmp \<leftarrow> mem_store (stack_array (len + 3)) 0 [comma];
     tmp \<leftarrow> mem_store tmp 1 (take (unat len) s);
     tmp \<leftarrow> mem_store tmp (unat (len + 1)) [comma];
     mem_store tmp (unat (len + 2)) [0] }"

definition string_found_commalist :: "mem \<Rightarrow> mem \<Rightarrow> u8 option" where
  "string_found_commalist list name = do {
     l \<leftarrow> c_str list;
     n \<leftarrow> c_str name;
     tmp \<leftarrow> Option.bind (wrap_comma l) c_str;
     dummy \<leftarrow> Option.bind (wrap_comma n) c_str;
     Some (if sublist dummy tmp then 1 else 0) }"

definition name_found_namelist :: "commalist_s \<Rightarrow> mem \<Rightarrow> u8 option" where
  "name_found_namelist clist name =
     (if cl_len clist > 0 then do {
        l \<leftarrow> cl_list clist;
        bs \<leftarrow> mem_load l 0 (unat (cl_len clist));
        tmp \<leftarrow> mem_store (stack_array (cl_len clist + 1)) 0 bs;
        tmp \<leftarrow> mem_store tmp (unat (cl_len clist)) [0];
        string_found_commalist tmp name }
      else Some 0)"

text \<open>
  \<open>memchr\<close> on \<open>left\<close> bytes from \<open>start\<close>: the position of the first comma, \<open>None\<close> inside for none; reading
  past the object before a comma is found is undefined.
\<close>

definition memchr_comma :: "mem \<Rightarrow> nat \<Rightarrow> nat \<Rightarrow> nat option option" where
  "memchr_comma m start left =
     (let k = length (takeWhile (\<lambda>b. b \<noteq> comma) (take left (drop start m))) in
      if start + k < length m \<and> k < left then Some (Some (start + k))
      else if start + left \<le> length m then Some None else None)"

text \<open>
  The loop of \<open>parse_ssh_commalist\<close>: the calls of the callback, as start and length. The signed
  \<open>left\<close> becomes a \<open>size_t\<close> for \<open>memchr\<close> and an \<open>unsigned int\<close> for the callback.
\<close>

function parse_commalist_loop :: "mem \<Rightarrow> nat \<Rightarrow> int \<Rightarrow> (nat \<times> nat) list option" where
  "parse_commalist_loop m start left =
     (case memchr_comma m start (nat (left mod 2 ^ 64)) of
        None \<Rightarrow> None
      | Some None \<Rightarrow> Some [(start, nat (left mod 2 ^ 32))]
      | Some (Some sep) \<Rightarrow>
          if left - int (sep - start) > 0
          then map_option (\<lambda>r. (start, sep - start) # r)
                 (parse_commalist_loop m (sep + 1) (left - int (sep - start)))
          else Some [(start, sep - start)])"
  by pat_completeness auto
termination
  by (relation "measure (\<lambda>(m, start, left). length m - start)")
    (auto simp: memchr_comma_def Let_def split: if_splits)

definition parse_ssh_commalist :: "mem \<Rightarrow> u32 \<Rightarrow> (nat \<times> nat) list option" where
  "parse_ssh_commalist list sz = do {
     left \<leftarrow> (if sz > 0 then Some (sint sz) else map_option (\<lambda>s. int (length s)) (c_str list));
     parse_commalist_loop list 0 left }"

section \<open>Properties\<close>

definition cl_bytes :: "commalist_s \<Rightarrow> u8 list" where
  "cl_bytes clist = (case cl_list clist of None \<Rightarrow> [] | Some l \<Rightarrow> take (unat (cl_len clist)) l)"

definition cl_wf :: "commalist_s \<Rightarrow> bool" where
  "cl_wf clist \<longleftrightarrow> (\<exists>l. cl_list clist = Some l \<and> unat (cl_size clist) \<le> length l) \<and>
     cl_len clist \<le> cl_size clist \<and> 0 \<notin> set (cl_bytes clist)"

lemma wrap_comma_eq:
  assumes "length s + 3 < 4294967296"
  shows "wrap_comma s = Some (comma # s @ [comma, 0])"
proof -
  have u: "unat (of_nat (length s) :: u32) = length s" "unat (of_nat (length s) + 1 :: u32) = length s + 1"
      "unat (of_nat (length s) + 2 :: u32) = length s + 2" "unat (of_nat (length s) + 3 :: u32) = length s + 3"
    using assms by (simp_all add: unat_of_nat_u32 unat_u32_plus)
  have "mem_store (replicate (length s + 3) 0) 0 [comma] = Some (comma # replicate (length s + 2) 0)"
    by (simp add: mem_store_def numeral_eq_Suc)
  moreover have "mem_store (comma # replicate (length s + 2) 0) 1 s = Some (comma # s @ [0, 0])"
    using drop_zeros [of "length s" 2] by (simp add: mem_store_def numeral_eq_Suc)
  moreover have "mem_store (comma # s @ [0, 0]) (length s + 1) [comma] = Some (comma # s @ [comma, 0])"
    "mem_store (comma # s @ [comma, 0]) (length s + 2) [0] = Some (comma # s @ [comma, 0])"
    by (simp_all add: mem_store_def)
  ultimately show ?thesis by (simp add: wrap_comma_def Let_def stack_array_def u)
qed

lemma string_found_commalist_iff:
  assumes "0 \<notin> set l" "0 \<notin> set n" "comma \<notin> set n" "length l + 3 < 4294967296" "length n + 3 < 4294967296"
  shows "string_found_commalist (l @ 0 # r) (n @ 0 # r') = Some (if n \<in> set (split_comma l) then 1 else 0)"
proof -
  have "c_str (comma # l @ [comma, 0]) = Some (comma # l @ [comma])" "c_str (comma # n @ [comma, 0]) = Some (comma # n @ [comma])"
    using c_str_terminated [of "comma # l @ [comma]" "[]"] c_str_terminated [of "comma # n @ [comma]" "[]"] assms
    by simp_all
  then show ?thesis
    using assms by (simp add: string_found_commalist_def wrap_comma_eq c_str_terminated sublist_comma_iff)
qed

lemma name_found_namelist_iff:
  assumes "cl_wf clist" and "0 \<notin> set n" "comma \<notin> set n" "length n + 3 < 4294967296" "unat (cl_len clist) + 3 < 4294967296"
  shows "name_found_namelist clist (n @ 0 # r) =
           Some (if cl_len clist > 0 \<and> n \<in> set (split_comma (cl_bytes clist)) then 1 else 0)"
proof -
  let ?bs = "cl_bytes clist"
  obtain l where l: "cl_list clist = Some l" "unat (cl_len clist) \<le> length l"
    using assms(1) by (auto simp: cl_wf_def u32_le_unat)
  then have ld: "mem_load l 0 (unat (cl_len clist)) = Some ?bs" and len: "length ?bs = unat (cl_len clist)"
    by (simp_all add: mem_load_def cl_bytes_def)
  have "unat (cl_len clist + 1) = length ?bs + 1" using assms(5) len by (simp add: unat_u32_plus)
  then have "mem_store (stack_array (cl_len clist + 1)) 0 ?bs = Some (?bs @ [0])"
    "mem_store (?bs @ [0]) (unat (cl_len clist)) [0] = Some (?bs @ [0])"
    using len drop_zeros [of "length ?bs" 1] by (simp_all add: stack_array_def mem_store_def)
  then show ?thesis
    using assms l ld len string_found_commalist_iff [of ?bs n "[]" r]
    by (simp add: name_found_namelist_def cl_wf_def)
qed

lemma add_name_effect:
  assumes wf: "cl_wf clist" and n: "0 \<notin> set n"
    and room: "unat (cl_len clist) + length n + 1 \<le> unat (cl_size clist)"
  shows "\<exists>ret clist'. add_name_to_commalist (n @ 0 # r) (Some clist) err = Some (ret, Some clist', err) \<and>
     cl_wf clist' \<and> cl_size clist' = cl_size clist \<and>
     cl_bytes clist' = (if cl_len clist = 0 then n else cl_bytes clist @ comma # n) \<and>
     unat (cl_len clist') = length (cl_bytes clist') \<and>
     unat ret = length (cl_bytes clist') - length (cl_bytes clist)"
proof -
  obtain l where l: "cl_list clist = Some l" "unat (cl_size clist) \<le> length l"
    using wf by (auto simp: cl_wf_def)
  have lt: "unat (cl_size clist) < 4294967296" by (rule unat_lt_u32)
  have u: "unat (of_nat (length n) :: u32) = length n"
    "unat (of_nat (length n) + 1 :: u32) = length n + 1"
    "unat (cl_len clist + of_nat (length n) + 1) = unat (cl_len clist) + length n + 1"
    "unat (cl_len clist + (of_nat (length n) + 1)) = unat (cl_len clist) + length n + 1"
    using room lt by (simp_all add: unat_of_nat_u32 unat_u32_plus)
  have fit: "\<not> cl_len clist + of_nat (length n) + 1 > cl_size clist"
    using room u by (simp add: u32_less_unat)
  have b: "length (cl_bytes clist) = unat (cl_len clist)" using l room by (simp add: cl_bytes_def)
  show ?thesis
  proof (cases "cl_len clist = 0")
    case True
    then show ?thesis using l room u n fit b wf lt
      by (simp add: add_name_to_commalist_def Let_def c_str_terminated mem_store_def cl_wf_def cl_bytes_def u32_le_unat)
  next
    case False
    let ?k = "unat (cl_len clist)"
    have "mem_store l ?k [comma] = Some (take ?k l @ comma # drop (?k + 1) l)"
      using l room by (simp add: mem_store_def)
    moreover have "mem_store (take ?k l @ comma # drop (?k + 1) l) (?k + 1) n =
        Some (take ?k l @ comma # n @ drop (?k + 1 + length n) l)"
      using l room by (auto simp: mem_store_def min_absorb2 Suc_diff_le add.commute)
    ultimately show ?thesis using False l room u n fit b wf lt
      by (auto simp: add_name_to_commalist_def Let_def c_str_terminated cl_wf_def cl_bytes_def u32_le_unat
          min_absorb2 Suc_diff_le take_Cons')
  qed
qed

text \<open>
  C35: building a comma list and looking names up agree. Adding a name for which there is room
  appends it to the entries of the list, without a fault, and afterwards a name without a comma is
  found exactly when it is an entry: the ones there were and the one added. The list and the name are more than three bytes shorter than
  \<open>2^32\<close>; the arrays of the lookup are too small otherwise.
\<close>

theorem commalist_add_found:
  assumes "cl_wf clist" and "0 \<notin> set n" "comma \<notin> set n" "n \<noteq> []"
    and "unat (cl_len clist) + length n + 1 \<le> unat (cl_size clist)"
    and "0 \<notin> set x" "comma \<notin> set x" and "length x + 3 < 2 ^ 32" and "unat (cl_size clist) + 3 < 2 ^ 32"
  shows "\<exists>ret clist'. add_name_to_commalist (n @ [0]) (Some clist) 0 = Some (ret, Some clist', 0) \<and>
     cl_wf clist' \<and>
     split_comma (cl_bytes clist') =
       (if cl_len clist = 0 then [n] else split_comma (cl_bytes clist) @ [n]) \<and>
     name_found_namelist clist' (x @ [0]) = Some (if x \<in> set (split_comma (cl_bytes clist')) then 1 else 0)"
proof -
  obtain ret clist' where r: "add_name_to_commalist (n @ [0]) (Some clist) 0 = Some (ret, Some clist', 0)"
    "cl_wf clist'" "cl_size clist' = cl_size clist" "cl_bytes clist' = (if cl_len clist = 0 then n else cl_bytes clist @ comma # n)"
    "unat (cl_len clist') = length (cl_bytes clist')"
    using add_name_effect [OF assms(1,2,5), of "[]" 0] by auto
  have "cl_len clist' > 0" using r(4,5) assms(4) by (simp add: u32_less_unat)
  moreover have "unat (cl_len clist') + 3 < 4294967296" using r(2,3) assms(9) by (simp add: cl_wf_def u32_le_unat)
  ultimately show ?thesis
    using r assms name_found_namelist_iff [OF r(2) assms(6,7), of "[]"]
    by (simp add: split_comma_append split_comma_single)
qed

theorem commalist_add_found_witness:
  "\<exists>ret clist'. add_name_to_commalist [98, 0] (Some \<lparr>cl_list = Some [97, 0, 0, 0], cl_len = 1, cl_size = 4\<rparr>) 0 =
       Some (ret, Some clist', 0) \<and> name_found_namelist clist' [97, 0] = Some 1"
  using commalist_add_found [of "\<lparr>cl_list = Some [97, 0, 0, 0], cl_len = 1, cl_size = 4\<rparr>" "[98]" "[97]"]
  by (auto simp: cl_wf_def cl_bytes_def)

text \<open>
  \<open>parse_ssh_commalist\<close> takes the length of an entry off \<open>left\<close> but not its comma: on the three bytes
  \<open>a,b\<close> the second call is given two bytes, one past the list.
\<close>

lemma parse_ssh_commalist_overreads:
  "parse_ssh_commalist [97, 44, 98, 0] 3 = Some [(0, 1), (2, 2)]"
  by (simp add: parse_ssh_commalist_def memchr_comma_def)

end
