(* ===== verification/Pk_Algo.thy ===== *)
theory Pk_Algo
  imports Namelist
begin

text \<open>
  The table of public key algorithms and the lookups in it (\<open>src/ssh/pk/pk-types.c\<close>), and the bit sets
  of algorithms a session keeps of what the client and the server offer (\<open>src/ssh/ssh-pubkey.c\<close>).
  A pointer into the table is an index.
\<close>

section \<open>The table\<close>

definition bytes :: "string \<Rightarrow> u8 list" where
  "bytes s = map of_char s"

record ssh_pkalgo_s =
  pk_flags :: u32
  pk_scheme :: u32
  pk_id :: u32
  pk_name :: "u8 list"
  pk_libname :: "u8 list"
  pk_sshname :: "u8 list"
  pk_hash :: "u8 list option"

definition SSH_PKALGO_SCHEME_RSA :: u32 where "SSH_PKALGO_SCHEME_RSA = 1"
definition SSH_PKALGO_SCHEME_DSS :: u32 where "SSH_PKALGO_SCHEME_DSS = 2"
definition SSH_PKALGO_SCHEME_ECC :: u32 where "SSH_PKALGO_SCHEME_ECC = 3"

definition SSH_PKALGO_FLAG_PKA :: u32 where "SSH_PKALGO_FLAG_PKA = 1"
definition SSH_PKALGO_FLAG_PKC :: u32 where "SSH_PKALGO_FLAG_PKC = 2"
definition SSH_PKALGO_FLAG_DEFAULT :: u32 where "SSH_PKALGO_FLAG_DEFAULT = 4"
definition SSH_PKALGO_FLAG_PREFERRED :: u32 where "SSH_PKALGO_FLAG_PREFERRED = 8"
definition SSH_PKALGO_FLAG_OPENSSH_COM_CERTIFICATE :: u32 where
  "SSH_PKALGO_FLAG_OPENSSH_COM_CERTIFICATE = 16"

definition pk_entry ::
  "u32 \<Rightarrow> u32 \<Rightarrow> u32 \<Rightarrow> string \<Rightarrow> string \<Rightarrow> string \<Rightarrow> string option \<Rightarrow> ssh_pkalgo_s" where
  "pk_entry flags scheme ident name libname sshname hash =
     \<lparr>pk_flags = flags, pk_scheme = scheme, pk_id = ident, pk_name = bytes name, pk_libname = bytes libname,
      pk_sshname = bytes sshname, pk_hash = map_option bytes hash\<rparr>"

text \<open>The entries before the terminating one, whose id is zero.\<close>

definition available_algos :: "ssh_pkalgo_s list" where
  "available_algos =
    [pk_entry (SSH_PKALGO_FLAG_DEFAULT OR SSH_PKALGO_FLAG_PKA) SSH_PKALGO_SCHEME_RSA 2
       ''ssh-rsa'' ''rsa'' ''ssh-rsa'' (Some ''sha1''),
     pk_entry (SSH_PKALGO_FLAG_DEFAULT OR SSH_PKALGO_FLAG_PKA) SSH_PKALGO_SCHEME_DSS 1
       ''ssh-dss'' ''dsa'' ''ssh-dss'' (Some ''sha1''),
     pk_entry (SSH_PKALGO_FLAG_DEFAULT OR SSH_PKALGO_FLAG_PKA) SSH_PKALGO_SCHEME_ECC 3
       ''ssh-ed25519'' ''ed25519'' ''ssh-ed25519'' (Some ''sha512''),
     pk_entry SSH_PKALGO_FLAG_PKA SSH_PKALGO_SCHEME_RSA 4
       ''rsa-sha2-256'' ''rsa-sha2-256'' ''ssh-rsa'' (Some ''sha256''),
     pk_entry (SSH_PKALGO_FLAG_PKA OR SSH_PKALGO_FLAG_PREFERRED) SSH_PKALGO_SCHEME_RSA 5
       ''rsa-sha2-512'' ''rsa-sha2-512'' ''ssh-rsa'' (Some ''sha512''),
     pk_entry (SSH_PKALGO_FLAG_PKC OR SSH_PKALGO_FLAG_OPENSSH_COM_CERTIFICATE) SSH_PKALGO_SCHEME_RSA 6
       ''ssh-rsa-cert-v01@openssh.com'' ''rsa'' ''ssh-rsa-cert-v01@openssh.com'' None,
     pk_entry (SSH_PKALGO_FLAG_PKC OR SSH_PKALGO_FLAG_OPENSSH_COM_CERTIFICATE) SSH_PKALGO_SCHEME_DSS 7
       ''ssh-dss-cert-v01@openssh.com'' ''dsa'' ''ssh-dss-cert-v01@openssh.com'' None,
     pk_entry (SSH_PKALGO_FLAG_PKC OR SSH_PKALGO_FLAG_OPENSSH_COM_CERTIFICATE) SSH_PKALGO_SCHEME_ECC 8
       ''ssh-ed25519-cert-v01@openssh.com'' ''ed25519'' ''ssh-ed25519-cert-v01@openssh.com'' None]"

section \<open>Lookups\<close>

text \<open>
  \<open>strncmp\<close> of a name of the table with \<open>len\<close> bytes of memory, where \<open>len\<close> is the length of the name:
  it reads up to the first difference.
\<close>

definition strncmp_eq :: "u8 list \<Rightarrow> mem \<Rightarrow> bool option" where
  "strncmp_eq nm m =
     (if length nm \<le> length m then Some (take (length nm) m = nm)
      else if m = take (length m) nm then None else Some False)"

fun get_pkalgo_from :: "ssh_pkalgo_s list \<Rightarrow> nat \<Rightarrow> mem \<Rightarrow> u32 \<Rightarrow> nat option option" where
  "get_pkalgo_from [] i name len = Some None"
| "get_pkalgo_from (a # as) i name len =
     (if of_nat (length (pk_name a)) = len then
        (case strncmp_eq (pk_name a) name of
           None \<Rightarrow> None
         | Some True \<Rightarrow> Some (Some i)
         | Some False \<Rightarrow> get_pkalgo_from as (i + 1) name len)
      else get_pkalgo_from as (i + 1) name len)"

definition get_pkalgo :: "mem \<Rightarrow> u32 \<Rightarrow> nat option option" where
  "get_pkalgo name len = get_pkalgo_from available_algos 0 name len"

definition get_pkalgo_string :: "ssh_string_s \<Rightarrow> nat option option" where
  "get_pkalgo_string s = get_pkalgo (ss_src s) (ss_len s)"

definition get_pkalgo_byid :: "u32 \<Rightarrow> nat option" where
  "get_pkalgo_byid ident =
     (let i = length (takeWhile (\<lambda>a. pk_id a \<noteq> ident) available_algos) in
      if i < length available_algos then Some i else None)"

text \<open>
  \<open>get_next_pkalgo\<close>: the difference of two pointers to entries counts entries, while
  \<open>sizeof\<close> counts bytes; an entry has 48 bytes and the table, with its terminator, nine entries.
\<close>

definition get_next_pkalgo :: "nat option \<Rightarrow> nat option" where
  "get_next_pkalgo algo =
     (case algo of
        None \<Rightarrow> Some 0
      | Some tmp \<Rightarrow>
          if tmp > 0 \<and> tmp < 9 * 48 then
            (let offset = tmp in
             if offset mod 48 = 0 then (if tmp + 1 < length available_algos then Some (tmp + 1) else None)
             else None)
          else None)"

definition get_index_pkalgo :: "ssh_pkalgo_s \<Rightarrow> int" where
  "get_index_pkalgo algo =
     (case get_pkalgo_byid (pk_id algo) of None \<Rightarrow> -1 | Some i \<Rightarrow> int i)"

definition write_pkalgo :: "(mem \<times> nat) option \<Rightarrow> ssh_pkalgo_s \<Rightarrow> (u32 \<times> mem option) option" where
  "write_pkalgo dst pkalgo =
     (let len = (of_nat (length (pk_name pkalgo)) :: u32) in
      case dst of
        None \<Rightarrow> Some (len + 4, None)
      | Some (m, off) \<Rightarrow> do {
          m \<leftarrow> store_uint32 m off len;
          m \<leftarrow> mem_store m (off + 4) (pk_name pkalgo);
          Some (len + 4, Some m) })"

text \<open>\<open>read_pkalgo\<close>: the entry found and the number of bytes read.\<close>

definition read_pkalgo :: "mem \<Rightarrow> nat \<Rightarrow> u32 \<Rightarrow> (nat option \<times> u32) option" where
  "read_pkalgo buffer off sz =
     (if sz > 4 then do {
        len \<leftarrow> get_uint32 buffer off;
        if len + 4 \<le> sz then do {
          r \<leftarrow> get_pkalgo (drop (off + 4) buffer) len;
          Some (r, 4 + len) }
        else Some (None, 4) }
      else Some (None, 0))"

section \<open>The sets of a session\<close>

record ssh_pubkey_s =
  pkalgo_client :: u32
  pkalgo_server :: u32
  pksign_client :: u32
  pksign_server :: u32
  pkcert_client :: u32
  pkcert_server :: u32

definition init_ssh_pubkey :: ssh_pubkey_s where
  "init_ssh_pubkey = \<lparr>pkalgo_client = 0, pkalgo_server = 0, pksign_client = 0, pksign_server = 0,
     pkcert_client = 0, pkcert_server = 0\<rparr>"

text \<open>The strings \<open>who\<close> and \<open>what\<close> select one of the six sets.\<close>

definition enable_algo_pubkey :: "ssh_pubkey_s \<Rightarrow> nat \<Rightarrow> string \<Rightarrow> string \<Rightarrow> ssh_pubkey_s" where
  "enable_algo_pubkey pubkey index who what =
     (let b = push_bit index 1 in
      if index \<ge> 32 then pubkey
      else if who = ''client'' then
        (if what = ''pk'' then pubkey\<lparr>pkalgo_client := pkalgo_client pubkey OR b\<rparr>
         else if what = ''pkcert'' then pubkey\<lparr>pkcert_client := pkcert_client pubkey OR b\<rparr>
         else if what = ''pksign'' then pubkey\<lparr>pksign_client := pksign_client pubkey OR b\<rparr>
         else pubkey)
      else if who = ''server'' then
        (if what = ''pk'' then pubkey\<lparr>pkalgo_server := pkalgo_server pubkey OR b\<rparr>
         else if what = ''pkcert'' then pubkey\<lparr>pkcert_server := pkcert_server pubkey OR b\<rparr>
         else if what = ''pksign'' then pubkey\<lparr>pksign_server := pksign_server pubkey OR b\<rparr>
         else pubkey)
      else pubkey)"

text \<open>
  \<open>build_pubkey_list\<close> copies the list, ends it with a comma and walks from comma to comma with
  \<open>memchr\<close>; the separator is a zero byte while a name is looked up. The size of the copy is computed in 32 bits.
\<close>

function build_pubkey_loop ::
  "mem \<Rightarrow> nat \<Rightarrow> ssh_pubkey_s \<Rightarrow> string \<Rightarrow> string \<Rightarrow> ssh_pubkey_s option" where
  "build_pubkey_loop tmp name pubkey who what =
     (if name < length tmp - 1 then
        (case memchr_comma tmp name (length tmp - 1 - name) of
           None \<Rightarrow> None
         | Some None \<Rightarrow> Some pubkey
         | Some (Some sep) \<Rightarrow>
             (case get_pkalgo (drop name (tmp[sep := 0])) (of_nat (sep - name)) of
                None \<Rightarrow> None
              | Some r \<Rightarrow>
                  build_pubkey_loop tmp (sep + 1)
                    (case r of None \<Rightarrow> pubkey | Some index \<Rightarrow> enable_algo_pubkey pubkey index who what)
                    who what))
      else Some pubkey)"
  by pat_completeness auto
termination
  by (relation "measure (\<lambda>(tmp, name, _). length tmp - name)")
    (auto simp: memchr_comma_def Let_def split: if_splits)

definition build_pubkey_list ::
  "ssh_string_s \<Rightarrow> ssh_pubkey_s \<Rightarrow> string \<Rightarrow> string \<Rightarrow> ssh_pubkey_s option" where
  "build_pubkey_list list pubkey who what = do {
     bs \<leftarrow> mem_load (ss_src list) 0 (unat (ss_len list));
     tmp \<leftarrow> mem_store (stack_array (ss_len list + 2)) 0 bs;
     tmp \<leftarrow> mem_store tmp (unat (ss_len list)) [comma];
     tmp \<leftarrow> mem_store tmp (unat (ss_len list + 1)) [0];
     build_pubkey_loop tmp 0 pubkey who what }"

definition store_algo_pubkey_negotiation ::
  "ssh_pubkey_s \<Rightarrow> ssh_string_s option \<Rightarrow> ssh_string_s option \<Rightarrow> string \<Rightarrow> ssh_pubkey_s option" where
  "store_algo_pubkey_negotiation pubkey clist_c clist_s what = do {
     pubkey \<leftarrow> (case clist_c of None \<Rightarrow> Some pubkey | Some l \<Rightarrow> build_pubkey_list l pubkey ''client'' what);
     case clist_s of None \<Rightarrow> Some pubkey | Some l \<Rightarrow> build_pubkey_list l pubkey ''server'' what }"

section \<open>Properties\<close>

lemma strncmp_eq_terminated:
  "0 \<notin> set nm \<Longrightarrow> 0 \<notin> set x \<Longrightarrow> length nm = length x \<Longrightarrow> strncmp_eq nm (x @ r) = Some (x = nm)"
  by (simp add: strncmp_eq_def)

definition pk_index :: "u8 list \<Rightarrow> nat option" where
  "pk_index x = (if x \<in> pk_name ` set available_algos
                 then Some (length (takeWhile (\<lambda>a. pk_name a \<noteq> x) available_algos)) else None)"

lemma get_pkalgo_from_spec:
  assumes "\<forall>a \<in> set as. length (pk_name a) < 4294967296" and "length x < 4294967296"
  shows "get_pkalgo_from as i (x @ r) (of_nat (length x)) =
     Some (if x \<in> pk_name ` set as then Some (i + length (takeWhile (\<lambda>a. pk_name a \<noteq> x) as)) else None)"
  using assms
proof (induction as arbitrary: i)
  case (Cons a as)
  have e: "of_nat (length (pk_name a)) = (of_nat (length x) :: u32) \<longleftrightarrow> length (pk_name a) = length x"
    using Cons.prems by (simp add: word_unat_eq_iff unat_of_nat_u32)
  show ?case
    using Cons by (auto simp: e strncmp_eq_def)
qed simp

lemma available_names_short: "\<forall>a \<in> set available_algos. length (pk_name a) < 4294967296"
  by (simp add: available_algos_def pk_entry_def bytes_def)

lemma get_pkalgo_spec:
  "length x < 4294967296 \<Longrightarrow> get_pkalgo (x @ r) (of_nat (length x)) = Some (pk_index x)"
  using get_pkalgo_from_spec [OF available_names_short, of x 0 r] by (simp add: get_pkalgo_def pk_index_def)

lemma available_names:
  "distinct (map pk_name available_algos)"
  "list_all (\<lambda>a. 0 < length (pk_name a) \<and> length (pk_name a) < 64) available_algos"
  by (simp_all add: available_algos_def pk_entry_def bytes_def)

lemma takeWhile_distinct_nth:
  "distinct (map f xs) \<Longrightarrow> i < length xs \<Longrightarrow> length (takeWhile (\<lambda>a. f a \<noteq> f (xs ! i)) xs) = i"
  by (induction xs arbitrary: i) (auto simp: nth_Cons split: nat.splits)

lemma pk_index_nth: "i < length available_algos \<Longrightarrow> pk_index (pk_name (available_algos ! i)) = Some i"
  using takeWhile_distinct_nth [OF available_names(1)] by (simp add: pk_index_def)

lemma write_pkalgo_enc:
  "write_pkalgo (Some (m, off)) a =
     map_option (\<lambda>m'. (of_nat (length (pk_name a)) + 4, Some m')) (mem_store m off (enc_string (pk_name a)))"
proof -
  have "write_pkalgo (Some (m, off)) a = map_option (\<lambda>m'. (of_nat (length (pk_name a)) + 4, Some m'))
      (Option.bind (mem_store m off (be32 (of_nat (length (pk_name a)))))
         (\<lambda>m1. mem_store m1 (off + length (be32 (of_nat (length (pk_name a))))) (pk_name a)))"
    by (simp add: write_pkalgo_def Let_def store_uint32_def map_option_bind)
      (simp add: map_option_case split: Option.bind_splits option.splits)
  then show ?thesis by (simp only: mem_store_append enc_string_def)
qed

text \<open>
  C37: every algorithm of the table that is written into a message is found again at its place by
  the reader, which reads exactly the bytes written, whatever follows them.
\<close>

theorem pkalgo_write_read:
  assumes "i < length available_algos"
    and "write_pkalgo (Some (m, off)) (available_algos ! i) = Some (n, Some m')" and "n \<le> sz"
  shows "read_pkalgo m' off sz = Some (Some i, n)"
proof -
  let ?x = "pk_name (available_algos ! i)"
  have len: "0 < length ?x" "length ?x < 64"
    using available_names(2) assms(1) by (simp_all add: list_all_length)
  have st: "mem_store m off (enc_string ?x) = Some m'" and n: "n = of_nat (length ?x) + 4"
    using assms(2) by (auto simp: write_pkalgo_enc)
  have ld: "mem_load m' off (4 + length ?x) = Some (enc_string ?x)"
    using mem_load_store_same [OF st] by simp
  then have g: "get_uint32 m' off = Some (of_nat (length ?x))" by (rule get_uint32_enc_string)
  have "mem_load m' (off + 4) (length ?x) = Some ?x"
    using ld mem_load_split [of m' off "be32 (of_nat (length ?x))" ?x] by (simp add: enc_string_def)
  then have d: "drop (off + 4) m' = ?x @ drop (off + 4 + length ?x) m'"
    by (auto simp: mem_simps) (metis append_take_drop_id drop_drop add.commute)
  have "unat n = length ?x + 4" using n len by (simp add: unat_u32_plus unat_of_nat_u32)
  moreover have "unat n \<le> unat sz" using assms(3) by (simp add: u32_le_unat)
  ultimately have "4 < unat sz" using len(1) by linarith
  then have "4 < sz" by (simp add: u32_less_unat)
  then show ?thesis
    using g assms(1,3) n len get_pkalgo_spec [of ?x "drop (off + 4 + length ?x) m'"]
    by (simp add: read_pkalgo_def d pk_index_nth add.commute)
qed

theorem pkalgo_write_read_witness:
  "\<exists>m'. write_pkalgo (Some (replicate 11 9, 0)) (available_algos ! 1) = Some (11, Some m') \<and>
        read_pkalgo m' 0 11 = Some (Some 1, 11)"
proof -
  have n: "pk_name (available_algos ! 1) = bytes ''ssh-dss''"
    by (simp add: available_algos_def pk_entry_def)
  have "\<exists>m'. write_pkalgo (Some (replicate 11 9, 0)) (available_algos ! 1) = Some (11, Some m')"
    unfolding write_pkalgo_enc n by (simp add: bytes_def mem_store_def)
  then show ?thesis
    using pkalgo_write_read [of 1 "replicate 11 9" 0 11 _ 11] by (auto simp: available_algos_def)
qed

text \<open>
  Walking the table with \<open>get_next_pkalgo\<close> stops at its first entry: the only algorithm a caller
  sees is \<open>ssh-rsa\<close>.
\<close>

lemma get_next_pkalgo_stops: "i < length available_algos \<Longrightarrow> get_next_pkalgo (Some i) = None"
  by (simp add: get_next_pkalgo_def available_algos_def)

section \<open>What a session remembers\<close>

definition enable_name :: "string \<Rightarrow> string \<Rightarrow> ssh_pubkey_s \<Rightarrow> u8 list \<Rightarrow> ssh_pubkey_s" where
  "enable_name who what pubkey n =
     (case pk_index n of None \<Rightarrow> pubkey | Some i \<Rightarrow> enable_algo_pubkey pubkey i who what)"

lemma memchr_comma_found:
  assumes "comma \<notin> set n" and "length n < left"
  shows "memchr_comma (pre @ n @ comma # r) (length pre) left = Some (Some (length pre + length n))"
proof -
  have "take left (n @ comma # r) = n @ comma # take (left - length n - 1) r"
    using assms(2) by (simp add: take_Cons')
  then have "takeWhile (\<lambda>b. b \<noteq> comma) (take left (n @ comma # r)) = n"
    using assms(1) by (auto simp: takeWhile_append)
  then show ?thesis using assms(2) by (simp add: memchr_comma_def)
qed

lemma build_pubkey_loop_step:
  assumes "comma \<notin> set n" and "length n < 4294967296"
  shows "build_pubkey_loop (pre @ n @ comma # r @ [x]) (length pre) pubkey who what =
         build_pubkey_loop (pre @ n @ comma # r @ [x]) (length pre + length n + 1) (enable_name who what pubkey n) who what"
proof -
  let ?tmp = "pre @ n @ comma # r @ [x]"
  have "memchr_comma ?tmp (length pre) (length ?tmp - 1 - length pre) = Some (Some (length pre + length n))"
    using assms(1) by (intro memchr_comma_found) simp_all
  moreover have "get_pkalgo (drop (length pre) (?tmp[length pre + length n := 0])) (of_nat (length n)) = Some (pk_index n)"
    using get_pkalgo_spec [OF assms(2), of "0 # r @ [x]"] by (simp add: list_update_append)
  ultimately show ?thesis
    by (subst build_pubkey_loop.simps) (simp add: enable_name_def split: option.split)
qed

lemma build_pubkey_loop_spec:
  assumes "length rest < 4294967296"
  shows "build_pubkey_loop (pre @ rest @ [comma, 0]) (length pre) pubkey who what =
           Some (foldl (enable_name who what) pubkey (split_comma rest))"
  using assms
proof (induction rest arbitrary: pre pubkey rule: length_induct)
  case (1 rest)
  show ?case
  proof (cases "comma \<in> set rest")
    case True
    then obtain n r where r: "rest = n @ comma # r" "comma \<notin> set n" by (meson split_list_first)
    have "build_pubkey_loop ((pre @ n @ [comma]) @ r @ [comma, 0]) (length (pre @ n @ [comma]))
            (enable_name who what pubkey n) who what =
          Some (foldl (enable_name who what) (enable_name who what pubkey n) (split_comma r))"
      using 1 r by (intro 1(1) [rule_format]) simp_all
    then show ?thesis
      using r 1(2) build_pubkey_loop_step [of n pre "r @ [comma]" 0 pubkey who what]
      by (simp add: split_comma_append split_comma_single)
  next
    case False
    then show ?thesis
      using 1(2) build_pubkey_loop_step [of rest pre "[]" 0 pubkey who what]
      by (simp add: split_comma_single)
  qed
qed

lemma takeWhile_shorter: "\<exists>x \<in> set xs. \<not> P x \<Longrightarrow> length (takeWhile P xs) < length xs"
  by (induction xs) auto

lemma available_length: "length available_algos = 8"
  by (simp add: available_algos_def)

lemma pk_index_less: "pk_index n = Some i \<Longrightarrow> i < length available_algos \<and> pk_name (available_algos ! i) = n"
proof -
  assume i: "pk_index n = Some i"
  then have "\<exists>a \<in> set available_algos. \<not> pk_name a \<noteq> n" by (auto simp: pk_index_def split: if_splits)
  then show ?thesis
    using i nth_length_takeWhile [of "\<lambda>a. pk_name a \<noteq> n" available_algos]
      takeWhile_shorter [of available_algos "\<lambda>a. pk_name a \<noteq> n"]
    by (auto simp: pk_index_def split: if_splits)
qed

text \<open>The six sets by their names.\<close>

definition pk_sets :: "(string \<times> string) set" where
  "pk_sets = {''client'', ''server''} \<times> {''pk'', ''pkcert'', ''pksign''}"

definition pk_set :: "string \<times> string \<Rightarrow> ssh_pubkey_s \<Rightarrow> u32" where
  "pk_set x pubkey =
     (if fst x = ''client''
      then (if snd x = ''pk'' then pkalgo_client pubkey else if snd x = ''pkcert'' then pkcert_client pubkey else pksign_client pubkey)
      else (if snd x = ''pk'' then pkalgo_server pubkey else if snd x = ''pkcert'' then pkcert_server pubkey else pksign_server pubkey))"

lemma enable_algo_simps:
  assumes "i < 8"
  shows "enable_algo_pubkey p i ''client'' ''pk'' = p\<lparr>pkalgo_client := pkalgo_client p OR push_bit i 1\<rparr>"
    "enable_algo_pubkey p i ''client'' ''pkcert'' = p\<lparr>pkcert_client := pkcert_client p OR push_bit i 1\<rparr>"
    "enable_algo_pubkey p i ''client'' ''pksign'' = p\<lparr>pksign_client := pksign_client p OR push_bit i 1\<rparr>"
    "enable_algo_pubkey p i ''server'' ''pk'' = p\<lparr>pkalgo_server := pkalgo_server p OR push_bit i 1\<rparr>"
    "enable_algo_pubkey p i ''server'' ''pkcert'' = p\<lparr>pkcert_server := pkcert_server p OR push_bit i 1\<rparr>"
    "enable_algo_pubkey p i ''server'' ''pksign'' = p\<lparr>pksign_server := pksign_server p OR push_bit i 1\<rparr>"
  using assms by (simp_all add: enable_algo_pubkey_def Let_def)

lemma pk_sets_cases:
  assumes "(who, what) \<in> pk_sets"
  obtains "who = ''client''" "what = ''pk''" | "who = ''client''" "what = ''pkcert''" | "who = ''client''" "what = ''pksign''"
  | "who = ''server''" "what = ''pk''" | "who = ''server''" "what = ''pkcert''" | "who = ''server''" "what = ''pksign''"
  using assms unfolding pk_sets_def mem_Sigma_iff insert_iff empty_iff by (elim conjE disjE FalseE) (rule that, assumption, assumption)+

lemma pk_set_enable:
  assumes "(who, what) \<in> pk_sets" and "(who', what') \<in> pk_sets" and "i < 8"
  shows "pk_set (who', what') (enable_algo_pubkey p i who what) =
    (if (who', what') = (who, what) then pk_set (who', what') p OR push_bit i 1 else pk_set (who', what') p)"
  by (cases rule: pk_sets_cases [OF assms(1)]; cases rule: pk_sets_cases [OF assms(2)];
      simp add: enable_algo_simps [OF assms(3)] pk_set_def)

lemma pk_set_enable_name:
  assumes "(who, what) \<in> pk_sets" and "x \<in> pk_sets"
  shows "bit (pk_set x (enable_name who what p n)) j \<longleftrightarrow> bit (pk_set x p) j \<or> x = (who, what) \<and> pk_index n = Some j"
proof (cases "pk_index n")
  case None
  then show ?thesis by (simp add: enable_name_def)
next
  case (Some i)
  then have i: "i < 8" using pk_index_less [of n i] available_length by simp
  have "pk_set x (enable_algo_pubkey p i who what) = (if x = (who, what) then pk_set x p OR push_bit i 1 else pk_set x p)"
    using pk_set_enable [OF assms(1) _ i, of "fst x" "snd x" p] assms(2) by simp
  moreover have "bit (push_bit i 1 :: u32) j \<longleftrightarrow> i = j" using i by (simp add: bit_exp_iff, linarith)
  ultimately show ?thesis using Some by (simp add: enable_name_def bit_or_iff)
qed

lemma pk_set_foldl:
  assumes "(who, what) \<in> pk_sets" and "x \<in> pk_sets"
  shows "bit (pk_set x (foldl (enable_name who what) p ns)) j \<longleftrightarrow>
    bit (pk_set x p) j \<or> x = (who, what) \<and> (\<exists>n \<in> set ns. pk_index n = Some j)"
proof (induction ns arbitrary: p)
  case (Cons n ns)
  then show ?case using pk_set_enable_name [OF assms, of p n j] by (simp only: foldl_Cons list.simps bex_simps) blast
qed simp

lemma build_pubkey_list_fold:
  assumes "ss_bytes list = Some bs" and "unat (ss_len list) + 2 < 4294967296"
  shows "build_pubkey_list list pubkey who what = Some (foldl (enable_name who what) pubkey (split_comma bs))"
proof -
  have ld: "mem_load (ss_src list) 0 (unat (ss_len list)) = Some bs"
    using assms(1) by (auto simp: ss_bytes_Some_iff ss_src_def mem_load_def)
  have len: "length bs = unat (ss_len list)" using length_ss_bytes [OF assms(1)] by simp
  have u: "unat (ss_len list + 1) = length bs + 1" "unat (ss_len list + 2) = length bs + 2"
    using assms(2) len by (simp_all add: unat_u32_plus)
  have "mem_store (stack_array (ss_len list + 2)) 0 bs = Some (bs @ [0, 0])"
    using drop_zeros [of "length bs" 2] by (simp add: stack_array_def mem_store_def u numeral_eq_Suc)
  moreover have "mem_store (bs @ [0, 0]) (length bs) [comma] = Some (bs @ [comma, 0])"
    "mem_store (bs @ [comma, 0]) (length bs + 1) [0] = Some (bs @ [comma, 0])"
    by (simp_all add: mem_store_def)
  ultimately show ?thesis
    using build_pubkey_loop_spec [of bs "[]" pubkey who what] ld len u assms(2) by (simp add: build_pubkey_list_def)
qed

text \<open>
  C36: the sets of public key algorithms a session keeps are exact: after \<open>build_pubkey_list\<close> for the client or the server and for one of the
  three kinds, the set of that side and kind has the bits it had and those of the algorithms of the table whose names are entries of the comma list,
  and no other; the other five sets are as they were. The list is shorter than \<open>2^32 - 2\<close> bytes, else the copy is too small.
\<close>

theorem build_pubkey_list_exact:
  assumes "ss_bytes list = Some bs" and "unat (ss_len list) + 2 < 2 ^ 32" and "(who, what) \<in> pk_sets"
  shows "\<exists>pubkey'. build_pubkey_list list pubkey who what = Some pubkey' \<and>
     (\<forall>i. bit (pk_set (who, what) pubkey') i \<longleftrightarrow> bit (pk_set (who, what) pubkey) i \<or>
        i < length available_algos \<and> pk_name (available_algos ! i) \<in> set (split_comma bs)) \<and>
     (\<forall>x \<in> pk_sets - {(who, what)}. pk_set x pubkey' = pk_set x pubkey)"
proof (intro exI conjI allI ballI)
  let ?p = "foldl (enable_name who what) pubkey (split_comma bs)"
  show "build_pubkey_list list pubkey who what = Some ?p" using build_pubkey_list_fold [OF assms(1)] assms(2) by simp
  fix i
  have "(\<exists>n \<in> set (split_comma bs). pk_index n = Some i) \<longleftrightarrow>
      i < length available_algos \<and> pk_name (available_algos ! i) \<in> set (split_comma bs)"
    using pk_index_nth [of i] pk_index_less [of _ i] by blast
  then show "bit (pk_set (who, what) ?p) i \<longleftrightarrow> bit (pk_set (who, what) pubkey) i \<or>
      i < length available_algos \<and> pk_name (available_algos ! i) \<in> set (split_comma bs)"
    using pk_set_foldl [OF assms(3,3), of pubkey "split_comma bs" i] by simp
next
  fix x assume "x \<in> pk_sets - {(who, what)}"
  then have x: "x \<in> pk_sets" "x \<noteq> (who, what)" by simp_all
  show "pk_set x (foldl (enable_name who what) pubkey (split_comma bs)) = pk_set x pubkey"
    by (rule bit_word_eqI) (simp only: pk_set_foldl [OF assms(3) x(1)] x(2) simp_thms)
qed

theorem build_pubkey_list_exact_witness:
  "\<exists>pubkey'. build_pubkey_list \<lparr>ss_flags = 0, ss_len = 7, ss_size = 0, ss_ptr = POut (bytes ''ssh-dss''), ss_buffer = []\<rparr>
       init_ssh_pubkey ''server'' ''pksign'' = Some pubkey' \<and> \<not> bit (pksign_server pubkey') 0 \<and> pkalgo_server pubkey' = 0"
proof -
  let ?l = "\<lparr>ss_flags = 0, ss_len = 7, ss_size = 0, ss_ptr = POut (bytes ''ssh-dss''), ss_buffer = []\<rparr>"
  have b: "ss_bytes ?l = Some (bytes ''ssh-dss'')" by (simp add: ss_bytes_def ss_target_def mem_load_def bytes_def)
  have l: "unat (ss_len ?l) + 2 < 2 ^ 32" by simp
  have x: "(''server'', ''pksign'') \<in> pk_sets" "(''server'', ''pk'') \<in> pk_sets - {(''server'', ''pksign'')}" by (simp_all add: pk_sets_def)
  have n: "pk_name (available_algos ! 0) \<notin> set (split_comma (bytes ''ssh-dss''))"
    by (simp add: available_algos_def pk_entry_def bytes_def)
  obtain p where p: "build_pubkey_list ?l init_ssh_pubkey ''server'' ''pksign'' = Some p"
      "bit (pk_set (''server'', ''pksign'') p) 0 \<longleftrightarrow> bit (pk_set (''server'', ''pksign'') init_ssh_pubkey) 0 \<or>
        0 < length available_algos \<and> pk_name (available_algos ! 0) \<in> set (split_comma (bytes ''ssh-dss''))"
      "pk_set (''server'', ''pk'') p = pk_set (''server'', ''pk'') init_ssh_pubkey"
    using build_pubkey_list_exact [OF b l x(1), of init_ssh_pubkey] x(2) by blast
  have s: "pk_set (''server'', ''pksign'') q = pksign_server q" "pk_set (''server'', ''pk'') q = pkalgo_server q" for q
    by (simp_all add: pk_set_def)
  have "pksign_server init_ssh_pubkey = 0" "pkalgo_server init_ssh_pubkey = 0" by (simp_all add: init_ssh_pubkey_def)
  with p n show ?thesis unfolding s by (intro exI [of _ p] conjI) simp_all
qed

end
