(* ===== verification/Kex_Compare.thy ===== *)
theory Kex_Compare
  imports Pk_Algo
begin

text \<open>
  The choice of algorithms in a key exchange, \<open>src/ssh/keyexchange/compare.c\<close>: the two \<open>KEXINIT\<close> messages
  are read name list by name list, for each type of algorithm the first name of the
  client's list that is on the server's list is chosen and looked up in the table of algorithms
  that built the message.

  The search works in place on copies of the lists, with commas added around them and zero bytes
  written and taken back while it goes; the model does the same on memories. The theorems
  show that for lists without zero bytes it computes the choice RFC 4253 asks for.
\<close>

section \<open>The best guess\<close>

text \<open>\<open>strchr(m + p, ',')\<close>: the outer option is a string without an end, the inner one \<open>NULL\<close>.\<close>

definition strchr_comma :: "mem \<Rightarrow> nat \<Rightarrow> nat option option" where
  "strchr_comma m p = do {
     s \<leftarrow> c_str (drop p m);
     Some (if comma \<in> set s then Some (p + length (takeWhile (\<lambda>b. b \<noteq> comma) s)) else None) }"

text \<open>What both branches do with a name found: end it and copy it when it fits.\<close>

definition store_guess :: "mem \<Rightarrow> nat \<Rightarrow> nat \<Rightarrow> mem \<Rightarrow> u32 \<Rightarrow> mem option" where
  "store_guess list_c c_name c_sep name sz = do {
     s \<leftarrow> c_str (drop (c_name + 1) (list_c[c_sep := 0]));
     if length s < unat sz then mem_store name 0 (s @ [0]) else Some name }"

text \<open>The loop at the label \<open>findname\<close>.\<close>

function findname :: "mem \<Rightarrow> u8 list \<Rightarrow> nat \<Rightarrow> nat \<Rightarrow> mem \<Rightarrow> u32 \<Rightarrow> mem option" where
  "findname list_c str_s c_name c_sep name sz =
     (if c_sep + 1 < length list_c then
        let c_keep = list_c ! (c_sep + 1);
            cut = (if c_keep > 0 then list_c[c_sep + 1 := 0] else list_c) in
        case c_str (drop c_name cut) of
          None \<Rightarrow> None
        | Some s \<Rightarrow>
            if sublist s str_s then store_guess cut c_name c_sep name sz
            else if c_keep > 0 then
              (case strchr_comma (cut[c_sep + 1 := c_keep]) (c_sep + 1) of
                 Some (Some c_sep') \<Rightarrow> findname (cut[c_sep + 1 := c_keep]) str_s c_sep c_sep' name sz
               | _ \<Rightarrow> None)
            else Some name
      else None)"
  by pat_completeness auto
termination
proof (relation "measure (\<lambda>(list_c, str_s, c_name, c_sep, name, sz). length list_c - c_sep)", goal_cases)
  case (2 list_c str_s c_name c_sep name sz c_keep cut s x c_sep')
  then have "c_sep < c_sep'"
    by (auto simp: strchr_comma_def bind_eq_Some_conv split: if_splits)
  then show ?case using 2 by (auto split: if_splits)
qed simp

declare findname.simps [simp del]

definition get_best_guess :: "ssh_string_s \<Rightarrow> ssh_string_s \<Rightarrow> mem \<Rightarrow> u32 \<Rightarrow> mem option" where
  "get_best_guess clist_c clist_s name sz =
     (if ss_len clist_c = 0 \<or> ss_target clist_c = None \<or> ss_len clist_s = 0 then Some name
      else if unat (ss_len clist_c) + 3 \<ge> 4294967296 \<or> unat (ss_len clist_s) + 3 \<ge> 4294967296 then None
      else do {
        bc \<leftarrow> mem_load (ss_src clist_c) 0 (unat (ss_len clist_c));
        bs \<leftarrow> mem_load (ss_src clist_s) 0 (unat (ss_len clist_s));
        let list_c = [comma] @ bc @ [comma, 0];
        let list_s = [comma] @ bs @ [comma, 0];
        str_s \<leftarrow> c_str list_s;
        p_c \<leftarrow> strchr_comma list_c 1;
        p_s \<leftarrow> strchr_comma list_s 1;
        c_sep \<leftarrow> p_c;
        s_sep \<leftarrow> p_s;
        if c_sep = s_sep \<and> take c_sep list_c = take s_sep list_s then store_guess list_c 0 c_sep name sz
        else findname list_c str_s 0 c_sep name sz })"

section \<open>The table of algorithms and the messages\<close>

record algo_list_s =
  al_type :: int
  al_order :: u32
  al_sshname :: "u8 list"

text \<open>
  \<open>get_index_algo\<close>: the table ends with an entry of negative type; \<open>None\<close> when the loop runs past
  a table without one.
\<close>

fun get_index_algo_from :: "algo_list_s list \<Rightarrow> int \<Rightarrow> u8 list \<Rightarrow> nat \<Rightarrow> int option" where
  "get_index_algo_from [] ctr name typ = None"
| "get_index_algo_from (a # as) ctr name typ =
     (if al_type a \<ge> 0 then
        (if al_type a = int typ \<and> al_sshname a = name then Some ctr
         else get_index_algo_from as (ctr + 1) name typ)
      else Some (-1))"

definition get_index_algo :: "algo_list_s list \<Rightarrow> u8 list \<Rightarrow> nat \<Rightarrow> int option" where
  "get_index_algo algos name typ = get_index_algo_from algos 0 name typ"

definition SSH_ALGO_TYPE_HOSTKEY :: nat where "SSH_ALGO_TYPE_HOSTKEY = 1"
definition SSH_ALGO_TYPE_LANG_C2S :: nat where "SSH_ALGO_TYPE_LANG_C2S = 8"
definition SSH_ALGO_TYPE_LANG_S2C :: nat where "SSH_ALGO_TYPE_LANG_S2C = 9"
definition SSH_ALGO_TYPES_COUNT :: nat where "SSH_ALGO_TYPES_COUNT = 10"

text \<open>The parts of the connection the comparison changes: the choices and the session's sets.\<close>

record kex_state =
  kx_chosen :: "int list"
  kx_pubkey :: ssh_pubkey_s

record kex_pos =
  kp_mem :: mem
  kp_pos :: nat
  kp_left :: u32

definition kp_advance :: "kex_pos \<Rightarrow> u32 \<Rightarrow> kex_pos" where
  "kp_advance p len = p\<lparr>kp_pos := kp_pos p + unat len, kp_left := kp_left p - len\<rparr>"

text \<open>The main connection remembers the public key algorithms both sides offer.\<close>

definition round_pubkey ::
  "bool \<Rightarrow> nat \<Rightarrow> ssh_pubkey_s \<Rightarrow> ssh_string_s \<Rightarrow> ssh_string_s \<Rightarrow> ssh_pubkey_s option" where
  "round_pubkey is_main i pubkey clist_client clist_server =
     (if is_main \<and> i = SSH_ALGO_TYPE_HOSTKEY
      then store_algo_pubkey_negotiation pubkey (Some clist_client) (Some clist_server) ''pk''
      else Some pubkey)"

text \<open>
  One round of the loop for type \<open>i\<close>: whether to go on, the two lengths read, and the state.
\<close>

definition compare_round ::
  "bool \<Rightarrow> algo_list_s list \<Rightarrow> nat \<Rightarrow> kex_pos \<Rightarrow> kex_pos \<Rightarrow> kex_state \<Rightarrow> (bool \<times> u32 \<times> u32 \<times> kex_state) option" where
  "compare_round is_main algos i client server st = do {
     (len_client, clist_client) \<leftarrow>
        read_ssh_string (kp_mem client) (kp_pos client) (kp_left client) SSH_STRING_INIT;
     if len_client = 0 then Some (False, 0, 0, st) else do {
     (len_server, clist_server) \<leftarrow>
        read_ssh_string (kp_mem server) (kp_pos server) (kp_left server) SSH_STRING_INIT;
     if len_server = 0 then Some (False, 0, 0, st) else do {
     let st = st\<lparr>kx_chosen := (kx_chosen st)[i := -1]\<rparr>;
     buf \<leftarrow> get_best_guess clist_client clist_server (replicate 65 0) 65;
     name \<leftarrow> c_str buf;
     if name \<noteq> [] then do {
       index \<leftarrow> get_index_algo algos name i;
       if index = -1 then Some (False, 0, 0, st) else do {
         let st = st\<lparr>kx_chosen := (kx_chosen st)[i := index]\<rparr>;
         pubkey \<leftarrow> round_pubkey is_main i (kx_pubkey st) clist_client clist_server;
         Some (True, len_client, len_server, st\<lparr>kx_pubkey := pubkey\<rparr>) } }
     else if i = SSH_ALGO_TYPE_LANG_C2S \<or> i = SSH_ALGO_TYPE_LANG_S2C
     then Some (True, len_client, len_server, st)
     else Some (False, 0, 0, st) } } }"

text \<open>The rounds that are left, and the result.\<close>

primrec compare_loop ::
  "nat \<Rightarrow> bool \<Rightarrow> algo_list_s list \<Rightarrow> nat \<Rightarrow> kex_pos \<Rightarrow> kex_pos \<Rightarrow> kex_state \<Rightarrow> (int \<times> kex_state) option" where
  "compare_loop 0 is_main algos i client server st = Some (0, st)"
| "compare_loop (Suc n) is_main algos i client server st =
     Option.bind (compare_round is_main algos i client server st) (\<lambda>(go, lc, ls, st).
       if go then compare_loop n is_main algos (i + 1) (kp_advance client lc) (kp_advance server ls) st
       else Some (-1, st))"

definition compare_msg_kexinit ::
  "bool \<Rightarrow> algo_list_s list \<Rightarrow> ssh_string_s \<Rightarrow> ssh_string_s \<Rightarrow> kex_state \<Rightarrow> (int \<times> kex_state) option" where
  "compare_msg_kexinit is_main algos kexinit_client kexinit_server st =
     (case (ss_target kexinit_client, ss_target kexinit_server) of
        (Some mc, Some ms) \<Rightarrow>
          if ss_len kexinit_client \<le> 63 then Some (-1, st)
          else if ss_len kexinit_server \<le> 63 then Some (-1, st)
          else compare_loop SSH_ALGO_TYPES_COUNT is_main algos 0
                 \<lparr>kp_mem = mc, kp_pos = 17, kp_left = ss_len kexinit_client - 17\<rparr>
                 \<lparr>kp_mem = ms, kp_pos = 17, kp_left = ss_len kexinit_server - 17\<rparr> st
      | _ \<Rightarrow> Some (-1, st))"

section \<open>The search finds the first common name\<close>

definition kex_choice :: "u8 list \<Rightarrow> u8 list \<Rightarrow> u8 list option" where
  "kex_choice cl sl = find (\<lambda>n. n \<in> set (split_comma sl)) (split_comma cl)"

definition put_name :: "u8 list \<Rightarrow> mem \<Rightarrow> u32 \<Rightarrow> mem" where
  "put_name n name sz = (if length n < unat sz then n @ 0 # drop (length n + 1) name else name)"

lemma store_guess_spec:
  assumes "0 \<notin> set n" and "unat sz \<le> length name"
  shows "store_guess (pre @ comma # n @ x # q) (length pre) (length pre + 1 + length n) name sz =
         Some (put_name n name sz)"
proof -
  have "drop (length pre + 1) ((pre @ comma # n @ x # q)[length pre + 1 + length n := 0]) = n @ 0 # q"
    by (simp add: list_update_append)
  then show ?thesis
    using assms by (auto simp: store_guess_def c_str_terminated put_name_def mem_store_def)
qed

lemma strchr_comma_spec:
  assumes "0 \<notin> set n" "comma \<notin> set n" "0 \<notin> set r"
  shows "strchr_comma (pre @ n @ comma # r @ [0]) (length pre) = Some (Some (length pre + length n))"
  using assms c_str_terminated [of "n @ comma # r" "[]"]
  by (auto simp: strchr_comma_def takeWhile_append)

lemma zero_notin_wrapped: "\<forall>m \<in> set ns. 0 \<notin> set m \<Longrightarrow> 0 \<notin> set (wrapped ns)"
  by (induction ns) auto

lemma findname_hit:
  assumes "list_c = pre @ comma # n @ comma # k # q" and "0 \<notin> set n" "comma \<notin> set n"
    and "unat sz \<le> length name" and "n \<in> set (split_comma sl)"
  shows "findname list_c (comma # sl @ [comma]) (length pre) (length pre + 1 + length n) name sz =
         Some (put_name n name sz)"
proof -
  let ?sep = "length pre + 1 + length n"
  have at: "?sep + 1 < length list_c" "list_c ! (?sep + 1) = k"
    and upd: "list_c[?sep + 1 := x] = pre @ comma # n @ comma # x # q" for x
    using assms(1) by (simp_all add: nth_append list_update_append)
  have cut: "(if k > 0 then list_c[?sep + 1 := 0] else list_c) = pre @ comma # n @ comma # 0 # q"
    using assms(1) upd by (auto simp: word_gt_0)
  have str: "c_str (drop (length pre) (pre @ comma # n @ comma # 0 # q)) = Some (comma # n @ [comma])"
    using c_str_terminated [of "comma # n @ [comma]" q] assms(2) by simp
  have "sublist (comma # n @ [comma]) (comma # sl @ [comma])"
    using sublist_comma_iff [OF assms(3)] assms(5) by blast
  then show ?thesis
    using at store_guess_spec [OF assms(2,4), of pre comma "0 # q"]
    by (subst findname.simps) (simp only: Let_def cut str option.case if_True)
qed

lemma findname_miss:
  assumes "list_c = pre @ comma # n @ comma # k # q" and "0 \<notin> set n" "comma \<notin> set n"
    and "n \<notin> set (split_comma sl)"
  shows "findname list_c (comma # sl @ [comma]) (length pre) (length pre + 1 + length n) name sz =
         (if k > 0 then
            (case strchr_comma list_c (length pre + 1 + length n + 1) of
               Some (Some c_sep') \<Rightarrow>
                 findname list_c (comma # sl @ [comma]) (length pre + 1 + length n) c_sep' name sz
             | _ \<Rightarrow> None)
          else Some name)"
proof -
  let ?sep = "length pre + 1 + length n"
  have at: "?sep + 1 < length list_c" "list_c ! (?sep + 1) = k"
    and upd: "list_c[?sep + 1 := x] = pre @ comma # n @ comma # x # q" for x
    using assms(1) by (simp_all add: nth_append list_update_append)
  have cut: "(if k > 0 then list_c[?sep + 1 := 0] else list_c) = pre @ comma # n @ comma # 0 # q"
    using assms(1) upd by (auto simp: word_gt_0)
  have restored: "(pre @ comma # n @ comma # 0 # q)[?sep + 1 := k] = list_c"
    using assms(1) by (simp add: list_update_append)
  have str: "c_str (drop (length pre) (pre @ comma # n @ comma # 0 # q)) = Some (comma # n @ [comma])"
    using c_str_terminated [of "comma # n @ [comma]" q] assms(2) by simp
  have "\<not> sublist (comma # n @ [comma]) (comma # sl @ [comma])"
    using sublist_comma_iff [OF assms(3)] assms(4) by blast
  then show ?thesis
    using at by (subst findname.simps) (simp only: Let_def cut str restored option.case if_True if_False)
qed

lemma findname_spec:
  assumes "list_c = pre @ wrapped (n # ns) @ [0]" and "unat sz \<le> length name"
    and "\<forall>m \<in> set (n # ns). 0 \<notin> set m \<and> comma \<notin> set m"
  shows "findname list_c (comma # sl @ [comma]) (length pre) (length pre + 1 + length n) name sz =
     Some (case find (\<lambda>m. m \<in> set (split_comma sl)) (n # ns) of None \<Rightarrow> name | Some m \<Rightarrow> put_name m name sz)"
  using assms
proof (induction ns arbitrary: pre n)
  case Nil
  then have l: "list_c = pre @ comma # n @ comma # 0 # []" by simp
  show ?case
  proof (cases "n \<in> set (split_comma sl)")
    case True
    then show ?thesis using findname_hit [OF l] Nil.prems by simp
  qed (use findname_miss [OF l] Nil.prems in simp)
next
  case (Cons n' ns)
  obtain k q where kq: "n' @ wrapped ns @ [0] = k # q" by (cases "n' @ wrapped ns @ [0]") auto
  then have l: "list_c = pre @ comma # n @ comma # k # q" using Cons.prems(1) by simp
  have "k \<in> set (n' @ wrapped ns)" using kq wrapped_Cons_ex [of ns] by (cases n') auto
  then have k: "k > 0" using Cons.prems(3) zero_notin_wrapped [of ns] by (auto simp: word_gt_0)
  show ?case
  proof (cases "n \<in> set (split_comma sl)")
    case True
    then show ?thesis using findname_hit [OF l] Cons.prems by simp
  next
    case False
    let ?pre = "pre @ comma # n"
    obtain r where r: "wrapped ns = comma # r" using wrapped_Cons_ex by blast
    have "strchr_comma ((?pre @ [comma]) @ n' @ comma # r @ [0]) (length (?pre @ [comma])) =
        Some (Some (length (?pre @ [comma]) + length n'))"
      using Cons.prems(3) zero_notin_wrapped [of ns] r by (intro strchr_comma_spec) auto
    then have "strchr_comma list_c (length pre + 1 + length n + 1) = Some (Some (length ?pre + 1 + length n'))"
      using Cons.prems(1) r by simp
    moreover have "findname list_c (comma # sl @ [comma]) (length ?pre) (length ?pre + 1 + length n') name sz =
        Some (case find (\<lambda>m. m \<in> set (split_comma sl)) (n' # ns) of None \<Rightarrow> name | Some m \<Rightarrow> put_name m name sz)"
      by (rule Cons.IH) (use Cons.prems in simp_all)
    ultimately show ?thesis
      using findname_miss [OF l] False k Cons.prems(3) by simp
  qed
qed

lemma kex_choice_in: "kex_choice cl sl = Some n \<Longrightarrow> n \<in> set (split_comma cl)"
  by (auto simp: kex_choice_def find_Some_iff)

lemma get_best_guess_spec:
  assumes "ss_bytes c = Some cl" "ss_bytes s = Some sl" and "cl \<noteq> []" "sl \<noteq> []"
    and "0 \<notin> set cl" "0 \<notin> set sl" and "length cl + 3 < 4294967296" "length sl + 3 < 4294967296"
    and "unat sz \<le> length name"
  shows "get_best_guess c s name sz =
           Some (case kex_choice cl sl of None \<Rightarrow> name | Some n \<Rightarrow> put_name n name sz)"
proof -
  obtain n ns m ms where sp: "split_comma cl = n # ns" "split_comma sl = m # ms"
    by (meson split_comma_nonempty list.exhaust)
  have ok: "\<forall>x \<in> set (n # ns). 0 \<notin> set x \<and> comma \<notin> set x" "\<forall>x \<in> set (m # ms). 0 \<notin> set x \<and> comma \<notin> set x"
    using split_comma_no_comma split_comma_subset assms(5,6) sp by (metis subsetD)+
  let ?lc = "[comma] @ cl @ [comma, 0]" and ?ls = "[comma] @ sl @ [comma, 0]"
  have lc: "?lc = [] @ wrapped (n # ns) @ [0]" "?ls = [] @ wrapped (m # ms) @ [0]"
    using wrapped_split [of cl] wrapped_split [of sl] sp by simp_all
  obtain r q where rq: "wrapped ns = comma # r" "wrapped ms = comma # q" using wrapped_Cons_ex by meson
  then have z: "0 \<notin> set r" "0 \<notin> set q"
    using zero_notin_wrapped [of ns] zero_notin_wrapped [of ms] ok by auto
  have sep: "strchr_comma ?lc 1 = Some (Some (length n + 1))" "strchr_comma ?ls 1 = Some (Some (length m + 1))"
    unfolding lc using strchr_comma_spec [of n r "[comma]"] strchr_comma_spec [of m q "[comma]"] ok z rq
    by simp_all
  have str: "c_str ?ls = Some (comma # sl @ [comma])"
    using c_str_terminated [of "comma # sl @ [comma]" "[]"] assms(6) by simp
  have tk: "take (length n + 1) ?lc = comma # n" "take (length m + 1) ?ls = comma # m"
    unfolding lc by simp_all
  have ld: "mem_load (ss_src c) 0 (unat (ss_len c)) = Some cl" "mem_load (ss_src s) 0 (unat (ss_len s)) = Some sl"
    "ss_target c \<noteq> None" "ss_len c \<noteq> 0" "ss_len s \<noteq> 0"
    using assms(1-4) by (auto simp: ss_bytes_Some_iff ss_src_def mem_load_def)
  have big: "\<not> (unat (ss_len c) + 3 \<ge> 4294967296 \<or> unat (ss_len s) + 3 \<ge> 4294967296)"
    using assms(7,8) length_ss_bytes [OF assms(1)] length_ss_bytes [OF assms(2)] by simp
  have "get_best_guess c s name sz =
      (if n = m then store_guess ?lc 0 (length n + 1) name sz
       else findname ?lc (comma # sl @ [comma]) 0 (length n + 1) name sz)"
    using ld big by (simp only: get_best_guess_def Let_def bind.bind_lunit sep str tk if_False simp_thms) auto
  moreover have "store_guess ?lc 0 (length n + 1) name sz = Some (put_name n name sz)"
    unfolding lc using store_guess_spec [of n sz name "[]" comma "r @ [0]"] ok assms(9) rq by simp
  moreover have "n = m \<Longrightarrow> kex_choice cl sl = Some n" by (simp add: kex_choice_def sp)
  moreover have "findname ?lc (comma # sl @ [comma]) 0 (length n + 1) name sz =
      Some (case kex_choice cl sl of None \<Rightarrow> name | Some n \<Rightarrow> put_name n name sz)"
    using findname_spec [OF lc(1) assms(9) ok(1), of sl] by (simp add: kex_choice_def sp(1))
  ultimately show ?thesis by (cases "n = m") auto
qed

section \<open>A round and the whole comparison\<close>

text \<open>What a round has to choose: the first common name, unless it is empty or too long.\<close>

definition kex_name :: "u8 list \<Rightarrow> u8 list \<Rightarrow> u8 list" where
  "kex_name cl sl =
     (if cl = [] \<or> sl = [] then []
      else case kex_choice cl sl of None \<Rightarrow> [] | Some n \<Rightarrow> if length n < 65 then n else [])"

definition kex_pick :: "algo_list_s list \<Rightarrow> nat \<Rightarrow> u8 list \<Rightarrow> u8 list \<Rightarrow> int option" where
  "kex_pick algos i cl sl =
     (if kex_name cl sl \<noteq> [] then
        (case get_index_algo algos (kex_name cl sl) i of None \<Rightarrow> None | Some j \<Rightarrow> if j = -1 then None else Some j)
      else if i = 8 \<or> i = 9 then Some (-1) else None)"

lemma best_guess_name:
  assumes "ss_bytes c = Some cl" "ss_bytes s = Some sl" and "0 \<notin> set cl" "0 \<notin> set sl"
    and "length cl + 4 < 4294967296" "length sl + 4 < 4294967296"
  shows "\<exists>buf. get_best_guess c s (replicate 65 0) 65 = Some buf \<and> c_str buf = Some (kex_name cl sl)"
proof -
  have e: "c_str (replicate 65 0) = Some []" by (simp add: c_str_def)
  show ?thesis
  proof (cases "cl = [] \<or> sl = []")
    case True
    then have "ss_len c = 0 \<or> ss_len s = 0" using assms(1,2) ss_len_of_bytes by fastforce
    with True e show ?thesis by (auto simp: get_best_guess_def kex_name_def)
  next
    case False
    have "c_str (put_name n (replicate 65 0) 65) = Some (if length n < 65 then n else [])"
      if "kex_choice cl sl = Some n" for n
    proof -
      have "0 \<notin> set n" using kex_choice_in [OF that] split_comma_subset assms(3) by blast
      then show ?thesis using e by (simp add: put_name_def c_str_terminated)
    qed
    with False e show ?thesis
      using get_best_guess_spec [OF assms(1,2), of 65 "replicate 65 0"] assms(3-6)
      by (auto simp: kex_name_def split: option.splits)
  qed
qed

lemma get_index_algo_total:
  "\<exists>a \<in> set algos. al_type a < 0 \<Longrightarrow> \<exists>j. get_index_algo_from algos ctr n i = Some j"
  by (induction algos arbitrary: ctr) auto

lemma store_negotiation_total:
  assumes "ss_bytes c = Some cl" "ss_bytes s = Some sl" and "length cl + 4 < 4294967296" "length sl + 4 < 4294967296"
  shows "\<exists>pk'. store_algo_pubkey_negotiation pk (Some c) (Some s) what = Some pk'"
  using build_pubkey_list_fold [OF assms(1)] build_pubkey_list_fold [OF assms(2)] length_ss_bytes [OF assms(1)] length_ss_bytes [OF assms(2)]
    assms(3,4) by (simp add: store_algo_pubkey_negotiation_def)

text \<open>A side of the exchange that stands before the name lists \<open>ls\<close>.\<close>

definition kp_at :: "kex_pos \<Rightarrow> u8 list list \<Rightarrow> bool" where
  "kp_at p ls \<longleftrightarrow> mem_load (kp_mem p) (kp_pos p) (length (enc_strings ls)) = Some (enc_strings ls) \<and>
     length (enc_strings ls) \<le> unat (kp_left p) \<and> (\<forall>l \<in> set ls. 0 \<notin> set l)"

lemma kp_at_read:
  assumes "kp_at p (l # ls)"
  shows "\<exists>s. read_ssh_string (kp_mem p) (kp_pos p) (kp_left p) SSH_STRING_INIT = Some (4 + of_nat (length l), s) \<and>
           ss_bytes s = Some l"
    "4 + of_nat (length l) \<noteq> (0 :: u32)" "length l + 4 < 4294967296" "0 \<notin> set l"
    "kp_at (kp_advance p (4 + of_nat (length l))) ls"
proof -
  have lt: "length l + 4 + length (enc_strings ls) < 4294967296"
    using assms unat_lt_u32 [of "kp_left p"] by (simp add: kp_at_def)
  have u: "unat (4 + of_nat (length l) :: u32) = 4 + length l"
    using lt by (simp add: unat_u32_plus unat_of_nat_u32)
  have ld: "mem_load (kp_mem p) (kp_pos p) (4 + length l) = Some (enc_string l)"
    "mem_load (kp_mem p) (kp_pos p + (4 + length l)) (length (enc_strings ls)) = Some (enc_strings ls)"
    using assms mem_load_split [of "kp_mem p" "kp_pos p" "enc_string l" "enc_strings ls"]
    by (simp_all add: kp_at_def)
  show "\<exists>s. read_ssh_string (kp_mem p) (kp_pos p) (kp_left p) SSH_STRING_INIT = Some (4 + of_nat (length l), s) \<and>
           ss_bytes s = Some l"
    using read_ssh_string_at [OF ld(1), of "kp_left p" SSH_STRING_INIT] lt assms
    by (auto simp: kp_at_def SSH_STRING_INIT_def)
  show "4 + of_nat (length l) \<noteq> (0 :: u32)" using u by (metis add_is_0 unat_0 zero_neq_numeral)
  show "length l + 4 < 4294967296" "0 \<notin> set l" using lt assms by (simp_all add: kp_at_def)
  have "4 + of_nat (length l) \<le> kp_left p" using assms u by (simp add: kp_at_def u32_le_unat)
  then have "unat (kp_left p - (4 + of_nat (length l))) = unat (kp_left p) - (4 + length l)"
    using u by (simp add: unat_u32_minus)
  then show "kp_at (kp_advance p (4 + of_nat (length l))) ls"
    using assms ld(2) u by (auto simp: kp_at_def kp_advance_def)
qed

lemma compare_round_spec:
  assumes c: "kp_at client (cl # cls)" and s: "kp_at server (sl # sls)"
    and ended: "\<exists>a \<in> set algos. al_type a < 0"
  shows "\<exists>st'. compare_round is_main algos i client server st =
     (case kex_pick algos i cl sl of
        None \<Rightarrow> Some (False, 0, 0, st')
      | Some j \<Rightarrow> Some (True, 4 + of_nat (length cl), 4 + of_nat (length sl), st')) \<and>
     (\<forall>j. kex_pick algos i cl sl = Some j \<longrightarrow> kx_chosen st' = (kx_chosen st)[i := j])"
proof -
  obtain sc where sc: "read_ssh_string (kp_mem client) (kp_pos client) (kp_left client) SSH_STRING_INIT =
      Some (4 + of_nat (length cl), sc)" "ss_bytes sc = Some cl" using kp_at_read(1) [OF c] by blast
  obtain ss where ss: "read_ssh_string (kp_mem server) (kp_pos server) (kp_left server) SSH_STRING_INIT =
      Some (4 + of_nat (length sl), ss)" "ss_bytes ss = Some sl" using kp_at_read(1) [OF s] by blast
  obtain buf where buf: "get_best_guess sc ss (replicate 65 0) 65 = Some buf" "c_str buf = Some (kex_name cl sl)"
    using best_guess_name [OF sc(2) ss(2)] kp_at_read(3,4) [OF c] kp_at_read(3,4) [OF s] by blast
  obtain j where j: "get_index_algo algos (kex_name cl sl) i = Some j"
    using get_index_algo_total [OF ended, of 0 "kex_name cl sl" i] by (auto simp: get_index_algo_def)
  obtain pk where pk: "round_pubkey is_main i (kx_pubkey st) sc ss = Some pk"
    using store_negotiation_total [OF sc(2) ss(2) kp_at_read(3) [OF c] kp_at_read(3) [OF s], of "kx_pubkey st" "''pk''"]
    by (cases "is_main \<and> i = SSH_ALGO_TYPE_HOSTKEY") (auto simp: round_pubkey_def)
  note nz = kp_at_read(2) [OF c] kp_at_read(2) [OF s]
  let ?st = "st\<lparr>kx_chosen := (kx_chosen st)[i := -1]\<rparr>"
  have "compare_round is_main algos i client server st =
      (if kex_name cl sl \<noteq> [] then
         (if j = -1 then Some (False, 0, 0, ?st)
          else Some (True, 4 + of_nat (length cl), 4 + of_nat (length sl),
                     ?st\<lparr>kx_chosen := (kx_chosen st)[i := j], kx_pubkey := pk\<rparr>))
       else if i = 8 \<or> i = 9 then Some (True, 4 + of_nat (length cl), 4 + of_nat (length sl), ?st)
       else Some (False, 0, 0, ?st))"
    by (simp add: compare_round_def sc(1) ss(1) nz buf j pk Let_def SSH_ALGO_TYPE_LANG_C2S_def
        SSH_ALGO_TYPE_LANG_S2C_def)
  then show ?thesis by (simp add: kex_pick_def j)
qed

lemma compare_loop_spec:
  assumes "length cls = length sls" and "kp_at client cls" "kp_at server sls"
    and "\<exists>a \<in> set algos. al_type a < 0" and "i + length cls \<le> length (kx_chosen st)"
  shows "\<exists>r st'. compare_loop (length cls) is_main algos i client server st = Some (r, st') \<and>
     (r = 0 \<longleftrightarrow> (\<forall>k < length cls. kex_pick algos (i + k) (cls ! k) (sls ! k) \<noteq> None)) \<and>
     (r = 0 \<longrightarrow> (\<forall>k < i. kx_chosen st' ! k = kx_chosen st ! k) \<and>
        (\<forall>k < length cls. kex_pick algos (i + k) (cls ! k) (sls ! k) = Some (kx_chosen st' ! (i + k))))"
  using assms
proof (induction cls sls arbitrary: i client server st rule: list_induct2)
  case Nil
  then show ?case by simp
next
  case (Cons cl cls sl sls)
  obtain st1 where rd: "compare_round is_main algos i client server st =
     (case kex_pick algos i cl sl of
        None \<Rightarrow> Some (False, 0, 0, st1)
      | Some j \<Rightarrow> Some (True, 4 + of_nat (length cl), 4 + of_nat (length sl), st1))"
     "\<forall>j. kex_pick algos i cl sl = Some j \<longrightarrow> kx_chosen st1 = (kx_chosen st)[i := j]"
    using compare_round_spec [OF Cons.prems(1,2,3)] by blast
  show ?case
  proof (cases "kex_pick algos i cl sl")
    case None
    then show ?thesis using rd(1) by auto
  next
    case (Some j)
    then have st1: "kx_chosen st1 = (kx_chosen st)[i := j]" using rd(2) by blast
    obtain r st2 where IH: "compare_loop (length cls) is_main algos (i + 1)
        (kp_advance client (4 + of_nat (length cl))) (kp_advance server (4 + of_nat (length sl))) st1 = Some (r, st2)"
      "r = 0 \<longleftrightarrow> (\<forall>k < length cls. kex_pick algos (i + 1 + k) (cls ! k) (sls ! k) \<noteq> None)"
      "r = 0 \<longrightarrow> (\<forall>k < i + 1. kx_chosen st2 ! k = kx_chosen st1 ! k) \<and>
        (\<forall>k < length cls. kex_pick algos (i + 1 + k) (cls ! k) (sls ! k) = Some (kx_chosen st2 ! (i + 1 + k)))"
      using Cons.IH [OF kp_at_read(5) [OF Cons.prems(1)] kp_at_read(5) [OF Cons.prems(2)] Cons.prems(3), of "i + 1" st1]
        Cons.prems(4) st1 by auto
    show ?thesis
    proof (intro exI conjI impI)
      show "compare_loop (length (cl # cls)) is_main algos i client server st = Some (r, st2)"
        using rd(1) Some IH(1) by simp
      show "r = 0 \<longleftrightarrow> (\<forall>k < length (cl # cls). kex_pick algos (i + k) ((cl # cls) ! k) ((sl # sls) ! k) \<noteq> None)"
        using IH(2) Some by (simp add: All_less_Suc2)
      assume "r = 0"
      then have ch: "\<forall>k < i + 1. kx_chosen st2 ! k = (kx_chosen st)[i := j] ! k"
        "\<forall>k < length cls. kex_pick algos (i + 1 + k) (cls ! k) (sls ! k) = Some (kx_chosen st2 ! (i + 1 + k))"
        using IH(3) st1 by auto
      then show "\<forall>k < i. kx_chosen st2 ! k = kx_chosen st ! k" by simp
      have "kx_chosen st2 ! i = j" using ch(1) Cons.prems(4) by simp
      then show "\<forall>k < length (cl # cls). kex_pick algos (i + k) ((cl # cls) ! k) ((sl # sls) ! k) =
          Some (kx_chosen st2 ! (i + k))"
        using ch(2) Some by (simp add: All_less_Suc2)
    qed
  qed
qed

text \<open>
  C1: the comparison of two \<open>KEXINIT\<close> messages computes the choice of RFC 4253. On messages of
  a 17 byte head and ten name lists without zero bytes it does not fault; it succeeds
  exactly when for every type of algorithm there is a choice, the first name of the client's
  list that the server offers too, known to the table of algorithms (the two language
  lists may have none); and then it leaves the index of that choice for every type.
\<close>

theorem compare_msg_kexinit_choice:
  assumes "ss_target kc = Some mc" "ss_target ks = Some ms"
    and "length cls = 10" "length sls = 10"
    and "\<forall>l \<in> set cls \<union> set sls. 0 \<notin> set l"
    and "mem_load mc 17 (length (enc_strings cls)) = Some (enc_strings cls)"
    and "mem_load ms 17 (length (enc_strings sls)) = Some (enc_strings sls)"
    and "17 + length (enc_strings cls) \<le> unat (ss_len kc)" "17 + length (enc_strings sls) \<le> unat (ss_len ks)"
    and "63 < unat (ss_len kc)" "63 < unat (ss_len ks)"
    and "\<exists>a \<in> set algos. al_type a < 0" and "length (kx_chosen st) = 10"
  shows "\<exists>r st'. compare_msg_kexinit is_main algos kc ks st = Some (r, st') \<and>
     (r = 0 \<longleftrightarrow> (\<forall>i < 10. kex_pick algos i (cls ! i) (sls ! i) \<noteq> None)) \<and>
     (r = 0 \<longrightarrow> (\<forall>i < 10. kex_pick algos i (cls ! i) (sls ! i) = Some (kx_chosen st' ! i)))"
proof -
  have k: "\<not> ss_len kc \<le> 63" "\<not> ss_len ks \<le> 63" using assms(10,11) by (simp_all add: u32_le_unat)
  have u: "unat (ss_len kc - 17) = unat (ss_len kc) - 17" "unat (ss_len ks - 17) = unat (ss_len ks) - 17"
    using assms(10,11) by (simp_all add: unat_u32_minus u32_le_unat)
  have "kp_at \<lparr>kp_mem = mc, kp_pos = 17, kp_left = ss_len kc - 17\<rparr> cls"
    "kp_at \<lparr>kp_mem = ms, kp_pos = 17, kp_left = ss_len ks - 17\<rparr> sls"
    using assms(5-9) u by (simp_all add: kp_at_def)
  from compare_loop_spec [OF _ this assms(12), of 0 st is_main] show ?thesis
    using assms(1-4,13) k by (simp add: compare_msg_kexinit_def SSH_ALGO_TYPES_COUNT_def)
qed

definition example_lists :: "u8 list list" where
  "example_lists = [[97], [97], [97], [97], [97], [97], [97], [97], [], []]"

definition example_algos :: "algo_list_s list" where
  "example_algos = map (\<lambda>i. \<lparr>al_type = i, al_order = 0, al_sshname = [97]\<rparr>) [0, 1, 2, 3, 4, 5, 6, 7, -1]"

definition example_kexinit :: ssh_string_s where
  "example_kexinit = \<lparr>ss_flags = 0, ss_len = 65, ss_size = 0,
     ss_ptr = POut (replicate 17 0 @ enc_strings example_lists), ss_buffer = []\<rparr>"

lemma example_pick:
  "\<forall>i < 10. kex_pick example_algos i (example_lists ! i) (example_lists ! i) = Some (if i < 8 then int i else -1)"
proof (intro allI impI)
  fix i :: nat
  assume "i < 10"
  then have i: "i = 0 \<or> i = 1 \<or> i = 2 \<or> i = 3 \<or> i = 4 \<or> i = 5 \<or> i = 6 \<or> i = 7 \<or> i = 8 \<or> i = 9" by arith
  have n: "kex_name [97] [97] = [97]" "kex_name [] [] = []" by (simp_all add: kex_name_def kex_choice_def)
  from i show "kex_pick example_algos i (example_lists ! i) (example_lists ! i) = Some (if i < 8 then int i else -1)"
    by (elim disjE) (simp_all add: kex_pick_def example_lists_def n example_algos_def get_index_algo_def)
qed

theorem compare_msg_kexinit_choice_witness:
  "\<exists>st'. compare_msg_kexinit False example_algos example_kexinit example_kexinit
       \<lparr>kx_chosen = replicate 10 (-1), kx_pubkey = init_ssh_pubkey\<rparr> = Some (0, st') \<and> kx_chosen st' ! 3 = 3"
proof -
  let ?m = "replicate 17 0 @ enc_strings example_lists"
  have len: "length (enc_strings example_lists) = 48" by (simp add: example_lists_def)
  have tgt: "ss_target example_kexinit = Some ?m" "unat (ss_len example_kexinit) = 65"
    by (simp_all add: example_kexinit_def ss_target_def)
  have ld: "mem_load ?m 17 (length (enc_strings example_lists)) = Some (enc_strings example_lists)"
    by (simp add: mem_load_def)
  have ls: "length example_lists = 10" "\<forall>l \<in> set example_lists \<union> set example_lists. 0 \<notin> set l"
    by (simp_all add: example_lists_def)
  have al: "\<exists>a \<in> set example_algos. al_type a < 0" by (simp add: example_algos_def)
  obtain r st' where *: "compare_msg_kexinit False example_algos example_kexinit example_kexinit
       \<lparr>kx_chosen = replicate 10 (-1), kx_pubkey = init_ssh_pubkey\<rparr> = Some (r, st')"
    "r = 0 \<longleftrightarrow> (\<forall>i < 10. kex_pick example_algos i (example_lists ! i) (example_lists ! i) \<noteq> None)"
    "r = 0 \<longrightarrow> (\<forall>i < 10. kex_pick example_algos i (example_lists ! i) (example_lists ! i) = Some (kx_chosen st' ! i))"
    using compare_msg_kexinit_choice [OF tgt(1) tgt(1) ls(1) ls(1) ls(2) ld ld, of example_algos
        "\<lparr>kx_chosen = replicate 10 (-1), kx_pubkey = init_ssh_pubkey\<rparr>" False] al tgt(2) len
    by auto
  have "r = 0" using *(2) example_pick by simp
  then have "kex_pick example_algos 3 (example_lists ! 3) (example_lists ! 3) = Some (kx_chosen st' ! 3)"
    using *(3) by simp
  moreover have "kex_pick example_algos 3 (example_lists ! 3) (example_lists ! 3) = Some 3"
    using example_pick [rule_format, of 3] by simp
  ultimately show ?thesis using *(1) \<open>r = 0\<close> by simp
qed

text \<open>A zero byte in the client's list hides its closing comma: \<open>strchr\<close> gives \<open>NULL\<close>, which is then used.\<close>

lemma get_best_guess_zero_byte:
  "get_best_guess \<lparr>ss_flags = 0, ss_len = 1, ss_size = 0, ss_ptr = POut [0], ss_buffer = []\<rparr>
     \<lparr>ss_flags = 0, ss_len = 1, ss_size = 0, ss_ptr = POut [97], ss_buffer = []\<rparr> (replicate 65 0) 65 = None"
  by (simp add: get_best_guess_def ss_target_def ss_src_def mem_load_def strchr_comma_def c_str_def)

end
