(* ===== verification/Attr_Buffer.thy ===== *)
theory Attr_Buffer
  imports Ssh_String
begin

text \<open>
  The attribute buffer of \<open>src/lib/datatypes/buffer.c\<close>: a cursor over a byte buffer whose
  operations are chosen by a table, one table that writes, one that only counts
  (\<open>nowrite\<close>, used to size a message before it is allocated) and one that reads.

  The table is a union of a write and a read part, so calling a reader on a write table is
  undefined: the dispatching operations give \<open>None\<close> there. The signed field \<open>left\<close> is kept as
  its 32 bit pattern: it is only decremented, and only compared with an unsigned value, which C
  does on the bit pattern.

  The second half shows that the counting pass gives exactly the size the writing pass needs, that
  a buffer of that size is filled completely and without a fault, and that the readers get the
  values back.
\<close>

section \<open>State\<close>

datatype ab_ops = AB_NOWRITE | AB_WRITE | AB_READ

record attr_buffer_s =
  ab_flags :: u32
  ab_buffer :: "mem option"
  ab_pos :: u32
  ab_left :: u32
  ab_len :: u32
  ab_count :: int
  ab_ops :: ab_ops

definition ATTR_BUFFER_FLAG_EOF_SUPPORTED :: u32 where "ATTR_BUFFER_FLAG_EOF_SUPPORTED = 1"
definition ATTR_BUFFER_FLAG_EOF :: u32 where "ATTR_BUFFER_FLAG_EOF = 2"
definition ATTR_BUFFER_FLAG_READ :: u32 where "ATTR_BUFFER_FLAG_READ = 4"
definition ATTR_BUFFER_FLAG_WRITE :: u32 where "ATTR_BUFFER_FLAG_WRITE = 8"
definition ATTR_BUFFER_FLAG_NOWRITE :: u32 where "ATTR_BUFFER_FLAG_NOWRITE = 16"

definition set_attr_buffer_read :: "attr_buffer_s \<Rightarrow> mem \<Rightarrow> u32 \<Rightarrow> attr_buffer_s" where
  "set_attr_buffer_read ab buffer len =
     ab\<lparr>ab_flags := ATTR_BUFFER_FLAG_READ, ab_buffer := Some buffer, ab_pos := 0, ab_left := len,
        ab_len := len, ab_count := 0, ab_ops := AB_READ\<rparr>"

definition set_attr_buffer_nowrite :: "attr_buffer_s \<Rightarrow> attr_buffer_s" where
  "set_attr_buffer_nowrite ab = ab\<lparr>ab_flags := ATTR_BUFFER_FLAG_NOWRITE, ab_ops := AB_NOWRITE\<rparr>"

definition set_attr_buffer_write :: "attr_buffer_s \<Rightarrow> mem \<Rightarrow> u32 \<Rightarrow> attr_buffer_s" where
  "set_attr_buffer_write ab buffer len =
     ab\<lparr>ab_flags := ATTR_BUFFER_FLAG_WRITE, ab_buffer := Some buffer, ab_pos := 0, ab_left := len,
        ab_len := len, ab_count := 0, ab_ops := AB_WRITE\<rparr>"

definition reset_attr_buffer_write :: "attr_buffer_s \<Rightarrow> attr_buffer_s" where
  "reset_attr_buffer_write ab = ab\<lparr>ab_pos := 0, ab_left := ab_len ab, ab_count := 0\<rparr>"

definition init_read_attr_buffer :: attr_buffer_s where
  "init_read_attr_buffer =
     \<lparr>ab_flags = ATTR_BUFFER_FLAG_READ, ab_buffer = None, ab_pos = 0, ab_left = 0, ab_len = 0,
      ab_count = 0, ab_ops = AB_READ\<rparr>"

definition init_nowrite_attr_buffer :: attr_buffer_s where
  "init_nowrite_attr_buffer =
     \<lparr>ab_flags = ATTR_BUFFER_FLAG_NOWRITE, ab_buffer = None, ab_pos = 0, ab_left = 0, ab_len = 0,
      ab_count = 0, ab_ops = AB_NOWRITE\<rparr>"

definition set_attr_buffer_count :: "attr_buffer_s \<Rightarrow> int \<Rightarrow> attr_buffer_s" where
  "set_attr_buffer_count ab count = ab\<lparr>ab_count := count\<rparr>"

definition set_attr_buffer_flags :: "attr_buffer_s \<Rightarrow> u32 \<Rightarrow> attr_buffer_s" where
  "set_attr_buffer_flags ab flags = ab\<lparr>ab_flags := ab_flags ab OR flags\<rparr>"

section \<open>Two's complement conversions\<close>

text \<open>Signed values are words read with the signed order. Negating the least one overflows, which is undefined.\<close>

definition convert_int32_2c :: "u32 \<Rightarrow> u32 option" where
  "convert_int32_2c v =
     (if 0 \<le>s v then Some v else if v = 0x80000000 then None else Some (NOT (- v) + 1))"

definition convert_2c_int32 :: "u32 \<Rightarrow> u32" where
  "convert_2c_int32 v = (if v AND 0x80000000 \<noteq> 0 then - (NOT (v - 1)) else v)"

definition convert_int64_2c :: "u64 \<Rightarrow> u64 option" where
  "convert_int64_2c v =
     (if 0 \<le>s v then Some v else if v = 0x8000000000000000 then None else Some (NOT (- v) + 1))"

definition convert_2c_int64 :: "u64 \<Rightarrow> u64" where
  "convert_2c_int64 v = (if v AND 0x8000000000000000 \<noteq> 0 then - (NOT (v - 1)) else v)"

section \<open>Writing and counting\<close>

text \<open>
  \<open>copy_buffer_data\<close>: the store faults when it leaves the object; the cursor then moves on.
  \<open>src\<close> is the memory behind the data pointer.
\<close>

definition copy_buffer_data :: "attr_buffer_s \<Rightarrow> mem \<Rightarrow> u32 \<Rightarrow> attr_buffer_s option" where
  "copy_buffer_data ab src len = do {
     buffer \<leftarrow> ab_buffer ab;
     data \<leftarrow> mem_load src 0 (unat len);
     buffer \<leftarrow> mem_store buffer (unat (ab_pos ab)) data;
     Some (ab\<lparr>ab_buffer := Some buffer, ab_pos := ab_pos ab + len, ab_left := ab_left ab - len\<rparr>) }"

definition nowrite_uchar :: "attr_buffer_s \<Rightarrow> u8 \<Rightarrow> attr_buffer_s" where
  "nowrite_uchar ab b = ab\<lparr>ab_pos := ab_pos ab + 1\<rparr>"

definition write_uchar :: "attr_buffer_s \<Rightarrow> u8 \<Rightarrow> attr_buffer_s option" where
  "write_uchar ab b = copy_buffer_data ab [b] 1"

definition nowrite_uchars :: "attr_buffer_s \<Rightarrow> mem \<Rightarrow> u32 \<Rightarrow> attr_buffer_s" where
  "nowrite_uchars ab bytes len = ab\<lparr>ab_pos := ab_pos ab + len\<rparr>"

definition write_uchars :: "attr_buffer_s \<Rightarrow> mem \<Rightarrow> u32 \<Rightarrow> attr_buffer_s option" where
  "write_uchars ab bytes len = copy_buffer_data ab bytes len"

definition nowrite_uint32 :: "attr_buffer_s \<Rightarrow> u32 \<Rightarrow> attr_buffer_s" where
  "nowrite_uint32 ab v = ab\<lparr>ab_pos := ab_pos ab + 4\<rparr>"

definition write_uint32 :: "attr_buffer_s \<Rightarrow> u32 \<Rightarrow> attr_buffer_s option" where
  "write_uint32 ab v = copy_buffer_data ab (be32 v) 4"

definition nowrite_uint64 :: "attr_buffer_s \<Rightarrow> u64 \<Rightarrow> attr_buffer_s" where
  "nowrite_uint64 ab v = ab\<lparr>ab_pos := ab_pos ab + 8\<rparr>"

definition write_uint64 :: "attr_buffer_s \<Rightarrow> u64 \<Rightarrow> attr_buffer_s option" where
  "write_uint64 ab v = copy_buffer_data ab (be64 v) 8"

definition nowrite_int64 :: "attr_buffer_s \<Rightarrow> u64 \<Rightarrow> attr_buffer_s" where
  "nowrite_int64 ab v = ab\<lparr>ab_pos := ab_pos ab + 8\<rparr>"

definition write_int64 :: "attr_buffer_s \<Rightarrow> u64 \<Rightarrow> attr_buffer_s option" where
  "write_int64 ab v = do {
     tc_value \<leftarrow> convert_int64_2c v;
     copy_buffer_data ab (be64 tc_value) 8 }"

definition nowrite_uint16 :: "attr_buffer_s \<Rightarrow> u16 \<Rightarrow> attr_buffer_s" where
  "nowrite_uint16 ab v = ab\<lparr>ab_pos := ab_pos ab + 2\<rparr>"

definition write_uint16 :: "attr_buffer_s \<Rightarrow> u16 \<Rightarrow> attr_buffer_s option" where
  "write_uint16 ab v = copy_buffer_data ab (be16 v) 2"

definition write_skip :: "attr_buffer_s \<Rightarrow> u32 \<Rightarrow> attr_buffer_s" where
  "write_skip ab len = ab\<lparr>ab_pos := ab_pos ab + len, ab_left := ab_left ab - len\<rparr>"

definition nowrite_skip :: "attr_buffer_s \<Rightarrow> u32 \<Rightarrow> attr_buffer_s" where
  "nowrite_skip ab len = ab\<lparr>ab_pos := ab_pos ab + len\<rparr>"

section \<open>The write tables\<close>

text \<open>The calls \<open>(* ab->ops->rw.write.f)(ab, ...)\<close> through the tables \<open>ab_write\<close> and \<open>ab_nowrite\<close>.\<close>

definition ab_write_uchar :: "attr_buffer_s \<Rightarrow> u8 \<Rightarrow> attr_buffer_s option" where
  "ab_write_uchar ab v = (case ab_ops ab of
     AB_NOWRITE \<Rightarrow> Some (nowrite_uchar ab v) | AB_WRITE \<Rightarrow> write_uchar ab v | AB_READ \<Rightarrow> None)"

definition ab_write_uchars :: "attr_buffer_s \<Rightarrow> mem \<Rightarrow> u32 \<Rightarrow> attr_buffer_s option" where
  "ab_write_uchars ab bytes len = (case ab_ops ab of
     AB_NOWRITE \<Rightarrow> Some (nowrite_uchars ab bytes len)
   | AB_WRITE \<Rightarrow> write_uchars ab bytes len | AB_READ \<Rightarrow> None)"

definition ab_write_uint32 :: "attr_buffer_s \<Rightarrow> u32 \<Rightarrow> attr_buffer_s option" where
  "ab_write_uint32 ab v = (case ab_ops ab of
     AB_NOWRITE \<Rightarrow> Some (nowrite_uint32 ab v) | AB_WRITE \<Rightarrow> write_uint32 ab v | AB_READ \<Rightarrow> None)"

definition ab_write_uint64 :: "attr_buffer_s \<Rightarrow> u64 \<Rightarrow> attr_buffer_s option" where
  "ab_write_uint64 ab v = (case ab_ops ab of
     AB_NOWRITE \<Rightarrow> Some (nowrite_uint64 ab v) | AB_WRITE \<Rightarrow> write_uint64 ab v | AB_READ \<Rightarrow> None)"

definition ab_write_int64 :: "attr_buffer_s \<Rightarrow> u64 \<Rightarrow> attr_buffer_s option" where
  "ab_write_int64 ab v = (case ab_ops ab of
     AB_NOWRITE \<Rightarrow> Some (nowrite_int64 ab v) | AB_WRITE \<Rightarrow> write_int64 ab v | AB_READ \<Rightarrow> None)"

definition ab_write_uint16 :: "attr_buffer_s \<Rightarrow> u16 \<Rightarrow> attr_buffer_s option" where
  "ab_write_uint16 ab v = (case ab_ops ab of
     AB_NOWRITE \<Rightarrow> Some (nowrite_uint16 ab v) | AB_WRITE \<Rightarrow> write_uint16 ab v | AB_READ \<Rightarrow> None)"

definition ab_write_skip :: "attr_buffer_s \<Rightarrow> u32 \<Rightarrow> attr_buffer_s option" where
  "ab_write_skip ab len = (case ab_ops ab of
     AB_NOWRITE \<Rightarrow> Some (nowrite_skip ab len) | AB_WRITE \<Rightarrow> Some (write_skip ab len) | AB_READ \<Rightarrow> None)"

text \<open>\<open>write_string\<close> stands in both tables and calls through the table of its buffer.\<close>

definition write_string :: "attr_buffer_s \<Rightarrow> ssh_string_s \<Rightarrow> attr_buffer_s option" where
  "write_string ab s = do {
     ab \<leftarrow> ab_write_uint32 ab (ss_len s);
     ab_write_uchars ab (ss_src s) (ss_len s) }"

definition ab_write_string :: "attr_buffer_s \<Rightarrow> ssh_string_s \<Rightarrow> attr_buffer_s option" where
  "ab_write_string ab s = (case ab_ops ab of AB_READ \<Rightarrow> None | _ \<Rightarrow> write_string ab s)"

section \<open>Reading\<close>

definition ab_advance :: "attr_buffer_s \<Rightarrow> u32 \<Rightarrow> attr_buffer_s" where
  "ab_advance ab n = ab\<lparr>ab_pos := ab_pos ab + n, ab_left := ab_left ab - n\<rparr>"

definition read_uchar :: "attr_buffer_s \<Rightarrow> (u8 \<times> attr_buffer_s) option" where
  "read_uchar ab = do {
     buffer \<leftarrow> ab_buffer ab;
     one \<leftarrow> mem_load buffer (unat (ab_pos ab)) 1;
     Some (hd one, ab_advance ab 1) }"

definition read_uint16 :: "attr_buffer_s \<Rightarrow> (u16 \<times> attr_buffer_s) option" where
  "read_uint16 ab = do {
     buffer \<leftarrow> ab_buffer ab;
     two \<leftarrow> mem_load buffer (unat (ab_pos ab)) 2;
     Some (of_be16 two, ab_advance ab 2) }"

definition read_uint32 :: "attr_buffer_s \<Rightarrow> (u32 \<times> attr_buffer_s) option" where
  "read_uint32 ab = do {
     buffer \<leftarrow> ab_buffer ab;
     result \<leftarrow> get_uint32 buffer (unat (ab_pos ab));
     Some (result, ab_advance ab 4) }"

definition read_uint64 :: "attr_buffer_s \<Rightarrow> (u64 \<times> attr_buffer_s) option" where
  "read_uint64 ab = do {
     buffer \<leftarrow> ab_buffer ab;
     result \<leftarrow> get_uint64 buffer (unat (ab_pos ab));
     Some (result, ab_advance ab 8) }"

text \<open>
  A shift of an \<open>unsigned char\<close> happens on a 32 bit \<open>int\<close>: shifting by 32 or more, or into the sign, is undefined.
\<close>

definition int_shl :: "u8 \<Rightarrow> nat \<Rightarrow> u32 option" where
  "int_shl b n = (if n < 32 \<and> unat b * 2 ^ n < 2 ^ 31 then Some (push_bit n (ucast b)) else None)"

definition read_int64 :: "attr_buffer_s \<Rightarrow> (u64 \<times> attr_buffer_s) option" where
  "read_int64 ab = do {
     buffer \<leftarrow> ab_buffer ab;
     tmp \<leftarrow> mem_load buffer (unat (ab_pos ab)) 8;
     a0 \<leftarrow> int_shl (tmp ! 0) 56; a1 \<leftarrow> int_shl (tmp ! 1) 48;
     a2 \<leftarrow> int_shl (tmp ! 2) 40; a3 \<leftarrow> int_shl (tmp ! 3) 32;
     a4 \<leftarrow> int_shl (tmp ! 4) 24; a5 \<leftarrow> int_shl (tmp ! 5) 16;
     a6 \<leftarrow> int_shl (tmp ! 6) 8;
     let a = (scast (a0 OR a1 OR a2 OR a3) :: u64) OR ucast (a4 OR a5 OR a6 OR ucast (tmp ! 7));
     Some (convert_2c_int64 a, ab_advance ab 8) }"

text \<open>The calls \<open>(* ab->ops->rw.read.f)(ab)\<close>.\<close>

definition ab_read_uchar :: "attr_buffer_s \<Rightarrow> (u8 \<times> attr_buffer_s) option" where
  "ab_read_uchar ab = (if ab_ops ab = AB_READ then read_uchar ab else None)"

definition ab_read_uint16 :: "attr_buffer_s \<Rightarrow> (u16 \<times> attr_buffer_s) option" where
  "ab_read_uint16 ab = (if ab_ops ab = AB_READ then read_uint16 ab else None)"

definition ab_read_uint32 :: "attr_buffer_s \<Rightarrow> (u32 \<times> attr_buffer_s) option" where
  "ab_read_uint32 ab = (if ab_ops ab = AB_READ then read_uint32 ab else None)"

definition ab_read_uint64 :: "attr_buffer_s \<Rightarrow> (u64 \<times> attr_buffer_s) option" where
  "ab_read_uint64 ab = (if ab_ops ab = AB_READ then read_uint64 ab else None)"

definition ab_read_int64 :: "attr_buffer_s \<Rightarrow> (u64 \<times> attr_buffer_s) option" where
  "ab_read_int64 ab = (if ab_ops ab = AB_READ then read_int64 ab else None)"

text \<open>
  \<open>read_string\<close> with its callback: the number of bytes consumed, the string, the buffer and what
  the callback made of its argument. The comparison with \<open>left\<close> is unsigned.
\<close>

definition read_string ::
  "attr_buffer_s \<Rightarrow> ssh_string_s \<Rightarrow> (attr_buffer_s \<Rightarrow> ssh_string_s \<Rightarrow> 'p \<Rightarrow> (attr_buffer_s \<times> 'p) option) \<Rightarrow>
   'p \<Rightarrow> (u32 \<times> ssh_string_s \<times> attr_buffer_s \<times> 'p) option" where
  "read_string ab s cb p = do {
     buffer \<leftarrow> ab_buffer ab;
     (len, ab) \<leftarrow> ab_read_uint32 ab;
     let s = s\<lparr>ss_len := len\<rparr>;
     if len > 0 \<and> len \<le> ab_left ab then do {
       let s = s\<lparr>ss_ptr := POut (drop (unat (ab_pos ab)) buffer)\<rparr>;
       (ab, p) \<leftarrow> cb (ab_advance ab len) s p;
       Some (len + 4, s, ab, p) }
     else Some (4, s, ab, p) }"

definition ab_read_string ::
  "attr_buffer_s \<Rightarrow> ssh_string_s \<Rightarrow> (attr_buffer_s \<Rightarrow> ssh_string_s \<Rightarrow> 'p \<Rightarrow> (attr_buffer_s \<times> 'p) option) \<Rightarrow>
   'p \<Rightarrow> (u32 \<times> ssh_string_s \<times> attr_buffer_s \<times> 'p) option" where
  "ab_read_string ab s cb p = (if ab_ops ab = AB_READ then read_string ab s cb p else None)"

section \<open>Sequences of writes\<close>

text \<open>
  A message is built by a sequence of writer calls. Each call has a length and, given the bytes
  that are in the buffer already at its place, the bytes it leaves there.
\<close>

datatype ab_item =
    I_uchar u8 | I_uchars mem u32 | I_uint16 u16 | I_uint32 u32 | I_uint64 u64 | I_int64 u64
  | I_string ssh_string_s | I_skip u32

fun ab_put :: "attr_buffer_s \<Rightarrow> ab_item \<Rightarrow> attr_buffer_s option" where
  "ab_put ab (I_uchar v) = ab_write_uchar ab v"
| "ab_put ab (I_uchars m n) = ab_write_uchars ab m n"
| "ab_put ab (I_uint16 v) = ab_write_uint16 ab v"
| "ab_put ab (I_uint32 v) = ab_write_uint32 ab v"
| "ab_put ab (I_uint64 v) = ab_write_uint64 ab v"
| "ab_put ab (I_int64 v) = ab_write_int64 ab v"
| "ab_put ab (I_string s) = ab_write_string ab s"
| "ab_put ab (I_skip n) = ab_write_skip ab n"

primrec ab_puts :: "attr_buffer_s \<Rightarrow> ab_item list \<Rightarrow> attr_buffer_s option" where
  "ab_puts ab [] = Some ab"
| "ab_puts ab (i # is) = Option.bind (ab_put ab i) (\<lambda>ab. ab_puts ab is)"

fun item_len :: "ab_item \<Rightarrow> nat" where
  "item_len (I_uchar v) = 1"
| "item_len (I_uchars m n) = unat n"
| "item_len (I_uint16 v) = 2"
| "item_len (I_uint32 v) = 4"
| "item_len (I_uint64 v) = 8"
| "item_len (I_int64 v) = 8"
| "item_len (I_string s) = 4 + unat (ss_len s)"
| "item_len (I_skip n) = unat n"

fun item_ok :: "ab_item \<Rightarrow> bool" where
  "item_ok (I_uchars m n) \<longleftrightarrow> unat n \<le> length m"
| "item_ok (I_int64 v) \<longleftrightarrow> v \<noteq> 0x8000000000000000"
| "item_ok (I_string s) \<longleftrightarrow> unat (ss_len s) \<le> length (ss_src s)"
| "item_ok _ \<longleftrightarrow> True"

fun item_bytes :: "ab_item \<Rightarrow> u8 list \<Rightarrow> u8 list" where
  "item_bytes (I_uchar v) old = [v]"
| "item_bytes (I_uchars m n) old = take (unat n) m"
| "item_bytes (I_uint16 v) old = be16 v"
| "item_bytes (I_uint32 v) old = be32 v"
| "item_bytes (I_uint64 v) old = be64 v"
| "item_bytes (I_int64 v) old = be64 v"
| "item_bytes (I_string s) old = enc_string (take (unat (ss_len s)) (ss_src s))"
| "item_bytes (I_skip n) old = take (unat n) old"

definition items_len :: "ab_item list \<Rightarrow> nat" where
  "items_len is = sum_list (map item_len is)"

primrec items_bytes :: "ab_item list \<Rightarrow> u8 list \<Rightarrow> u8 list" where
  "items_bytes [] old = []"
| "items_bytes (i # is) old = item_bytes i old @ items_bytes is (drop (item_len i) old)"

lemma items_len_simps [simp]:
  "items_len [] = 0" "items_len (i # is) = item_len i + items_len is"
  by (simp_all add: items_len_def)

lemma length_item_bytes:
  "item_ok i \<Longrightarrow> item_len i \<le> length old \<Longrightarrow> length (item_bytes i old) = item_len i"
  by (cases i) auto

lemma length_items_bytes:
  "list_all item_ok is \<Longrightarrow> items_len is \<le> length old \<Longrightarrow> length (items_bytes is old) = items_len is"
  by (induction "is" arbitrary: old) (auto simp: length_item_bytes)

section \<open>The conversions are the identity on bit patterns\<close>

lemma word_not_minus: "NOT (- v) + 1 = (v :: 'a :: len word)"
  by (simp add: not_eq_complement)

lemma word_minus_not: "- (NOT (v - 1)) = (v :: 'a :: len word)"
  by (simp add: not_eq_complement)

lemma convert_2c [simp]:
  "v \<noteq> 0x80000000 \<Longrightarrow> convert_int32_2c v = Some v" "convert_2c_int32 v = v"
  "w \<noteq> 0x8000000000000000 \<Longrightarrow> convert_int64_2c w = Some w" "convert_2c_int64 w = w"
  by (simp_all add: convert_int32_2c_def convert_2c_int32_def convert_int64_2c_def
      convert_2c_int64_def word_not_minus word_minus_not)

section \<open>Effect of a write\<close>

lemmas ab_write_defs =
  write_uchar_def write_uchars_def write_uint16_def write_uint32_def write_uint64_def
  write_int64_def write_skip_def

lemmas ab_nowrite_defs =
  nowrite_uchar_def nowrite_uchars_def nowrite_uint16_def nowrite_uint32_def nowrite_uint64_def
  nowrite_int64_def nowrite_skip_def

lemmas ab_dispatch_defs =
  ab_write_uchar_def ab_write_uchars_def ab_write_uint16_def ab_write_uint32_def
  ab_write_uint64_def ab_write_int64_def ab_write_skip_def ab_write_string_def write_string_def

lemma ab_put_nowrite:
  "ab_ops ab = AB_NOWRITE \<Longrightarrow> ab_put ab i = Some (ab\<lparr>ab_pos := ab_pos ab + of_nat (item_len i)\<rparr>)"
  by (cases i) (simp_all add: ab_dispatch_defs ab_nowrite_defs add.assoc)

lemma ab_puts_nowrite:
  "ab_ops ab = AB_NOWRITE \<Longrightarrow>
     ab_puts ab is = Some (ab\<lparr>ab_pos := ab_pos ab + of_nat (items_len is)\<rparr>)"
  by (induction "is" arbitrary: ab) (simp_all add: ab_put_nowrite add.assoc)

definition ab_wrote :: "attr_buffer_s \<Rightarrow> mem \<Rightarrow> u8 list \<Rightarrow> attr_buffer_s" where
  "ab_wrote ab b bs =
     ab\<lparr>ab_buffer := Some (take (unat (ab_pos ab)) b @ bs @ drop (unat (ab_pos ab) + length bs) b),
        ab_pos := ab_pos ab + of_nat (length bs), ab_left := ab_left ab - of_nat (length bs)\<rparr>"

lemma copy_buffer_data_wrote:
  assumes "ab_buffer ab = Some b" and "unat n \<le> length m" and "unat (ab_pos ab) + unat n \<le> length b"
  shows "copy_buffer_data ab m n = Some (ab_wrote ab b (take (unat n) m))"
  using assms by (simp add: copy_buffer_data_def mem_load_def mem_store_def ab_wrote_def min_absorb1)

lemma ab_wrote_fields [simp]:
  "ab_ops (ab_wrote ab b bs) = ab_ops ab"
  "ab_pos (ab_wrote ab b bs) = ab_pos ab + of_nat (length bs)"
  "ab_left (ab_wrote ab b bs) = ab_left ab - of_nat (length bs)"
  "ab_len (ab_wrote ab b bs) = ab_len ab"
  "ab_buffer (ab_wrote ab b bs) =
     Some (take (unat (ab_pos ab)) b @ bs @ drop (unat (ab_pos ab) + length bs) b)"
  by (simp_all add: ab_wrote_def)

lemma ab_wrote_append:
  assumes "unat (ab_pos ab) + length bs \<le> length b" and "length b < 4294967296"
    and "ab_buffer (ab_wrote ab b bs) = Some b'"
  shows "ab_wrote (ab_wrote ab b bs) b' cs = ab_wrote ab b (bs @ cs)"
proof -
  have u: "unat (ab_pos ab + of_nat (length bs)) = unat (ab_pos ab) + length bs"
    using assms(1,2) by (simp add: unat_u32_plus unat_of_nat_u32)
  show ?thesis
    using assms by (auto simp: ab_wrote_def u min_absorb1 min_absorb2 ac_simps diff_diff_eq)
qed

lemma ab_write_string_wrote:
  assumes "ab_ops ab = AB_WRITE" and b: "ab_buffer ab = Some b" and "length b < 4294967296"
    and "unat (ss_len s) \<le> length (ss_src s)"
    and "unat (ab_pos ab) + (4 + unat (ss_len s)) \<le> length b"
  shows "ab_write_string ab s = Some (ab_wrote ab b (enc_string (take (unat (ss_len s)) (ss_src s))))"
proof -
  let ?ab = "ab_wrote ab b (be32 (ss_len s))" and ?bs = "take (unat (ss_len s)) (ss_src s)"
  obtain b' where b': "ab_buffer ?ab = Some b'" "length b' = length b"
    using assms(5) by simp
  have "ab_write_uint32 ab (ss_len s) = Some ?ab"
    using assms by (simp add: ab_write_uint32_def write_uint32_def copy_buffer_data_wrote)
  moreover have "ab_write_uchars ?ab (ss_src s) (ss_len s) = Some (ab_wrote ?ab b' ?bs)"
    using assms b' by (simp add: ab_write_uchars_def write_uchars_def copy_buffer_data_wrote unat_u32_plus)
  moreover have "ab_wrote ?ab b' ?bs = ab_wrote ab b (be32 (ss_len s) @ ?bs)"
    using assms b' by (intro ab_wrote_append) simp_all
  ultimately show ?thesis
    using assms by (simp add: ab_write_string_def write_string_def enc_string_def)
qed

lemma ab_put_write:
  assumes "ab_ops ab = AB_WRITE" and "ab_buffer ab = Some b" and "length b < 4294967296"
    and "item_ok i" and "unat (ab_pos ab) + item_len i \<le> length b"
  shows "ab_put ab i = Some (ab_wrote ab b (item_bytes i (drop (unat (ab_pos ab)) b)))"
proof (cases i)
  case (I_string s)
  then show ?thesis using assms by (simp add: ab_write_string_wrote)
next
  case (I_skip n)
  have "take (unat (ab_pos ab)) b @ take (unat n) (drop (unat (ab_pos ab)) b) @
        drop (unat (ab_pos ab) + unat n) b = b"
    by (metis append_take_drop_id drop_drop add.commute)
  then show ?thesis using assms I_skip
    by (simp add: ab_write_skip_def write_skip_def ab_wrote_def min_absorb2)
qed (use assms in \<open>simp_all add: ab_dispatch_defs ab_write_defs copy_buffer_data_wrote\<close>)

lemma ab_puts_write:
  assumes "ab_ops ab = AB_WRITE" and "ab_buffer ab = Some b" and "length b < 4294967296"
    and "list_all item_ok is" and "unat (ab_pos ab) + items_len is \<le> length b"
  shows "ab_puts ab is = Some (ab_wrote ab b (items_bytes is (drop (unat (ab_pos ab)) b)))"
  using assms
proof (induction "is" arbitrary: ab b)
  case Nil
  then show ?case by (simp add: ab_wrote_def)
next
  case (Cons i "is")
  let ?bs = "item_bytes i (drop (unat (ab_pos ab)) b)"
  let ?ab = "ab_wrote ab b ?bs"
  have len: "length ?bs = item_len i" using Cons.prems by (simp add: length_item_bytes)
  obtain b' where b': "ab_buffer ?ab = Some b'" by simp
  have lb: "length b' = length b" using b' Cons.prems len by auto
  have pos: "unat (ab_pos ?ab) = unat (ab_pos ab) + item_len i"
    using Cons.prems len by (simp add: unat_u32_plus unat_of_nat_u32)
  have rest: "drop (unat (ab_pos ab) + item_len i) b' = drop (item_len i) (drop (unat (ab_pos ab)) b)"
    using b' Cons.prems len by (auto simp: ac_simps min_absorb2)
  have "ab_puts ?ab is = Some (ab_wrote ?ab b' (items_bytes is (drop (unat (ab_pos ?ab)) b')))"
    by (rule Cons.IH) (use Cons.prems b' lb pos in simp_all)
  also have "\<dots> = Some (ab_wrote ab b (?bs @ items_bytes is (drop (unat (ab_pos ?ab)) b')))"
    using Cons.prems b' len by (subst ab_wrote_append) simp_all
  finally show ?case
    using Cons.prems rest pos by (simp add: ab_put_write)
qed

section \<open>Properties\<close>

text \<open>
  C20: the counting pass sizes the writing pass exactly. Whatever sequence of writer calls, on memory that is there and
  without the least signed integer, which the writer negates,
  builds a message, running it on the counting table leaves in \<open>pos\<close> the number of bytes the
  writing table produces; a buffer of exactly that many bytes takes all of them, with no fault, is
  filled to its last byte, and ends with \<open>left = 0\<close>.
\<close>

theorem nowrite_sizes_write:
  assumes "list_all item_ok is" and "items_len is < 4294967296"
    and "ab_puts init_nowrite_attr_buffer is = Some ab0"
    and "length buffer = unat (ab_pos ab0)"
  shows "\<exists>ab1. ab_puts (set_attr_buffer_write ab buffer (ab_pos ab0)) is = Some ab1 \<and>
           ab_buffer ab1 = Some (items_bytes is buffer) \<and>
           length (items_bytes is buffer) = length buffer \<and>
           ab_pos ab1 = ab_pos ab0 \<and> ab_left ab1 = 0"
proof -
  have pos: "ab_pos ab0 = of_nat (items_len is)"
    using assms(3) by (auto simp: init_nowrite_attr_buffer_def ab_puts_nowrite)
  then have u: "length buffer = items_len is" using assms(2,4) by (simp add: unat_of_nat_u32)
  have l: "length (items_bytes is buffer) = items_len is"
    using assms(1) u by (simp add: length_items_bytes)
  show ?thesis
    using assms(1,2) u l pos
    by (simp add: ab_puts_write [where b = buffer] set_attr_buffer_write_def)
qed

theorem nowrite_sizes_write_witness:
  "\<exists>ab1. ab_puts (set_attr_buffer_write init_nowrite_attr_buffer [9, 9, 9, 9, 9, 9, 9] 7)
           [I_uchar 1, I_uint32 2, I_skip 2] = Some ab1 \<and>
         ab_buffer ab1 = Some [1, 0, 0, 0, 2, 9, 9]"
proof -
  have "ab_puts init_nowrite_attr_buffer [I_uchar 1, I_uint32 2, I_skip 2] =
      Some (init_nowrite_attr_buffer\<lparr>ab_pos := 7\<rparr>)"
    by (simp add: ab_dispatch_defs ab_nowrite_defs init_nowrite_attr_buffer_def)
  then show ?thesis
    using nowrite_sizes_write [of "[I_uchar 1, I_uint32 2, I_skip 2]"
        "init_nowrite_attr_buffer\<lparr>ab_pos := 7\<rparr>" "[9, 9, 9, 9, 9, 9, 9]" init_nowrite_attr_buffer]
    by (auto simp: be32_def)
qed

section \<open>Reading back\<close>

text \<open>
  A reader takes the kind of the next field. A string is handed to the callback; here the callback
  leaves everything alone and the bytes are taken from the string afterwards.
\<close>

datatype ab_kind = K_uchar | K_uint16 | K_uint32 | K_uint64 | K_int64 | K_string

datatype ab_value = V_uchar u8 | V_uint16 u16 | V_uint32 u32 | V_uint64 u64 | V_int64 u64 | V_string "u8 list"

definition ab_string_bytes :: "ssh_string_s \<Rightarrow> u8 list option" where
  "ab_string_bytes s = (if ss_len s = 0 then Some [] else ss_bytes s)"

fun ab_get :: "attr_buffer_s \<Rightarrow> ab_kind \<Rightarrow> (ab_value \<times> attr_buffer_s) option" where
  "ab_get ab K_uchar = do { (v, ab) \<leftarrow> ab_read_uchar ab; Some (V_uchar v, ab) }"
| "ab_get ab K_uint16 = do { (v, ab) \<leftarrow> ab_read_uint16 ab; Some (V_uint16 v, ab) }"
| "ab_get ab K_uint32 = do { (v, ab) \<leftarrow> ab_read_uint32 ab; Some (V_uint32 v, ab) }"
| "ab_get ab K_uint64 = do { (v, ab) \<leftarrow> ab_read_uint64 ab; Some (V_uint64 v, ab) }"
| "ab_get ab K_int64 = do { (v, ab) \<leftarrow> ab_read_int64 ab; Some (V_int64 v, ab) }"
| "ab_get ab K_string = do {
     (n, s, ab, p) \<leftarrow> ab_read_string ab SSH_STRING_INIT (\<lambda>ab s p. Some (ab, p)) ();
     bs \<leftarrow> ab_string_bytes s;
     Some (V_string bs, ab) }"

primrec ab_gets :: "attr_buffer_s \<Rightarrow> ab_kind list \<Rightarrow> (ab_value list \<times> attr_buffer_s) option" where
  "ab_gets ab [] = Some ([], ab)"
| "ab_gets ab (k # ks) = do {
     (v, ab) \<leftarrow> ab_get ab k; (vs, ab) \<leftarrow> ab_gets ab ks; Some (v # vs, ab) }"

fun item_of_value :: "ab_value \<Rightarrow> ab_item" where
  "item_of_value (V_uchar v) = I_uchar v"
| "item_of_value (V_uint16 v) = I_uint16 v"
| "item_of_value (V_uint32 v) = I_uint32 v"
| "item_of_value (V_uint64 v) = I_uint64 v"
| "item_of_value (V_int64 v) = I_int64 v"
| "item_of_value (V_string bs) =
     I_string (SSH_STRING_INIT\<lparr>ss_len := of_nat (length bs), ss_ptr := POut bs\<rparr>)"

fun kind_of :: "ab_value \<Rightarrow> ab_kind" where
  "kind_of (V_uchar v) = K_uchar"
| "kind_of (V_uint16 v) = K_uint16"
| "kind_of (V_uint32 v) = K_uint32"
| "kind_of (V_uint64 v) = K_uint64"
| "kind_of (V_int64 v) = K_int64"
| "kind_of (V_string bs) = K_string"

fun value_bytes :: "ab_value \<Rightarrow> u8 list" where
  "value_bytes (V_uchar v) = [v]"
| "value_bytes (V_uint16 v) = be16 v"
| "value_bytes (V_uint32 v) = be32 v"
| "value_bytes (V_uint64 v) = be64 v"
| "value_bytes (V_int64 v) = be64 v"
| "value_bytes (V_string bs) = enc_string bs"

definition values_bytes :: "ab_value list \<Rightarrow> u8 list" where
  "values_bytes vs = concat (map value_bytes vs)"

lemma values_bytes_simps [simp]:
  "values_bytes [] = []" "values_bytes (v # vs) = value_bytes v @ values_bytes vs"
  by (simp_all add: values_bytes_def)

text \<open>Of signed 64 bit integers there is no round trip: their reader is undefined whatever the message holds.\<close>

lemma read_int64_undefined: "read_int64 ab = None"
  by (simp add: read_int64_def int_shl_def split: Option.bind_splits)

lemma item_of_value_bytes:
  assumes "length (value_bytes v) < 4294967296" and "kind_of v \<noteq> K_int64"
  shows "item_ok (item_of_value v)" "item_len (item_of_value v) = length (value_bytes v)"
    "item_bytes (item_of_value v) old = value_bytes v"
  using assms
  by (cases v; simp add: ss_src_def ss_target_def unat_of_nat_u32)+

lemma items_of_values_bytes:
  assumes "length (values_bytes vs) < 4294967296" and "K_int64 \<notin> kind_of ` set vs"
  shows "list_all item_ok (map item_of_value vs) \<and>
         items_len (map item_of_value vs) = length (values_bytes vs) \<and>
         items_bytes (map item_of_value vs) old = values_bytes vs"
  using assms by (induction vs arbitrary: old) (auto simp: item_of_value_bytes)

lemma ab_read_string_at:
  assumes "ab_ops ab = AB_READ" and "ab_buffer ab = Some b" and "length bs + 4 < 4294967296"
    and "mem_load b (unat (ab_pos ab)) (4 + length bs) = Some (enc_string bs)"
    and "4 + length bs \<le> unat (ab_left ab)" and "unat (ab_pos ab) + 4 < 4294967296"
  shows "\<exists>s. ab_read_string ab SSH_STRING_INIT (\<lambda>ab s p. Some (ab, p)) () =
               Some (of_nat (4 + length bs), s, ab_advance ab (of_nat (4 + length bs)), ()) \<and>
             ab_string_bytes s = Some bs"
proof -
  have g: "get_uint32 b (unat (ab_pos ab)) = Some (of_nat (length bs))"
    using get_uint32_enc_string assms(4) by blast
  have d: "mem_load b (unat (ab_pos ab) + 4) (length bs) = Some bs"
    using assms(4) mem_load_split [of b "unat (ab_pos ab)" "be32 (of_nat (length bs))" bs]
    by (simp add: enc_string_def)
  have u: "unat (of_nat (length bs) :: u32) = length bs" "unat (ab_pos ab + 4) = unat (ab_pos ab) + 4"
    "unat (ab_left ab - 4) = unat (ab_left ab) - 4"
    using assms(3,5,6) by (simp_all add: unat_of_nat_u32 unat_u32_plus unat_u32_minus u32_le_unat)
  have le: "(of_nat (length bs) :: u32) \<le> ab_left ab - 4"
    using assms(5) u by (simp add: u32_le_unat)
  show ?thesis
  proof (cases bs)
    case Nil
    then show ?thesis using assms(1,2) g
      by (simp add: ab_read_string_def read_string_def ab_read_uint32_def read_uint32_def
          ab_string_bytes_def)
  next
    case (Cons x xs)
    then have pos: "(of_nat (length bs) :: u32) > 0"
      using u(1) by (simp add: u32_less_unat)
    then have nz: "(of_nat (length bs) :: u32) \<noteq> 0" by auto
    show ?thesis using assms(1,2) g u le pos nz d
      by (auto simp: ab_read_string_def read_string_def ab_read_uint32_def read_uint32_def
          ab_string_bytes_def ab_advance_def ss_bytes_def ss_target_def mem_load_def add.commute
          diff_diff_eq split: if_splits)
  qed
qed

lemma ab_get_at:
  assumes "ab_ops ab = AB_READ" and "ab_buffer ab = Some b"
    and "unat (ab_pos ab) + length (value_bytes v) < 4294967296"
    and "mem_load b (unat (ab_pos ab)) (length (value_bytes v)) = Some (value_bytes v)"
    and "length (value_bytes v) \<le> unat (ab_left ab)"
    and "kind_of v \<noteq> K_int64"
  shows "ab_get ab (kind_of v) = Some (v, ab_advance ab (of_nat (length (value_bytes v))))"
proof (cases v)
  case (V_string bs)
  then show ?thesis
    using assms ab_read_string_at [of ab b bs] by auto
qed (use assms in \<open>simp_all add: ab_read_uchar_def ab_read_uint16_def ab_read_uint32_def
      ab_read_uint64_def read_uchar_def read_uint16_def read_uint32_def read_uint64_def
      get_uint32_def get_uint64_def\<close>)

lemma ab_gets_at:
  assumes "ab_ops ab = AB_READ" and "ab_buffer ab = Some b"
    and "unat (ab_pos ab) + length (values_bytes vs) < 4294967296"
    and "mem_load b (unat (ab_pos ab)) (length (values_bytes vs)) = Some (values_bytes vs)"
    and "length (values_bytes vs) \<le> unat (ab_left ab)"
    and "K_int64 \<notin> kind_of ` set vs"
  shows "ab_gets ab (map kind_of vs) = Some (vs, ab_advance ab (of_nat (length (values_bytes vs))))"
  using assms
proof (induction vs arbitrary: ab)
  case Nil
  then show ?case by (simp add: ab_advance_def)
next
  case (Cons v vs)
  let ?n = "length (value_bytes v)" and ?m = "length (values_bytes vs)"
  let ?ab = "ab_advance ab (of_nat ?n)"
  have l: "mem_load b (unat (ab_pos ab)) ?n = Some (value_bytes v)"
    "mem_load b (unat (ab_pos ab) + ?n) ?m = Some (values_bytes vs)"
    using Cons.prems(4) mem_load_split [of b "unat (ab_pos ab)" "value_bytes v" "values_bytes vs"]
    by simp_all
  have u: "unat (ab_pos ?ab) = unat (ab_pos ab) + ?n" "unat (ab_left ?ab) = unat (ab_left ab) - ?n"
    using Cons.prems(3,5)
    by (simp_all add: ab_advance_def unat_u32_plus unat_u32_minus unat_of_nat_u32 u32_le_unat)
  have f: "ab_ops ?ab = AB_READ" "ab_buffer ?ab = Some b"
    using Cons.prems by (simp_all add: ab_advance_def)
  have hd: "ab_get ab (kind_of v) = Some (v, ?ab)"
    by (rule ab_get_at) (use Cons.prems l in auto)
  have tl: "ab_gets ?ab (map kind_of vs) = Some (vs, ab_advance ?ab (of_nat ?m))"
    by (rule Cons.IH) (use Cons.prems f u l in simp_all)
  have "ab_advance ?ab (of_nat ?m) = ab_advance ab (of_nat (?n + ?m))"
    by (simp add: ab_advance_def add.assoc diff_diff_eq)
  with hd tl show ?case by simp
qed

text \<open>
  C23: a sequence of bytes, unsigned integers of 16, 32 and 64 bits and strings written through the writing table is read back by the same
  sequence of readers, which consumes exactly the bytes written. Signed 64 bit integers, the one other kind in the tables, are left out: they
  are written, but their reader has no defined result.
\<close>

theorem attr_buffer_round_trip:
  assumes "K_int64 \<notin> kind_of ` set vs" and "length (values_bytes vs) < 4294967296"
    and "length buffer = length (values_bytes vs)"
  shows "\<exists>ab1 b1 ab2.
     ab_puts (set_attr_buffer_write ab buffer (of_nat (length buffer))) (map item_of_value vs) = Some ab1 \<and>
     ab_buffer ab1 = Some b1 \<and>
     ab_gets (set_attr_buffer_read ab' b1 (of_nat (length buffer))) (map kind_of vs) = Some (vs, ab2) \<and>
     ab_left ab2 = 0 \<and> ab_pos ab2 = of_nat (length buffer)"
proof -
  have "ab_puts (set_attr_buffer_write ab buffer (of_nat (length buffer))) (map item_of_value vs) =
      Some (ab_wrote (set_attr_buffer_write ab buffer (of_nat (length buffer))) buffer (values_bytes vs))"
    using assms items_of_values_bytes [OF assms(2,1), of buffer]
    by (subst ab_puts_write [where b = buffer]) (simp_all add: set_attr_buffer_write_def)
  moreover have "ab_gets (set_attr_buffer_read ab' (values_bytes vs) (of_nat (length buffer))) (map kind_of vs) =
      Some (vs, ab_advance (set_attr_buffer_read ab' (values_bytes vs) (of_nat (length buffer)))
                  (of_nat (length buffer)))"
    using assms
    by (subst ab_gets_at [where b = "values_bytes vs"])
      (simp_all add: set_attr_buffer_read_def unat_of_nat_u32 mem_load_def)
  ultimately show ?thesis
    using assms by (simp add: set_attr_buffer_write_def set_attr_buffer_read_def ab_advance_def)
qed

theorem attr_buffer_round_trip_witness:
  "\<exists>b1 ab2. ab_gets (set_attr_buffer_read init_read_attr_buffer b1 11) [K_uint32, K_string] =
              Some ([V_uint32 5, V_string [1, 2, 3]], ab2)"
  using attr_buffer_round_trip [of "[V_uint32 5, V_string [1, 2, 3]]" "replicate 11 0"
      init_nowrite_attr_buffer init_read_attr_buffer]
  by (auto simp del: ab_gets.simps)

text \<open>
  C25: a string that \<open>read_string\<close> accepts lies within the declared message, as long as
  the cursor does: with \<open>pos + left = len\<close> and at least four bytes left, the string handed to the
  callback is the \<open>len\<close> bytes after its length field, and the cursor it is called with is
  again within the message.
\<close>

theorem read_string_bounds:
  assumes "ab_buffer ab = Some b" and "ab_ops ab = AB_READ"
    and "unat (ab_pos ab) + unat (ab_left ab) = unat (ab_len ab)" and "unat (ab_len ab) \<le> length b"
    and "4 \<le> unat (ab_left ab)"
    and "read_string ab s (\<lambda>ab s p. Some (ab, p)) p = Some (n, s', ab', p')" and "n \<noteq> 4"
  shows "unat n = 4 + unat (ss_len s') \<and>
         ss_ptr s' = POut (drop (unat (ab_pos ab) + 4) b) \<and>
         unat (ab_pos ab) + unat n \<le> unat (ab_len ab) \<and>
         unat (ab_pos ab') + unat (ab_left ab') = unat (ab_len ab') \<and> ab_len ab' = ab_len ab"
proof -
  have lt: "unat (ab_len ab) < 4294967296" by (rule unat_lt_u32)
  have u: "unat (ab_pos ab + 4) = unat (ab_pos ab) + 4" "unat (ab_left ab - 4) = unat (ab_left ab) - 4"
    using assms(3,5) lt by (simp_all add: unat_u32_plus unat_u32_minus u32_le_unat)
  obtain len where len: "len > 0" "len \<le> ab_left ab - 4" "n = len + 4" "ss_len s' = len"
    "ss_ptr s' = POut (drop (unat (ab_pos ab + 4)) b)" "ab' = ab_advance (ab_advance ab 4) len"
    using assms(1,2,6,7)
    by (auto simp: read_string_def ab_read_uint32_def read_uint32_def bind_eq_Some_conv Let_def
        ab_advance_def split: if_splits)
  have le: "unat len \<le> unat (ab_left ab) - 4" using len(2) u by (simp add: u32_le_unat)
  have n: "unat (len + 4) = unat len + 4" using le assms(3,5) lt by (simp add: unat_u32_plus)
  have p: "unat (ab_pos ab + 4 + len) = unat (ab_pos ab) + 4 + unat len"
    using le assms(3,5) lt u by (simp add: unat_u32_plus)
  have l: "unat (ab_left ab - 4 - len) = unat (ab_left ab) - 4 - unat len"
    using len(2) u by (simp add: unat_u32_minus)
  from len le n u p l assms(3,5) show ?thesis
    by (simp add: ab_advance_def)
qed

theorem read_string_bounds_witness:
  "\<exists>s' ab'. read_string (set_attr_buffer_read init_read_attr_buffer [0, 0, 0, 1, 65] 5) SSH_STRING_INIT
      (\<lambda>ab s p. Some (ab, p)) () = Some (5, s', ab', ()) \<and>
    unat (ab_pos ab') + unat (ab_left ab') = 5"
proof -
  let ?ab = "set_attr_buffer_read init_read_attr_buffer [0, 0, 0, 1, 65] 5"
  obtain s' ab' where r: "read_string ?ab SSH_STRING_INIT (\<lambda>ab s p. Some (ab, p)) () = Some (5, s', ab', ())"
    by (simp add: read_string_def set_attr_buffer_read_def ab_read_uint32_def read_uint32_def
        get_uint32_def mem_load_def of_be32_def ab_advance_def)
  show ?thesis
    using read_string_bounds [OF _ _ _ _ _ r] r
    by (auto simp: set_attr_buffer_read_def)
qed

text \<open>
  The readers of fixed fields do not look at \<open>left\<close>. Past the declared end it wraps, and the
  check of \<open>read_string\<close> then accepts a string that is not in the message.
\<close>

lemma read_past_end_accepts_string:
  "\<exists>v ab s ab'. ab_read_uint32 (set_attr_buffer_read init_read_attr_buffer
        [0, 0, 0, 1, 0, 0, 255, 255, 65] 3) = Some (v, ab) \<and> ab_left ab = - 1 \<and>
     read_string ab SSH_STRING_INIT (\<lambda>ab s p. Some (ab, p)) () = Some (0x10003, s, ab', ()) \<and>
     ss_bytes s = None"
  by (simp add: read_string_def set_attr_buffer_read_def ab_read_uint32_def read_uint32_def
        get_uint32_def mem_load_def of_be32_def ab_advance_def ss_bytes_def ss_target_def)

end
