(* ===== verification/System_Time.thy ===== *)
theory System_Time
  imports Prelude
begin

text \<open>
  Points and spans of time, \<open>src/lib/system/time.c\<close>: seconds in a signed 64 bit integer and
  nanoseconds in an unsigned 32 bit one. The seconds are integers whose overflow, undefined in C, is
  \<open>None\<close>; the nanoseconds wrap. The clock is an argument.

  The theorems relate the operations to the number of nanoseconds a value stands for.
\<close>

section \<open>Definitions\<close>

record system_timespec_s =
  st_sec :: int
  st_nsec :: u32

definition SYSTEM_TIME_NSEC_MAX :: u32 where "SYSTEM_TIME_NSEC_MAX = 1000000000"

definition SYSTEM_TIME_INIT :: system_timespec_s where
  "SYSTEM_TIME_INIT = \<lparr>st_sec = 0, st_nsec = 0\<rparr>"

definition int64 :: "int \<Rightarrow> int option" where
  "int64 x = (if - (2 ^ 63) \<le> x \<and> x < 2 ^ 63 then Some x else None)"

definition get_current_time_system_time :: "system_timespec_s \<Rightarrow> system_timespec_s" where
  "get_current_time_system_time clock = \<lparr>st_sec = st_sec clock, st_nsec = st_nsec clock\<rparr>"

definition system_time_add_time :: "system_timespec_s \<Rightarrow> system_timespec_s \<Rightarrow> system_timespec_s option" where
  "system_time_add_time expire plus_t = do {
     sec \<leftarrow> int64 (st_sec expire + st_sec plus_t);
     let nsec = st_nsec expire + st_nsec plus_t;
     if nsec > SYSTEM_TIME_NSEC_MAX then do {
       sec \<leftarrow> int64 (sec + 1);
       Some \<lparr>st_sec = sec, st_nsec = nsec - SYSTEM_TIME_NSEC_MAX\<rparr> }
     else Some \<lparr>st_sec = sec, st_nsec = nsec\<rparr> }"

definition system_time_substract_time :: "system_timespec_s \<Rightarrow> system_timespec_s \<Rightarrow> system_timespec_s option" where
  "system_time_substract_time expire minus_t = do {
     sec \<leftarrow> int64 (st_sec expire - st_sec minus_t);
     if st_nsec expire < st_nsec minus_t then do {
       sec \<leftarrow> int64 (sec - 1);
       Some \<lparr>st_sec = sec, st_nsec = st_nsec expire + (SYSTEM_TIME_NSEC_MAX - st_nsec minus_t)\<rparr> }
     else Some \<lparr>st_sec = sec, st_nsec = st_nsec expire - st_nsec minus_t\<rparr> }"

definition set_expire_time_system_time :: "system_timespec_s \<Rightarrow> system_timespec_s \<Rightarrow> system_timespec_s option" where
  "set_expire_time_system_time clock timeout =
     system_time_add_time (get_current_time_system_time clock) timeout"

definition get_expired_time_system_time :: "system_timespec_s \<Rightarrow> system_timespec_s \<Rightarrow> system_timespec_s option" where
  "get_expired_time_system_time clock time = do {
     let tmp = get_current_time_system_time clock;
     sec \<leftarrow> int64 (st_sec tmp - st_sec time);
     if st_nsec time \<le> st_nsec tmp then Some \<lparr>st_sec = sec, st_nsec = st_nsec tmp - st_nsec time\<rparr>
     else do {
       sec \<leftarrow> int64 (sec - 1);
       Some \<lparr>st_sec = sec, st_nsec = st_nsec time - st_nsec tmp\<rparr> } }"

definition copy_system_time :: "system_timespec_s \<Rightarrow> system_timespec_s" where
  "copy_system_time from_t = from_t"

definition correct_nsec_check_bound :: "system_timespec_s \<Rightarrow> u32 \<Rightarrow> u32 \<Rightarrow> system_timespec_s option" where
  "correct_nsec_check_bound time base count = do {
     let total = st_nsec time + base * count;
     sec \<leftarrow> int64 (st_sec time + uint (total div SYSTEM_TIME_NSEC_MAX));
     Some \<lparr>st_sec = sec, st_nsec = st_nsec time + total mod SYSTEM_TIME_NSEC_MAX\<rparr> }"

text \<open>The factors are \<open>int\<close> constants: the products with the 32 bit count wrap before they are added.\<close>

definition add_seconds :: "system_timespec_s \<Rightarrow> u32 \<Rightarrow> system_timespec_s option" where
  "add_seconds time n = map_option (\<lambda>s. time\<lparr>st_sec := s\<rparr>) (int64 (st_sec time + uint n))"

definition system_time_add :: "system_timespec_s \<Rightarrow> nat \<Rightarrow> u32 \<Rightarrow> system_timespec_s option" where
  "system_time_add time what count =
     (if what = 1 then correct_nsec_check_bound time 100000000 count
      else if what = 2 then correct_nsec_check_bound time 10000000 count
      else if what = 3 then correct_nsec_check_bound time 1000000 count
      else if what = 4 then correct_nsec_check_bound time 1000 count
      else if what = 5 then correct_nsec_check_bound time 1 count
      else if what = 6 then add_seconds time count
      else if what = 7 then add_seconds time (10 * count)
      else if what = 8 then add_seconds time (100 * count)
      else if what = 9 then add_seconds time (1000 * count)
      else if what = 10 then add_seconds time (1000000 * count)
      else if what = 11 then add_seconds time (1000000000 * count)
      else Some time)"

definition system_time_test_earlier :: "system_timespec_s \<Rightarrow> system_timespec_s \<Rightarrow> int" where
  "system_time_test_earlier a b =
     (if st_sec a > st_sec b then -1
      else if st_sec a < st_sec b then 1
      else if st_nsec a > st_nsec b then -1
      else if st_nsec a < st_nsec b then 1
      else 0)"

definition set_system_time :: "int \<Rightarrow> u32 \<Rightarrow> system_timespec_s" where
  "set_system_time sec nsec = \<lparr>st_sec = sec, st_nsec = nsec\<rparr>"

definition get_system_time_sec :: "system_timespec_s \<Rightarrow> int" where
  "get_system_time_sec time = st_sec time"

definition get_system_time_nsec :: "system_timespec_s \<Rightarrow> u32" where
  "get_system_time_nsec time = st_nsec time"

section \<open>The value of a time\<close>

text \<open>Nanoseconds since the epoch, and the values whose nanoseconds are below one second.\<close>

definition time_ns :: "system_timespec_s \<Rightarrow> int" where
  "time_ns t = st_sec t * 1000000000 + uint (st_nsec t)"

definition time_normal :: "system_timespec_s \<Rightarrow> bool" where
  "time_normal t \<longleftrightarrow> st_nsec t < SYSTEM_TIME_NSEC_MAX"

text \<open>Times far from the ends of the range, years around the epoch being no restriction.\<close>

definition time_small :: "system_timespec_s \<Rightarrow> bool" where
  "time_small t \<longleftrightarrow> \<bar>st_sec t\<bar> < 2 ^ 61"

lemma int64_small: "- (2 ^ 63) \<le> x \<Longrightarrow> x < 2 ^ 63 \<Longrightarrow> int64 x = Some x"
  by (simp add: int64_def)

lemma uint_u32_plus: "uint a + uint b < 4294967296 \<Longrightarrow> uint (a + b) = uint a + uint b" for a b :: u32
  by (simp add: uint_word_ariths mod_pos_pos_trivial)

lemma uint_u32_minus: "b \<le> a \<Longrightarrow> uint (a - b) = uint a - uint b" for a b :: u32
  by (simp add: uint_sub_if' word_le_def)

lemma time_normal_uint: "time_normal t \<longleftrightarrow> uint (st_nsec t) < 1000000000"
  by (simp add: time_normal_def SYSTEM_TIME_NSEC_MAX_def word_less_def)

lemmas time_defs = time_ns_def time_normal_uint time_small_def SYSTEM_TIME_NSEC_MAX_def

lemma add_time_value:
  assumes "time_normal a" "time_normal b" "time_small a" "time_small b"
  shows "\<exists>c. system_time_add_time a b = Some c \<and> time_ns c = time_ns a + time_ns b \<and>
           (if uint (st_nsec a) + uint (st_nsec b) = 1000000000 then st_nsec c = 1000000000 else time_normal c)"
proof -
  have s: "int64 (st_sec a + st_sec b) = Some (st_sec a + st_sec b)"
    "int64 (st_sec a + st_sec b + 1) = Some (st_sec a + st_sec b + 1)"
    using assms(3,4) by (auto simp: time_small_def intro!: int64_small)
  have u: "uint (st_nsec a + st_nsec b) = uint (st_nsec a) + uint (st_nsec b)"
    using assms(1,2) by (intro uint_u32_plus) (simp add: time_normal_uint)
  show ?thesis
  proof (cases "st_nsec a + st_nsec b > SYSTEM_TIME_NSEC_MAX")
    case True
    then have m: "uint (st_nsec a + st_nsec b - SYSTEM_TIME_NSEC_MAX) = uint (st_nsec a) + uint (st_nsec b) - 1000000000"
      using u by (subst uint_u32_minus) (simp_all add: SYSTEM_TIME_NSEC_MAX_def)
    show ?thesis using True s m u assms(1,2)
      by (auto simp: system_time_add_time_def time_ns_def time_normal_uint SYSTEM_TIME_NSEC_MAX_def word_less_def)
  next
    case False
    then have "uint (st_nsec a) + uint (st_nsec b) \<le> 1000000000"
      using u by (simp add: SYSTEM_TIME_NSEC_MAX_def word_less_def)
    then show ?thesis using False s u
      by (auto simp: system_time_add_time_def time_ns_def time_normal_uint word_uint_eq_iff)
  qed
qed

lemma substract_time_value:
  assumes "time_normal a" "time_normal b" "\<bar>st_sec a - st_sec b\<bar> < 2 ^ 62"
  shows "\<exists>c. system_time_substract_time a b = Some c \<and> time_ns c = time_ns a - time_ns b \<and> time_normal c"
proof -
  have s: "int64 (st_sec a - st_sec b) = Some (st_sec a - st_sec b)"
    "int64 (st_sec a - st_sec b - 1) = Some (st_sec a - st_sec b - 1)"
    using assms(3) by (auto intro!: int64_small)
  have m: "uint (SYSTEM_TIME_NSEC_MAX - st_nsec b) = 1000000000 - uint (st_nsec b)"
    using assms(2) by (subst uint_u32_minus) (simp_all add: time_normal_uint SYSTEM_TIME_NSEC_MAX_def word_le_def)
  have p: "uint (st_nsec a + (SYSTEM_TIME_NSEC_MAX - st_nsec b)) = uint (st_nsec a) + 1000000000 - uint (st_nsec b)"
    if "st_nsec a < st_nsec b"
    using assms(1) that m by (subst uint_u32_plus) (simp_all add: time_normal_uint word_less_def)
  have q: "uint (st_nsec a - st_nsec b) = uint (st_nsec a) - uint (st_nsec b)" if "\<not> st_nsec a < st_nsec b"
    using that by (intro uint_u32_minus) simp
  show ?thesis
  proof (cases "st_nsec a < st_nsec b")
    case True
    with s p [OF True] assms(1,2) show ?thesis
      by (simp add: system_time_substract_time_def time_ns_def time_normal_uint word_less_def)
  next
    case False
    have "uint (st_nsec a) - uint (st_nsec b) < 1000000000"
      using assms(1) uint_ge_0 [of "st_nsec b"] unfolding time_normal_uint by linarith
    with False s q [OF False] show ?thesis
      by (simp add: system_time_substract_time_def time_ns_def time_normal_uint)
  qed
qed

lemma test_earlier_value:
  assumes "time_normal a" "time_normal b"
  shows "system_time_test_earlier a b = sgn (time_ns b - time_ns a)"
proof -
  have n: "0 \<le> uint (st_nsec a)" "0 \<le> uint (st_nsec b)" "uint (st_nsec a) < 1000000000" "uint (st_nsec b) < 1000000000"
    using assms by (simp_all add: time_normal_uint)
  consider "st_sec a > st_sec b" | "st_sec a < st_sec b" | "st_sec a = st_sec b" by linarith
  then show ?thesis
  proof cases
    case 1
    with n have "time_ns b - time_ns a < 0" unfolding time_ns_def by linarith
    with 1 show ?thesis by (simp add: system_time_test_earlier_def sgn_if)
  next
    case 2
    with n have "0 < time_ns b - time_ns a" unfolding time_ns_def by linarith
    with 2 show ?thesis by (simp add: system_time_test_earlier_def sgn_if)
  next
    case 3
    then have "time_ns b - time_ns a = uint (st_nsec b) - uint (st_nsec a)" by (simp add: time_ns_def)
    with 3 show ?thesis by (auto simp: system_time_test_earlier_def sgn_if word_less_def word_uint_eq_iff)
  qed
qed

lemma current_time: "get_current_time_system_time t = t"
  by (simp add: get_current_time_system_time_def)

lemma time_ns_inj:
  assumes "time_normal a" "time_normal b" "time_ns a = time_ns b"
  shows "a = b"
proof -
  have n: "0 \<le> uint (st_nsec a)" "0 \<le> uint (st_nsec b)" "uint (st_nsec a) < 1000000000" "uint (st_nsec b) < 1000000000"
    using assms by (simp_all add: time_normal_uint)
  with assms(3) have "st_sec a = st_sec b" unfolding time_ns_def by linarith
  with assms(3) show ?thesis by (simp add: time_ns_def word_uint_eq_iff)
qed

lemma substract_added:
  assumes "time_normal a" "time_normal b" "time_small a" "time_small b" "system_time_add_time a b = Some c"
  shows "system_time_substract_time c b = Some a"
proof -
  have n: "0 \<le> uint (st_nsec a)" "0 \<le> uint (st_nsec b)" "uint (st_nsec a) < 1000000000" "uint (st_nsec b) < 1000000000"
    using assms(1,2) by (simp_all add: time_normal_uint)
  have c: "time_ns c = time_ns a + time_ns b"
      "if uint (st_nsec a) + uint (st_nsec b) = 1000000000 then st_nsec c = 1000000000 else time_normal c"
    using add_time_value [OF assms(1-4)] assms(5) by auto
  show ?thesis
  proof (cases "uint (st_nsec a) + uint (st_nsec b) = 1000000000")
    case True
    then have "st_nsec c = 1000000000" "st_sec c = st_sec a + st_sec b" using c by (simp_all add: time_ns_def)
    moreover have "1000000000 - st_nsec b = st_nsec a"
      using True n by (simp add: word_uint_eq_iff uint_u32_minus word_le_def)
    moreover have "\<not> 1000000000 < st_nsec b" using n by (simp add: word_less_def)
    moreover have "int64 (st_sec a) = Some (st_sec a)" using assms(3) by (auto simp: time_small_def intro!: int64_small)
    ultimately show ?thesis by (simp add: system_time_substract_time_def)
  next
    case False
    then have nc: "time_normal c" using c(2) by simp
    have "uint (st_nsec c) < 1000000000" "0 \<le> uint (st_nsec c)" using nc by (simp_all add: time_normal_uint)
    with c(1) n have "st_sec a \<le> st_sec c - st_sec b" "st_sec c - st_sec b \<le> st_sec a + 1" unfolding time_ns_def by linarith+
    then have "\<bar>st_sec c - st_sec b\<bar> < 2 ^ 62" using assms(3) by (simp add: time_small_def)
    then show ?thesis
      using substract_time_value [OF nc assms(2)] c(1) time_ns_inj [OF _ assms(1)] by auto
  qed
qed

section \<open>Properties\<close>

text \<open>
  C39: Adding and subtracting spans of time are exact. For times with less than a second of
  nanoseconds and less than \<open>2^61\<close> seconds both operations return, the sum and the difference stand for
  the sum and the difference of the nanoseconds, and subtracting what was added gives back the
  time. The difference has less than a second of nanoseconds, and so has the sum, except where the nanoseconds of the two
  add up to exactly a second: the code does not carry there.
\<close>

theorem time_add_substract:
  assumes "time_normal a" "time_normal b" "time_small a" "time_small b"
  shows "\<exists>c d. system_time_add_time a b = Some c \<and> time_ns c = time_ns a + time_ns b \<and>
           (time_normal c \<longleftrightarrow> uint (st_nsec a) + uint (st_nsec b) \<noteq> 1000000000) \<and>
           system_time_substract_time a b = Some d \<and> time_ns d = time_ns a - time_ns b \<and> time_normal d \<and>
           system_time_substract_time c b = Some a"
proof -
  obtain c where c: "system_time_add_time a b = Some c" "time_ns c = time_ns a + time_ns b"
      "if uint (st_nsec a) + uint (st_nsec b) = 1000000000 then st_nsec c = 1000000000 else time_normal c"
    using add_time_value [OF assms] by blast
  then have "time_normal c \<longleftrightarrow> uint (st_nsec a) + uint (st_nsec b) \<noteq> 1000000000"
    by (auto simp: time_normal_uint)
  moreover have "\<bar>st_sec a - st_sec b\<bar> < 2 ^ 62" using assms(3,4) by (simp add: time_small_def)
  ultimately show ?thesis
    using c(1,2) substract_time_value [OF assms(1,2)] substract_added [OF assms c(1)] by blast
qed

theorem time_add_substract_witness:
  "\<exists>c. system_time_add_time \<lparr>st_sec = 5, st_nsec = 700000000\<rparr> \<lparr>st_sec = 1, st_nsec = 800000000\<rparr> = Some c \<and>
     time_ns c = 7500000000 \<and> system_time_substract_time c \<lparr>st_sec = 1, st_nsec = 800000000\<rparr> =
       Some \<lparr>st_sec = 5, st_nsec = 700000000\<rparr>"
proof -
  let ?a = "\<lparr>st_sec = 5, st_nsec = 700000000\<rparr>" and ?b = "\<lparr>st_sec = 1, st_nsec = 800000000\<rparr>"
  have "system_time_add_time ?a ?b = Some \<lparr>st_sec = 7, st_nsec = 500000000\<rparr>"
    by (simp add: system_time_add_time_def int64_def SYSTEM_TIME_NSEC_MAX_def)
  then show ?thesis using time_add_substract [of ?a ?b] by (auto simp: time_defs)
qed

text \<open>
  A deadline is tested rightly. With a clock and a timeout whose nanoseconds do not add up to
  exactly a second, the deadline set from them returns, and testing it against a later clock tells
  whether clock and timeout together lie before, at or after that moment.
\<close>

lemma expire_time_test:
  assumes "time_normal clock" "time_normal timeout" "time_small clock" "time_small timeout" "time_normal t"
    and "uint (st_nsec clock) + uint (st_nsec timeout) \<noteq> 1000000000"
  shows "\<exists>e. set_expire_time_system_time clock timeout = Some e \<and>
           system_time_test_earlier e (get_current_time_system_time t) =
             sgn (time_ns t - (time_ns clock + time_ns timeout))"
  using add_time_value [OF assms(1-4)] assms(6) test_earlier_value [OF _ assms(5)]
  by (auto simp: set_expire_time_system_time_def current_time)

lemma expire_time_test_example:
  "\<exists>e. set_expire_time_system_time \<lparr>st_sec = 5, st_nsec = 700000000\<rparr> \<lparr>st_sec = 1, st_nsec = 800000000\<rparr> = Some e \<and>
     system_time_test_earlier e (get_current_time_system_time \<lparr>st_sec = 7, st_nsec = 499999999\<rparr>) = -1"
  using expire_time_test [of "\<lparr>st_sec = 5, st_nsec = 700000000\<rparr>" "\<lparr>st_sec = 1, st_nsec = 800000000\<rparr>"
      "\<lparr>st_sec = 7, st_nsec = 499999999\<rparr>"]
  by (simp add: time_defs)

section \<open>Where the code differs from its intent\<close>

text \<open>A sum of exactly one second of nanoseconds is not carried, and the deadline then tests as passed too early.\<close>

lemma add_time_no_carry:
  "system_time_add_time \<lparr>st_sec = 5, st_nsec = 500000000\<rparr> \<lparr>st_sec = 0, st_nsec = 500000000\<rparr> =
     Some \<lparr>st_sec = 5, st_nsec = 1000000000\<rparr>"
  "system_time_test_earlier \<lparr>st_sec = 5, st_nsec = 1000000000\<rparr> \<lparr>st_sec = 6, st_nsec = 0\<rparr> = 1"
  by (simp_all add: system_time_add_time_def int64_def SYSTEM_TIME_NSEC_MAX_def system_time_test_earlier_def)

text \<open>
  Of a time 0.2 seconds ago, across the border of a second, \<open>get_expired_time_system_time\<close> says that
  0.8 seconds have passed: the borrow takes the difference the wrong way round.
\<close>

lemma expired_time_borrow:
  "get_expired_time_system_time \<lparr>st_sec = 6, st_nsec = 100000000\<rparr> \<lparr>st_sec = 5, st_nsec = 900000000\<rparr> =
     Some \<lparr>st_sec = 0, st_nsec = 800000000\<rparr>"
  by (simp add: get_expired_time_system_time_def get_current_time_system_time_def int64_def)

text \<open>Adding nanoseconds counts those already there twice.\<close>

lemma system_time_add_double:
  "system_time_add \<lparr>st_sec = 1, st_nsec = 300000000\<rparr> 1 2 = Some \<lparr>st_sec = 1, st_nsec = 800000000\<rparr>"
  by (simp add: system_time_add_def correct_nsec_check_bound_def int64_def SYSTEM_TIME_NSEC_MAX_def)

end
