(* ===== verification/System_Stat.thy ===== *)
theory System_Stat
  imports System_Time
begin

text \<open>
  The attributes of a file, \<open>src/lib/system/stat.c\<close> in its \<open>statx\<close> variant: getting and setting single
  attributes with the mask of those that are set, applying them to a file, and the helpers on modes and
  blocks. The system calls are arguments: a call has an error or none, and acts on the state of the file
  systems. The path is the string \<open>fs_path_get_start\<close> gives.
\<close>

section \<open>Attributes\<close>

record statx_timestamp =
  tv_sec :: int
  tv_nsec :: u32

record statx =
  stx_mask :: u32
  stx_blksize :: u32
  stx_nlink :: u32
  stx_uid :: u32
  stx_gid :: u32
  stx_mode :: u16
  stx_ino :: u64
  stx_size :: u64
  stx_blocks :: u64
  stx_atime :: statx_timestamp
  stx_btime :: statx_timestamp
  stx_ctime :: statx_timestamp
  stx_mtime :: statx_timestamp
  stx_rdev_major :: u32
  stx_rdev_minor :: u32
  stx_dev_major :: u32
  stx_dev_minor :: u32

record system_stat_s =
  sst_flags :: u8
  sst_mask :: u32
  stx :: statx

record system_dev_s =
  major :: u32
  minor :: u32

definition SYSTEM_STAT_TYPE :: u32 where "SYSTEM_STAT_TYPE = 0x1"
definition SYSTEM_STAT_MODE :: u32 where "SYSTEM_STAT_MODE = 0x2"
definition SYSTEM_STAT_NLINK :: u32 where "SYSTEM_STAT_NLINK = 0x4"
definition SYSTEM_STAT_UID :: u32 where "SYSTEM_STAT_UID = 0x8"
definition SYSTEM_STAT_GID :: u32 where "SYSTEM_STAT_GID = 0x10"
definition SYSTEM_STAT_ATIME :: u32 where "SYSTEM_STAT_ATIME = 0x20"
definition SYSTEM_STAT_MTIME :: u32 where "SYSTEM_STAT_MTIME = 0x40"
definition SYSTEM_STAT_CTIME :: u32 where "SYSTEM_STAT_CTIME = 0x80"
definition SYSTEM_STAT_INO :: u32 where "SYSTEM_STAT_INO = 0x100"
definition SYSTEM_STAT_SIZE :: u32 where "SYSTEM_STAT_SIZE = 0x200"
definition SYSTEM_STAT_BLOCKS :: u32 where "SYSTEM_STAT_BLOCKS = 0x400"
definition SYSTEM_STAT_BTIME :: u32 where "SYSTEM_STAT_BTIME = 0x800"
definition SYSTEM_STAT_MNTID :: u32 where "SYSTEM_STAT_MNTID = 0x1000"

definition SYSTEM_STAT_BASIC_STATS :: u32 where
  "SYSTEM_STAT_BASIC_STATS = SYSTEM_STAT_TYPE OR SYSTEM_STAT_MODE OR SYSTEM_STAT_NLINK OR SYSTEM_STAT_UID OR
     SYSTEM_STAT_GID OR SYSTEM_STAT_ATIME OR SYSTEM_STAT_MTIME OR SYSTEM_STAT_CTIME OR SYSTEM_STAT_INO OR
     SYSTEM_STAT_SIZE OR SYSTEM_STAT_BLOCKS"

definition SYSTEM_STAT_ALL :: u32 where
  "SYSTEM_STAT_ALL = SYSTEM_STAT_BASIC_STATS OR SYSTEM_STAT_BTIME OR SYSTEM_STAT_MNTID"

lemmas system_stat_bits = SYSTEM_STAT_TYPE_def SYSTEM_STAT_MODE_def SYSTEM_STAT_NLINK_def SYSTEM_STAT_UID_def
  SYSTEM_STAT_GID_def SYSTEM_STAT_ATIME_def SYSTEM_STAT_MTIME_def SYSTEM_STAT_CTIME_def SYSTEM_STAT_INO_def
  SYSTEM_STAT_SIZE_def SYSTEM_STAT_BLOCKS_def SYSTEM_STAT_BTIME_def SYSTEM_STAT_MNTID_def

text \<open>The type of a file in its mode, and the permission bits.\<close>

definition S_IFMT :: u16 where "S_IFMT = 0xF000"
definition S_IFSOCK :: u16 where "S_IFSOCK = 0xC000"
definition S_IFLNK :: u16 where "S_IFLNK = 0xA000"
definition S_IFREG :: u16 where "S_IFREG = 0x8000"
definition S_IFBLK :: u16 where "S_IFBLK = 0x6000"
definition S_IFDIR :: u16 where "S_IFDIR = 0x4000"
definition S_IFCHR :: u16 where "S_IFCHR = 0x2000"

section \<open>Getting and setting\<close>

definition sst_mark :: "u32 \<Rightarrow> system_stat_s \<Rightarrow> system_stat_s" where
  "sst_mark bits stat = stat\<lparr>sst_mask := sst_mask stat OR bits\<rparr>"

definition stx_upd :: "(statx \<Rightarrow> statx) \<Rightarrow> system_stat_s \<Rightarrow> system_stat_s" where
  "stx_upd f stat = stat\<lparr>stx := f (stx stat)\<rparr>"

definition get_ino_system_stat :: "system_stat_s \<Rightarrow> u64" where "get_ino_system_stat stat = stx_ino (stx stat)"
definition get_type_system_stat :: "system_stat_s \<Rightarrow> u16" where
  "get_type_system_stat stat = stx_mode (stx stat) AND S_IFMT"
definition get_mode_system_stat :: "system_stat_s \<Rightarrow> u16" where
  "get_mode_system_stat stat = stx_mode (stx stat) AND NOT S_IFMT"
definition get_nlink_system_stat :: "system_stat_s \<Rightarrow> u32" where "get_nlink_system_stat stat = stx_nlink (stx stat)"
definition get_uid_system_stat :: "system_stat_s \<Rightarrow> u32" where "get_uid_system_stat stat = stx_uid (stx stat)"
definition get_gid_system_stat :: "system_stat_s \<Rightarrow> u32" where "get_gid_system_stat stat = stx_gid (stx stat)"

text \<open>An \<open>off_t\<close> is given by its 64 bits.\<close>

definition get_size_system_stat :: "system_stat_s \<Rightarrow> u64" where "get_size_system_stat stat = stx_size (stx stat)"

definition timespec_of :: "statx_timestamp \<Rightarrow> system_timespec_s" where
  "timespec_of t = \<lparr>st_sec = tv_sec t, st_nsec = tv_nsec t\<rparr>"

definition timestamp_of :: "system_timespec_s \<Rightarrow> statx_timestamp" where
  "timestamp_of t = \<lparr>tv_sec = st_sec t, tv_nsec = st_nsec t\<rparr>"

definition get_atime_system_stat :: "system_stat_s \<Rightarrow> system_timespec_s" where
  "get_atime_system_stat stat = timespec_of (stx_atime (stx stat))"
definition get_atime_sec_system_stat :: "system_stat_s \<Rightarrow> int" where
  "get_atime_sec_system_stat stat = tv_sec (stx_atime (stx stat))"
definition get_atime_nsec_system_stat :: "system_stat_s \<Rightarrow> u32" where
  "get_atime_nsec_system_stat stat = tv_nsec (stx_atime (stx stat))"
definition get_mtime_system_stat :: "system_stat_s \<Rightarrow> system_timespec_s" where
  "get_mtime_system_stat stat = timespec_of (stx_mtime (stx stat))"
definition get_mtime_sec_system_stat :: "system_stat_s \<Rightarrow> int" where
  "get_mtime_sec_system_stat stat = tv_sec (stx_mtime (stx stat))"
definition get_mtime_nsec_system_stat :: "system_stat_s \<Rightarrow> u32" where
  "get_mtime_nsec_system_stat stat = tv_nsec (stx_mtime (stx stat))"
definition get_ctime_system_stat :: "system_stat_s \<Rightarrow> system_timespec_s" where
  "get_ctime_system_stat stat = timespec_of (stx_ctime (stx stat))"
definition get_ctime_sec_system_stat :: "system_stat_s \<Rightarrow> int" where
  "get_ctime_sec_system_stat stat = tv_sec (stx_ctime (stx stat))"
definition get_ctime_nsec_system_stat :: "system_stat_s \<Rightarrow> u32" where
  "get_ctime_nsec_system_stat stat = tv_nsec (stx_ctime (stx stat))"
definition get_btime_system_stat :: "system_stat_s \<Rightarrow> system_timespec_s" where
  "get_btime_system_stat stat = timespec_of (stx_btime (stx stat))"
definition get_btime_sec_system_stat :: "system_stat_s \<Rightarrow> int" where
  "get_btime_sec_system_stat stat = tv_sec (stx_btime (stx stat))"
definition get_btime_nsec_system_stat :: "system_stat_s \<Rightarrow> u32" where
  "get_btime_nsec_system_stat stat = tv_nsec (stx_btime (stx stat))"

definition get_dev_system_stat :: "system_stat_s \<Rightarrow> system_dev_s" where
  "get_dev_system_stat stat = \<lparr>major = stx_dev_major (stx stat), minor = stx_dev_minor (stx stat)\<rparr>"
definition get_rdev_system_stat :: "system_stat_s \<Rightarrow> system_dev_s" where
  "get_rdev_system_stat stat = \<lparr>major = stx_rdev_major (stx stat), minor = stx_rdev_minor (stx stat)\<rparr>"
definition get_blocks_system_stat :: "system_stat_s \<Rightarrow> u32" where
  "get_blocks_system_stat stat = ucast (stx_blocks (stx stat))"
definition get_blksize_system_stat :: "system_stat_s \<Rightarrow> u32" where
  "get_blksize_system_stat stat = stx_blksize (stx stat)"

definition set_ino_system_stat :: "system_stat_s \<Rightarrow> u64 \<Rightarrow> system_stat_s" where
  "set_ino_system_stat stat ino = stx_upd (\<lambda>x. x\<lparr>stx_ino := ino\<rparr>) stat"
definition set_type_system_stat :: "system_stat_s \<Rightarrow> u16 \<Rightarrow> system_stat_s" where
  "set_type_system_stat stat typ =
     sst_mark SYSTEM_STAT_TYPE (stx_upd (\<lambda>x. x\<lparr>stx_mode := (typ AND S_IFMT) OR (stx_mode x AND NOT S_IFMT)\<rparr>) stat)"
definition set_mode_system_stat :: "system_stat_s \<Rightarrow> u16 \<Rightarrow> system_stat_s" where
  "set_mode_system_stat stat mode =
     sst_mark SYSTEM_STAT_MODE (stx_upd (\<lambda>x. x\<lparr>stx_mode := (stx_mode x AND S_IFMT) OR (mode AND NOT S_IFMT)\<rparr>) stat)"
definition set_nlink_system_stat :: "system_stat_s \<Rightarrow> u32 \<Rightarrow> system_stat_s" where
  "set_nlink_system_stat stat nlink = sst_mark SYSTEM_STAT_NLINK (stx_upd (\<lambda>x. x\<lparr>stx_nlink := nlink\<rparr>) stat)"

text \<open>The counts are signed 32 bit integers, compared and added as unsigned ones.\<close>

definition increase_nlink_system_stat :: "system_stat_s \<Rightarrow> u32 \<Rightarrow> system_stat_s" where
  "increase_nlink_system_stat stat count = stx_upd (\<lambda>x. x\<lparr>stx_nlink := stx_nlink x + count\<rparr>) stat"
definition decrease_nlink_system_stat :: "system_stat_s \<Rightarrow> u32 \<Rightarrow> system_stat_s" where
  "decrease_nlink_system_stat stat count =
     stx_upd (\<lambda>x. x\<lparr>stx_nlink := (if count > stx_nlink x then 0 else stx_nlink x - count)\<rparr>) stat"

definition set_uid_system_stat :: "system_stat_s \<Rightarrow> u32 \<Rightarrow> system_stat_s" where
  "set_uid_system_stat stat uid = sst_mark SYSTEM_STAT_UID (stx_upd (\<lambda>x. x\<lparr>stx_uid := uid\<rparr>) stat)"
definition set_gid_system_stat :: "system_stat_s \<Rightarrow> u32 \<Rightarrow> system_stat_s" where
  "set_gid_system_stat stat gid = sst_mark SYSTEM_STAT_GID (stx_upd (\<lambda>x. x\<lparr>stx_gid := gid\<rparr>) stat)"
definition set_size_system_stat :: "system_stat_s \<Rightarrow> u64 \<Rightarrow> system_stat_s" where
  "set_size_system_stat stat sz = sst_mark SYSTEM_STAT_SIZE (stx_upd (\<lambda>x. x\<lparr>stx_size := sz\<rparr>) stat)"

definition set_atime_system_stat :: "system_stat_s \<Rightarrow> system_timespec_s \<Rightarrow> system_stat_s" where
  "set_atime_system_stat stat time = sst_mark SYSTEM_STAT_ATIME (stx_upd (\<lambda>x. x\<lparr>stx_atime := timestamp_of time\<rparr>) stat)"
definition set_atime_sec_system_stat :: "system_stat_s \<Rightarrow> int \<Rightarrow> system_stat_s" where
  "set_atime_sec_system_stat stat sec = stx_upd (\<lambda>x. x\<lparr>stx_atime := (stx_atime x)\<lparr>tv_sec := sec\<rparr>\<rparr>) stat"
definition set_atime_nsec_system_stat :: "system_stat_s \<Rightarrow> u32 \<Rightarrow> system_stat_s" where
  "set_atime_nsec_system_stat stat nsec = stx_upd (\<lambda>x. x\<lparr>stx_atime := (stx_atime x)\<lparr>tv_nsec := nsec\<rparr>\<rparr>) stat"
definition set_mtime_system_stat :: "system_stat_s \<Rightarrow> system_timespec_s \<Rightarrow> system_stat_s" where
  "set_mtime_system_stat stat time = sst_mark SYSTEM_STAT_MTIME (stx_upd (\<lambda>x. x\<lparr>stx_mtime := timestamp_of time\<rparr>) stat)"
definition set_mtime_sec_system_stat :: "system_stat_s \<Rightarrow> int \<Rightarrow> system_stat_s" where
  "set_mtime_sec_system_stat stat sec = stx_upd (\<lambda>x. x\<lparr>stx_mtime := (stx_mtime x)\<lparr>tv_sec := sec\<rparr>\<rparr>) stat"
definition set_mtime_nsec_system_stat :: "system_stat_s \<Rightarrow> u32 \<Rightarrow> system_stat_s" where
  "set_mtime_nsec_system_stat stat nsec = stx_upd (\<lambda>x. x\<lparr>stx_mtime := (stx_mtime x)\<lparr>tv_nsec := nsec\<rparr>\<rparr>) stat"
definition set_ctime_system_stat :: "system_stat_s \<Rightarrow> system_timespec_s \<Rightarrow> system_stat_s" where
  "set_ctime_system_stat stat time = sst_mark SYSTEM_STAT_CTIME (stx_upd (\<lambda>x. x\<lparr>stx_ctime := timestamp_of time\<rparr>) stat)"
definition set_ctime_sec_system_stat :: "system_stat_s \<Rightarrow> int \<Rightarrow> system_stat_s" where
  "set_ctime_sec_system_stat stat sec = stx_upd (\<lambda>x. x\<lparr>stx_ctime := (stx_ctime x)\<lparr>tv_sec := sec\<rparr>\<rparr>) stat"
definition set_ctime_nsec_system_stat :: "system_stat_s \<Rightarrow> u32 \<Rightarrow> system_stat_s" where
  "set_ctime_nsec_system_stat stat nsec = stx_upd (\<lambda>x. x\<lparr>stx_ctime := (stx_ctime x)\<lparr>tv_nsec := nsec\<rparr>\<rparr>) stat"
definition set_btime_system_stat :: "system_stat_s \<Rightarrow> system_timespec_s \<Rightarrow> system_stat_s" where
  "set_btime_system_stat stat time = sst_mark SYSTEM_STAT_BTIME (stx_upd (\<lambda>x. x\<lparr>stx_btime := timestamp_of time\<rparr>) stat)"
definition set_btime_sec_system_stat :: "system_stat_s \<Rightarrow> int \<Rightarrow> system_stat_s" where
  "set_btime_sec_system_stat stat sec = stx_upd (\<lambda>x. x\<lparr>stx_btime := (stx_btime x)\<lparr>tv_sec := sec\<rparr>\<rparr>) stat"
definition set_btime_nsec_system_stat :: "system_stat_s \<Rightarrow> u32 \<Rightarrow> system_stat_s" where
  "set_btime_nsec_system_stat stat nsec = stx_upd (\<lambda>x. x\<lparr>stx_btime := (stx_btime x)\<lparr>tv_nsec := nsec\<rparr>\<rparr>) stat"

definition set_dev_system_stat :: "system_stat_s \<Rightarrow> system_dev_s \<Rightarrow> system_stat_s" where
  "set_dev_system_stat stat dev = stx_upd (\<lambda>x. x\<lparr>stx_dev_major := major dev, stx_dev_minor := minor dev\<rparr>) stat"
definition set_rdev_system_stat :: "system_stat_s \<Rightarrow> system_dev_s \<Rightarrow> system_stat_s" where
  "set_rdev_system_stat stat dev = stx_upd (\<lambda>x. x\<lparr>stx_rdev_major := major dev, stx_rdev_minor := minor dev\<rparr>) stat"

definition copy_atime_system_stat :: "system_stat_s \<Rightarrow> system_stat_s \<Rightarrow> system_stat_s" where
  "copy_atime_system_stat to src = stx_upd (\<lambda>x. x\<lparr>stx_atime := stx_atime (stx src)\<rparr>) to"
definition copy_mtime_system_stat :: "system_stat_s \<Rightarrow> system_stat_s \<Rightarrow> system_stat_s" where
  "copy_mtime_system_stat to src = stx_upd (\<lambda>x. x\<lparr>stx_mtime := stx_mtime (stx src)\<rparr>) to"
definition copy_ctime_system_stat :: "system_stat_s \<Rightarrow> system_stat_s \<Rightarrow> system_stat_s" where
  "copy_ctime_system_stat to src = stx_upd (\<lambda>x. x\<lparr>stx_ctime := stx_ctime (stx src)\<rparr>) to"
definition copy_btime_system_stat :: "system_stat_s \<Rightarrow> system_stat_s \<Rightarrow> system_stat_s" where
  "copy_btime_system_stat to src = stx_upd (\<lambda>x. x\<lparr>stx_btime := stx_btime (stx src)\<rparr>) to"

definition set_blksize_system_stat :: "system_stat_s \<Rightarrow> u32 \<Rightarrow> system_stat_s" where
  "set_blksize_system_stat stat blksize = stx_upd (\<lambda>x. x\<lparr>stx_blksize := blksize\<rparr>) stat"
definition set_blocks_system_stat :: "system_stat_s \<Rightarrow> u32 \<Rightarrow> system_stat_s" where
  "set_blocks_system_stat stat blocks = stx_upd (\<lambda>x. x\<lparr>stx_blocks := ucast blocks\<rparr>) stat"

section \<open>Reading and changing a file\<close>

text \<open>
  The calls that change a file, and the kernel that performs them: an error number or none, and the
  state of the file systems after the call.
\<close>

datatype syscall =
    Truncate string u64
  | Fchownat string u32 u32
  | Fchmodat string u16
  | Utimensat string statx_timestamp statx_timestamp

type_synonym 'fs kernel = "syscall \<Rightarrow> 'fs \<Rightarrow> u32 option \<times> 'fs"

definition UTIME_OMIT :: u32 where "UTIME_OMIT = 0x3FFFFFFE"

definition system_getstat_flags :: "(string \<Rightarrow> u32 \<Rightarrow> u32 \<Rightarrow> u32 + statx) \<Rightarrow> u32 \<Rightarrow> string \<Rightarrow> u32 \<Rightarrow>
    system_stat_s \<Rightarrow> int \<times> system_stat_s" where
  "system_getstat_flags statx_call flags path msk stat =
     (let msk = (if msk = 0 then SYSTEM_STAT_ALL else msk)
      in case statx_call path flags msk of
           Inl e \<Rightarrow> (- uint e, stat)
         | Inr x \<Rightarrow> (0, stat\<lparr>stx := x, sst_mask := stx_mask x\<rparr>))"

definition system_getstat :: "(string \<Rightarrow> u32 \<Rightarrow> u32 \<Rightarrow> u32 + statx) \<Rightarrow> string \<Rightarrow> u32 \<Rightarrow>
    system_stat_s \<Rightarrow> int \<times> system_stat_s" where
  "system_getstat statx_call = system_getstat_flags statx_call 0"

definition system_getlstat :: "(string \<Rightarrow> u32 \<Rightarrow> u32 \<Rightarrow> u32 + statx) \<Rightarrow> string \<Rightarrow> u32 \<Rightarrow>
    system_stat_s \<Rightarrow> int \<times> system_stat_s" where
  "system_getlstat statx_call = system_getstat_flags statx_call (0x4000 OR 0x100)"

text \<open>The state of \<open>system_setstat\<close>: the bits still to do, the attributes and the file systems, or an error.\<close>

type_synonym 'fs setting = "u32 \<times> system_stat_s \<times> 'fs"
type_synonym 'fs set_result = "(u32 \<times> system_stat_s \<times> 'fs) + 'fs setting"

definition set_then :: "'fs set_result \<Rightarrow> ('fs setting \<Rightarrow> 'fs set_result) \<Rightarrow> 'fs set_result" where
  "set_then r f = (case r of Inl e \<Rightarrow> Inl e | Inr s \<Rightarrow> f s)"

definition setstat_call :: "'fs kernel \<Rightarrow> syscall \<Rightarrow> u32 \<Rightarrow> 'fs setting \<Rightarrow> 'fs set_result" where
  "setstat_call sys call bits = (\<lambda>(msk, stat, fs).
     case sys call fs of
       (Some e, fs') \<Rightarrow> Inl (e, stat, fs')
     | (None, fs') \<Rightarrow> Inr (msk AND NOT bits, sst_mark bits stat, fs'))"

definition setstat_size :: "'fs kernel \<Rightarrow> string \<Rightarrow> 'fs setting \<Rightarrow> 'fs set_result" where
  "setstat_size sys path = (\<lambda>(msk, stat, fs).
     if msk AND SYSTEM_STAT_SIZE \<noteq> 0
     then setstat_call sys (Truncate path (stx_size (stx stat))) SYSTEM_STAT_SIZE (msk, stat, fs)
     else Inr (msk, stat, fs))"

definition setstat_owner :: "'fs kernel \<Rightarrow> string \<Rightarrow> 'fs setting \<Rightarrow> 'fs set_result" where
  "setstat_owner sys path = (\<lambda>(msk, stat, fs).
     if msk AND (SYSTEM_STAT_UID OR SYSTEM_STAT_GID) \<noteq> 0
     then let uid = (if msk AND SYSTEM_STAT_UID \<noteq> 0 then stx_uid (stx stat) else -1);
              gid = (if msk AND SYSTEM_STAT_GID \<noteq> 0 then stx_gid (stx stat) else -1);
              bits = (if msk AND SYSTEM_STAT_UID \<noteq> 0 then SYSTEM_STAT_UID else 0) OR
                     (if msk AND SYSTEM_STAT_GID \<noteq> 0 then SYSTEM_STAT_GID else 0)
          in case sys (Fchownat path uid gid) fs of
               (Some e, fs') \<Rightarrow> Inl (e, stat, fs')
             | (None, fs') \<Rightarrow> Inr (msk AND NOT (SYSTEM_STAT_UID OR SYSTEM_STAT_GID), sst_mark bits stat, fs')
     else Inr (msk, stat, fs))"

definition setstat_mode :: "'fs kernel \<Rightarrow> string \<Rightarrow> 'fs setting \<Rightarrow> 'fs set_result" where
  "setstat_mode sys path = (\<lambda>(msk, stat, fs).
     if msk AND SYSTEM_STAT_MODE \<noteq> 0
     then setstat_call sys (Fchmodat path (stx_mode (stx stat) AND NOT S_IFMT)) SYSTEM_STAT_MODE (msk, stat, fs)
     else Inr (msk, stat, fs))"

definition setstat_times :: "'fs kernel \<Rightarrow> string \<Rightarrow> 'fs setting \<Rightarrow> 'fs set_result" where
  "setstat_times sys path = (\<lambda>(msk, stat, fs).
     if msk AND (SYSTEM_STAT_ATIME OR SYSTEM_STAT_MTIME) \<noteq> 0
     then let a = msk AND SYSTEM_STAT_ATIME \<noteq> 0;
              m = msk AND SYSTEM_STAT_MTIME \<noteq> 0;
              omit = \<lparr>tv_sec = 0, tv_nsec = UTIME_OMIT\<rparr>;
              todo = (if a then SYSTEM_STAT_ATIME else 0) OR (if m then SYSTEM_STAT_MTIME else 0)
          in setstat_call sys
               (Utimensat path (if a then stx_atime (stx stat) else omit) (if m then stx_mtime (stx stat) else omit))
               todo (msk, stat, fs)
     else Inr (msk, stat, fs))"

definition system_setstat :: "'fs kernel \<Rightarrow> string \<Rightarrow> u32 \<Rightarrow> system_stat_s \<Rightarrow> 'fs \<Rightarrow> int \<times> system_stat_s \<times> 'fs" where
  "system_setstat sys path msk stat fs =
     (case set_then (set_then (set_then (setstat_size sys path (msk, stat\<lparr>sst_mask := 0\<rparr>, fs))
        (setstat_owner sys path)) (setstat_mode sys path)) (setstat_times sys path) of
        Inl (e, stat, fs) \<Rightarrow> (- uint e, stat, fs)
      | Inr (msk, stat, fs) \<Rightarrow> (0, stat, fs))"

section \<open>Helpers\<close>

definition calc_amount_blocks :: "u64 \<Rightarrow> u32 \<Rightarrow> u32" where
  "calc_amount_blocks sz blksize =
     ucast (sz div ucast blksize) + (if sz mod ucast blksize = 0 then 0 else 1)"

definition calc_blocks_system_stat :: "system_stat_s \<Rightarrow> system_stat_s" where
  "calc_blocks_system_stat sst =
     (let blksize = get_blksize_system_stat sst
      in if blksize > 0
         then stx_upd (\<lambda>x. x\<lparr>stx_blocks := ucast (calc_amount_blocks (get_size_system_stat sst) blksize)\<rparr>) sst
         else sst)"

definition system_stat_test_ISDIR :: "system_stat_s \<Rightarrow> bool" where
  "system_stat_test_ISDIR sst \<longleftrightarrow> stx_mode (stx sst) AND S_IFMT = S_IFDIR"
definition system_stat_test_ISLNK :: "system_stat_s \<Rightarrow> bool" where
  "system_stat_test_ISLNK sst \<longleftrightarrow> stx_mode (stx sst) AND S_IFMT = S_IFLNK"
definition system_stat_test_ISSOCK :: "system_stat_s \<Rightarrow> bool" where
  "system_stat_test_ISSOCK sst \<longleftrightarrow> stx_mode (stx sst) AND S_IFMT = S_IFSOCK"
definition system_stat_test_ISCHR :: "system_stat_s \<Rightarrow> bool" where
  "system_stat_test_ISCHR sst \<longleftrightarrow> stx_mode (stx sst) AND S_IFMT = S_IFCHR"
definition system_stat_test_ISBLK :: "system_stat_s \<Rightarrow> bool" where
  "system_stat_test_ISBLK sst \<longleftrightarrow> stx_mode (stx sst) AND S_IFMT = S_IFBLK"
definition system_stat_test_ISREG :: "system_stat_s \<Rightarrow> bool" where
  "system_stat_test_ISREG sst \<longleftrightarrow> stx_mode (stx sst) AND S_IFMT = S_IFREG"

definition role_perm :: "u32 \<Rightarrow> u32 \<Rightarrow> u32 \<Rightarrow> u32 \<Rightarrow> u32 \<Rightarrow> u32" where
  "role_perm perm r w x mode =
     mode OR (if perm AND 1 \<noteq> 0 then r else 0) OR (if perm AND 2 \<noteq> 0 then w else 0) OR
       (if perm AND 4 \<noteq> 0 then x else 0)"

definition enable_mode_permission :: "u32 \<Rightarrow> u32 \<Rightarrow> u32 \<Rightarrow> u32" where
  "enable_mode_permission mode role perm =
     (let mode = (if role AND 1 \<noteq> 0 then role_perm perm 0x100 0x80 0x40 mode else mode);
          mode = (if role AND 2 \<noteq> 0 then role_perm perm 0x20 0x10 0x8 mode else mode)
      in if role AND 4 \<noteq> 0 then role_perm perm 0x4 0x2 0x1 mode else mode)"

section \<open>Proofs\<close>

text \<open>What \<open>system_setstat\<close> promises: these calls in this order, each with the bits it takes care of.\<close>

definition size_calls :: "string \<Rightarrow> u32 \<Rightarrow> statx \<Rightarrow> (u32 \<times> syscall) list" where
  "size_calls path msk x =
     (if bit msk 9 then [(SYSTEM_STAT_SIZE, Truncate path (stx_size x))] else [])"

definition owner_calls :: "string \<Rightarrow> u32 \<Rightarrow> statx \<Rightarrow> (u32 \<times> syscall) list" where
  "owner_calls path msk x =
     (if bit msk 3 \<or> bit msk 4
      then [(msk AND (SYSTEM_STAT_UID OR SYSTEM_STAT_GID),
             Fchownat path (if bit msk 3 then stx_uid x else -1) (if bit msk 4 then stx_gid x else -1))]
      else [])"

definition mode_calls :: "string \<Rightarrow> u32 \<Rightarrow> statx \<Rightarrow> (u32 \<times> syscall) list" where
  "mode_calls path msk x =
     (if bit msk 1 then [(SYSTEM_STAT_MODE, Fchmodat path (stx_mode x AND NOT S_IFMT))] else [])"

definition time_calls :: "string \<Rightarrow> u32 \<Rightarrow> statx \<Rightarrow> (u32 \<times> syscall) list" where
  "time_calls path msk x =
     (let omit = \<lparr>tv_sec = 0, tv_nsec = UTIME_OMIT\<rparr>
      in if bit msk 5 \<or> bit msk 6
         then [(msk AND (SYSTEM_STAT_ATIME OR SYSTEM_STAT_MTIME),
                Utimensat path (if bit msk 5 then stx_atime x else omit) (if bit msk 6 then stx_mtime x else omit))]
         else [])"

definition setstat_calls :: "string \<Rightarrow> u32 \<Rightarrow> statx \<Rightarrow> (u32 \<times> syscall) list" where
  "setstat_calls path msk x =
     size_calls path msk x @ owner_calls path msk x @ mode_calls path msk x @ time_calls path msk x"

fun run_calls :: "'fs kernel \<Rightarrow> (u32 \<times> syscall) list \<Rightarrow> u32 \<Rightarrow> 'fs \<Rightarrow> u32 option \<times> u32 \<times> 'fs" where
  "run_calls sys [] acc fs = (None, acc, fs)"
| "run_calls sys ((b, c) # cs) acc fs =
     (case sys c fs of (Some e, fs') \<Rightarrow> (Some e, acc, fs') | (None, fs') \<Rightarrow> run_calls sys cs (acc OR b) fs')"

lemma run_calls_append:
  "run_calls sys (xs @ ys) acc fs =
     (case run_calls sys xs acc fs of (Some e, r) \<Rightarrow> (Some e, r) | (None, acc', fs') \<Rightarrow> run_calls sys ys acc' fs')"
  by (induction xs acc fs rule: run_calls.induct) (auto split: prod.splits option.splits)

text \<open>A part of \<open>system_setstat\<close> is a run of its calls.\<close>

definition run_block :: "'fs kernel \<Rightarrow> (u32 \<times> syscall) list \<Rightarrow> u32 \<Rightarrow> 'fs setting \<Rightarrow> 'fs set_result" where
  "run_block sys cs bits = (\<lambda>(msk, stat, fs).
     case run_calls sys cs (sst_mask stat) fs of
       (Some e, acc, fs') \<Rightarrow> Inl (e, stat\<lparr>sst_mask := acc\<rparr>, fs')
     | (None, acc, fs') \<Rightarrow> Inr (msk AND NOT bits, stat\<lparr>sst_mask := acc\<rparr>, fs'))"

lemma stat_bit_iffs:
  "w AND SYSTEM_STAT_SIZE = 0 \<longleftrightarrow> \<not> bit w 9" "w AND SYSTEM_STAT_MODE = 0 \<longleftrightarrow> \<not> bit w 1"
  "w AND SYSTEM_STAT_UID = 0 \<longleftrightarrow> \<not> bit w 3" "w AND SYSTEM_STAT_GID = 0 \<longleftrightarrow> \<not> bit w 4"
  "w AND SYSTEM_STAT_ATIME = 0 \<longleftrightarrow> \<not> bit w 5" "w AND SYSTEM_STAT_MTIME = 0 \<longleftrightarrow> \<not> bit w 6"
  using and_exp_eq_0_iff_not_bit [of w 9] and_exp_eq_0_iff_not_bit [of w 1] and_exp_eq_0_iff_not_bit [of w 3]
    and_exp_eq_0_iff_not_bit [of w 4] and_exp_eq_0_iff_not_bit [of w 5] and_exp_eq_0_iff_not_bit [of w 6]
  by (simp_all add: system_stat_bits)

lemma and_two_zero: "w AND (a OR b) = 0 \<longleftrightarrow> w AND a = 0 \<and> w AND b = 0" for w :: u32
  by (auto simp: bit_eq_iff bit_simps)

lemma and_pow2: "w AND 2 ^ n = (if bit w n then 2 ^ n else 0)" for w :: u32
  by (rule bit_word_eqI) (auto simp: bit_simps)

lemma stat_and:
  "w AND SYSTEM_STAT_SIZE = (if bit w 9 then SYSTEM_STAT_SIZE else 0)"
  "w AND SYSTEM_STAT_MODE = (if bit w 1 then SYSTEM_STAT_MODE else 0)"
  "w AND SYSTEM_STAT_UID = (if bit w 3 then SYSTEM_STAT_UID else 0)"
  "w AND SYSTEM_STAT_GID = (if bit w 4 then SYSTEM_STAT_GID else 0)"
  "w AND SYSTEM_STAT_ATIME = (if bit w 5 then SYSTEM_STAT_ATIME else 0)"
  "w AND SYSTEM_STAT_MTIME = (if bit w 6 then SYSTEM_STAT_MTIME else 0)"
  using and_pow2 [of w 9] and_pow2 [of w 1] and_pow2 [of w 3] and_pow2 [of w 4] and_pow2 [of w 5] and_pow2 [of w 6]
  by (simp_all add: system_stat_bits)

lemma stat_and_two:
  "w AND (SYSTEM_STAT_UID OR SYSTEM_STAT_GID) =
     (if bit w 3 then SYSTEM_STAT_UID else 0) OR (if bit w 4 then SYSTEM_STAT_GID else 0)"
  "w AND (SYSTEM_STAT_ATIME OR SYSTEM_STAT_MTIME) =
     (if bit w 5 then SYSTEM_STAT_ATIME else 0) OR (if bit w 6 then SYSTEM_STAT_MTIME else 0)"
  by (simp_all only: bit.conj_disj_distrib stat_and)

lemma and_not_unset:
  "\<not> bit w 9 \<Longrightarrow> w AND NOT SYSTEM_STAT_SIZE = w" "\<not> bit w 1 \<Longrightarrow> w AND NOT SYSTEM_STAT_MODE = w"
  "\<not> bit w 3 \<Longrightarrow> \<not> bit w 4 \<Longrightarrow> w AND NOT (SYSTEM_STAT_UID OR SYSTEM_STAT_GID) = w"
  "\<not> bit w 5 \<Longrightarrow> \<not> bit w 6 \<Longrightarrow> w AND NOT (SYSTEM_STAT_ATIME OR SYSTEM_STAT_MTIME) = w"
proof -
  have *: "w AND NOT b = w" if "w AND b = 0" for b
    using that by (auto simp: bit_eq_iff bit_simps)
  show "\<not> bit w 9 \<Longrightarrow> w AND NOT SYSTEM_STAT_SIZE = w" "\<not> bit w 1 \<Longrightarrow> w AND NOT SYSTEM_STAT_MODE = w"
    "\<not> bit w 3 \<Longrightarrow> \<not> bit w 4 \<Longrightarrow> w AND NOT (SYSTEM_STAT_UID OR SYSTEM_STAT_GID) = w"
    "\<not> bit w 5 \<Longrightarrow> \<not> bit w 6 \<Longrightarrow> w AND NOT (SYSTEM_STAT_ATIME OR SYSTEM_STAT_MTIME) = w"
    by (rule *; simp add: stat_bit_iffs and_two_zero)+
qed

lemma run_block_single:
  "run_block sys [(b, c)] bits (msk, stat, fs) =
     (case sys c fs of
        (Some e, fs') \<Rightarrow> Inl (e, stat, fs')
      | (None, fs') \<Rightarrow> Inr (msk AND NOT bits, sst_mark b stat, fs'))"
  by (simp add: run_block_def sst_mark_def split: prod.split option.split)

lemma run_block_Nil:
  "msk AND NOT bits = msk \<Longrightarrow> run_block sys [] bits (msk, stat, fs) = Inr (msk, stat, fs)"
  by (simp add: run_block_def)

lemma setstat_call_eq:
  "setstat_call sys c b (msk, stat, fs) = run_block sys [(b, c)] b (msk, stat, fs)"
  by (simp add: setstat_call_def run_block_single)

lemma size_block: "setstat_size sys path (msk, stat, fs) =
    run_block sys (size_calls path msk (stx stat)) SYSTEM_STAT_SIZE (msk, stat, fs)"
  by (simp add: setstat_size_def size_calls_def setstat_call_eq stat_bit_iffs run_block_Nil and_not_unset)

lemma mode_block: "setstat_mode sys path (msk, stat, fs) =
    run_block sys (mode_calls path msk (stx stat)) SYSTEM_STAT_MODE (msk, stat, fs)"
  by (simp add: setstat_mode_def mode_calls_def setstat_call_eq stat_bit_iffs run_block_Nil and_not_unset)

lemma owner_block: "setstat_owner sys path (msk, stat, fs) =
    run_block sys (owner_calls path msk (stx stat)) (SYSTEM_STAT_UID OR SYSTEM_STAT_GID) (msk, stat, fs)"
proof (cases "bit msk 3 \<or> bit msk 4")
  case True
  then have c: "msk AND (SYSTEM_STAT_UID OR SYSTEM_STAT_GID) \<noteq> 0" by (auto simp: and_two_zero stat_bit_iffs)
  have "setstat_owner sys path (msk, stat, fs) =
      run_block sys [((if bit msk 3 then SYSTEM_STAT_UID else 0) OR (if bit msk 4 then SYSTEM_STAT_GID else 0),
        Fchownat path (if bit msk 3 then stx_uid (stx stat) else -1) (if bit msk 4 then stx_gid (stx stat) else -1))]
        (SYSTEM_STAT_UID OR SYSTEM_STAT_GID) (msk, stat, fs)"
    by (simp only: setstat_owner_def c stat_bit_iffs Let_def run_block_single not_not simp_thms if_True prod.case)
  with True show ?thesis by (simp only: owner_calls_def stat_and_two if_True)
next
  case False
  then have c: "msk AND NOT (SYSTEM_STAT_UID OR SYSTEM_STAT_GID) = msk" by (intro and_not_unset) simp_all
  from False show ?thesis
    by (simp add: setstat_owner_def owner_calls_def and_two_zero stat_bit_iffs run_block_Nil [OF c])
qed

lemma time_block: "setstat_times sys path (msk, stat, fs) =
    run_block sys (time_calls path msk (stx stat)) (msk AND (SYSTEM_STAT_ATIME OR SYSTEM_STAT_MTIME)) (msk, stat, fs)"
proof (cases "bit msk 5 \<or> bit msk 6")
  case True
  then have c: "msk AND (SYSTEM_STAT_ATIME OR SYSTEM_STAT_MTIME) \<noteq> 0" by (auto simp: and_two_zero stat_bit_iffs)
  have "setstat_times sys path (msk, stat, fs) =
      (let omit = \<lparr>tv_sec = 0, tv_nsec = UTIME_OMIT\<rparr>;
           todo = (if bit msk 5 then SYSTEM_STAT_ATIME else 0) OR (if bit msk 6 then SYSTEM_STAT_MTIME else 0)
       in run_block sys [(todo, Utimensat path (if bit msk 5 then stx_atime (stx stat) else omit)
            (if bit msk 6 then stx_mtime (stx stat) else omit))] todo (msk, stat, fs))"
    by (simp only: setstat_times_def c stat_bit_iffs Let_def setstat_call_eq not_not simp_thms if_True prod.case)
  with True show ?thesis by (simp only: time_calls_def stat_and_two if_True Let_def)
next
  case False
  then have c: "msk AND (SYSTEM_STAT_ATIME OR SYSTEM_STAT_MTIME) = 0" by (auto simp: and_two_zero stat_bit_iffs)
  then have "msk AND NOT (msk AND (SYSTEM_STAT_ATIME OR SYSTEM_STAT_MTIME)) = msk" by simp
  with c False show ?thesis by (simp add: setstat_times_def time_calls_def run_block_Nil)
qed

text \<open>Two parts after each other run their calls after each other.\<close>

lemma run_block_append:
  assumes "\<And>msk' stat' fs'. msk' = msk AND NOT b1 \<Longrightarrow> stx stat' = stx stat \<Longrightarrow>
      f (msk', stat', fs') = run_block sys ys b2 (msk', stat', fs')"
  shows "set_then (run_block sys xs b1 (msk, stat, fs)) f = run_block sys (xs @ ys) (b1 OR b2) (msk, stat, fs)"
proof (cases "run_calls sys xs (sst_mask stat) fs")
  case (fields e acc fs')
  have n: "(msk AND NOT b1) AND NOT b2 = msk AND NOT (b1 OR b2)" by (simp add: and.assoc)
  show ?thesis
  proof (cases e)
    case None
    have "set_then (run_block sys xs b1 (msk, stat, fs)) f = f (msk AND NOT b1, stat\<lparr>sst_mask := acc\<rparr>, fs')"
      using fields None by (simp add: set_then_def run_block_def)
    also have "\<dots> = run_block sys ys b2 (msk AND NOT b1, stat\<lparr>sst_mask := acc\<rparr>, fs')"
      by (rule assms) simp_all
    also have "\<dots> = run_block sys (xs @ ys) (b1 OR b2) (msk, stat, fs)"
      using fields None n by (simp add: run_block_def run_calls_append split: prod.split option.split)
    finally show ?thesis .
  next
    case (Some x)
    with fields show ?thesis by (simp add: set_then_def run_block_def run_calls_append)
  qed
qed

lemma stx_sst_mask: "stx (stat\<lparr>sst_mask := m\<rparr>) = stx stat"
  by simp

lemma calls_other_bits:
  "owner_calls path (msk AND NOT SYSTEM_STAT_SIZE) x = owner_calls path msk x"
  "mode_calls path (msk AND NOT (SYSTEM_STAT_SIZE OR (SYSTEM_STAT_UID OR SYSTEM_STAT_GID))) x = mode_calls path msk x"
  "time_calls path (msk AND NOT ((SYSTEM_STAT_SIZE OR (SYSTEM_STAT_UID OR SYSTEM_STAT_GID)) OR SYSTEM_STAT_MODE)) x =
     time_calls path msk x"
proof -
  let ?m = "msk AND NOT SYSTEM_STAT_SIZE"
  let ?n = "msk AND NOT ((SYSTEM_STAT_SIZE OR (SYSTEM_STAT_UID OR SYSTEM_STAT_GID)) OR SYSTEM_STAT_MODE)"
  have b: "bit ?m 3 = bit msk 3" "bit ?m 4 = bit msk 4" "bit ?n 5 = bit msk 5" "bit ?n 6 = bit msk 6"
    by (simp_all add: bit_simps system_stat_bits)
  show "owner_calls path ?m x = owner_calls path msk x" by (simp only: owner_calls_def b stat_and_two)
  show "time_calls path ?n x = time_calls path msk x" by (simp only: time_calls_def b stat_and_two)
  show "mode_calls path (msk AND NOT (SYSTEM_STAT_SIZE OR (SYSTEM_STAT_UID OR SYSTEM_STAT_GID))) x = mode_calls path msk x"
    by (simp add: mode_calls_def bit_simps system_stat_bits)
qed

lemma run_calls_bits: "run_calls sys cs acc fs = (None, bits, fs') \<Longrightarrow> bits = foldl (OR) acc (map fst cs)"
  by (induction sys cs acc fs rule: run_calls.induct) (auto split: prod.splits option.splits)

lemma run_calls_error:
  "\<forall>c fs. fst (sys c fs) \<noteq> Some 0 \<Longrightarrow> run_calls sys cs acc fs = (e, bits, fs') \<Longrightarrow> e \<noteq> Some 0"
  by (induction sys cs acc fs rule: run_calls.induct) (auto split: prod.splits option.splits, metis fst_conv)

lemma setstat_calls_bits:
  "foldl (OR) 0 (map fst (setstat_calls path msk x)) = msk AND 0x27A"
proof -
  have "foldl (OR) 0 (map fst (setstat_calls path msk x)) =
      (if bit msk 9 then SYSTEM_STAT_SIZE else 0) OR (if bit msk 3 then SYSTEM_STAT_UID else 0) OR
      (if bit msk 4 then SYSTEM_STAT_GID else 0) OR (if bit msk 1 then SYSTEM_STAT_MODE else 0) OR
      (if bit msk 5 then SYSTEM_STAT_ATIME else 0) OR (if bit msk 6 then SYSTEM_STAT_MTIME else 0)"
    unfolding setstat_calls_def size_calls_def owner_calls_def mode_calls_def time_calls_def stat_and_two Let_def
    by (simp add: or.assoc)
  also have "\<dots> = msk AND (SYSTEM_STAT_SIZE OR SYSTEM_STAT_UID OR SYSTEM_STAT_GID OR SYSTEM_STAT_MODE OR
      SYSTEM_STAT_ATIME OR SYSTEM_STAT_MTIME)"
    by (simp only: bit.conj_disj_distrib stat_and)
  also have "\<dots> = msk AND 0x27A" by (simp add: system_stat_bits)
  finally show ?thesis .
qed

lemma setstat_runs:
  "system_setstat sys path msk stat fs =
     (case run_calls sys (setstat_calls path msk (stx stat)) 0 fs of
        (Some e, bits, fs') \<Rightarrow> (- uint e, stat\<lparr>sst_mask := bits\<rparr>, fs')
      | (None, bits, fs') \<Rightarrow> (0, stat\<lparr>sst_mask := bits\<rparr>, fs'))"
proof -
  let ?S = SYSTEM_STAT_SIZE and ?O = "SYSTEM_STAT_UID OR SYSTEM_STAT_GID" and ?M = SYSTEM_STAT_MODE
  let ?x = "stx stat"
  have 1: "set_then (setstat_size sys path (msk, stat\<lparr>sst_mask := 0\<rparr>, fs)) (setstat_owner sys path) =
      run_block sys (size_calls path msk ?x @ owner_calls path msk ?x) (?S OR ?O) (msk, stat\<lparr>sst_mask := 0\<rparr>, fs)"
    unfolding size_block by (subst run_block_append) (simp_all add: owner_block calls_other_bits)
  have 2: "set_then (set_then (setstat_size sys path (msk, stat\<lparr>sst_mask := 0\<rparr>, fs)) (setstat_owner sys path))
        (setstat_mode sys path) =
      run_block sys ((size_calls path msk ?x @ owner_calls path msk ?x) @ mode_calls path msk ?x) ((?S OR ?O) OR ?M)
        (msk, stat\<lparr>sst_mask := 0\<rparr>, fs)"
    unfolding 1 by (subst run_block_append) (simp_all only: mode_block calls_other_bits stx_sst_mask)
  have "\<exists>b. set_then (set_then (set_then (setstat_size sys path (msk, stat\<lparr>sst_mask := 0\<rparr>, fs))
        (setstat_owner sys path)) (setstat_mode sys path)) (setstat_times sys path) =
      run_block sys (((size_calls path msk ?x @ owner_calls path msk ?x) @ mode_calls path msk ?x) @
        time_calls path msk ?x) b (msk, stat\<lparr>sst_mask := 0\<rparr>, fs)"
    unfolding 2
    by (rule exI, rule run_block_append) (simp only: time_block calls_other_bits stx_sst_mask)
  then show ?thesis
    by (auto simp: system_setstat_def setstat_calls_def run_block_def split: prod.splits option.splits)
qed

lemma split_mode:
  "((t AND k) OR (m AND NOT k)) AND k = t AND k" "((t AND k) OR (m AND NOT k)) AND NOT k = m AND NOT k"
  for t m k :: u16
  by (rule bit_word_eqI; auto simp: bit_simps)+

lemma ceil_nat:
  fixes n b :: nat
  assumes "0 < b"
  shows "n \<le> (n div b + (if n mod b = 0 then 0 else 1)) * b"
    "0 < n \<Longrightarrow> (n div b + (if n mod b = 0 then 0 else 1) - 1) * b < n"
proof -
  obtain q r where n: "n = q * b + r" "r < b" "n div b = q" "n mod b = r"
    using assms by (metis div_mult_mod_eq mod_less_divisor)
  show "n \<le> (n div b + (if n mod b = 0 then 0 else 1)) * b"
    using n(1,2) unfolding n(3,4) by (cases "r = 0") simp_all
  show "(n div b + (if n mod b = 0 then 0 else 1) - 1) * b < n" if "0 < n"
    using n(1) assms that unfolding n(3,4) by (cases q; cases "r = 0") simp_all
qed

lemma unat_calc_amount_blocks:
  assumes "blksize \<noteq> 0" and "unat sz \<le> 4294967295 * unat blksize"
  shows "unat (calc_amount_blocks sz blksize) =
    unat sz div unat blksize + (if unat sz mod unat blksize = 0 then 0 else 1)"
proof -
  let ?q = "unat sz div unat blksize" and ?c = "if unat sz mod unat blksize = 0 then 0 else (1 :: nat)"
  have pos: "0 < unat blksize" using assms(1) by (simp add: unat_gt_0)
  have q: "?q + ?c < 4294967296"
  proof (cases "?q = 4294967295")
    case True
    with assms(2) have "unat sz mod unat blksize = 0"
      by (metis div_mult_mod_eq le_add_same_cancel1 le_zero_eq add_le_same_cancel1)
    with True show ?thesis by simp
  next
    case False
    have "?q \<le> 4294967295" using div_le_mono [OF assms(2), of "unat blksize"] pos by simp
    with False show ?thesis by simp
  qed
  have b: "unat (ucast blksize :: u64) = unat blksize"
    using unat_lt_u32 [of blksize] by (simp add: unsigned_ucast_eq take_bit_nat_eq_self)
  have m: "(sz mod ucast blksize = 0) = (unat sz mod unat blksize = 0)"
    by (simp add: unat_eq_zero [symmetric] unat_mod_distrib b del: unat_eq_zero)
  have "?q < 2 ^ 32" using q by (simp split: if_splits)
  then have d: "unat (ucast (sz div ucast blksize) :: u32) = ?q"
    by (simp only: unsigned_ucast_eq [of "sz div ucast blksize"] unat_div_distrib b len_num0 len_bit0 len_num1)
      (simp add: take_bit_nat_eq_self)
  have "unat (ucast (sz div ucast blksize) + (if sz mod ucast blksize = 0 then 0 else 1) :: u32) = ?q + ?c"
    using q d m by (subst unat_u32_plus) (simp_all split: if_splits)
  then show ?thesis by (simp only: calc_amount_blocks_def)
qed

section \<open>Properties\<close>

text \<open>
  C38: \<open>system_setstat\<close> performs, in this order and no other calls, the change of the size, the owner, the
  mode and the times the mask asks for, each with the values of the attributes; it stops at the first
  call that fails and returns its error; and the mask it leaves in the attributes has exactly the bits of
  the calls that succeeded.
\<close>

theorem system_setstat_calls:
  "system_setstat sys path msk stat fs =
     (case run_calls sys (setstat_calls path msk (stx stat)) 0 fs of
        (Some e, bits, fs') \<Rightarrow> (- uint e, stat\<lparr>sst_mask := bits\<rparr>, fs')
      | (None, bits, fs') \<Rightarrow> (0, stat\<lparr>sst_mask := bits\<rparr>, fs'))"
  by (rule setstat_runs)

text \<open>
  When \<open>system_setstat\<close> succeeds, with a kernel that has no error number 0, the mask it leaves tells
  that everything asked for and possible has been done: size, owner, group, mode and the two times. Other
  bits, the change time for one, are silently left out.
\<close>

lemma system_setstat_success:
  assumes "\<forall>c fs. fst (sys c fs) \<noteq> Some 0" and "system_setstat sys path msk stat fs = (0, stat', fs')"
  shows "stx stat' = stx stat \<and> sst_mask stat' = msk AND 0x27A"
proof -
  obtain e bits fs1 where r: "run_calls sys (setstat_calls path msk (stx stat)) 0 fs = (e, bits, fs1)"
    by (metis prod_cases3)
  have "e = None"
    using assms(2) r run_calls_error [OF assms(1) r] by (auto simp: setstat_runs uint_0_iff split: option.splits)
  with assms(2) r have "stat' = stat\<lparr>sst_mask := bits\<rparr>" by (simp add: setstat_runs)
  moreover have "bits = msk AND 0x27A"
    using run_calls_bits [OF r [unfolded \<open>e = None\<close>]] by (simp only: setstat_calls_bits)
  ultimately show ?thesis by simp
qed

definition stat_0 :: system_stat_s where
  "stat_0 = \<lparr>sst_flags = 0, sst_mask = 0,
     stx = \<lparr>stx_mask = 0, stx_blksize = 4096, stx_nlink = 1, stx_uid = 1000, stx_gid = 100, stx_mode = 0x81A4,
       stx_ino = 7, stx_size = 4097, stx_blocks = 0,
       stx_atime = \<lparr>tv_sec = 0, tv_nsec = 0\<rparr>, stx_btime = \<lparr>tv_sec = 0, tv_nsec = 0\<rparr>,
       stx_ctime = \<lparr>tv_sec = 0, tv_nsec = 0\<rparr>, stx_mtime = \<lparr>tv_sec = 0, tv_nsec = 0\<rparr>,
       stx_rdev_major = 0, stx_rdev_minor = 0, stx_dev_major = 0, stx_dev_minor = 0\<rparr>\<rparr>"

text \<open>A kernel that records the calls.\<close>

definition log_kernel :: "syscall list kernel" where
  "log_kernel c fs = (None, fs @ [c])"

lemma system_setstat_success_example:
  "\<exists>stat'. system_setstat log_kernel ''/f'' 0x282 stat_0 [] =
       (0, stat', [Truncate ''/f'' 4097, Fchmodat ''/f'' 0x1A4]) \<and> sst_mask stat' = 0x202"
proof -
  have "\<exists>stat'. system_setstat log_kernel ''/f'' 0x282 stat_0 [] =
      (0, stat', [Truncate ''/f'' 4097, Fchmodat ''/f'' 0x1A4])"
    by (simp add: setstat_runs setstat_calls_def size_calls_def owner_calls_def mode_calls_def time_calls_def
        log_kernel_def stat_0_def S_IFMT_def)
  then show ?thesis using system_setstat_success [of log_kernel "''/f''" "0x282" stat_0 "[]"]
    by (auto simp: log_kernel_def)
qed

text \<open>
  The type and the permission bits of a file live in one word and do not disturb each other: setting
  the one gives it the new value, leaves the other, keeps every other attribute, and marks exactly
  itself as set.
\<close>

lemma stat_type_mode:
  "get_type_system_stat (set_type_system_stat stat t) = t AND S_IFMT \<and>
   get_mode_system_stat (set_type_system_stat stat t) = get_mode_system_stat stat \<and>
   get_mode_system_stat (set_mode_system_stat stat m) = m AND NOT S_IFMT \<and>
   get_type_system_stat (set_mode_system_stat stat m) = get_type_system_stat stat \<and>
   sst_mask (set_type_system_stat stat t) = sst_mask stat OR SYSTEM_STAT_TYPE \<and>
   sst_mask (set_mode_system_stat stat m) = sst_mask stat OR SYSTEM_STAT_MODE \<and>
   stx (set_type_system_stat (set_mode_system_stat stat m) t) =
     (stx stat)\<lparr>stx_mode := (t AND S_IFMT) OR (m AND NOT S_IFMT)\<rparr>"
  by (simp add: get_type_system_stat_def get_mode_system_stat_def set_type_system_stat_def
      set_mode_system_stat_def sst_mark_def stx_upd_def split_mode)

text \<open>
  The number of blocks is the size divided by the size of a block, rounded up, as long as it fits in
  32 bits.
\<close>

lemma calc_amount_blocks_ceiling:
  assumes "blksize \<noteq> 0" and "unat sz \<le> 4294967295 * unat blksize"
  shows "unat sz \<le> unat (calc_amount_blocks sz blksize) * unat blksize \<and>
    (0 < unat sz \<longrightarrow> (unat (calc_amount_blocks sz blksize) - 1) * unat blksize < unat sz)"
proof -
  have "0 < unat blksize" using assms(1) by (simp add: unat_gt_0)
  from ceil_nat [OF this, of "unat sz"] show ?thesis
    unfolding unat_calc_amount_blocks [OF assms] by blast
qed

lemma calc_amount_blocks_ceiling_example:
  "unat (4097 :: u64) \<le> unat (calc_amount_blocks 4097 4096) * 4096 \<and>
   (unat (calc_amount_blocks 4097 4096) - 1) * 4096 < (4097 :: nat)"
  using calc_amount_blocks_ceiling [of 4096 4097] by simp

end
