(* ===== verification/Sftp_Attr.thy ===== *)
theory Sftp_Attr
  imports Attr_Buffer System_Stat
begin

text \<open>
  Reading and writing the attributes of a file in SFTP messages, one attribute at a time: the
  callbacks of \<open>src/lib/sftp/attr/read-attr-v0*.c\<close> and \<open>write-attr-v0*.c\<close>, and the types of
  \<open>src/lib/sftp/attr-context.h\<close>. The mapping between the users and groups of the two sides, a table of
  function pointers in the code, is an argument.

  The table of attributes holds pointers to the callbacks; here it holds their names, and
  \<open>call_attr_cb\<close> calls the one that is named.
\<close>

section \<open>Types\<close>

record sftp_valid_s =
  sv_flags :: u32
  sv_mask :: u32

definition SFTP_VALID_INIT :: sftp_valid_s where "SFTP_VALID_INIT = \<lparr>sv_flags = 0, sv_mask = 0\<rparr>"

record rw_attr_result_s =
  rr_flags :: u32
  rr_valid :: sftp_valid_s
  rr_todo :: u32
  rr_done :: u32
  rr_ignored :: u32
  rr_stat_mask :: u32

definition RW_ATTR_RESULT_INIT :: rw_attr_result_s where
  "RW_ATTR_RESULT_INIT = \<lparr>rr_flags = 0, rr_valid = SFTP_VALID_INIT, rr_todo = 0, rr_done = 0, rr_ignored = 0,
     rr_stat_mask = 0\<rparr>"

definition RW_ATTR_RESULT_FLAG_READ :: u32 where "RW_ATTR_RESULT_FLAG_READ = 1"
definition RW_ATTR_RESULT_FLAG_WRITE :: u32 where "RW_ATTR_RESULT_FLAG_WRITE = 2"
definition RW_ATTR_RESULT_FLAG_CACHED :: u32 where "RW_ATTR_RESULT_FLAG_CACHED = 4"

text \<open>
  The mapping callbacks: the local id of a user or group with the id and the name used in the protocol,
  and the id and the name (written to the place given, of which the space is the second argument) used
  in the protocol for a local id.
\<close>

record net_mapcb_s =
  get_user_p2l :: "u32 \<Rightarrow> u8 list \<Rightarrow> u32"
  get_group_p2l :: "u32 \<Rightarrow> u8 list \<Rightarrow> u32"
  get_user_l2p :: "u32 \<Rightarrow> u32 \<Rightarrow> u32 \<times> u8 list"
  get_group_l2p :: "u32 \<Rightarrow> u32 \<Rightarrow> u32 \<times> u8 list"

datatype attr_cb =
    CB_null | CB_zero
  | R_size_v03 | R_uidgid_v03 | R_permissions_v03 | R_acmodtime_v03 | R_extensions_v03
  | W_size_v03 | W_uidgid_v03 | W_permissions_v03 | W_acmodtime_v03
  | R_type_v04 | R_ownergroup_v04 | R_permissions_v04 | R_accesstime_v04 | R_accesstime_n_v04
  | R_createtime_v04 | R_createtime_n_v04 | R_modifytime_v04 | R_modifytime_n_v04 | R_acl_v04
  | W_type_v04 | W_ownergroup_v04 | W_permissions_v04 | W_accesstime_v04 | W_accesstime_n_v04
  | W_modifytime_v04 | W_modifytime_n_v04
  | R_type_v05 | R_bits_v05 | W_type_v05
  | R_type_v06 | R_alloc_size_v06 | R_changetime_v06 | R_changetime_n_v06 | R_acl_v06 | R_bits_v06
  | R_text_hint_v06 | R_mime_type_v06 | R_link_count_v06 | R_untranslated_name_v06
  | W_type_v06 | W_changetime_v06 | W_changetime_n_v06

type_synonym attr_io = "attr_buffer_s \<Rightarrow> system_stat_s \<Rightarrow> (attr_buffer_s \<times> system_stat_s) option"

section \<open>Version 3\<close>

definition S_PERM :: u32 where "S_PERM = 0x1FF"

definition read_attr_zero :: attr_io where "read_attr_zero ab stat = Some (ab, stat)"

definition write_attr_zero :: attr_io where "write_attr_zero ab stat = Some (ab, stat)"

definition type_mapping_v03 :: "u16 list" where
  "type_mapping_v03 = [0, S_IFREG, S_IFDIR, S_IFLNK, 0]"

definition read_attr_type_v03 :: attr_io where
  "read_attr_type_v03 ab stat = do {
     (tmp, ab) \<leftarrow> ab_read_uchar ab;
     let typ = (if tmp < 5 then type_mapping_v03 ! unat tmp else 0);
     Some (ab, set_type_system_stat stat typ) }"

definition read_attr_size_v03 :: attr_io where
  "read_attr_size_v03 ab stat = do {
     (sz, ab) \<leftarrow> ab_read_uint64 ab; Some (ab, set_size_system_stat stat sz) }"

definition read_attr_uidgid_v03 :: "net_mapcb_s \<Rightarrow> attr_io" where
  "read_attr_uidgid_v03 m ab stat = do {
     (uid, ab) \<leftarrow> ab_read_uint32 ab;
     let stat = set_uid_system_stat stat (get_user_p2l m uid []);
     (gid, ab) \<leftarrow> ab_read_uint32 ab;
     Some (ab, set_gid_system_stat stat (get_group_p2l m gid [])) }"

definition read_attr_permissions_v03 :: attr_io where
  "read_attr_permissions_v03 ab stat = do {
     (mode, ab) \<leftarrow> ab_read_uint32 ab;
     let typ = ucast (mode AND ucast S_IFMT);
     let perm = ucast (mode AND S_PERM);
     Some (ab, set_mode_system_stat (set_type_system_stat stat typ) perm) }"

definition read_attr_acmodtime_v03 :: attr_io where
  "read_attr_acmodtime_v03 ab stat = do {
     (sec, ab) \<leftarrow> ab_read_uint32 ab;
     let stat = set_atime_system_stat stat (SYSTEM_TIME_INIT\<lparr>st_sec := uint sec\<rparr>);
     (sec, ab) \<leftarrow> ab_read_uint32 ab;
     Some (ab, set_mtime_system_stat stat (SYSTEM_TIME_INIT\<lparr>st_sec := uint sec\<rparr>)) }"

text \<open>A string of which nothing is kept.\<close>

definition skip_string :: "attr_buffer_s \<Rightarrow> attr_buffer_s option" where
  "skip_string ab = do {
     (n, s, ab, p) \<leftarrow> ab_read_string ab SSH_STRING_INIT (\<lambda>ab s p. Some (ab, p)) (); Some ab }"

fun extensions_loop :: "nat \<Rightarrow> attr_buffer_s \<Rightarrow> attr_buffer_s option" where
  "extensions_loop 0 ab = Some ab"
| "extensions_loop (Suc n) ab = do { ab \<leftarrow> skip_string ab; ab \<leftarrow> skip_string ab; extensions_loop n ab }"

definition read_attr_extensions_v03 :: attr_io where
  "read_attr_extensions_v03 ab stat = do {
     (count, ab) \<leftarrow> ab_read_uint32 ab;
     ab \<leftarrow> extensions_loop (unat count) ab;
     Some (ab, stat) }"

definition read_name_name_response_v03 :: "attr_buffer_s \<Rightarrow> ssh_string_s \<Rightarrow> (ssh_string_s \<times> attr_buffer_s) option" where
  "read_name_name_response_v03 ab name = do {
     (n, name, ab, p) \<leftarrow> ab_read_string ab name (\<lambda>ab s p. Some (ab, p)) ();
     ab \<leftarrow> skip_string ab;
     Some (name, ab) }"

definition write_attr_size_v03 :: attr_io where
  "write_attr_size_v03 ab stat = do {
     ab \<leftarrow> ab_write_uint64 ab (get_size_system_stat stat); Some (ab, stat) }"

text \<open>Mapping by id gives no place for a name.\<close>

definition write_attr_uidgid_v03 :: "net_mapcb_s \<Rightarrow> attr_io" where
  "write_attr_uidgid_v03 m ab stat = do {
     ab \<leftarrow> ab_write_uint32 ab (fst (get_user_l2p m (get_uid_system_stat stat) 0));
     ab \<leftarrow> ab_write_uint32 ab (fst (get_group_l2p m (get_gid_system_stat stat) 0));
     Some (ab, stat) }"

definition write_attr_permissions_v03 :: attr_io where
  "write_attr_permissions_v03 ab stat = do {
     let perm = ucast (get_mode_system_stat stat) AND S_PERM;
     let typ = ucast (get_type_system_stat stat);
     ab \<leftarrow> ab_write_uint32 ab (perm OR typ);
     Some (ab, stat) }"

definition write_attr_acmodtime_v03 :: attr_io where
  "write_attr_acmodtime_v03 ab stat = do {
     ab \<leftarrow> ab_write_uint32 ab (word_of_int (st_sec (get_atime_system_stat stat)));
     ab \<leftarrow> ab_write_uint32 ab (word_of_int (st_sec (get_mtime_system_stat stat)));
     Some (ab, stat) }"

definition write_name_name_response_v03 :: "attr_buffer_s \<Rightarrow> ssh_string_s \<Rightarrow> attr_buffer_s option" where
  "write_name_name_response_v03 ab name = do { ab \<leftarrow> ab_write_uint32 ab 0; ab_write_string ab name }"

section \<open>Version 4\<close>

definition type_mapping_v04 :: "u16 list" where
  "type_mapping_v04 = [0, S_IFREG, S_IFDIR, S_IFLNK, 0, 0]"

definition read_attr_type_v04 :: attr_io where
  "read_attr_type_v04 ab stat = do {
     (tmp, ab) \<leftarrow> ab_read_uchar ab;
     let typ = (if tmp < 5 then type_mapping_v04 ! unat tmp else 0);
     Some (ab, set_type_system_stat stat typ) }"

definition attr_cb_user :: "net_mapcb_s \<Rightarrow> attr_buffer_s \<Rightarrow> ssh_string_s \<Rightarrow> system_stat_s \<Rightarrow>
    (attr_buffer_s \<times> system_stat_s) option" where
  "attr_cb_user m ab s stat = do {
     name \<leftarrow> ss_bytes s; Some (ab, set_uid_system_stat stat (get_user_p2l m 0 name)) }"

definition attr_cb_group :: "net_mapcb_s \<Rightarrow> attr_buffer_s \<Rightarrow> ssh_string_s \<Rightarrow> system_stat_s \<Rightarrow>
    (attr_buffer_s \<times> system_stat_s) option" where
  "attr_cb_group m ab s stat = do {
     name \<leftarrow> ss_bytes s; Some (ab, set_gid_system_stat stat (get_group_p2l m 0 name)) }"

definition read_attr_ownergroup_v04 :: "net_mapcb_s \<Rightarrow> attr_io" where
  "read_attr_ownergroup_v04 m ab stat = do {
     (n, s, ab, stat) \<leftarrow> ab_read_string ab SSH_STRING_INIT (attr_cb_user m) stat;
     (n, s, ab, stat) \<leftarrow> ab_read_string ab SSH_STRING_INIT (attr_cb_group m) stat;
     Some (ab, stat) }"

definition read_attr_permissions_v04 :: attr_io where
  "read_attr_permissions_v04 ab stat = do {
     (mode, ab) \<leftarrow> ab_read_uint32 ab; Some (ab, set_mode_system_stat stat (ucast (mode AND S_PERM))) }"

definition read_attr_accesstime_v04 :: attr_io where
  "read_attr_accesstime_v04 ab stat = do {
     (sec, ab) \<leftarrow> ab_read_int64 ab; Some (ab, set_atime_sec_system_stat stat (sint sec)) }"

definition read_attr_accesstime_n_v04 :: attr_io where
  "read_attr_accesstime_n_v04 ab stat = do {
     (nsec, ab) \<leftarrow> ab_read_uint32 ab; Some (ab, set_atime_nsec_system_stat stat nsec) }"

definition read_attr_createtime_v04 :: attr_io where
  "read_attr_createtime_v04 ab stat = do {
     (sec, ab) \<leftarrow> ab_read_int64 ab; Some (ab, set_btime_sec_system_stat stat (sint sec)) }"

definition read_attr_createtime_n_v04 :: attr_io where
  "read_attr_createtime_n_v04 ab stat = do {
     (nsec, ab) \<leftarrow> ab_read_uint32 ab; Some (ab, set_btime_nsec_system_stat stat nsec) }"

definition read_attr_modifytime_v04 :: attr_io where
  "read_attr_modifytime_v04 ab stat = do {
     (sec, ab) \<leftarrow> ab_read_int64 ab; Some (ab, set_mtime_sec_system_stat stat (sint sec)) }"

definition read_attr_modifytime_n_v04 :: attr_io where
  "read_attr_modifytime_n_v04 ab stat = do {
     (nsec, ab) \<leftarrow> ab_read_uint32 ab; Some (ab, set_mtime_nsec_system_stat stat nsec) }"

text \<open>
  The walk over the entries of an access control list: \<open>pos\<close> is an offset from the start of the block,
  in the memory the block lies in. The number of bytes left is counted but never looked at.
\<close>

fun acl_loop :: "nat \<Rightarrow> mem \<Rightarrow> nat \<Rightarrow> nat option" where
  "acl_loop 0 m pos = Some pos"
| "acl_loop (Suc n) m pos = do {
     ace_type \<leftarrow> get_uint32 m pos;
     ace_flag \<leftarrow> get_uint32 m (pos + 4);
     ace_mask \<leftarrow> get_uint32 m (pos + 8);
     len \<leftarrow> get_uint32 m (pos + 12);
     acl_loop n m (pos + 16 + unat len) }"

definition attr_acl_string_cb :: "attr_buffer_s \<Rightarrow> ssh_string_s \<Rightarrow> unit \<Rightarrow> (attr_buffer_s \<times> unit) option" where
  "attr_acl_string_cb ab aclblock p = do {
     m \<leftarrow> ss_target aclblock;
     ace_count \<leftarrow> get_uint32 m 0;
     pos \<leftarrow> acl_loop (unat ace_count) m 4;
     Some (ab, p) }"

definition read_attr_acl_v04 :: attr_io where
  "read_attr_acl_v04 ab stat = do {
     (n, s, ab, p) \<leftarrow> ab_read_string ab SSH_STRING_INIT attr_acl_string_cb (); Some (ab, stat) }"

definition read_name_name_response_v04 :: "attr_buffer_s \<Rightarrow> ssh_string_s \<Rightarrow> (ssh_string_s \<times> attr_buffer_s) option" where
  "read_name_name_response_v04 ab name = do {
     (n, name, ab, p) \<leftarrow> ab_read_string ab name (\<lambda>ab s p. Some (ab, p)) (); Some (name, ab) }"

text \<open>The types in the messages, and the directory entry type of a file type.\<close>

definition IFTODT :: "u16 \<Rightarrow> u16" where "IFTODT mode = drop_bit 12 (mode AND S_IFMT)"

definition type_reverse_v04 :: "u8 list" where
  "type_reverse_v04 = [5, 0, 0, 5, 2, 5, 0, 5, 1, 5, 3, 5, 0]"

definition write_attr_type :: "u8 list \<Rightarrow> attr_io" where
  "write_attr_type type_reverse ab stat = do {
     let typ = IFTODT (get_type_system_stat stat);
     ab \<leftarrow> ab_write_uchar ab (if typ < 13 then type_reverse ! unat typ else 5);
     Some (ab, stat) }"

definition write_attr_type_v04 :: attr_io where "write_attr_type_v04 = write_attr_type type_reverse_v04"

text \<open>The name is written by the mapping, four bytes past the cursor; then its length, and it is skipped.\<close>

definition write_mapped_name :: "(u32 \<Rightarrow> u32 \<Rightarrow> u32 \<times> u8 list) \<Rightarrow> u32 \<Rightarrow> attr_buffer_s \<Rightarrow> attr_buffer_s option" where
  "write_mapped_name l2p localid ab = do {
     buffer \<leftarrow> ab_buffer ab;
     let name = snd (l2p localid (ab_left ab - 4));
     buffer \<leftarrow> mem_store buffer (unat (ab_pos ab) + 4) name;
     ab \<leftarrow> ab_write_uint32 (ab\<lparr>ab_buffer := Some buffer\<rparr>) (of_nat (length name));
     ab_write_skip ab (of_nat (length name)) }"

definition write_attr_ownergroup_v04 :: "net_mapcb_s \<Rightarrow> attr_io" where
  "write_attr_ownergroup_v04 m ab stat = do {
     ab \<leftarrow> write_mapped_name (get_user_l2p m) (get_uid_system_stat stat) ab;
     ab \<leftarrow> write_mapped_name (get_group_l2p m) (get_gid_system_stat stat) ab;
     Some (ab, stat) }"

definition write_attr_permissions_v04 :: attr_io where
  "write_attr_permissions_v04 ab stat = do {
     ab \<leftarrow> ab_write_uint32 ab (ucast (get_mode_system_stat stat) AND S_PERM); Some (ab, stat) }"

definition write_attr_accesstime_v04 :: attr_io where
  "write_attr_accesstime_v04 ab stat = do {
     ab \<leftarrow> ab_write_int64 ab (word_of_int (get_atime_sec_system_stat stat)); Some (ab, stat) }"

definition write_attr_accesstime_n_v04 :: attr_io where
  "write_attr_accesstime_n_v04 ab stat = do {
     ab \<leftarrow> ab_write_uint32 ab (get_atime_nsec_system_stat stat); Some (ab, stat) }"

definition write_attr_modifytime_v04 :: attr_io where
  "write_attr_modifytime_v04 ab stat = do {
     ab \<leftarrow> ab_write_int64 ab (word_of_int (get_mtime_sec_system_stat stat)); Some (ab, stat) }"

definition write_attr_modifytime_n_v04 :: attr_io where
  "write_attr_modifytime_n_v04 ab stat = do {
     ab \<leftarrow> ab_write_uint32 ab (get_mtime_nsec_system_stat stat); Some (ab, stat) }"

definition write_name_name_response_v04 :: "attr_buffer_s \<Rightarrow> ssh_string_s \<Rightarrow> attr_buffer_s option" where
  "write_name_name_response_v04 ab name = ab_write_string ab name"

section \<open>Versions 5 and 6\<close>

definition S_IFIFO :: u16 where "S_IFIFO = 0x1000"

definition type_mapping_v05 :: "u16 list" where
  "type_mapping_v05 = [0, S_IFREG, S_IFDIR, S_IFLNK, 0, 0, S_IFSOCK, S_IFCHR, S_IFBLK, S_IFIFO]"

definition read_attr_type_v05 :: attr_io where
  "read_attr_type_v05 ab stat = do {
     (tmp, ab) \<leftarrow> ab_read_uchar ab;
     let typ = (if tmp < 10 then type_mapping_v05 ! unat tmp else 0);
     Some (ab, set_type_system_stat stat typ) }"

definition read_attr_bits_v05 :: attr_io where
  "read_attr_bits_v05 ab stat = do { (bits, ab) \<leftarrow> ab_read_uint32 ab; Some (ab, stat) }"

definition type_reverse_v05 :: "u8 list" where
  "type_reverse_v05 = [5, 9, 7, 5, 2, 5, 8, 5, 1, 5, 3, 5, 6]"

definition write_attr_type_v05 :: attr_io where "write_attr_type_v05 = write_attr_type type_reverse_v05"

definition read_attr_type_v06 :: attr_io where "read_attr_type_v06 = read_attr_type_v05"

definition read_attr_alloc_size_v06 :: attr_io where
  "read_attr_alloc_size_v06 ab stat = do { (alloc_size, ab) \<leftarrow> ab_read_uint64 ab; Some (ab, stat) }"

definition read_attr_changetime_v06 :: attr_io where
  "read_attr_changetime_v06 ab stat = do {
     (sec, ab) \<leftarrow> ab_read_int64 ab; Some (ab, set_ctime_sec_system_stat stat (sint sec)) }"

definition read_attr_changetime_n_v06 :: attr_io where
  "read_attr_changetime_n_v06 ab stat = do {
     (nsec, ab) \<leftarrow> ab_read_uint32 ab; Some (ab, set_ctime_nsec_system_stat stat nsec) }"

text \<open>The callback for the list of version 6 reads the fields the one of version 4 does.\<close>

definition read_attr_acl_v06 :: attr_io where "read_attr_acl_v06 = read_attr_acl_v04"

definition read_attr_bits_v06 :: attr_io where
  "read_attr_bits_v06 ab stat = do {
     (bits, ab) \<leftarrow> ab_read_uint32 ab; (bits_valid, ab) \<leftarrow> ab_read_uint32 ab; Some (ab, stat) }"

definition read_attr_text_hint_v06 :: attr_io where
  "read_attr_text_hint_v06 ab stat = do { (texthint, ab) \<leftarrow> ab_read_uchar ab; Some (ab, stat) }"

definition read_attr_mime_type_v06 :: attr_io where
  "read_attr_mime_type_v06 ab stat = do { ab \<leftarrow> skip_string ab; Some (ab, stat) }"

definition read_attr_link_count_v06 :: attr_io where
  "read_attr_link_count_v06 ab stat = do { (link_count, ab) \<leftarrow> ab_read_uint32 ab; Some (ab, stat) }"

definition read_attr_untranslated_name_v06 :: attr_io where
  "read_attr_untranslated_name_v06 ab stat = do { ab \<leftarrow> skip_string ab; Some (ab, stat) }"

definition write_attr_type_v06 :: attr_io where "write_attr_type_v06 = write_attr_type type_reverse_v05"

definition write_attr_changetime_v06 :: attr_io where
  "write_attr_changetime_v06 ab stat = do {
     ab \<leftarrow> ab_write_int64 ab (word_of_int (get_ctime_sec_system_stat stat)); Some (ab, stat) }"

definition write_attr_changetime_n_v06 :: attr_io where
  "write_attr_changetime_n_v06 ab stat = do {
     ab \<leftarrow> ab_write_uint32 ab (get_ctime_nsec_system_stat stat); Some (ab, stat) }"

primrec call_attr_cb :: "attr_cb \<Rightarrow> net_mapcb_s \<Rightarrow> attr_io" where
  "call_attr_cb CB_null m = (\<lambda>ab stat. None)"
| "call_attr_cb CB_zero m = (\<lambda>ab stat. Some (ab, stat))"
| "call_attr_cb R_size_v03 m = read_attr_size_v03"
| "call_attr_cb R_uidgid_v03 m = read_attr_uidgid_v03 m"
| "call_attr_cb R_permissions_v03 m = read_attr_permissions_v03"
| "call_attr_cb R_acmodtime_v03 m = read_attr_acmodtime_v03"
| "call_attr_cb R_extensions_v03 m = read_attr_extensions_v03"
| "call_attr_cb W_size_v03 m = write_attr_size_v03"
| "call_attr_cb W_uidgid_v03 m = write_attr_uidgid_v03 m"
| "call_attr_cb W_permissions_v03 m = write_attr_permissions_v03"
| "call_attr_cb W_acmodtime_v03 m = write_attr_acmodtime_v03"
| "call_attr_cb R_type_v04 m = read_attr_type_v04"
| "call_attr_cb R_ownergroup_v04 m = read_attr_ownergroup_v04 m"
| "call_attr_cb R_permissions_v04 m = read_attr_permissions_v04"
| "call_attr_cb R_accesstime_v04 m = read_attr_accesstime_v04"
| "call_attr_cb R_accesstime_n_v04 m = read_attr_accesstime_n_v04"
| "call_attr_cb R_createtime_v04 m = read_attr_createtime_v04"
| "call_attr_cb R_createtime_n_v04 m = read_attr_createtime_n_v04"
| "call_attr_cb R_modifytime_v04 m = read_attr_modifytime_v04"
| "call_attr_cb R_modifytime_n_v04 m = read_attr_modifytime_n_v04"
| "call_attr_cb R_acl_v04 m = read_attr_acl_v04"
| "call_attr_cb W_type_v04 m = write_attr_type_v04"
| "call_attr_cb W_ownergroup_v04 m = write_attr_ownergroup_v04 m"
| "call_attr_cb W_permissions_v04 m = write_attr_permissions_v04"
| "call_attr_cb W_accesstime_v04 m = write_attr_accesstime_v04"
| "call_attr_cb W_accesstime_n_v04 m = write_attr_accesstime_n_v04"
| "call_attr_cb W_modifytime_v04 m = write_attr_modifytime_v04"
| "call_attr_cb W_modifytime_n_v04 m = write_attr_modifytime_n_v04"
| "call_attr_cb R_type_v05 m = read_attr_type_v05"
| "call_attr_cb R_bits_v05 m = read_attr_bits_v05"
| "call_attr_cb W_type_v05 m = write_attr_type_v05"
| "call_attr_cb R_type_v06 m = read_attr_type_v06"
| "call_attr_cb R_alloc_size_v06 m = read_attr_alloc_size_v06"
| "call_attr_cb R_changetime_v06 m = read_attr_changetime_v06"
| "call_attr_cb R_changetime_n_v06 m = read_attr_changetime_n_v06"
| "call_attr_cb R_acl_v06 m = read_attr_acl_v06"
| "call_attr_cb R_bits_v06 m = read_attr_bits_v06"
| "call_attr_cb R_text_hint_v06 m = read_attr_text_hint_v06"
| "call_attr_cb R_mime_type_v06 m = read_attr_mime_type_v06"
| "call_attr_cb R_link_count_v06 m = read_attr_link_count_v06"
| "call_attr_cb R_untranslated_name_v06 m = read_attr_untranslated_name_v06"
| "call_attr_cb W_type_v06 m = write_attr_type_v06"
| "call_attr_cb W_changetime_v06 m = write_attr_changetime_v06"
| "call_attr_cb W_changetime_n_v06 m = write_attr_changetime_n_v06"

end
