(* ===== verification/Sftp_Context.thy ===== *)
theory Sftp_Context
  imports Sftp_Attr
begin

text \<open>
  The attribute context of a SFTP connection, \<open>src/lib/sftp/attr-context.c\<close>, with the tables of
  attributes of the four versions of the protocol, \<open>src/lib/sftp/attr/init-attr-v0*.c\<close>, and the walks
  over a set of attributes in the order of each version.

  A walk calls a parser with the index of each attribute. The walks are executed through function
  pointers; here the parser is an argument, and the operations table of the context is the version.
\<close>

section \<open>Attributes and their indices\<close>

definition SSH_FILEXFER_INDEX_SIZE :: nat where "SSH_FILEXFER_INDEX_SIZE = 0"
definition SSH_FILEXFER_INDEX_UIDGID :: nat where "SSH_FILEXFER_INDEX_UIDGID = 1"
definition SSH_FILEXFER_INDEX_PERMISSIONS :: nat where "SSH_FILEXFER_INDEX_PERMISSIONS = 2"
definition SSH_FILEXFER_INDEX_ACMODTIME :: nat where "SSH_FILEXFER_INDEX_ACMODTIME = 3"
definition SSH_FILEXFER_INDEX_ACCESSTIME :: nat where "SSH_FILEXFER_INDEX_ACCESSTIME = 3"
definition SSH_FILEXFER_INDEX_CREATETIME :: nat where "SSH_FILEXFER_INDEX_CREATETIME = 4"
definition SSH_FILEXFER_INDEX_MODIFYTIME :: nat where "SSH_FILEXFER_INDEX_MODIFYTIME = 5"
definition SSH_FILEXFER_INDEX_ACL :: nat where "SSH_FILEXFER_INDEX_ACL = 6"
definition SSH_FILEXFER_INDEX_OWNERGROUP :: nat where "SSH_FILEXFER_INDEX_OWNERGROUP = 7"
definition SSH_FILEXFER_INDEX_SUBSECOND_TIMES :: nat where "SSH_FILEXFER_INDEX_SUBSECOND_TIMES = 8"
definition SSH_FILEXFER_INDEX_BITS :: nat where "SSH_FILEXFER_INDEX_BITS = 9"
definition SSH_FILEXFER_INDEX_ALLOCATION_SIZE :: nat where "SSH_FILEXFER_INDEX_ALLOCATION_SIZE = 10"
definition SSH_FILEXFER_INDEX_TEXT_HINT :: nat where "SSH_FILEXFER_INDEX_TEXT_HINT = 11"
definition SSH_FILEXFER_INDEX_MIME_TYPE :: nat where "SSH_FILEXFER_INDEX_MIME_TYPE = 12"
definition SSH_FILEXFER_INDEX_LINK_COUNT :: nat where "SSH_FILEXFER_INDEX_LINK_COUNT = 13"
definition SSH_FILEXFER_INDEX_UNTRANSLATED_NAME :: nat where "SSH_FILEXFER_INDEX_UNTRANSLATED_NAME = 14"
definition SSH_FILEXFER_INDEX_CTIME :: nat where "SSH_FILEXFER_INDEX_CTIME = 15"
definition SSH_FILEXFER_INDEX_EXTENDED :: nat where "SSH_FILEXFER_INDEX_EXTENDED = 31"
definition SSH_FILEXFER_INDEX_TYPE :: nat where "SSH_FILEXFER_INDEX_TYPE = 32"
definition SSH_FILEXFER_INDEX_NSEC_ATIME :: nat where "SSH_FILEXFER_INDEX_NSEC_ATIME = 33"
definition SSH_FILEXFER_INDEX_NSEC_MTIME :: nat where "SSH_FILEXFER_INDEX_NSEC_MTIME = 34"
definition SSH_FILEXFER_INDEX_NSEC_BTIME :: nat where "SSH_FILEXFER_INDEX_NSEC_BTIME = 35"
definition SSH_FILEXFER_INDEX_NSEC_CTIME :: nat where "SSH_FILEXFER_INDEX_NSEC_CTIME = 36"

lemmas index_defs = SSH_FILEXFER_INDEX_SIZE_def SSH_FILEXFER_INDEX_UIDGID_def SSH_FILEXFER_INDEX_PERMISSIONS_def
  SSH_FILEXFER_INDEX_ACMODTIME_def SSH_FILEXFER_INDEX_ACCESSTIME_def SSH_FILEXFER_INDEX_CREATETIME_def
  SSH_FILEXFER_INDEX_MODIFYTIME_def SSH_FILEXFER_INDEX_ACL_def SSH_FILEXFER_INDEX_OWNERGROUP_def
  SSH_FILEXFER_INDEX_SUBSECOND_TIMES_def SSH_FILEXFER_INDEX_BITS_def SSH_FILEXFER_INDEX_ALLOCATION_SIZE_def
  SSH_FILEXFER_INDEX_TEXT_HINT_def SSH_FILEXFER_INDEX_MIME_TYPE_def SSH_FILEXFER_INDEX_LINK_COUNT_def
  SSH_FILEXFER_INDEX_UNTRANSLATED_NAME_def SSH_FILEXFER_INDEX_CTIME_def SSH_FILEXFER_INDEX_EXTENDED_def
  SSH_FILEXFER_INDEX_TYPE_def SSH_FILEXFER_INDEX_NSEC_ATIME_def SSH_FILEXFER_INDEX_NSEC_MTIME_def
  SSH_FILEXFER_INDEX_NSEC_BTIME_def SSH_FILEXFER_INDEX_NSEC_CTIME_def

text \<open>The bit \<open>SSH_FILEXFER_ATTR_x\<close> of the attribute with the index \<open>SSH_FILEXFER_INDEX_x\<close>; the type has none.\<close>

definition attr_bit :: "nat \<Rightarrow> u32" where
  "attr_bit i = (if i < 32 then push_bit i 1 else 0)"

definition attr_bits :: "nat list \<Rightarrow> u32" where
  "attr_bits is = foldr (\<lambda>i m. attr_bit i OR m) is 0"

section \<open>The context\<close>

record rw_attrcb_s =
  cb_code :: u32
  cb_shift :: nat
  cb_stat_mask :: u32
  cb_fattr :: u32
  cb_r :: attr_cb
  cb_w :: attr_cb
  cb_maxlength :: u32
  cb_name :: string

definition ATTR_CONTEXT_COUNT_ATTR_CB :: nat where "ATTR_CONTEXT_COUNT_ATTR_CB = 37"

definition HOST_HOSTNAME_FQDN_MAX_LENGTH :: u32 where "HOST_HOSTNAME_FQDN_MAX_LENGTH = 253"

text \<open>
  The table of operations is the version it is filled for. The maximal lengths and the version of the
  protocol are function pointers in the code; here they are the values they return.
\<close>

datatype attr_ops_s = Ops_v03 | Ops_v04 | Ops_v05 | Ops_v06

record attr_context_s =
  ac_flags :: u32
  ac_mapping :: net_mapcb_s
  ac_ops :: attr_ops_s
  ac_w_valid :: sftp_valid_s
  ac_w_count :: u32
  ac_r_valid :: sftp_valid_s
  ac_r_count :: u32
  ac_attrcb :: "rw_attrcb_s list"
  ac_maxlength_filename :: u32
  ac_maxlength_username :: u32
  ac_maxlength_groupname :: u32
  ac_maxlength_domainname :: u32
  ac_version :: u8

definition attrcb_zero :: rw_attrcb_s where
  "attrcb_zero = \<lparr>cb_code = 0, cb_shift = 0, cb_stat_mask = 0, cb_fattr = 0, cb_r = CB_zero, cb_w = CB_zero,
     cb_maxlength = 0, cb_name = ''''\<rparr>"

definition init_attrcb_zero :: "nat \<Rightarrow> rw_attrcb_s list" where
  "init_attrcb_zero count = replicate count attrcb_zero"

definition init_sftp_valid :: sftp_valid_s where "init_sftp_valid = \<lparr>sv_flags = 0, sv_mask = 0\<rparr>"

definition init_attr_context :: "attr_context_s \<Rightarrow> u32 \<Rightarrow> net_mapcb_s \<Rightarrow> attr_context_s" where
  "init_attr_context actx flags mapping = actx\<lparr>
     ac_flags := flags, ac_mapping := mapping, ac_w_valid := init_sftp_valid, ac_r_valid := init_sftp_valid,
     ac_attrcb := init_attrcb_zero ATTR_CONTEXT_COUNT_ATTR_CB,
     ac_maxlength_filename := 256, ac_maxlength_username := 32, ac_maxlength_groupname := 32,
     ac_maxlength_domainname := HOST_HOSTNAME_FQDN_MAX_LENGTH, ac_version := 0\<rparr>"

definition get_supported_valid_flags :: "attr_context_s \<Rightarrow> char \<Rightarrow> sftp_valid_s option" where
  "get_supported_valid_flags actx what =
     (if what = CHR ''r'' then Some (ac_r_valid actx)
      else if what = CHR ''w'' then Some (ac_w_valid actx) else None)"

definition convert_sftp_valid_w :: "attr_context_s \<Rightarrow> u32 \<Rightarrow> sftp_valid_s" where
  "convert_sftp_valid_w actx bits =
     \<lparr>sv_flags = bits AND sv_flags (ac_w_valid actx), sv_mask = bits AND sv_mask (ac_w_valid actx)\<rparr>"

definition convert_sftp_valid_r :: "attr_context_s \<Rightarrow> u32 \<Rightarrow> sftp_valid_s" where
  "convert_sftp_valid_r actx bits =
     \<lparr>sv_flags = bits AND sv_flags (ac_r_valid actx), sv_mask = bits AND sv_mask (ac_r_valid actx)\<rparr>"

section \<open>The tables\<close>

text \<open>The changes FUSE asks for, the values of \<open>linux/fuse.h\<close>.\<close>

definition FATTR_MODE :: u32 where "FATTR_MODE = 1"
definition FATTR_UID :: u32 where "FATTR_UID = 2"
definition FATTR_GID :: u32 where "FATTR_GID = 4"
definition FATTR_SIZE :: u32 where "FATTR_SIZE = 8"
definition FATTR_ATIME :: u32 where "FATTR_ATIME = 16"
definition FATTR_MTIME :: u32 where "FATTR_MTIME = 32"
definition FATTR_CTIME :: u32 where "FATTR_CTIME = 1024"

text \<open>
  An entry of the table for an attribute with a bit of its own, and one for the nanoseconds of a time,
  which has no bit. \<open>w\<close> and \<open>r\<close> are the callbacks the entry ends up with. The tables list the entries in
  the order the source assigns them.
\<close>

definition attr_entry :: "nat \<Rightarrow> attr_cb \<Rightarrow> attr_cb \<Rightarrow> u32 \<Rightarrow> string \<Rightarrow> u32 \<Rightarrow> u32 \<Rightarrow> nat \<times> rw_attrcb_s" where
  "attr_entry i w r maxlength name stat_mask fattr =
     (i, \<lparr>cb_code = attr_bit i, cb_shift = i, cb_stat_mask = stat_mask, cb_fattr = fattr, cb_r = r, cb_w = w,
          cb_maxlength = maxlength, cb_name = name\<rparr>)"

definition nsec_entry :: "nat \<Rightarrow> attr_cb \<Rightarrow> attr_cb \<Rightarrow> string \<Rightarrow> nat \<times> rw_attrcb_s" where
  "nsec_entry i w r name =
     (i, \<lparr>cb_code = 0, cb_shift = 0, cb_stat_mask = 0, cb_fattr = 0, cb_r = r, cb_w = w, cb_maxlength = 4,
          cb_name = name\<rparr>)"

definition fill_attrcb :: "(nat \<times> rw_attrcb_s) list \<Rightarrow> rw_attrcb_s list" where
  "fill_attrcb entries = foldl (\<lambda>tab (i, e). tab[i := e]) (init_attrcb_zero ATTR_CONTEXT_COUNT_ATTR_CB) entries"

definition entries_v03 :: "(nat \<times> rw_attrcb_s) list" where
  "entries_v03 =
    [attr_entry SSH_FILEXFER_INDEX_SIZE W_size_v03 R_size_v03 8 ''size'' SYSTEM_STAT_SIZE FATTR_SIZE,
     attr_entry SSH_FILEXFER_INDEX_UIDGID W_uidgid_v03 R_uidgid_v03 8 ''uidgid''
       (SYSTEM_STAT_UID OR SYSTEM_STAT_GID) (FATTR_UID OR FATTR_GID),
     attr_entry SSH_FILEXFER_INDEX_PERMISSIONS W_permissions_v03 R_permissions_v03 4 ''permissions and type''
       (SYSTEM_STAT_MODE OR SYSTEM_STAT_TYPE) FATTR_MODE,
     attr_entry SSH_FILEXFER_INDEX_ACMODTIME W_acmodtime_v03 R_acmodtime_v03 8 ''acmodtime''
       (SYSTEM_STAT_ATIME OR SYSTEM_STAT_MTIME) (FATTR_ATIME OR FATTR_MTIME),
     attr_entry SSH_FILEXFER_INDEX_EXTENDED CB_null R_extensions_v03 0 ''extended'' 0 0]"

definition init_attr_context_v03 :: "attr_context_s \<Rightarrow> attr_context_s" where
  "init_attr_context_v03 actx = actx\<lparr>
     ac_attrcb := fill_attrcb entries_v03,
     ac_w_valid := \<lparr>sv_flags = 0, sv_mask = attr_bits [SSH_FILEXFER_INDEX_SIZE, SSH_FILEXFER_INDEX_UIDGID,
       SSH_FILEXFER_INDEX_PERMISSIONS, SSH_FILEXFER_INDEX_ACMODTIME]\<rparr>,
     ac_w_count := 4,
     ac_r_valid := \<lparr>sv_flags = 0, sv_mask = attr_bits [SSH_FILEXFER_INDEX_SIZE, SSH_FILEXFER_INDEX_UIDGID,
       SSH_FILEXFER_INDEX_PERMISSIONS, SSH_FILEXFER_INDEX_ACMODTIME, SSH_FILEXFER_INDEX_EXTENDED]\<rparr>,
     ac_r_count := 5\<rparr>"

definition ownergroup_maxlength :: "attr_context_s \<Rightarrow> u32" where
  "ownergroup_maxlength actx =
     ac_maxlength_username actx + 5 + ac_maxlength_groupname actx + 5 + 2 * ac_maxlength_domainname actx"

text \<open>The entries versions 4, 5 and 6 have in common, in this order: \<open>type\<close> up to \<open>ACL\<close>.\<close>

definition entries_v04 :: "attr_cb \<Rightarrow> attr_cb \<Rightarrow> attr_cb \<Rightarrow> attr_context_s \<Rightarrow> (nat \<times> rw_attrcb_s) list" where
  "entries_v04 w_type r_type r_acl actx =
    [attr_entry SSH_FILEXFER_INDEX_TYPE w_type r_type 1 ''type'' SYSTEM_STAT_TYPE 0,
     attr_entry SSH_FILEXFER_INDEX_SIZE W_size_v03 R_size_v03 8 ''size'' SYSTEM_STAT_SIZE FATTR_SIZE,
     attr_entry SSH_FILEXFER_INDEX_OWNERGROUP W_ownergroup_v04 R_ownergroup_v04 (ownergroup_maxlength actx)
       ''ownergroup'' (SYSTEM_STAT_UID OR SYSTEM_STAT_GID) (FATTR_UID OR FATTR_GID),
     attr_entry SSH_FILEXFER_INDEX_PERMISSIONS W_permissions_v04 R_permissions_v04 4 ''permissions''
       SYSTEM_STAT_MODE FATTR_MODE,
     attr_entry SSH_FILEXFER_INDEX_ACCESSTIME W_accesstime_v04 R_accesstime_v04 8 ''accesstime''
       SYSTEM_STAT_ATIME FATTR_ATIME,
     attr_entry SSH_FILEXFER_INDEX_CREATETIME CB_null R_createtime_v04 8 ''createtime'' SYSTEM_STAT_BTIME 0,
     attr_entry SSH_FILEXFER_INDEX_MODIFYTIME W_modifytime_v04 R_modifytime_v04 8 ''modifytime''
       SYSTEM_STAT_MTIME FATTR_MTIME,
     attr_entry SSH_FILEXFER_INDEX_ACL CB_null r_acl 0 ''ACL'' 0 0]"

definition entry_extended :: "nat \<times> rw_attrcb_s" where
  "entry_extended = attr_entry SSH_FILEXFER_INDEX_EXTENDED CB_null R_extensions_v03 0 ''extended'' 0 0"

text \<open>
  In versions 4 and 5 the source sets \<open>w_cb\<close> of the entries for the nanoseconds of the access and of the
  creation time twice, the second time to the reader, and leaves \<open>r_cb\<close> at the callback that does nothing.
\<close>

definition entries_nsec_v04 :: "(nat \<times> rw_attrcb_s) list" where
  "entries_nsec_v04 =
    [nsec_entry SSH_FILEXFER_INDEX_NSEC_ATIME R_accesstime_n_v04 CB_zero ''nsec accesstime'',
     nsec_entry SSH_FILEXFER_INDEX_NSEC_BTIME R_createtime_n_v04 CB_zero ''nsec createtime'',
     nsec_entry SSH_FILEXFER_INDEX_NSEC_MTIME W_modifytime_n_v04 R_modifytime_n_v04 ''nsec modifytime'']"

definition init_attr_context_v04 :: "attr_context_s \<Rightarrow> attr_context_s" where
  "init_attr_context_v04 actx = actx\<lparr>
     ac_attrcb := fill_attrcb (entries_v04 W_type_v04 R_type_v04 R_acl_v04 actx @ [entry_extended] @ entries_nsec_v04),
     ac_w_valid := \<lparr>sv_flags = attr_bit SSH_FILEXFER_INDEX_SUBSECOND_TIMES, sv_mask = attr_bits
       [SSH_FILEXFER_INDEX_TYPE, SSH_FILEXFER_INDEX_SIZE, SSH_FILEXFER_INDEX_OWNERGROUP,
        SSH_FILEXFER_INDEX_PERMISSIONS, SSH_FILEXFER_INDEX_ACCESSTIME, SSH_FILEXFER_INDEX_MODIFYTIME]\<rparr>,
     ac_w_count := 8,
     ac_r_count := 10,
     ac_r_valid := \<lparr>sv_flags = attr_bit SSH_FILEXFER_INDEX_SUBSECOND_TIMES, sv_mask = attr_bits
       [SSH_FILEXFER_INDEX_TYPE, SSH_FILEXFER_INDEX_SIZE, SSH_FILEXFER_INDEX_OWNERGROUP,
        SSH_FILEXFER_INDEX_PERMISSIONS, SSH_FILEXFER_INDEX_ACCESSTIME, SSH_FILEXFER_INDEX_MODIFYTIME,
        SSH_FILEXFER_INDEX_ACL, SSH_FILEXFER_INDEX_EXTENDED]\<rparr>\<rparr>"

definition entry_bits_v05 :: "nat \<times> rw_attrcb_s" where
  "entry_bits_v05 = attr_entry SSH_FILEXFER_INDEX_BITS CB_null R_bits_v05 4 ''attrib bits'' 0 0"

definition init_attr_context_v05 :: "attr_context_s \<Rightarrow> attr_context_s" where
  "init_attr_context_v05 actx = actx\<lparr>
     ac_attrcb := fill_attrcb (entries_v04 W_type_v05 R_type_v05 R_acl_v04 actx @ [entry_bits_v05, entry_extended] @
       entries_nsec_v04),
     ac_w_valid := \<lparr>sv_flags = attr_bit SSH_FILEXFER_INDEX_SUBSECOND_TIMES, sv_mask = attr_bits
       [SSH_FILEXFER_INDEX_TYPE, SSH_FILEXFER_INDEX_SIZE, SSH_FILEXFER_INDEX_OWNERGROUP,
        SSH_FILEXFER_INDEX_PERMISSIONS, SSH_FILEXFER_INDEX_ACCESSTIME, SSH_FILEXFER_INDEX_MODIFYTIME]\<rparr>,
     ac_w_count := 8,
     ac_r_count := 10,
     ac_r_valid := \<lparr>sv_flags = attr_bit SSH_FILEXFER_INDEX_SUBSECOND_TIMES, sv_mask = attr_bits
       [SSH_FILEXFER_INDEX_TYPE, SSH_FILEXFER_INDEX_SIZE, SSH_FILEXFER_INDEX_OWNERGROUP,
        SSH_FILEXFER_INDEX_PERMISSIONS, SSH_FILEXFER_INDEX_ACCESSTIME, SSH_FILEXFER_INDEX_MODIFYTIME,
        SSH_FILEXFER_INDEX_ACL, SSH_FILEXFER_INDEX_BITS, SSH_FILEXFER_INDEX_EXTENDED]\<rparr>\<rparr>"

definition entries_v06 :: "(nat \<times> rw_attrcb_s) list" where
  "entries_v06 =
    [attr_entry SSH_FILEXFER_INDEX_BITS CB_null R_bits_v06 8 ''attrib bits'' 0 0,
     attr_entry SSH_FILEXFER_INDEX_ALLOCATION_SIZE CB_null R_alloc_size_v06 8 ''allocation size'' 0 0,
     attr_entry SSH_FILEXFER_INDEX_TEXT_HINT CB_null R_text_hint_v06 1 ''text hint'' 0 0,
     attr_entry SSH_FILEXFER_INDEX_MIME_TYPE CB_null R_mime_type_v06 0 ''mimetype'' 0 0,
     attr_entry SSH_FILEXFER_INDEX_LINK_COUNT CB_null R_link_count_v06 4 ''link count'' 0 0,
     attr_entry SSH_FILEXFER_INDEX_UNTRANSLATED_NAME CB_null R_untranslated_name_v06 0 ''untranslated name'' 0 0,
     attr_entry SSH_FILEXFER_INDEX_CTIME W_changetime_v06 R_changetime_v06 8 ''changetime''
       SYSTEM_STAT_CTIME FATTR_CTIME,
     entry_extended,
     nsec_entry SSH_FILEXFER_INDEX_NSEC_ATIME W_accesstime_n_v04 R_accesstime_n_v04 ''nsec accesstime'',
     nsec_entry SSH_FILEXFER_INDEX_NSEC_BTIME CB_null R_createtime_n_v04 ''nsec createtime'',
     nsec_entry SSH_FILEXFER_INDEX_NSEC_MTIME W_modifytime_n_v04 R_modifytime_n_v04 ''nsec modifytime'',
     nsec_entry SSH_FILEXFER_INDEX_NSEC_CTIME W_changetime_n_v06 R_changetime_n_v06 ''nsec changetime'']"

definition init_attr_context_v06 :: "attr_context_s \<Rightarrow> attr_context_s" where
  "init_attr_context_v06 actx = actx\<lparr>
     ac_attrcb := fill_attrcb (entries_v04 W_type_v06 R_type_v06 R_acl_v06 actx @ entries_v06),
     ac_w_valid := \<lparr>sv_flags = attr_bit SSH_FILEXFER_INDEX_SUBSECOND_TIMES, sv_mask = attr_bits
       [SSH_FILEXFER_INDEX_TYPE, SSH_FILEXFER_INDEX_SIZE, SSH_FILEXFER_INDEX_OWNERGROUP,
        SSH_FILEXFER_INDEX_PERMISSIONS, SSH_FILEXFER_INDEX_ACCESSTIME, SSH_FILEXFER_INDEX_MODIFYTIME,
        SSH_FILEXFER_INDEX_CTIME]\<rparr>,
     ac_w_count := 10,
     ac_r_count := 20,
     ac_r_valid := \<lparr>sv_flags = attr_bit SSH_FILEXFER_INDEX_SUBSECOND_TIMES, sv_mask = attr_bits
       [SSH_FILEXFER_INDEX_TYPE, SSH_FILEXFER_INDEX_SIZE, SSH_FILEXFER_INDEX_OWNERGROUP,
        SSH_FILEXFER_INDEX_PERMISSIONS, SSH_FILEXFER_INDEX_ACCESSTIME, SSH_FILEXFER_INDEX_CREATETIME,
        SSH_FILEXFER_INDEX_MODIFYTIME, SSH_FILEXFER_INDEX_ACL, SSH_FILEXFER_INDEX_BITS,
        SSH_FILEXFER_INDEX_ALLOCATION_SIZE, SSH_FILEXFER_INDEX_TEXT_HINT, SSH_FILEXFER_INDEX_MIME_TYPE,
        SSH_FILEXFER_INDEX_LINK_COUNT, SSH_FILEXFER_INDEX_UNTRANSLATED_NAME, SSH_FILEXFER_INDEX_CTIME,
        SSH_FILEXFER_INDEX_EXTENDED]\<rparr>\<rparr>"

definition set_sftp_attr_context :: "attr_context_s \<Rightarrow> attr_context_s" where
  "set_sftp_attr_context actx =
     (if ac_version actx \<le> 3 then init_attr_context_v03 (actx\<lparr>ac_ops := Ops_v03\<rparr>)
      else if ac_version actx = 4 then init_attr_context_v04 (actx\<lparr>ac_ops := Ops_v04\<rparr>)
      else if ac_version actx = 5 then init_attr_context_v05 (actx\<lparr>ac_ops := Ops_v05\<rparr>)
      else if ac_version actx = 6 then init_attr_context_v06 (actx\<lparr>ac_ops := Ops_v06\<rparr>)
      else actx)"

section \<open>Walking over the attributes\<close>

text \<open>
  What a walk works on: the buffer and the attributes of the file, both of which may be absent (a null
  pointer), the result and what its \<open>ptr\<close> points to. The parser is \<open>parse_attribute\<close> of the result.
\<close>

record 'p parse_s =
  ps_buffer :: "attr_buffer_s option"
  ps_r :: rw_attr_result_s
  ps_stat :: "system_stat_s option"
  ps_ptr :: 'p

type_synonym 'p parse_attribute = "attr_context_s \<Rightarrow> nat \<Rightarrow> 'p parse_s \<Rightarrow> 'p parse_s option"

text \<open>One line of a walk: the attribute when its bit is still to do; and the same with the nanoseconds.\<close>

definition parse_if :: "'p parse_attribute \<Rightarrow> attr_context_s \<Rightarrow> nat \<Rightarrow> 'p parse_s \<Rightarrow> 'p parse_s option" where
  "parse_if pa actx i st = (if rr_todo (ps_r st) AND attr_bit i \<noteq> 0 then pa actx i st else Some st)"

definition parse_time :: "'p parse_attribute \<Rightarrow> attr_context_s \<Rightarrow> nat \<Rightarrow> nat \<Rightarrow> 'p parse_s \<Rightarrow> 'p parse_s option" where
  "parse_time pa actx i n st =
     (if rr_todo (ps_r st) AND attr_bit i \<noteq> 0 then do {
        st \<leftarrow> pa actx i st;
        if sv_flags (rr_valid (ps_r st)) AND attr_bit SSH_FILEXFER_INDEX_SUBSECOND_TIMES \<noteq> 0
        then pa actx n st else Some st }
      else Some st)"

definition parse_attributes_v03 :: "'p parse_attribute \<Rightarrow> attr_context_s \<Rightarrow> 'p parse_s \<Rightarrow> 'p parse_s option" where
  "parse_attributes_v03 pa actx st = do {
     st \<leftarrow> parse_if pa actx SSH_FILEXFER_INDEX_SIZE st;
     st \<leftarrow> parse_if pa actx SSH_FILEXFER_INDEX_UIDGID st;
     st \<leftarrow> parse_if pa actx SSH_FILEXFER_INDEX_PERMISSIONS st;
     st \<leftarrow> parse_if pa actx SSH_FILEXFER_INDEX_ACMODTIME st;
     parse_if pa actx SSH_FILEXFER_INDEX_EXTENDED st }"

definition parse_attributes_v04 :: "'p parse_attribute \<Rightarrow> attr_context_s \<Rightarrow> 'p parse_s \<Rightarrow> 'p parse_s option" where
  "parse_attributes_v04 pa actx st = do {
     st \<leftarrow> pa actx SSH_FILEXFER_INDEX_TYPE st;
     st \<leftarrow> parse_if pa actx SSH_FILEXFER_INDEX_SIZE st;
     st \<leftarrow> parse_if pa actx SSH_FILEXFER_INDEX_OWNERGROUP st;
     st \<leftarrow> parse_if pa actx SSH_FILEXFER_INDEX_PERMISSIONS st;
     st \<leftarrow> parse_time pa actx SSH_FILEXFER_INDEX_ACCESSTIME SSH_FILEXFER_INDEX_NSEC_ATIME st;
     st \<leftarrow> parse_time pa actx SSH_FILEXFER_INDEX_CREATETIME SSH_FILEXFER_INDEX_NSEC_BTIME st;
     st \<leftarrow> parse_time pa actx SSH_FILEXFER_INDEX_MODIFYTIME SSH_FILEXFER_INDEX_NSEC_MTIME st;
     st \<leftarrow> parse_if pa actx SSH_FILEXFER_INDEX_ACL st;
     parse_if pa actx SSH_FILEXFER_INDEX_EXTENDED st }"

definition parse_attributes_v05 :: "'p parse_attribute \<Rightarrow> attr_context_s \<Rightarrow> 'p parse_s \<Rightarrow> 'p parse_s option" where
  "parse_attributes_v05 pa actx st = do {
     st \<leftarrow> pa actx SSH_FILEXFER_INDEX_TYPE st;
     st \<leftarrow> parse_if pa actx SSH_FILEXFER_INDEX_SIZE st;
     st \<leftarrow> parse_if pa actx SSH_FILEXFER_INDEX_OWNERGROUP st;
     st \<leftarrow> parse_if pa actx SSH_FILEXFER_INDEX_PERMISSIONS st;
     st \<leftarrow> parse_time pa actx SSH_FILEXFER_INDEX_ACCESSTIME SSH_FILEXFER_INDEX_NSEC_ATIME st;
     st \<leftarrow> parse_time pa actx SSH_FILEXFER_INDEX_CREATETIME SSH_FILEXFER_INDEX_NSEC_BTIME st;
     st \<leftarrow> parse_time pa actx SSH_FILEXFER_INDEX_MODIFYTIME SSH_FILEXFER_INDEX_NSEC_MTIME st;
     st \<leftarrow> parse_if pa actx SSH_FILEXFER_INDEX_ACL st;
     st \<leftarrow> parse_if pa actx SSH_FILEXFER_INDEX_BITS st;
     parse_if pa actx SSH_FILEXFER_INDEX_EXTENDED st }"

definition parse_attributes_v06 :: "'p parse_attribute \<Rightarrow> attr_context_s \<Rightarrow> 'p parse_s \<Rightarrow> 'p parse_s option" where
  "parse_attributes_v06 pa actx st = do {
     st \<leftarrow> pa actx SSH_FILEXFER_INDEX_TYPE st;
     st \<leftarrow> parse_if pa actx SSH_FILEXFER_INDEX_SIZE st;
     st \<leftarrow> parse_if pa actx SSH_FILEXFER_INDEX_ALLOCATION_SIZE st;
     st \<leftarrow> parse_if pa actx SSH_FILEXFER_INDEX_OWNERGROUP st;
     st \<leftarrow> parse_if pa actx SSH_FILEXFER_INDEX_PERMISSIONS st;
     st \<leftarrow> parse_time pa actx SSH_FILEXFER_INDEX_ACCESSTIME SSH_FILEXFER_INDEX_NSEC_ATIME st;
     st \<leftarrow> parse_time pa actx SSH_FILEXFER_INDEX_CREATETIME SSH_FILEXFER_INDEX_NSEC_BTIME st;
     st \<leftarrow> parse_time pa actx SSH_FILEXFER_INDEX_MODIFYTIME SSH_FILEXFER_INDEX_NSEC_MTIME st;
     st \<leftarrow> parse_time pa actx SSH_FILEXFER_INDEX_CTIME SSH_FILEXFER_INDEX_NSEC_CTIME st;
     st \<leftarrow> parse_if pa actx SSH_FILEXFER_INDEX_ACL st;
     st \<leftarrow> parse_if pa actx SSH_FILEXFER_INDEX_BITS st;
     st \<leftarrow> parse_if pa actx SSH_FILEXFER_INDEX_TEXT_HINT st;
     st \<leftarrow> parse_if pa actx SSH_FILEXFER_INDEX_MIME_TYPE st;
     st \<leftarrow> parse_if pa actx SSH_FILEXFER_INDEX_LINK_COUNT st;
     st \<leftarrow> parse_if pa actx SSH_FILEXFER_INDEX_UNTRANSLATED_NAME st;
     parse_if pa actx SSH_FILEXFER_INDEX_EXTENDED st }"

section \<open>The other operations of a version\<close>

definition enable_bit :: "nat \<Rightarrow> sftp_valid_s \<Rightarrow> sftp_valid_s" where
  "enable_bit i p = p\<lparr>sv_mask := sv_mask p OR attr_bit i\<rparr>"

definition enable_attr_v03 :: "sftp_valid_s \<Rightarrow> string \<Rightarrow> u8 \<times> sftp_valid_s" where
  "enable_attr_v03 p name =
     (if name = ''size'' then (1, enable_bit SSH_FILEXFER_INDEX_SIZE p)
      else if name = ''permissions'' then (1, enable_bit SSH_FILEXFER_INDEX_PERMISSIONS p)
      else if name = ''user'' \<or> name = ''group'' then (1, enable_bit SSH_FILEXFER_INDEX_UIDGID p)
      else if name = ''atime'' \<or> name = ''mtime'' then (1, enable_bit SSH_FILEXFER_INDEX_ACMODTIME p)
      else if name = ''extended'' then (1, enable_bit SSH_FILEXFER_INDEX_EXTENDED p)
      else (0, p))"

definition enable_attr_v04 :: "sftp_valid_s \<Rightarrow> string \<Rightarrow> u8 \<times> sftp_valid_s" where
  "enable_attr_v04 p name =
     (if name = ''size'' then (1, enable_bit SSH_FILEXFER_INDEX_SIZE p)
      else if name = ''permissions'' then (1, enable_bit SSH_FILEXFER_INDEX_PERMISSIONS p)
      else if name = ''user'' \<or> name = ''group'' then (1, enable_bit SSH_FILEXFER_INDEX_OWNERGROUP p)
      else if name = ''atime'' then (1, enable_bit SSH_FILEXFER_INDEX_ACCESSTIME p)
      else if name = ''btime'' then (1, enable_bit SSH_FILEXFER_INDEX_CREATETIME p)
      else if name = ''mtime'' then (1, enable_bit SSH_FILEXFER_INDEX_MODIFYTIME p)
      else if name = ''subseconds'' then
        (1, p\<lparr>sv_flags := sv_flags p OR attr_bit SSH_FILEXFER_INDEX_SUBSECOND_TIMES\<rparr>)
      else if name = ''extended'' then (1, enable_bit SSH_FILEXFER_INDEX_EXTENDED p)
      else (0, p))"

definition enable_attr_v05 :: "sftp_valid_s \<Rightarrow> string \<Rightarrow> u8 \<times> sftp_valid_s" where
  "enable_attr_v05 = enable_attr_v04"

definition enable_attr_v06 :: "sftp_valid_s \<Rightarrow> string \<Rightarrow> u8 \<times> sftp_valid_s" where
  "enable_attr_v06 p name =
     (if name = ''ctime'' then (1, enable_bit SSH_FILEXFER_INDEX_CTIME p) else enable_attr_v04 p name)"

definition SFTP_ATTR_PROPERTY_VALIDFIELD_STAT :: u32 where "SFTP_ATTR_PROPERTY_VALIDFIELD_STAT = 1"

definition get_property_v03 :: "u32 \<Rightarrow> u32" where "get_property_v03 flag = 0"

definition get_property_v04 :: "u32 \<Rightarrow> u32" where
  "get_property_v04 flag =
     (if flag AND SFTP_ATTR_PROPERTY_VALIDFIELD_STAT \<noteq> 0 then SFTP_ATTR_PROPERTY_VALIDFIELD_STAT else 0)"

definition get_property_v05 :: "u32 \<Rightarrow> u32" where "get_property_v05 = get_property_v04"

definition get_property_v06 :: "u32 \<Rightarrow> u32" where "get_property_v06 = get_property_v05"

text \<open>The calls through the table of operations.\<close>

primrec ops_parse_attributes ::
  "attr_ops_s \<Rightarrow> 'p parse_attribute \<Rightarrow> attr_context_s \<Rightarrow> 'p parse_s \<Rightarrow> 'p parse_s option" where
  "ops_parse_attributes Ops_v03 = parse_attributes_v03"
| "ops_parse_attributes Ops_v04 = parse_attributes_v04"
| "ops_parse_attributes Ops_v05 = parse_attributes_v05"
| "ops_parse_attributes Ops_v06 = parse_attributes_v06"

primrec ops_enable_attr :: "attr_ops_s \<Rightarrow> sftp_valid_s \<Rightarrow> string \<Rightarrow> u8 \<times> sftp_valid_s" where
  "ops_enable_attr Ops_v03 = enable_attr_v03"
| "ops_enable_attr Ops_v04 = enable_attr_v04"
| "ops_enable_attr Ops_v05 = enable_attr_v05"
| "ops_enable_attr Ops_v06 = enable_attr_v06"

primrec ops_get_property :: "attr_ops_s \<Rightarrow> u32 \<Rightarrow> u32" where
  "ops_get_property Ops_v03 = get_property_v03"
| "ops_get_property Ops_v04 = get_property_v04"
| "ops_get_property Ops_v05 = get_property_v05"
| "ops_get_property Ops_v06 = get_property_v06"

primrec ops_read_name_name_response ::
  "attr_ops_s \<Rightarrow> attr_buffer_s \<Rightarrow> ssh_string_s \<Rightarrow> (ssh_string_s \<times> attr_buffer_s) option" where
  "ops_read_name_name_response Ops_v03 = read_name_name_response_v03"
| "ops_read_name_name_response Ops_v04 = read_name_name_response_v04"
| "ops_read_name_name_response Ops_v05 = read_name_name_response_v04"
| "ops_read_name_name_response Ops_v06 = read_name_name_response_v04"

primrec ops_write_name_name_response :: "attr_ops_s \<Rightarrow> attr_buffer_s \<Rightarrow> ssh_string_s \<Rightarrow> attr_buffer_s option" where
  "ops_write_name_name_response Ops_v03 = write_name_name_response_v03"
| "ops_write_name_name_response Ops_v04 = write_name_name_response_v04"
| "ops_write_name_name_response Ops_v05 = write_name_name_response_v04"
| "ops_write_name_name_response Ops_v06 = write_name_name_response_v04"

end
