(* ===== verification/Sftp_Generic.thy ===== *)
theory Sftp_Generic
  imports Sftp_Context
begin

text \<open>
  Reading and writing sets of attributes, \<open>src/lib/sftp/rw-attr-generic.c\<close>: the cache of the orders of
  attributes, the parsers, and the functions the SFTP client and server call.

  The cache is the table of 17 lists. A list is the sequence of the records linked in it: the theory
  \<open>Simple_List\<close> shows that the linked lists implement sequences. Every access of a list is made under its
  lock, so an operation on the cache is one step. The allocation of a record may fail, the argument
  \<open>malloc_ok\<close>.
\<close>

section \<open>The cache\<close>

record hashed_attrcb_s =
  hc_valid :: sftp_valid_s
  hc_version :: u8
  hc_count :: u32
  hc_len :: u32
  hc_stat_mask :: u32
  hc_cb :: "nat list"

definition HASH_ATTRCB_TABLE_SIZE :: nat where "HASH_ATTRCB_TABLE_SIZE = 17"

type_synonym attrcb_hashtable = "hashed_attrcb_s list list"

definition attrcb_hash :: "sftp_valid_s \<Rightarrow> nat" where
  "attrcb_hash valid = unat (sv_mask valid) mod HASH_ATTRCB_TABLE_SIZE"

definition add_attrcb_hashtable :: "attrcb_hashtable \<Rightarrow> hashed_attrcb_s \<Rightarrow> attrcb_hashtable" where
  "add_attrcb_hashtable tab hcb =
     (let hash = attrcb_hash (hc_valid hcb) in
      if (\<exists>tmp \<in> set (tab ! hash). hc_valid tmp = hc_valid hcb \<and> hc_version tmp = hc_version hcb) then tab
      else tab[hash := hcb # tab ! hash])"

definition remove_attrcb_hashtable :: "attrcb_hashtable \<Rightarrow> hashed_attrcb_s \<Rightarrow> attrcb_hashtable" where
  "remove_attrcb_hashtable tab hcb =
     (let hash = attrcb_hash (hc_valid hcb) in tab[hash := remove1 hcb (tab ! hash)])"

definition lookup_hashed_attrcb :: "attrcb_hashtable \<Rightarrow> sftp_valid_s \<Rightarrow> u8 \<Rightarrow> hashed_attrcb_s option" where
  "lookup_hashed_attrcb tab valid version =
     List.find (\<lambda>hcb. hc_valid hcb = valid \<and> hc_version hcb = version) (tab ! attrcb_hash valid)"

definition init_rw_attr_result :: rw_attr_result_s where
  "init_rw_attr_result = \<lparr>rr_flags = 0, rr_valid = \<lparr>sv_flags = 0, sv_mask = 0\<rparr>, rr_todo = 0, rr_done = 0,
     rr_ignored = 0, rr_stat_mask = 0\<rparr>"

text \<open>\<open>count\<close> is an \<open>unsigned char\<close>; the record keeps the first \<open>count\<close> elements of \<open>cb\<close>.\<close>

definition create_hashed_attrcb ::
  "bool \<Rightarrow> attrcb_hashtable \<Rightarrow> u8 \<Rightarrow> sftp_valid_s \<Rightarrow> nat list \<Rightarrow> u8 \<Rightarrow> u32 \<Rightarrow> u32 \<Rightarrow> attrcb_hashtable" where
  "create_hashed_attrcb malloc_ok tab version valid cb count len stat_mask =
     (if malloc_ok then
        add_attrcb_hashtable tab \<lparr>hc_valid = valid, hc_version = version, hc_count = ucast count, hc_len = len,
          hc_stat_mask = stat_mask, hc_cb = take (unat count) cb\<rparr>
      else tab)"

text \<open>The table and its reference count, an \<open>unsigned char\<close>.\<close>

definition init_hashattr_generic :: "attrcb_hashtable \<times> u8 \<Rightarrow> attrcb_hashtable \<times> u8" where
  "init_hashattr_generic = (\<lambda>(tab, refcount).
     (if refcount = 0 then replicate HASH_ATTRCB_TABLE_SIZE [] else tab, refcount + 1))"

definition clear_hashattr_generic :: "bool \<Rightarrow> attrcb_hashtable \<times> u8 \<Rightarrow> attrcb_hashtable \<times> u8" where
  "clear_hashattr_generic force = (\<lambda>(tab, refcount).
     let (force, refcount) =
       (if refcount > 0 then (force \<or> refcount - 1 = 0, refcount - 1) else (force, refcount))
     in (if force then replicate HASH_ATTRCB_TABLE_SIZE [] else tab, refcount))"

section \<open>The walk over a set of attributes\<close>

primrec parse_cached :: "'p parse_attribute \<Rightarrow> attr_context_s \<Rightarrow> nat list \<Rightarrow> 'p parse_s \<Rightarrow> 'p parse_s option" where
  "parse_cached pa actx [] st = Some st"
| "parse_cached pa actx (ctr # cb) st = do { st \<leftarrow> pa actx ctr st; parse_cached pa actx cb st }"

definition parse_start :: "attr_context_s \<Rightarrow> sftp_valid_s \<Rightarrow> rw_attr_result_s \<Rightarrow> rw_attr_result_s" where
  "parse_start actx valid r =
     (let supported = (if rr_flags r AND RW_ATTR_RESULT_FLAG_WRITE \<noteq> 0 then ac_w_valid actx else ac_r_valid actx);
          mask = sv_mask valid AND sv_mask supported
      in r\<lparr>rr_valid := \<lparr>sv_flags = sv_flags valid AND sv_flags supported, sv_mask = mask\<rparr>,
           rr_ignored := sv_mask valid AND NOT mask, rr_todo := mask, rr_done := 0\<rparr>)"

definition parse_attributes_generic ::
  "attrcb_hashtable \<Rightarrow> 'p parse_attribute \<Rightarrow> attr_context_s \<Rightarrow> sftp_valid_s \<Rightarrow> 'p parse_s \<Rightarrow> 'p parse_s option" where
  "parse_attributes_generic tab pa actx valid st =
     (let r = parse_start actx valid (ps_r st) in
      case lookup_hashed_attrcb tab (rr_valid r) (ac_version actx) of
        Some hcb \<Rightarrow>
          parse_cached pa actx (take (unat (hc_count hcb)) (hc_cb hcb))
            (st\<lparr>ps_r := r\<lparr>rr_flags := rr_flags r OR RW_ATTR_RESULT_FLAG_CACHED\<rparr>\<rparr>)
      | None \<Rightarrow> ops_parse_attributes (ac_ops actx) pa actx (st\<lparr>ps_r := r\<rparr>))"

section \<open>The parsers\<close>

text \<open>What \<open>_attr_read_cb\<close> and \<open>_prepare_write_cb\<close> keep: the array of indices, its index and the length.\<close>

record hlp_read_s =
  hlp_cb :: "nat list"
  hlp_index :: u8
  hlp_len :: u32

definition attrcb_at :: "attr_context_s \<Rightarrow> nat \<Rightarrow> rw_attrcb_s option" where
  "attrcb_at actx ctr = (if ctr < length (ac_attrcb actx) then Some (ac_attrcb actx ! ctr) else None)"

definition mark_done :: "rw_attrcb_s \<Rightarrow> rw_attr_result_s \<Rightarrow> rw_attr_result_s" where
  "mark_done e r = r\<lparr>rr_stat_mask := rr_stat_mask r OR cb_stat_mask e, rr_done := rr_done r OR cb_code e,
     rr_todo := rr_todo r AND NOT (cb_code e)\<rparr>"

definition hlp_append :: "nat \<Rightarrow> rw_attrcb_s \<Rightarrow> hlp_read_s \<Rightarrow> hlp_read_s option" where
  "hlp_append ctr e hlp =
     (if unat (hlp_index hlp) < length (hlp_cb hlp)
      then Some (hlp\<lparr>hlp_cb := (hlp_cb hlp)[unat (hlp_index hlp) := ctr], hlp_len := hlp_len hlp + cb_maxlength e,
             hlp_index := hlp_index hlp + 1\<rparr>)
      else None)"

definition call_cb :: "attr_cb \<Rightarrow> attr_context_s \<Rightarrow> 'p parse_s \<Rightarrow> 'p parse_s option" where
  "call_cb cb actx st = do {
     ab \<leftarrow> ps_buffer st;
     stat \<leftarrow> ps_stat st;
     (ab, stat) \<leftarrow> call_attr_cb cb (ac_mapping actx) ab stat;
     Some (st\<lparr>ps_buffer := Some ab, ps_stat := Some stat\<rparr>) }"

definition attr_read_cb :: "hlp_read_s parse_attribute" where
  "attr_read_cb actx ctr st = do {
     e \<leftarrow> attrcb_at actx ctr;
     hlp \<leftarrow> hlp_append ctr e (ps_ptr st);
     call_cb (cb_r e) actx (st\<lparr>ps_ptr := hlp, ps_r := mark_done e (ps_r st)\<rparr>) }"

definition attr_write_cb :: "'p parse_attribute" where
  "attr_write_cb actx ctr st = do {
     e \<leftarrow> attrcb_at actx ctr;
     call_cb (cb_w e) actx (st\<lparr>ps_r := mark_done e (ps_r st)\<rparr>) }"

definition prepare_write_cb :: "hlp_read_s parse_attribute" where
  "prepare_write_cb actx ctr st = do {
     e \<leftarrow> attrcb_at actx ctr;
     hlp \<leftarrow> hlp_append ctr e (ps_ptr st);
     Some (st\<lparr>ps_ptr := hlp, ps_r := mark_done e (ps_r st)\<rparr>) }"

definition read_stat_mask_cb :: "unit parse_attribute" where
  "read_stat_mask_cb actx ctr st = do {
     e \<leftarrow> attrcb_at actx ctr;
     Some (st\<lparr>ps_r := (ps_r st)\<lparr>rr_stat_mask := rr_stat_mask (ps_r st) OR cb_stat_mask e\<rparr>\<rparr>) }"

record get_valid_flags_s =
  gv_stat_mask :: u32
  gv_valid_mask :: u32

definition get_valid_flags_cb :: "get_valid_flags_s parse_attribute" where
  "get_valid_flags_cb actx ctr st = do {
     e \<leftarrow> attrcb_at actx ctr;
     let tmp = ps_ptr st;
     let tmp = (if cb_stat_mask e AND gv_stat_mask tmp \<noteq> 0
                then tmp\<lparr>gv_valid_mask := gv_valid_mask tmp OR cb_code e\<rparr> else tmp);
     Some (st\<lparr>ps_ptr := tmp, ps_r := (ps_r st)\<lparr>rr_todo := rr_todo (ps_r st) AND NOT (cb_code e)\<rparr>\<rparr>) }"

text \<open>The callback of the caller, with the data it works on.\<close>

definition parse_stat_mask_cb :: "(u32 \<Rightarrow> u32 \<Rightarrow> u32 \<Rightarrow> u32 \<Rightarrow> 'q \<Rightarrow> 'q) \<Rightarrow> 'q parse_attribute" where
  "parse_stat_mask_cb cb actx ctr st = do {
     e \<leftarrow> attrcb_at actx ctr;
     Some (st\<lparr>ps_ptr := cb (cb_stat_mask e) (cb_maxlength e) (cb_code e) (cb_fattr e) (ps_ptr st),
              ps_r := mark_done e (ps_r st)\<rparr>) }"

section \<open>The functions for the client and the server\<close>

definition hlp_init :: hlp_read_s where
  "hlp_init = \<lparr>hlp_cb = replicate ATTR_CONTEXT_COUNT_ATTR_CB 0, hlp_index = 0, hlp_len = 0\<rparr>"

text \<open>The part the reader and the sizing function share: the order that was followed goes into the cache.\<close>

definition cache_order :: "bool \<Rightarrow> attrcb_hashtable \<Rightarrow> attr_context_s \<Rightarrow> hlp_read_s parse_s \<Rightarrow> attrcb_hashtable" where
  "cache_order malloc_ok tab actx st =
     (let hlp = ps_ptr st; r = ps_r st in
      if hlp_index hlp > 0 \<and> rr_flags r AND RW_ATTR_RESULT_FLAG_CACHED = 0
      then create_hashed_attrcb malloc_ok tab (ac_version actx) (rr_valid r) (hlp_cb hlp) (hlp_index hlp) (hlp_len hlp)
             (rr_stat_mask r)
      else tab)"

definition split_valid :: "u32 \<Rightarrow> sftp_valid_s" where
  "split_valid valid_bits =
     \<lparr>sv_flags = valid_bits AND attr_bit SSH_FILEXFER_INDEX_SUBSECOND_TIMES,
      sv_mask = valid_bits AND NOT (attr_bit SSH_FILEXFER_INDEX_SUBSECOND_TIMES)\<rparr>"

definition read_attributes_generic ::
  "bool \<Rightarrow> attrcb_hashtable \<Rightarrow> attr_context_s \<Rightarrow> attr_buffer_s \<Rightarrow> rw_attr_result_s \<Rightarrow> system_stat_s \<Rightarrow> u32 \<Rightarrow>
   (attrcb_hashtable \<times> attr_buffer_s \<times> rw_attr_result_s \<times> system_stat_s) option" where
  "read_attributes_generic malloc_ok tab actx ab r stat valid_bits = do {
     let r = r\<lparr>rr_flags := rr_flags r OR RW_ATTR_RESULT_FLAG_READ\<rparr>;
     st \<leftarrow> parse_attributes_generic tab attr_read_cb actx (split_valid valid_bits)
             \<lparr>ps_buffer = Some ab, ps_r = r, ps_stat = Some stat, ps_ptr = hlp_init\<rparr>;
     ab \<leftarrow> ps_buffer st;
     stat \<leftarrow> ps_stat st;
     Some (cache_order malloc_ok tab actx st, ab, ps_r st, stat) }"

definition write_attributes_generic ::
  "attrcb_hashtable \<Rightarrow> attr_context_s \<Rightarrow> attr_buffer_s \<Rightarrow> rw_attr_result_s \<Rightarrow> system_stat_s \<Rightarrow> sftp_valid_s \<Rightarrow>
   (attr_buffer_s \<times> rw_attr_result_s \<times> system_stat_s) option" where
  "write_attributes_generic tab actx ab r stat valid = do {
     let r = r\<lparr>rr_flags := rr_flags r OR RW_ATTR_RESULT_FLAG_WRITE\<rparr>;
     st \<leftarrow> parse_attributes_generic tab attr_write_cb actx valid
             \<lparr>ps_buffer = Some ab, ps_r = r, ps_stat = Some stat, ps_ptr = ()\<rparr>;
     ab \<leftarrow> ps_buffer st;
     stat \<leftarrow> ps_stat st;
     Some (ab, ps_r st, stat) }"

definition get_size_buffer_write_attributes ::
  "bool \<Rightarrow> attrcb_hashtable \<Rightarrow> attr_context_s \<Rightarrow> rw_attr_result_s \<Rightarrow> sftp_valid_s \<Rightarrow>
   (attrcb_hashtable \<times> rw_attr_result_s \<times> u32) option" where
  "get_size_buffer_write_attributes malloc_ok tab actx r valid = do {
     let r = r\<lparr>rr_flags := rr_flags r OR RW_ATTR_RESULT_FLAG_WRITE\<rparr>;
     st \<leftarrow> parse_attributes_generic tab prepare_write_cb actx valid
             \<lparr>ps_buffer = None, ps_r = r, ps_stat = None, ps_ptr = hlp_init\<rparr>;
     Some (cache_order malloc_ok tab actx st, ps_r st, hlp_len (ps_ptr st)) }"

definition what_flag :: "char \<Rightarrow> u32" where
  "what_flag what = (if what = CHR ''r'' then RW_ATTR_RESULT_FLAG_READ
     else if what = CHR ''w'' then RW_ATTR_RESULT_FLAG_WRITE else 0)"

definition translate_valid_2_stat_mask ::
  "attrcb_hashtable \<Rightarrow> attr_context_s \<Rightarrow> sftp_valid_s \<Rightarrow> char \<Rightarrow> u32 option" where
  "translate_valid_2_stat_mask tab actx valid what = do {
     st \<leftarrow> parse_attributes_generic tab read_stat_mask_cb actx valid
             \<lparr>ps_buffer = None, ps_r = RW_ATTR_RESULT_INIT\<lparr>rr_flags := what_flag what\<rparr>, ps_stat = None, ps_ptr = ()\<rparr>;
     Some (rr_stat_mask (ps_r st)) }"

definition translate_stat_mask_2_valid :: "attrcb_hashtable \<Rightarrow> attr_context_s \<Rightarrow> u32 \<Rightarrow> char \<Rightarrow> u32 option" where
  "translate_stat_mask_2_valid tab actx stat_mask what = do {
     valid \<leftarrow> get_supported_valid_flags actx what;
     st \<leftarrow> parse_attributes_generic tab get_valid_flags_cb actx valid
             \<lparr>ps_buffer = None, ps_r = RW_ATTR_RESULT_INIT\<lparr>rr_flags := what_flag what\<rparr>, ps_stat = None,
              ps_ptr = \<lparr>gv_stat_mask = stat_mask, gv_valid_mask = 0\<rparr>\<rparr>;
     Some (gv_valid_mask (ps_ptr st)) }"

definition parse_sftp_attributes_stat_mask ::
  "attrcb_hashtable \<Rightarrow> attr_context_s \<Rightarrow> rw_attr_result_s \<Rightarrow> system_stat_s option \<Rightarrow> char \<Rightarrow>
   (u32 \<Rightarrow> u32 \<Rightarrow> u32 \<Rightarrow> u32 \<Rightarrow> 'q \<Rightarrow> 'q) \<Rightarrow> 'q \<Rightarrow> (rw_attr_result_s \<times> 'q) option" where
  "parse_sftp_attributes_stat_mask tab actx r stat what cb ptr =
     (case get_supported_valid_flags actx what of
        None \<Rightarrow> Some (r, ptr)
      | Some valid \<Rightarrow> do {
          st \<leftarrow> parse_attributes_generic tab (parse_stat_mask_cb cb) actx valid
                  \<lparr>ps_buffer = None, ps_r = r\<lparr>rr_flags := rr_flags r OR what_flag what\<rparr>, ps_stat = stat, ps_ptr = ptr\<rparr>;
          Some (ps_r st, ps_ptr st) })"

definition peek_sftp_file_type :: "attr_buffer_s \<Rightarrow> u8 option" where
  "peek_sftp_file_type ab = do {
     buffer \<leftarrow> ab_buffer ab;
     one \<leftarrow> mem_load buffer (unat (ab_pos ab + 4)) 1;
     Some (hd one) }"

section \<open>The order of the attributes\<close>

text \<open>
  The specification of the walks: the attributes a version knows in their order on the wire, a time with
  the index of its nanoseconds; and the indices a set of attributes is parsed with.
\<close>

primrec attr_rows :: "attr_ops_s \<Rightarrow> (nat \<times> nat option) list" where
  "attr_rows Ops_v03 = [(0, None), (1, None), (2, None), (3, None), (31, None)]"
| "attr_rows Ops_v04 = [(0, None), (7, None), (2, None), (3, Some 33), (4, Some 35), (5, Some 34), (6, None), (31, None)]"
| "attr_rows Ops_v05 = [(0, None), (7, None), (2, None), (3, Some 33), (4, Some 35), (5, Some 34), (6, None), (9, None),
    (31, None)]"
| "attr_rows Ops_v06 = [(0, None), (10, None), (7, None), (2, None), (3, Some 33), (4, Some 35), (5, Some 34),
    (15, Some 36), (6, None), (9, None), (11, None), (12, None), (13, None), (14, None), (31, None)]"

definition type_rows :: "attr_ops_s \<Rightarrow> nat list" where
  "type_rows ops = (if ops = Ops_v03 then [] else [32])"

fun row_order :: "sftp_valid_s \<Rightarrow> nat \<times> nat option \<Rightarrow> nat list" where
  "row_order valid (i, n) =
     (if bit (sv_mask valid) i then i # (if bit (sv_flags valid) 8 then (case n of None \<Rightarrow> [] | Some n \<Rightarrow> [n]) else [])
      else [])"

definition attr_order :: "attr_ops_s \<Rightarrow> sftp_valid_s \<Rightarrow> nat list" where
  "attr_order ops valid = type_rows ops @ concat (map (row_order valid) (attr_rows ops))"

fun parse_row :: "'p parse_attribute \<Rightarrow> attr_context_s \<Rightarrow> nat \<times> nat option \<Rightarrow> 'p parse_s \<Rightarrow> 'p parse_s option" where
  "parse_row pa actx (i, None) st = parse_if pa actx i st"
| "parse_row pa actx (i, Some n) st = parse_time pa actx i n st"

primrec parse_rows :: "'p parse_attribute \<Rightarrow> attr_context_s \<Rightarrow> (nat \<times> nat option) list \<Rightarrow> 'p parse_s \<Rightarrow> 'p parse_s option" where
  "parse_rows pa actx [] st = Some st"
| "parse_rows pa actx (row # rows) st = do { st \<leftarrow> parse_row pa actx row st; parse_rows pa actx rows st }"

lemma parse_rows_eta:
  "parse_rows pa actx [] = Some"
  "parse_rows pa actx (row # rows) = (\<lambda>st. Option.bind (parse_row pa actx row st) (parse_rows pa actx rows))"
  "parse_row pa actx (i, None) = parse_if pa actx i" "parse_row pa actx (i, Some n) = parse_time pa actx i n"
  by (simp_all add: fun_eq_iff)

lemma ops_parse_attributes_rows:
  "ops_parse_attributes ops pa actx st =
     Option.bind (parse_cached pa actx (type_rows ops) st) (parse_rows pa actx (attr_rows ops))"
  by (cases ops) (simp_all add: parse_attributes_v03_def parse_attributes_v04_def parse_attributes_v05_def
      parse_attributes_v06_def index_defs type_rows_def parse_rows_eta)

lemma parse_cached_append:
  "parse_cached pa actx (xs @ ys) st = Option.bind (parse_cached pa actx xs st) (parse_cached pa actx ys)"
  by (induction xs arbitrary: st) simp_all

lemma attr_rows_wf:
  "distinct (map fst (attr_rows ops))" "(i, n) \<in> set (attr_rows ops) \<Longrightarrow> i < 32 \<and> (\<forall>m. n = Some m \<longrightarrow> 32 \<le> m \<and> m < 37)"
  by (cases ops; auto)+

lemma type_not_in_rows: "j \<in> set (type_rows ops) \<Longrightarrow> j \<notin> set (map fst (attr_rows ops))"
  by (cases ops) (simp_all add: type_rows_def)

lemma length_rows_order:
  "length (concat (map (row_order valid) rows)) \<le> sum_list (map (\<lambda>(i, n). if n = None then 1 else 2) rows)"
  by (induction rows) (auto split: option.split)

lemma length_attr_order: "length (attr_order ops valid) \<le> 20"
proof -
  have "length (type_rows ops) + sum_list (map (\<lambda>(i, n). if n = None then 1 else 2) (attr_rows ops)) \<le> 20"
    by (cases ops) (simp_all add: type_rows_def)
  then show ?thesis
    unfolding attr_order_def length_append using length_rows_order [of valid "attr_rows ops"] by linarith
qed

lemma in_row_order: "j \<in> set (row_order valid (i, n)) \<Longrightarrow> j = i \<or> n = Some j"
  by (cases n; cases "bit (sv_mask valid) i"; cases "bit (sv_flags valid) 8") auto

lemma attr_order_bound:
  assumes "j \<in> set (attr_order ops valid)"
  shows "j < 37"
proof (cases "j \<in> set (type_rows ops)")
  case False
  then obtain row where "row \<in> set (attr_rows ops)" "j \<in> set (row_order valid row)"
    using assms unfolding attr_order_def set_append set_concat set_map by blast
  moreover obtain i n where "row = (i, n)" by (rule prod.exhaust)
  ultimately have "(i, n) \<in> set (attr_rows ops)" "j \<in> set (row_order valid (i, n))" by blast+
  then have "i < 32 \<and> (\<forall>m. n = Some m \<longrightarrow> 32 \<le> m \<and> m < 37)" "j = i \<or> n = Some j"
    using attr_rows_wf(2) in_row_order by blast+
  then show ?thesis by (elim disjE conjE) (linarith, blast)
next
  case True
  then show ?thesis by (cases ops) (simp_all add: type_rows_def)
qed

lemma bit_attr_bit: "bit (attr_bit i) j \<longleftrightarrow> i = j \<and> i < 32"
  by (auto simp: attr_bit_def bit_exp_iff possible_bit_word)

lemma and_attr_bit: "i < 32 \<Longrightarrow> w AND attr_bit i = 0 \<longleftrightarrow> \<not> bit w i"
  by (auto intro!: bit_word_eqI simp: bit_and_iff bit_attr_bit dest: arg_cong [where f = "\<lambda>w. bit w i"])

lemma bit_not_attr_bit: "i \<noteq> j \<Longrightarrow> bit (w AND NOT (attr_bit j)) i = bit w i"
  by (auto simp: bit_and_iff bit_not_iff bit_attr_bit dest: bit_imp_possible_bit)

section \<open>Parsers\<close>

text \<open>A table in which an entry has its own bit or none.\<close>

definition wf_context :: "attr_context_s \<Rightarrow> bool" where
  "wf_context actx \<longleftrightarrow> length (ac_attrcb actx) = ATTR_CONTEXT_COUNT_ATTR_CB \<and>
     (\<forall>i<ATTR_CONTEXT_COUNT_ATTR_CB. cb_code (ac_attrcb actx ! i) = 0 \<or> cb_code (ac_attrcb actx ! i) = attr_bit i)"

lemma wf_context_todo:
  assumes "wf_context actx" and "attrcb_at actx i = Some e" and "j \<noteq> i"
    and "t AND NOT (cb_code e) = u AND NOT (cb_code e)"
  shows "bit t j = bit u j"
proof -
  have "cb_code e = 0 \<or> cb_code e = attr_bit i"
    using assms(1,2) by (auto simp: wf_context_def attrcb_at_def split: if_splits)
  then show ?thesis using assms(3,4) bit_not_attr_bit [of j i t] bit_not_attr_bit [of j i u] by auto
qed

definition with_flags :: "u32 \<Rightarrow> 'p parse_s \<Rightarrow> 'p parse_s" where
  "with_flags f st = st\<lparr>ps_r := (ps_r st)\<lparr>rr_flags := f\<rparr>\<rparr>"

lemma with_flags_fields [simp]:
  "rr_valid (ps_r (with_flags f st)) = rr_valid (ps_r st)" "rr_todo (ps_r (with_flags f st)) = rr_todo (ps_r st)"
  "ps_ptr (with_flags f st) = ps_ptr st" "ps_buffer (with_flags f st) = ps_buffer st"
  "ps_stat (with_flags f st) = ps_stat st"
  by (simp_all add: with_flags_def)

text \<open>
  What the walks rely on in a parser: it leaves the set of attributes and the flags alone, takes at most the
  bit of its attribute off those still to do, and does not look at the flags.
\<close>

locale attr_parser =
  fixes pa :: "'p parse_attribute"
  assumes in_table: "pa actx ctr st = Some st' \<Longrightarrow> \<exists>e. attrcb_at actx ctr = Some e"
    and keeps_valid: "pa actx ctr st = Some st' \<Longrightarrow> rr_valid (ps_r st') = rr_valid (ps_r st)"
    and keeps_todo: "pa actx ctr st = Some st' \<Longrightarrow> attrcb_at actx ctr = Some e \<Longrightarrow>
      rr_todo (ps_r st') AND NOT (cb_code e) = rr_todo (ps_r st) AND NOT (cb_code e)"
    and flags_unused: "pa actx ctr (with_flags f st) = map_option (with_flags f) (pa actx ctr st)"
begin

lemma todo_bits:
  assumes "wf_context actx" and "pa actx i st = Some st'" and "j \<noteq> i"
  shows "bit (rr_todo (ps_r st')) j = bit (rr_todo (ps_r st)) j"
  using in_table [OF assms(2)] keeps_todo [OF assms(2)] wf_context_todo [OF assms(1) _ assms(3)] by blast

lemma cached_keeps:
  assumes "wf_context actx" and "parse_cached pa actx cb st = Some st'"
  shows "rr_valid (ps_r st') = rr_valid (ps_r st) \<and>
         (\<forall>j. j \<notin> set cb \<longrightarrow> bit (rr_todo (ps_r st')) j = bit (rr_todo (ps_r st)) j)"
  using assms(2)
proof (induction cb arbitrary: st)
  case (Cons i cb)
  then obtain st1 where st1: "pa actx i st = Some st1" "parse_cached pa actx cb st1 = Some st'"
    by (auto simp: bind_eq_Some_conv)
  show ?case
    using Cons.IH [OF st1(2)] keeps_valid [OF st1(1)] todo_bits [OF assms(1) st1(1)] by auto
qed simp

lemma row_cached:
  assumes "i < 32" and "bit (rr_todo (ps_r st)) i = bit (sv_mask (rr_valid (ps_r st))) i"
  shows "parse_row pa actx (i, n) st = parse_cached pa actx (row_order (rr_valid (ps_r st)) (i, n)) st"
proof (cases "pa actx i st")
  case (Some st1)
  then show ?thesis
    using assms keeps_valid [OF Some] by (cases n) (auto simp: parse_if_def parse_time_def and_attr_bit index_defs)
qed (use assms in \<open>cases n; auto simp: parse_if_def parse_time_def and_attr_bit index_defs\<close>)

lemma rows_cached:
  assumes "wf_context actx" and "distinct (map fst rows)"
    and "\<And>i n. (i, n) \<in> set rows \<Longrightarrow> i < 32 \<and> (\<forall>m. n = Some m \<longrightarrow> 32 \<le> m)"
    and "\<And>i. i \<in> set (map fst rows) \<Longrightarrow> bit (rr_todo (ps_r st)) i = bit (sv_mask (rr_valid (ps_r st))) i"
  shows "parse_rows pa actx rows st = parse_cached pa actx (concat (map (row_order (rr_valid (ps_r st))) rows)) st"
  using assms(2-)
proof (induction rows arbitrary: st)
  case (Cons row rows)
  obtain i n where row: "row = (i, n)" by (cases row)
  have r: "parse_row pa actx row st = parse_cached pa actx (row_order (rr_valid (ps_r st)) row) st"
    unfolding row by (rule row_cached) (use Cons.prems row in auto)
  have "parse_rows pa actx rows st1 = parse_cached pa actx (concat (map (row_order (rr_valid (ps_r st))) rows)) st1"
    if st1: "parse_cached pa actx (row_order (rr_valid (ps_r st)) row) st = Some st1" for st1
  proof -
    note k = cached_keeps [OF assms(1) st1]
    have "j \<notin> set (row_order (rr_valid (ps_r st)) row)" if "j \<in> set (map fst rows)" for j
      using that Cons.prems(1) Cons.prems(2) [of i n] Cons.prems(2) [of j] row in_row_order [of j _ i n]
      by (fastforce simp del: row_order.simps)
    then show ?thesis
      using k Cons.prems by (subst Cons.IH) auto
  qed
  then show ?case
    by (cases "parse_cached pa actx (row_order (rr_valid (ps_r st)) row) st") (simp_all add: r parse_cached_append)
qed simp

lemma walk_cached:
  assumes "wf_context actx" and "rr_todo (ps_r st) = sv_mask (rr_valid (ps_r st))"
  shows "ops_parse_attributes ops pa actx st = parse_cached pa actx (attr_order ops (rr_valid (ps_r st))) st"
proof -
  have "parse_rows pa actx (attr_rows ops) st1 =
      parse_cached pa actx (concat (map (row_order (rr_valid (ps_r st))) (attr_rows ops))) st1"
    if st1: "parse_cached pa actx (type_rows ops) st = Some st1" for st1
  proof -
    note k = cached_keeps [OF assms(1) st1]
    have "j \<notin> set (type_rows ops)" if "j \<in> set (map fst (attr_rows ops))" for j
      using that type_not_in_rows by blast
    then show ?thesis
      using k assms(2) attr_rows_wf by (subst rows_cached [OF assms(1)]) auto
  qed
  then show ?thesis
    by (cases "parse_cached pa actx (type_rows ops) st")
      (simp_all add: ops_parse_attributes_rows attr_order_def parse_cached_append)
qed

lemma cached_flags:
  "parse_cached pa actx cb (with_flags f st) = map_option (with_flags f) (parse_cached pa actx cb st)"
proof (induction cb arbitrary: st)
  case (Cons i cb)
  then show ?case by (cases "pa actx i st") (simp_all add: flags_unused)
qed simp

end

lemma mark_done_fields [simp]:
  "rr_valid (mark_done e r) = rr_valid r" "rr_flags (mark_done e r) = rr_flags r"
  "rr_todo (mark_done e r) = rr_todo r AND NOT (cb_code e)"
  by (simp_all add: mark_done_def)

lemma call_cb_keeps_r: "call_cb cb actx st = Some st' \<Longrightarrow> ps_r st' = ps_r st \<and> ps_ptr st' = ps_ptr st"
  by (auto simp: call_cb_def bind_eq_Some_conv)

lemma call_cb_flags: "call_cb cb actx (with_flags f st) = map_option (with_flags f) (call_cb cb actx st)"
  by (simp add: call_cb_def with_flags_def split: option.split Option.bind_split prod.split)

lemma with_flags_update:
  "(with_flags f st)\<lparr>ps_ptr := p, ps_r := mark_done e (ps_r (with_flags f st))\<rparr> =
     with_flags f (st\<lparr>ps_ptr := p, ps_r := mark_done e (ps_r st)\<rparr>)"
  "(with_flags f st)\<lparr>ps_r := mark_done e (ps_r (with_flags f st))\<rparr> = with_flags f (st\<lparr>ps_r := mark_done e (ps_r st)\<rparr>)"
  by (simp_all add: with_flags_def mark_done_def)

interpretation read_p: attr_parser attr_read_cb
proof unfold_locales
  show "attr_read_cb actx ctr (with_flags f st) = map_option (with_flags f) (attr_read_cb actx ctr st)" for actx ctr f st
    unfolding attr_read_cb_def with_flags_update call_cb_flags by (simp split: Option.bind_split)
qed (auto simp: attr_read_cb_def bind_eq_Some_conv and.assoc dest!: call_cb_keeps_r)

interpretation write_p: attr_parser attr_write_cb
proof unfold_locales
  show "attr_write_cb actx ctr (with_flags f st) = map_option (with_flags f) (attr_write_cb actx ctr st)"
    for actx ctr f and st :: "'p parse_s"
    unfolding attr_write_cb_def with_flags_update call_cb_flags by (simp split: Option.bind_split)
qed (auto simp: attr_write_cb_def bind_eq_Some_conv and.assoc dest!: call_cb_keeps_r)

interpretation size_p: attr_parser prepare_write_cb
proof unfold_locales
  show "prepare_write_cb actx ctr (with_flags f st) = map_option (with_flags f) (prepare_write_cb actx ctr st)"
    for actx ctr f st
    unfolding prepare_write_cb_def with_flags_update by (simp split: Option.bind_split)
qed (auto simp: prepare_write_cb_def bind_eq_Some_conv and.assoc)

interpretation stat_mask_p: attr_parser read_stat_mask_cb
  by unfold_locales (auto simp: read_stat_mask_cb_def bind_eq_Some_conv with_flags_def split: Option.bind_split)

interpretation valid_flags_p: attr_parser get_valid_flags_cb
  by unfold_locales
    (auto simp: get_valid_flags_cb_def bind_eq_Some_conv with_flags_def Let_def and.assoc split: Option.bind_split)

interpretation parse_stat_p: attr_parser "parse_stat_mask_cb cb" for cb :: "u32 \<Rightarrow> u32 \<Rightarrow> u32 \<Rightarrow> u32 \<Rightarrow> 'q \<Rightarrow> 'q"
proof unfold_locales
  show "parse_stat_mask_cb cb actx ctr (with_flags f st) = map_option (with_flags f) (parse_stat_mask_cb cb actx ctr st)"
    for actx ctr f st
    unfolding parse_stat_mask_cb_def by (simp add: with_flags_def mark_done_def split: Option.bind_split)
qed (auto simp: parse_stat_mask_cb_def bind_eq_Some_conv and.assoc)

section \<open>The invariant of the cache\<close>

text \<open>The operations table of a version of the protocol; a context is set up for its version.\<close>

definition version_ops :: "u8 \<Rightarrow> attr_ops_s" where
  "version_ops v = (if v \<le> 3 then Ops_v03 else if v = 4 then Ops_v04 else if v = 5 then Ops_v05 else Ops_v06)"

definition set_up :: "attr_context_s \<Rightarrow> bool" where
  "set_up actx \<longleftrightarrow> wf_context actx \<and> ac_ops actx = version_ops (ac_version actx)"

definition hcb_ok :: "nat \<Rightarrow> hashed_attrcb_s \<Rightarrow> bool" where
  "hcb_ok hash hcb \<longleftrightarrow> hash = attrcb_hash (hc_valid hcb) \<and> unat (hc_count hcb) = length (hc_cb hcb) \<and>
     hc_cb hcb = attr_order (version_ops (hc_version hcb)) (hc_valid hcb)"

text \<open>
  Each record is in the list of its hash and holds the order of its set of attributes in its version; no set
  of attributes has two records for one version.
\<close>

definition cache_inv :: "attrcb_hashtable \<Rightarrow> bool" where
  "cache_inv tab \<longleftrightarrow> length tab = HASH_ATTRCB_TABLE_SIZE \<and>
     (\<forall>h<HASH_ATTRCB_TABLE_SIZE. (\<forall>hcb \<in> set (tab ! h). hcb_ok h hcb) \<and>
        distinct (map (\<lambda>hcb. (hc_valid hcb, hc_version hcb)) (tab ! h)))"

lemma attrcb_hash_less [simp]: "attrcb_hash valid < 17"
  by (simp add: attrcb_hash_def HASH_ATTRCB_TABLE_SIZE_def)

lemma lookup_order:
  assumes "cache_inv tab" and "lookup_hashed_attrcb tab valid version = Some hcb"
  shows "take (unat (hc_count hcb)) (hc_cb hcb) = attr_order (version_ops version) valid"
proof -
  have "hcb \<in> set (tab ! attrcb_hash valid)" "hc_valid hcb = valid" "hc_version hcb = version"
    using assms(2) by (auto simp: lookup_hashed_attrcb_def find_Some_iff)
  moreover have "hcb_ok (attrcb_hash valid) hcb"
    using assms(1) calculation attrcb_hash_less [of valid]
    unfolding cache_inv_def HASH_ATTRCB_TABLE_SIZE_def by blast
  ultimately show ?thesis by (simp add: hcb_ok_def)
qed

lemma add_attrcb_inv:
  assumes "cache_inv tab" and "hcb_ok (attrcb_hash (hc_valid hcb)) hcb"
  shows "cache_inv (add_attrcb_hashtable tab hcb)"
  using assms
  by (auto simp: cache_inv_def add_attrcb_hashtable_def Let_def nth_list_update HASH_ATTRCB_TABLE_SIZE_def image_iff)

context attr_parser
begin

lemma generic_order:
  assumes "set_up actx" and "cache_inv tab"
  shows "\<exists>f. (f = rr_flags (ps_r st) \<or> f = rr_flags (ps_r st) OR RW_ATTR_RESULT_FLAG_CACHED) \<and>
           parse_attributes_generic tab pa actx valid st =
             map_option (with_flags f) (parse_cached pa actx
               (attr_order (ac_ops actx) (rr_valid (parse_start actx valid (ps_r st))))
               (st\<lparr>ps_r := parse_start actx valid (ps_r st)\<rparr>))"
proof -
  let ?r = "parse_start actx valid (ps_r st)" and ?st = "st\<lparr>ps_r := parse_start actx valid (ps_r st)\<rparr>"
  have flags: "rr_flags ?r = rr_flags (ps_r st)" and todo: "rr_todo ?r = sv_mask (rr_valid ?r)"
    by (simp_all add: parse_start_def Let_def)
  have ops: "ac_ops actx = version_ops (ac_version actx)" and wf: "wf_context actx"
    using assms(1) by (simp_all add: set_up_def)
  show ?thesis
  proof (cases "lookup_hashed_attrcb tab (rr_valid ?r) (ac_version actx)")
    case None
    have "with_flags (rr_flags (ps_r st)) ?st = ?st" by (simp add: with_flags_def flags [symmetric])
    then have "map_option (with_flags (rr_flags (ps_r st))) (parse_cached pa actx cb ?st) = parse_cached pa actx cb ?st" for cb
      using cached_flags [of actx cb "rr_flags (ps_r st)" ?st] by simp
    then show ?thesis
      using None walk_cached [OF wf, of ?st] todo
      by (intro exI [of _ "rr_flags (ps_r st)"]) (simp add: parse_attributes_generic_def Let_def)
  next
    case (Some hcb)
    have "st\<lparr>ps_r := ?r\<lparr>rr_flags := f\<rparr>\<rparr> = with_flags f ?st" for f by (simp add: with_flags_def)
    then show ?thesis
      using Some lookup_order [OF assms(2) Some] ops
      by (intro exI [of _ "rr_flags (ps_r st) OR RW_ATTR_RESULT_FLAG_CACHED"])
        (simp add: parse_attributes_generic_def Let_def flags cached_flags)
  qed
qed

end

section \<open>Recording the order\<close>

definition attr_maxlength :: "attr_context_s \<Rightarrow> nat \<Rightarrow> u32" where
  "attr_maxlength actx i = cb_maxlength (ac_attrcb actx ! i)"

text \<open>The indices and the length recorded so far.\<close>

definition recorded :: "attr_context_s \<Rightarrow> hlp_read_s \<Rightarrow> nat list \<Rightarrow> bool" where
  "recorded actx hlp xs \<longleftrightarrow> length (hlp_cb hlp) = 37 \<and> unat (hlp_index hlp) = length xs \<and>
     take (length xs) (hlp_cb hlp) = xs \<and> hlp_len hlp = sum_list (map (attr_maxlength actx) xs)"

lemma recorded_init: "recorded actx hlp_init []"
  by (simp add: recorded_def hlp_init_def ATTR_CONTEXT_COUNT_ATTR_CB_def)

lemma hlp_append_recorded:
  assumes "recorded actx hlp xs" and "attrcb_at actx i = Some e" and "length xs < 37"
  shows "\<exists>hlp'. hlp_append i e hlp = Some hlp' \<and> recorded actx hlp' (xs @ [i])"
proof -
  have "unat (hlp_index hlp + 1) = unat (hlp_index hlp) + 1"
    using assms(1,3) by (simp add: recorded_def unat_word_ariths)
  moreover have "take (Suc (length xs)) ((hlp_cb hlp)[length xs := i]) = xs @ [i]"
    using assms(1,3) by (simp add: recorded_def take_Suc_conv_app_nth)
  ultimately show ?thesis
    using assms by (auto simp: hlp_append_def recorded_def attr_maxlength_def attrcb_at_def split: if_splits)
qed

lemma unat_ucast_u8: "unat (ucast (x :: u8) :: u32) = unat x"
proof -
  have "unat x < 256" using unsigned_less [of x, where 'a = nat] by simp
  then show ?thesis by (simp add: unsigned_ucast_eq take_bit_nat_eq_self)
qed

locale recording_parser = attr_parser pa for pa :: "hlp_read_s parse_attribute" +
  assumes records: "pa actx ctr st = Some st' \<Longrightarrow> attrcb_at actx ctr = Some e \<Longrightarrow> hlp_append ctr e (ps_ptr st) = Some (ps_ptr st')"
begin

lemma cached_recorded:
  assumes "recorded actx (ps_ptr st) xs" and "length xs + length cb \<le> 37" and "parse_cached pa actx cb st = Some st'"
  shows "recorded actx (ps_ptr st') (xs @ cb)"
  using assms
proof (induction cb arbitrary: st xs)
  case (Cons i cb)
  then obtain st1 where st1: "pa actx i st = Some st1" "parse_cached pa actx cb st1 = Some st'"
    by (auto simp: bind_eq_Some_conv)
  obtain e where e: "attrcb_at actx i = Some e" using in_table [OF st1(1)] by blast
  have "recorded actx (ps_ptr st1) (xs @ [i])"
    using hlp_append_recorded [OF Cons.prems(1) e] records [OF st1(1) e] Cons.prems(2) by auto
  then show ?case using Cons.IH [of st1 "xs @ [i]"] Cons.prems(2) st1(2) by simp
qed simp

lemma cache_order_inv:
  assumes "set_up actx" and "cache_inv tab" and "ps_ptr st = hlp_init"
    and "parse_attributes_generic tab pa actx valid st = Some st'"
  shows "cache_inv (cache_order malloc_ok tab actx st') \<and>
         hlp_len (ps_ptr st') = sum_list (map (attr_maxlength actx)
           (attr_order (ac_ops actx) (rr_valid (parse_start actx valid (ps_r st)))))"
proof -
  let ?st = "st\<lparr>ps_r := parse_start actx valid (ps_r st)\<rparr>"
  let ?order = "attr_order (ac_ops actx) (rr_valid (parse_start actx valid (ps_r st)))"
  obtain f where "Some st' = map_option (with_flags f) (parse_cached pa actx ?order ?st)"
    using generic_order [OF assms(1,2), of st valid] unfolding assms(4) by blast
  then obtain st1 where st1: "parse_cached pa actx ?order ?st = Some st1" and st': "st' = with_flags f st1"
    by (cases "parse_cached pa actx ?order ?st") simp_all
  have "recorded actx (ps_ptr st1) ([] @ ?order)"
    by (rule cached_recorded [OF _ _ st1])
      (use assms(3) recorded_init length_attr_order [of "ac_ops actx"] in \<open>simp_all add: le_trans [OF length_attr_order]\<close>)
  then have rec: "recorded actx (ps_ptr st') ?order" by (simp add: st')
  have valid: "rr_valid (ps_r st') = rr_valid (parse_start actx valid (ps_r st))"
    using cached_keeps [OF _ st1] assms(1) by (simp add: st' set_up_def)
  have "hcb_ok (attrcb_hash (rr_valid (ps_r st'))) \<lparr>hc_valid = rr_valid (ps_r st'), hc_version = ac_version actx,
      hc_count = ucast (hlp_index (ps_ptr st')), hc_len = l, hc_stat_mask = m,
      hc_cb = take (unat (hlp_index (ps_ptr st'))) (hlp_cb (ps_ptr st'))\<rparr>" for l m
    using rec assms(1) by (simp add: hcb_ok_def recorded_def valid set_up_def unat_ucast_u8)
  then have "cache_inv (cache_order malloc_ok tab actx st')"
    using assms(2) by (simp add: cache_order_def create_hashed_attrcb_def Let_def add_attrcb_inv)
  then show ?thesis using rec by (simp add: recorded_def)
qed

end

interpretation read_p: recording_parser attr_read_cb
  by unfold_locales (auto simp: attr_read_cb_def bind_eq_Some_conv dest!: call_cb_keeps_r)

interpretation size_p: recording_parser prepare_write_cb
  by unfold_locales (auto simp: prepare_write_cb_def bind_eq_Some_conv)

lemma prepare_write_total:
  assumes "recorded actx (ps_ptr st) xs" and "length xs + length cb \<le> 37" and "\<forall>i \<in> set cb. i < length (ac_attrcb actx)"
  shows "\<exists>st'. parse_cached prepare_write_cb actx cb st = Some st'"
  using assms
proof (induction cb arbitrary: st xs)
  case (Cons i cb)
  then obtain e where e: "attrcb_at actx i = Some e" by (simp add: attrcb_at_def)
  then obtain hlp where "hlp_append i e (ps_ptr st) = Some hlp" "recorded actx hlp (xs @ [i])"
    using hlp_append_recorded [OF Cons.prems(1) e] Cons.prems(2) by auto
  then show ?case
    using Cons.prems Cons.IH [of "st\<lparr>ps_ptr := hlp, ps_r := mark_done e (ps_r st)\<rparr>" "xs @ [i]"] e
    by (simp add: prepare_write_cb_def)
qed simp

section \<open>The contexts that are set up\<close>

lemma length_fill_attrcb: "length (fill_attrcb es) = ATTR_CONTEXT_COUNT_ATTR_CB"
proof -
  have "length (foldl (\<lambda>tab (i, e). tab[i := e]) tab es) = length tab" for tab :: "rw_attrcb_s list"
    by (induction es arbitrary: tab) auto
  then show ?thesis by (simp add: fill_attrcb_def init_attrcb_zero_def)
qed

lemma fill_attrcb_codes:
  assumes "\<forall>(i, e) \<in> set es. cb_code e = 0 \<or> cb_code e = attr_bit i" and "i < ATTR_CONTEXT_COUNT_ATTR_CB"
  shows "cb_code (fill_attrcb es ! i) = 0 \<or> cb_code (fill_attrcb es ! i) = attr_bit i"
proof -
  let ?ok = "\<lambda>tab. \<forall>i<length tab. cb_code (tab ! i) = 0 \<or> cb_code (tab ! i) = attr_bit i"
  have "?ok (foldl (\<lambda>tab (i, e). tab[i := e]) tab es)" if "?ok tab" for tab :: "rw_attrcb_s list"
    using that assms(1)
  proof (induction es arbitrary: tab)
    case (Cons ie es)
    then have "?ok (tab[fst ie := snd ie])" 
      by (cases "fst ie < length tab") (auto simp: nth_list_update split_beta)
    with Cons show ?case by (simp add: split_beta)
  qed simp
  from this [of "init_attrcb_zero ATTR_CONTEXT_COUNT_ATTR_CB"] show ?thesis
    using assms(2) length_fill_attrcb [of es]
    by (simp add: fill_attrcb_def init_attrcb_zero_def attrcb_zero_def)
qed

lemmas table_defs = entries_v03_def entries_v04_def entries_v06_def entries_nsec_v04_def entry_extended_def
  entry_bits_v05_def attr_entry_def nsec_entry_def

lemmas init_context_defs = init_attr_context_v03_def init_attr_context_v04_def init_attr_context_v05_def
  init_attr_context_v06_def

lemma set_sftp_attr_context_set_up:
  assumes "ac_version actx \<le> 6"
  shows "set_up (set_sftp_attr_context actx) \<and> ac_version (set_sftp_attr_context actx) = ac_version actx \<and>
         ac_mapping (set_sftp_attr_context actx) = ac_mapping actx"
proof -
  have "wf_context (init_attr_context_v03 actx)" "wf_context (init_attr_context_v04 actx)"
    "wf_context (init_attr_context_v05 actx)" "wf_context (init_attr_context_v06 actx)" for actx
    unfolding wf_context_def
    by (intro conjI allI impI; (intro fill_attrcb_codes)?; simp add: init_context_defs length_fill_attrcb;
      (intro fill_attrcb_codes)?; simp add: table_defs)+
  moreover have "ac_version actx \<le> 3 \<or> ac_version actx = 4 \<or> ac_version actx = 5 \<or> ac_version actx = 6"
    using assms by (simp add: word_le_nat_alt word_unat_eq_iff) arith
  ultimately show ?thesis
    by (auto simp: set_sftp_attr_context_def set_up_def version_ops_def init_context_defs)
qed

section \<open>A context and a cache\<close>

definition mapcb_0 :: net_mapcb_s where
  "mapcb_0 = \<lparr>get_user_p2l = (\<lambda>n name. n), get_group_p2l = (\<lambda>n name. n), get_user_l2p = (\<lambda>n space. (n, [])),
     get_group_l2p = (\<lambda>n space. (n, []))\<rparr>"

definition context_0 :: "u8 \<Rightarrow> attr_context_s" where
  "context_0 v = set_sftp_attr_context ((init_attr_context
     \<lparr>ac_flags = 0, ac_mapping = mapcb_0, ac_ops = Ops_v03, ac_w_valid = init_sftp_valid, ac_w_count = 0,
      ac_r_valid = init_sftp_valid, ac_r_count = 0, ac_attrcb = [], ac_maxlength_filename = 0,
      ac_maxlength_username = 0, ac_maxlength_groupname = 0, ac_maxlength_domainname = 0, ac_version = 0\<rparr>
     0 mapcb_0)\<lparr>ac_version := v\<rparr>)"

lemma context_0_set_up: "v \<le> 6 \<Longrightarrow> set_up (context_0 v) \<and> ac_version (context_0 v) = v \<and> ac_mapping (context_0 v) = mapcb_0"
  using set_sftp_attr_context_set_up [of "(init_attr_context
     \<lparr>ac_flags = 0, ac_mapping = mapcb_0, ac_ops = Ops_v03, ac_w_valid = init_sftp_valid, ac_w_count = 0,
      ac_r_valid = init_sftp_valid, ac_r_count = 0, ac_attrcb = [], ac_maxlength_filename = 0,
      ac_maxlength_username = 0, ac_maxlength_groupname = 0, ac_maxlength_domainname = 0, ac_version = 0\<rparr>
     0 mapcb_0)\<lparr>ac_version := v\<rparr>"]
  by (simp add: context_0_def init_attr_context_def)

section \<open>Properties\<close>

text \<open>
  C40: after \<open>set_sftp_attr_context\<close> a context of a supported version (at most 6) is well formed: its table
  has the 37 entries that \<open>parse_attribute\<close> indexes, each with the bit of its own index or none, and its
  operations are those of its version. Reading \<open>valid\<close> then parses exactly the attributes that are both in
  \<open>valid\<close> and supported, in the order of the version, with the nanoseconds right after their time.
\<close>

theorem parse_attributes_wire_order:
  assumes "ac_version actx \<le> 6"
  shows "set_up (set_sftp_attr_context actx) \<and>
    parse_attributes_generic (replicate HASH_ATTRCB_TABLE_SIZE []) attr_read_cb (set_sftp_attr_context actx) valid st =
      parse_cached attr_read_cb (set_sftp_attr_context actx)
        (attr_order (version_ops (ac_version actx)) (rr_valid (parse_start (set_sftp_attr_context actx) valid (ps_r st))))
        (st\<lparr>ps_r := parse_start (set_sftp_attr_context actx) valid (ps_r st)\<rparr>)"
proof -
  let ?actx = "set_sftp_attr_context actx"
  have su: "set_up ?actx" "ac_version ?actx = ac_version actx"
    using set_sftp_attr_context_set_up [OF assms] by simp_all
  have "lookup_hashed_attrcb (replicate HASH_ATTRCB_TABLE_SIZE []) v n = None" for v n
    by (simp add: lookup_hashed_attrcb_def HASH_ATTRCB_TABLE_SIZE_def)
  then show ?thesis
    using su read_p.walk_cached [of ?actx "st\<lparr>ps_r := parse_start ?actx valid (ps_r st)\<rparr>"]
    by (simp add: parse_attributes_generic_def Let_def set_up_def parse_start_def)
qed

theorem parse_attributes_wire_order_witness:
  "set_up (set_sftp_attr_context (context_0 6)) \<and>
   attr_order (version_ops 6) (rr_valid (parse_start (context_0 6) \<lparr>sv_flags = 256, sv_mask = 0x49\<rparr> init_rw_attr_result)) =
     [32, 0, 3, 33, 6]"
proof
  show "set_up (set_sftp_attr_context (context_0 6))"
    using parse_attributes_wire_order [of "context_0 6"] context_0_set_up [of 6] by simp
qed code_simp

text \<open>
  The steps that change the cache: a read or a sizing by any context that is set up, on whatever data, with
  the allocation of a new record succeeding or not; and the removal of records.
\<close>

inductive cache_step :: "attrcb_hashtable \<Rightarrow> attrcb_hashtable \<Rightarrow> bool" where
  step_read: "set_up actx \<Longrightarrow> read_attributes_generic malloc_ok tab actx ab r stat bits = Some (tab', out) \<Longrightarrow>
    cache_step tab tab'"
| step_size: "set_up actx \<Longrightarrow> get_size_buffer_write_attributes malloc_ok tab actx r valid = Some (tab', out) \<Longrightarrow>
    cache_step tab tab'"
| step_remove: "cache_step tab (remove_attrcb_hashtable tab hcb)"
| step_clear: "clear_hashattr_generic force (tab, refcount) = (tab', refcount') \<Longrightarrow> cache_step tab tab'"
| step_init: "init_hashattr_generic (tab, refcount) = (tab', refcount') \<Longrightarrow> cache_step tab tab'"

lemma cache_inv_empty: "cache_inv (replicate HASH_ATTRCB_TABLE_SIZE [])"
  by (simp add: cache_inv_def)

lemma remove_attrcb_inv: "cache_inv tab \<Longrightarrow> cache_inv (remove_attrcb_hashtable tab hcb)"
  using set_remove1_subset [of hcb "tab ! attrcb_hash (hc_valid hcb)"]
  by (auto simp: cache_inv_def remove_attrcb_hashtable_def Let_def nth_list_update HASH_ATTRCB_TABLE_SIZE_def
      distinct_map intro: inj_on_diff)

lemma read_attributes_inv:
  assumes "set_up actx" and "cache_inv tab"
    and "read_attributes_generic malloc_ok tab actx ab r stat bits = Some (tab', out)"
  shows "cache_inv tab'"
  using assms(3)
  by (auto intro!: conjunct1 [OF read_p.cache_order_inv [OF assms(1,2)]] simp: read_attributes_generic_def bind_eq_Some_conv Let_def)

lemma size_attributes_inv:
  assumes "set_up actx" and "cache_inv tab"
    and "get_size_buffer_write_attributes malloc_ok tab actx r valid = Some (tab', out)"
  shows "cache_inv tab'"
  using assms(3)
  by (auto intro!: conjunct1 [OF size_p.cache_order_inv [OF assms(1,2)]] simp: get_size_buffer_write_attributes_def bind_eq_Some_conv Let_def)

lemma cache_step_inv: "cache_step tab tab' \<Longrightarrow> cache_inv tab \<Longrightarrow> cache_inv tab'"
  by (induction rule: cache_step.induct)
    (auto simp: clear_hashattr_generic_def init_hashattr_generic_def Let_def cache_inv_empty
      intro: read_attributes_inv size_attributes_inv remove_attrcb_inv split: if_splits prod.splits)

definition cache_0 :: attrcb_hashtable where
  "cache_0 = (replicate HASH_ATTRCB_TABLE_SIZE [])[1 := [\<lparr>hc_valid = \<lparr>sv_flags = 0, sv_mask = 1\<rparr>, hc_version = 3,
     hc_count = 1, hc_len = 8, hc_stat_mask = SYSTEM_STAT_SIZE, hc_cb = [0]\<rparr>]]"

lemma cache_0_step: "cache_step (replicate HASH_ATTRCB_TABLE_SIZE []) cache_0"
proof (rule step_size)
  show "set_up (context_0 3)" using context_0_set_up [of 3] by simp
  show "get_size_buffer_write_attributes True (replicate HASH_ATTRCB_TABLE_SIZE []) (context_0 3) init_rw_attr_result
      \<lparr>sv_flags = 0, sv_mask = 1\<rparr> = Some (cache_0, init_rw_attr_result\<lparr>rr_flags := 2, rr_valid := \<lparr>sv_flags = 0, sv_mask = 1\<rparr>,
        rr_done := 1, rr_stat_mask := SYSTEM_STAT_SIZE\<rparr>, 8)"
    by code_simp
qed

text \<open>
  C10: the cache stays consistent. In every cache that any sequence of reads, sizings and removals, by
  connections of any version, produces from the empty one, each record is in the list of its hash and
  holds the order of exactly its set of attributes in its version, and there is no second record for the same set
  and version.
\<close>

theorem cache_reachable_inv:
  assumes "cache_step\<^sup>*\<^sup>* (replicate HASH_ATTRCB_TABLE_SIZE []) tab"
  shows "cache_inv tab"
  using assms by (induction rule: rtranclp_induct) (auto intro: cache_inv_empty cache_step_inv)

theorem cache_reachable_inv_witness: "cache_0 ! 1 \<noteq> [] \<and> cache_inv cache_0"
  using cache_reachable_inv [OF r_into_rtranclp [of cache_step, OF cache_0_step]]
  by (simp add: cache_0_def HASH_ATTRCB_TABLE_SIZE_def)

lemma with_flags_twice: "with_flags f (with_flags g st) = with_flags f st"
  by (simp add: with_flags_def)

definition drop_flags :: "'a \<times> rw_attr_result_s \<times> 'b \<Rightarrow> 'a \<times> rw_attr_result_s \<times> 'b" where
  "drop_flags = (\<lambda>(ab, r, stat). (ab, r\<lparr>rr_flags := 0\<rparr>, stat))"

context attr_parser
begin

lemma generic_cache_independent:
  assumes "set_up actx" and "cache_inv tab" and "cache_inv tab'"
  shows "map_option (with_flags 0) (parse_attributes_generic tab pa actx valid st) =
         map_option (with_flags 0) (parse_attributes_generic tab' pa actx valid st)"
proof -
  let ?run = "parse_cached pa actx (attr_order (ac_ops actx) (rr_valid (parse_start actx valid (ps_r st))))
    (st\<lparr>ps_r := parse_start actx valid (ps_r st)\<rparr>)"
  obtain f f' where "parse_attributes_generic tab pa actx valid st = map_option (with_flags f) ?run"
    and "parse_attributes_generic tab' pa actx valid st = map_option (with_flags f') ?run"
    using generic_order [OF assms(1,2), of st valid] generic_order [OF assms(1,3), of st valid] by blast
  then show ?thesis by (cases ?run) (simp_all add: with_flags_twice)
qed

end

lemma drop_flags_write:
  "map_option drop_flags (write_attributes_generic tab actx ab r stat valid) =
     Option.bind (map_option (with_flags 0) (parse_attributes_generic tab attr_write_cb actx valid
       \<lparr>ps_buffer = Some ab, ps_r = r\<lparr>rr_flags := rr_flags r OR RW_ATTR_RESULT_FLAG_WRITE\<rparr>, ps_stat = Some stat, ps_ptr = ()\<rparr>))
       (\<lambda>st. Option.bind (ps_buffer st) (\<lambda>ab. Option.bind (ps_stat st) (\<lambda>stat. Some (ab, ps_r st, stat))))"
  by (simp add: write_attributes_generic_def Let_def drop_flags_def with_flags_def split: Option.bind_split option.split)

lemma drop_flags_read:
  "map_option (drop_flags \<circ> snd) (read_attributes_generic malloc_ok tab actx ab r stat bits) =
     Option.bind (map_option (with_flags 0) (parse_attributes_generic tab attr_read_cb actx (split_valid bits)
       \<lparr>ps_buffer = Some ab, ps_r = r\<lparr>rr_flags := rr_flags r OR RW_ATTR_RESULT_FLAG_READ\<rparr>, ps_stat = Some stat, ps_ptr = hlp_init\<rparr>))
       (\<lambda>st. Option.bind (ps_buffer st) (\<lambda>ab. Option.bind (ps_stat st) (\<lambda>stat. Some (ab, ps_r st, stat))))"
  by (simp add: read_attributes_generic_def Let_def drop_flags_def with_flags_def split: Option.bind_split option.split)

text \<open>
  C11: the cache is transparent. With any consistent cache, writing and reading attributes have the effect on the
  buffer, the attributes and the result that they have with an empty one, apart from the flag in the result that
  says the cache was used.
\<close>

theorem cache_transparent:
  assumes "set_up actx" and "cache_inv tab"
  shows "map_option drop_flags (write_attributes_generic tab actx ab r stat valid) =
           map_option drop_flags (write_attributes_generic (replicate HASH_ATTRCB_TABLE_SIZE []) actx ab r stat valid) \<and>
         map_option (drop_flags \<circ> snd) (read_attributes_generic malloc_ok tab actx ab r stat bits) =
           map_option (drop_flags \<circ> snd) (read_attributes_generic malloc_ok (replicate HASH_ATTRCB_TABLE_SIZE []) actx ab r stat bits)"
  by (simp only: drop_flags_write drop_flags_read write_p.generic_cache_independent [OF assms cache_inv_empty]
      read_p.generic_cache_independent [OF assms cache_inv_empty])

theorem cache_transparent_witness:
  "lookup_hashed_attrcb cache_0 \<lparr>sv_flags = 0, sv_mask = 1\<rparr> 3 \<noteq> None \<and>
   map_option drop_flags (write_attributes_generic cache_0 (context_0 3) init_nowrite_attr_buffer init_rw_attr_result stat_0
     \<lparr>sv_flags = 0, sv_mask = 1\<rparr>) =
   map_option drop_flags (write_attributes_generic (replicate HASH_ATTRCB_TABLE_SIZE []) (context_0 3) init_nowrite_attr_buffer
     init_rw_attr_result stat_0 \<lparr>sv_flags = 0, sv_mask = 1\<rparr>)"
proof
  show "lookup_hashed_attrcb cache_0 \<lparr>sv_flags = 0, sv_mask = 1\<rparr> 3 \<noteq> None"
    by (simp add: lookup_hashed_attrcb_def cache_0_def attrcb_hash_def HASH_ATTRCB_TABLE_SIZE_def)
qed (use cache_transparent [of "context_0 3" cache_0] context_0_set_up [of 3] cache_step_inv [OF cache_0_step cache_inv_empty]
     in simp)

end
