(* ===== verification/Sftp_Wire.thy ===== *)
theory Sftp_Wire
  imports Sftp_Generic
begin

text \<open>
  What reading and writing a set of attributes does to the bytes of a message, over the model of
  \<open>Sftp_Generic\<close>: the sizing function \<open>get_size_buffer_write_attributes\<close> and the writer agree, and what is
  written with version 3 of the protocol is read back.
\<close>

section \<open>The bytes of an attribute\<close>

text \<open>
  The bytes a writer puts in the buffer when \<open>left\<close> bytes are left in it. The space that is left is given to the
  mapping of users and groups.
\<close>

definition type_byte :: "u8 list \<Rightarrow> system_stat_s \<Rightarrow> u8" where
  "type_byte type_reverse stat =
     (let typ = IFTODT (get_type_system_stat stat) in if typ < 13 then type_reverse ! unat typ else 5)"

definition owner_bytes :: "(u32 \<Rightarrow> u32 \<Rightarrow> u32 \<times> u8 list) \<Rightarrow> u32 \<Rightarrow> u32 \<Rightarrow> u8 list" where
  "owner_bytes l2p localid left = enc_string (snd (l2p localid (left - 4)))"

definition ownergroup_bytes :: "net_mapcb_s \<Rightarrow> system_stat_s \<Rightarrow> u32 \<Rightarrow> u8 list" where
  "ownergroup_bytes m stat left =
     (let user = owner_bytes (get_user_l2p m) (get_uid_system_stat stat) left in
      user @ owner_bytes (get_group_l2p m) (get_gid_system_stat stat) (left - of_nat (length user)))"

definition attr_bytes :: "net_mapcb_s \<Rightarrow> system_stat_s \<Rightarrow> u32 \<Rightarrow> attr_cb \<Rightarrow> u8 list" where
  "attr_bytes m stat left cb =
     (if cb = W_size_v03 then be64 (get_size_system_stat stat)
      else if cb = W_uidgid_v03 then be32 (fst (get_user_l2p m (get_uid_system_stat stat) 0)) @
        be32 (fst (get_group_l2p m (get_gid_system_stat stat) 0))
      else if cb = W_permissions_v03 then
        be32 ((ucast (get_mode_system_stat stat) AND S_PERM) OR ucast (get_type_system_stat stat))
      else if cb = W_acmodtime_v03 then be32 (word_of_int (st_sec (get_atime_system_stat stat))) @
        be32 (word_of_int (st_sec (get_mtime_system_stat stat)))
      else if cb = W_type_v04 then [type_byte type_reverse_v04 stat]
      else if cb = W_type_v05 \<or> cb = W_type_v06 then [type_byte type_reverse_v05 stat]
      else if cb = W_ownergroup_v04 then ownergroup_bytes m stat left
      else if cb = W_permissions_v04 then be32 (ucast (get_mode_system_stat stat) AND S_PERM)
      else if cb = W_accesstime_v04 then be64 (word_of_int (get_atime_sec_system_stat stat))
      else if cb = W_accesstime_n_v04 then be32 (get_atime_nsec_system_stat stat)
      else if cb = W_modifytime_v04 then be64 (word_of_int (get_mtime_sec_system_stat stat))
      else if cb = W_modifytime_n_v04 then be32 (get_mtime_nsec_system_stat stat)
      else if cb = W_changetime_v06 then be64 (word_of_int (get_ctime_sec_system_stat stat))
      else if cb = W_changetime_n_v06 then be32 (get_ctime_nsec_system_stat stat)
      else [])"

definition attr_writers :: "attr_cb list" where
  "attr_writers = [W_size_v03, W_uidgid_v03, W_permissions_v03, W_acmodtime_v03, W_type_v04, W_type_v05, W_type_v06,
     W_ownergroup_v04, W_permissions_v04, W_accesstime_v04, W_accesstime_n_v04, W_modifytime_v04, W_modifytime_n_v04,
     W_changetime_v06, W_changetime_n_v06]"

primrec order_bytes :: "attr_context_s \<Rightarrow> system_stat_s \<Rightarrow> u32 \<Rightarrow> nat list \<Rightarrow> u8 list" where
  "order_bytes actx stat left [] = []"
| "order_bytes actx stat left (i # is) =
     (let bs = attr_bytes (ac_mapping actx) stat left (cb_w (ac_attrcb actx ! i)) in
      bs @ order_bytes actx stat (left - of_nat (length bs)) is)"

section \<open>Writing\<close>

lemma ab_puts_single: "ab_puts ab [i] = ab_put ab i"
  by (simp add: bind_runit)

lemma write_mapped_name_wrote:
  assumes "ab_ops ab = AB_WRITE" and "ab_buffer ab = Some b" and "length b < 4294967296"
    and "unat (ab_pos ab) + length (owner_bytes l2p localid (ab_left ab)) \<le> length b"
  shows "write_mapped_name l2p localid ab = Some (ab_wrote ab b (owner_bytes l2p localid (ab_left ab)))"
proof -
  let ?name = "snd (l2p localid (ab_left ab - 4))" and ?pos = "unat (ab_pos ab)"
  let ?b = "take (?pos + 4) b @ ?name @ drop (?pos + 4 + length ?name) b"
  let ?ab = "ab\<lparr>ab_buffer := Some ?b\<rparr>"
  have fit: "?pos + 4 + length ?name \<le> length b" using assms(4) by (simp add: owner_bytes_def)
  then have len: "length ?b = length b" by simp
  have u: "unat (of_nat (length ?name) :: u32) = length ?name" using fit assms(3) by (simp add: unat_of_nat_u32)
  have "ab_puts ?ab [I_uint32 (of_nat (length ?name)), I_skip (of_nat (length ?name))] =
      Some (ab_wrote ?ab ?b (items_bytes [I_uint32 (of_nat (length ?name)), I_skip (of_nat (length ?name))]
        (drop (unat (ab_pos ?ab)) ?b)))"
    by (rule ab_puts_write) (use assms fit len u in simp_all)
  moreover have "items_bytes [I_uint32 (of_nat (length ?name)), I_skip (of_nat (length ?name))]
      (drop (unat (ab_pos ?ab)) ?b) = enc_string ?name"
    using fit u by (simp add: enc_string_def min_absorb2)
  moreover have "ab_wrote ?ab ?b (enc_string ?name) = ab_wrote ab b (enc_string ?name)"
    using fit by (simp add: ab_wrote_def enc_string_def min_absorb1 min_absorb2 add.assoc)
  ultimately show ?thesis
    using assms fit by (simp add: write_mapped_name_def owner_bytes_def mem_store_def Let_def bind_runit)
qed

lemma ownergroup_wrote:
  assumes "ab_ops ab = AB_WRITE" and "ab_buffer ab = Some b" and "length b < 4294967296"
    and "unat (ab_pos ab) + length (ownergroup_bytes m stat (ab_left ab)) \<le> length b"
  shows "write_attr_ownergroup_v04 m ab stat = Some (ab_wrote ab b (ownergroup_bytes m stat (ab_left ab)), stat)"
proof -
  let ?u = "owner_bytes (get_user_l2p m) (get_uid_system_stat stat) (ab_left ab)"
  let ?g = "owner_bytes (get_group_l2p m) (get_gid_system_stat stat) (ab_left ab - of_nat (length ?u))"
  let ?ab = "ab_wrote ab b ?u"
  have fit: "unat (ab_pos ab) + length ?u + length ?g \<le> length b"
    using assms(4) by (simp add: ownergroup_bytes_def Let_def)
  obtain b' where b': "ab_buffer ?ab = Some b'" "length b' = length b"
    using fit by simp
  have pos: "unat (ab_pos ?ab) = unat (ab_pos ab) + length ?u"
    using fit assms(3) by (simp add: unat_u32_plus unat_of_nat_u32)
  have "write_mapped_name (get_user_l2p m) (get_uid_system_stat stat) ab = Some ?ab"
    by (rule write_mapped_name_wrote) (use assms fit in simp_all)
  moreover have "write_mapped_name (get_group_l2p m) (get_gid_system_stat stat) ?ab =
      Some (ab_wrote ?ab b' (owner_bytes (get_group_l2p m) (get_gid_system_stat stat) (ab_left ?ab)))"
    by (rule write_mapped_name_wrote) (use assms fit b' pos in simp_all)
  moreover have "ab_wrote ?ab b' ?g = ab_wrote ab b (?u @ ?g)"
    using fit assms(3) b' by (intro ab_wrote_append) simp_all
  ultimately show ?thesis by (simp add: write_attr_ownergroup_v04_def ownergroup_bytes_def Let_def)
qed

text \<open>Every other writer is a sequence of calls of the buffer.\<close>

lemma two_uint32_wrote:
  assumes "ab_ops ab = AB_WRITE" and "ab_buffer ab = Some b" and "length b < 4294967296"
    and "unat (ab_pos ab) + 8 \<le> length b"
  shows "Option.bind (ab_write_uint32 ab v) (\<lambda>ab. ab_write_uint32 ab w) = Some (ab_wrote ab b (be32 v @ be32 w))"
  using ab_puts_write [of ab b "[I_uint32 v, I_uint32 w]"] assms by (simp add: bind_runit)

lemma one_wrote:
  assumes "ab_ops ab = AB_WRITE" and "ab_buffer ab = Some b" and "length b < 4294967296"
  shows "unat (ab_pos ab) + 1 \<le> length b \<Longrightarrow> ab_write_uchar ab x = Some (ab_wrote ab b [x])"
    and "unat (ab_pos ab) + 4 \<le> length b \<Longrightarrow> ab_write_uint32 ab v = Some (ab_wrote ab b (be32 v))"
    and "unat (ab_pos ab) + 8 \<le> length b \<Longrightarrow> ab_write_uint64 ab w = Some (ab_wrote ab b (be64 w))"
    and "unat (ab_pos ab) + 8 \<le> length b \<Longrightarrow> w \<noteq> 0x8000000000000000 \<Longrightarrow> ab_write_int64 ab w = Some (ab_wrote ab b (be64 w))"
  using ab_put_write [OF assms, of "I_uchar x"] ab_put_write [OF assms, of "I_uint32 v"]
    ab_put_write [OF assms, of "I_uint64 w"] ab_put_write [OF assms, of "I_int64 w"] by simp_all

lemmas write_attr_defs = write_attr_size_v03_def write_attr_uidgid_v03_def write_attr_permissions_v03_def
  write_attr_acmodtime_v03_def write_attr_type_v04_def write_attr_type_v05_def write_attr_type_v06_def
  write_attr_type_def write_attr_permissions_v04_def write_attr_accesstime_v04_def write_attr_accesstime_n_v04_def
  write_attr_modifytime_v04_def write_attr_modifytime_n_v04_def write_attr_changetime_v06_def
  write_attr_changetime_n_v06_def

text \<open>The writers of signed seconds, and the seconds they can write: not the least ones, which they would negate.\<close>

definition sec_writers :: "attr_cb set" where
  "sec_writers = {W_accesstime_v04, W_modifytime_v04, W_changetime_v06}"

definition secs_writable :: "system_stat_s \<Rightarrow> bool" where
  "secs_writable stat \<longleftrightarrow> (word_of_int (get_atime_sec_system_stat stat) :: u64) \<noteq> 0x8000000000000000 \<and>
     (word_of_int (get_mtime_sec_system_stat stat) :: u64) \<noteq> 0x8000000000000000 \<and>
     (word_of_int (get_ctime_sec_system_stat stat) :: u64) \<noteq> 0x8000000000000000"

definition writable :: "attr_cb \<Rightarrow> system_stat_s \<Rightarrow> bool" where
  "writable cb stat \<longleftrightarrow> cb \<in> set attr_writers \<and> (cb \<in> sec_writers \<longrightarrow> secs_writable stat)"

lemma call_attr_cb_wrote:
  assumes "ab_ops ab = AB_WRITE" and "ab_buffer ab = Some b" and "length b < 4294967296"
    and "writable cb stat" and "unat (ab_pos ab) + length (attr_bytes m stat (ab_left ab) cb) \<le> length b"
  shows "call_attr_cb cb m ab stat = Some (ab_wrote ab b (attr_bytes m stat (ab_left ab) cb), stat)"
proof (cases "cb = W_ownergroup_v04 \<or> cb = W_uidgid_v03 \<or> cb = W_acmodtime_v03")
  case True
  then show ?thesis
    using assms ownergroup_wrote [OF assms(1-3)] two_uint32_wrote [OF assms(1-3)]
    by (auto simp: attr_bytes_def write_attr_defs bind_eq_Some_conv)
next
  case False
  then show ?thesis
    using assms one_wrote [OF assms(1-3)]
    by (auto simp: attr_writers_def attr_bytes_def write_attr_defs type_byte_def Let_def writable_def sec_writers_def secs_writable_def)
qed

lemma write_cached:
  assumes "ab_ops ab = AB_WRITE" and "ab_buffer ab = Some b" and "length b < 4294967296"
    and "\<forall>i \<in> set is. i < length (ac_attrcb actx) \<and> writable (cb_w (ac_attrcb actx ! i)) stat"
    and "unat (ab_pos ab) + length (order_bytes actx stat (ab_left ab) is) \<le> length b"
  shows "\<exists>r'. parse_cached attr_write_cb actx is \<lparr>ps_buffer = Some ab, ps_r = r, ps_stat = Some stat, ps_ptr = p\<rparr> =
    Some \<lparr>ps_buffer = Some (ab_wrote ab b (order_bytes actx stat (ab_left ab) is)), ps_r = r', ps_stat = Some stat, ps_ptr = p\<rparr>"
  using assms
proof (induction "is" arbitrary: ab b r)
  case Nil
  then show ?case by (simp add: ab_wrote_def)
next
  case (Cons i "is")
  let ?e = "ac_attrcb actx ! i"
  let ?bs = "attr_bytes (ac_mapping actx) stat (ab_left ab) (cb_w ?e)"
  let ?ab = "ab_wrote ab b ?bs" and ?r = "mark_done ?e r"
  let ?rest = "order_bytes actx stat (ab_left ab - of_nat (length ?bs)) is"
  have fit: "unat (ab_pos ab) + length ?bs + length ?rest \<le> length b"
    using Cons.prems(5) by (simp add: Let_def)
  obtain b' where b': "ab_buffer ?ab = Some b'" "length b' = length b" using fit by simp
  have pos: "unat (ab_pos ?ab) = unat (ab_pos ab) + length ?bs"
    using fit Cons.prems(3) by (simp add: unat_u32_plus unat_of_nat_u32)
  have "call_attr_cb (cb_w ?e) (ac_mapping actx) ab stat = Some (?ab, stat)"
    by (rule call_attr_cb_wrote) (use Cons.prems fit in simp_all)
  then have step: "attr_write_cb actx i \<lparr>ps_buffer = Some ab, ps_r = r, ps_stat = Some stat, ps_ptr = p\<rparr> =
      Some \<lparr>ps_buffer = Some ?ab, ps_r = ?r, ps_stat = Some stat, ps_ptr = p\<rparr>"
    using Cons.prems(4) by (simp add: attr_write_cb_def attrcb_at_def call_cb_def)
  have "ab_wrote ?ab b' ?rest = ab_wrote ab b (?bs @ ?rest)"
    using fit Cons.prems(3) b' by (intro ab_wrote_append) simp_all
  moreover have "ab_left ?ab = ab_left ab - of_nat (length ?bs)" "ab_ops ?ab = AB_WRITE" using Cons.prems(1) by simp_all
  ultimately show ?case
    using Cons.IH [of ?ab b' ?r] Cons.prems(3,4) b' fit pos by (simp add: step Let_def)
qed

section \<open>The tables of the writers\<close>

lemma fill_attrcb_nth:
  assumes "i < ATTR_CONTEXT_COUNT_ATTR_CB"
  shows "fill_attrcb es ! i = (case map_of (rev es) i of None \<Rightarrow> attrcb_zero | Some e \<Rightarrow> e)"
proof (induction es rule: rev_induct)
  case Nil
  then show ?case using assms by (simp add: fill_attrcb_def init_attrcb_zero_def)
next
  case (snoc ie es)
  have "fill_attrcb (es @ [ie]) = (fill_attrcb es)[fst ie := snd ie]"
    by (simp add: fill_attrcb_def split_beta)
  then show ?case
    using snoc assms length_fill_attrcb [of es] by (cases ie) (auto simp: nth_list_update)
qed

lemma bit_attr_bits: "bit (attr_bits is) j \<longleftrightarrow> j \<in> set is \<and> j < 32"
  by (induction "is") (auto simp: attr_bits_def bit_or_iff bit_attr_bit)

text \<open>The attributes that may be written, with the nanoseconds or without.\<close>

primrec w_indices :: "attr_ops_s \<Rightarrow> bool \<Rightarrow> nat list" where
  "w_indices Ops_v03 sub = [0, 1, 2, 3]"
| "w_indices Ops_v04 sub = [32, 0, 7, 2, 3, 5] @ (if sub then [33, 34] else [])"
| "w_indices Ops_v05 sub = [32, 0, 7, 2, 3, 5] @ (if sub then [33, 34] else [])"
| "w_indices Ops_v06 sub = [32, 0, 7, 2, 3, 5, 15] @ (if sub then [33, 34, 36] else [])"

primrec init_context_ops :: "attr_ops_s \<Rightarrow> attr_context_s \<Rightarrow> attr_context_s" where
  "init_context_ops Ops_v03 = init_attr_context_v03"
| "init_context_ops Ops_v04 = init_attr_context_v04"
| "init_context_ops Ops_v05 = init_attr_context_v05"
| "init_context_ops Ops_v06 = init_attr_context_v06"

lemma set_context_init:
  "ac_version actx \<le> 6 \<Longrightarrow>
   set_sftp_attr_context actx = init_context_ops (version_ops (ac_version actx))
     (actx\<lparr>ac_ops := version_ops (ac_version actx)\<rparr>)"
  by (auto simp: set_sftp_attr_context_def version_ops_def word_le_nat_alt word_unat_eq_iff)

lemma row_in_order:
  assumes "j \<in> set (attr_order ops valid)"
  obtains "j \<in> set (type_rows ops)"
  | n where "(j, n) \<in> set (attr_rows ops)" "bit (sv_mask valid) j"
  | i where "(i, Some j) \<in> set (attr_rows ops)" "bit (sv_mask valid) i" "bit (sv_flags valid) 8"
proof (cases "j \<in> set (type_rows ops)")
  case False
  then obtain row where row: "row \<in> set (attr_rows ops)" "j \<in> set (row_order valid row)"
    using assms unfolding attr_order_def set_append set_concat set_map by blast
  obtain i n where "row = (i, n)" by (rule prod.exhaust)
  with row that(2,3) show ?thesis
    by (cases n; cases "bit (sv_mask valid) i"; cases "bit (sv_flags valid) 8") auto
qed (use that(1) in blast)

lemma w_order_indices:
  assumes "j \<in> set (attr_order ops valid)"
    and "\<And>i. bit (sv_mask valid) i \<Longrightarrow> bit (sv_mask (ac_w_valid (init_context_ops ops actx))) i"
  shows "j \<in> set (w_indices ops (bit (sv_flags valid) 8))"
  using assms(1)
proof (cases rule: row_in_order)
  case 1
  then show ?thesis by (cases ops) (simp_all add: type_rows_def)
next
  case (2 n)
  then have "bit (sv_mask (ac_w_valid (init_context_ops ops actx))) j" using assms(2) by blast
  with 2 show ?thesis
    by (cases ops) (auto simp: init_context_defs bit_attr_bits index_defs)
next
  case (3 i)
  then have "bit (sv_mask (ac_w_valid (init_context_ops ops actx))) i" using assms(2) by blast
  with 3 show ?thesis
    by (cases ops) (auto simp: init_context_defs bit_attr_bits index_defs)
qed

text \<open>The names of users and groups are of the form \<open>name@domain\<close>, within the lengths of the context.\<close>

definition names_bounded :: "net_mapcb_s \<Rightarrow> bool" where
  "names_bounded m \<longleftrightarrow> (\<forall>n space. length (snd (get_user_l2p m n space)) \<le> 32 + 1 + 253 \<and>
     length (snd (get_group_l2p m n space)) \<le> 32 + 1 + 253)"

definition default_lengths :: "attr_context_s \<Rightarrow> bool" where
  "default_lengths actx \<longleftrightarrow> ac_maxlength_username actx = 32 \<and> ac_maxlength_groupname actx = 32 \<and>
     ac_maxlength_domainname actx = HOST_HOSTNAME_FQDN_MAX_LENGTH"

lemma ownergroup_length:
  assumes "names_bounded m"
  shows "length (ownergroup_bytes m stat left) \<le> 580"
proof -
  have "length (snd (get_user_l2p m n sp)) \<le> 286" "length (snd (get_group_l2p m n sp)) \<le> 286" for n sp
    using assms by (simp_all add: names_bounded_def)
  then have "length (owner_bytes (get_user_l2p m) n sp) \<le> 290" "length (owner_bytes (get_group_l2p m) n sp) \<le> 290" for n sp
    by (simp_all add: owner_bytes_def)
  from this(1) [of "get_uid_system_stat stat" left] this(2) [of "get_gid_system_stat stat"
      "left - of_nat (length (owner_bytes (get_user_l2p m) (get_uid_system_stat stat) left))"]
  show ?thesis unfolding ownergroup_bytes_def Let_def length_append by linarith
qed

text \<open>
  A table entry that can be written: its callback is a writer, and what it writes is at most what the table says.
\<close>

definition w_entry_ok :: "net_mapcb_s \<Rightarrow> rw_attrcb_s \<Rightarrow> bool" where
  "w_entry_ok m e \<longleftrightarrow> cb_w e \<in> set attr_writers \<and> unat (cb_maxlength e) \<le> 580 \<and>
     (\<forall>stat left. length (attr_bytes m stat left (cb_w e)) \<le> unat (cb_maxlength e))"

lemma w_entry_okI:
  "cb \<in> {W_type_v04, W_type_v05, W_type_v06} \<Longrightarrow> w_entry_ok m (snd (attr_entry i cb r 1 n s f))"
  "cb \<in> {W_permissions_v03, W_permissions_v04} \<Longrightarrow> w_entry_ok m (snd (attr_entry i cb r 4 n s f))"
  "cb \<in> {W_size_v03, W_uidgid_v03, W_acmodtime_v03, W_accesstime_v04, W_modifytime_v04, W_changetime_v06} \<Longrightarrow>
     w_entry_ok m (snd (attr_entry i cb r 8 n s f))"
  "cb \<in> {W_accesstime_n_v04, W_modifytime_n_v04, W_changetime_n_v06} \<Longrightarrow> w_entry_ok m (snd (nsec_entry i cb r n))"
  by (auto simp: attr_entry_def nsec_entry_def w_entry_ok_def attr_writers_def attr_bytes_def)

lemma w_entry_ok_ownergroup:
  "names_bounded m \<Longrightarrow> default_lengths actx \<Longrightarrow>
   w_entry_ok m (snd (attr_entry i W_ownergroup_v04 r (ownergroup_maxlength actx) n s f))"
  by (simp add: attr_entry_def w_entry_ok_def attr_writers_def attr_bytes_def ownergroup_length ownergroup_maxlength_def
      default_lengths_def HOST_HOSTNAME_FQDN_MAX_LENGTH_def)

lemma fill_attrcb_in:
  assumes "distinct (map fst es)" and "(i, e) \<in> set es" and "i < ATTR_CONTEXT_COUNT_ATTR_CB"
  shows "fill_attrcb es ! i = e"
  using assms by (simp add: fill_attrcb_nth rev_map [symmetric] map_of_is_SomeI)

primrec entries_ops :: "attr_ops_s \<Rightarrow> attr_context_s \<Rightarrow> (nat \<times> rw_attrcb_s) list" where
  "entries_ops Ops_v03 actx = entries_v03"
| "entries_ops Ops_v04 actx = entries_v04 W_type_v04 R_type_v04 R_acl_v04 actx @ [entry_extended] @ entries_nsec_v04"
| "entries_ops Ops_v05 actx = entries_v04 W_type_v05 R_type_v05 R_acl_v04 actx @ [entry_bits_v05, entry_extended] @
     entries_nsec_v04"
| "entries_ops Ops_v06 actx = entries_v04 W_type_v06 R_type_v06 R_acl_v06 actx @ entries_v06"

lemmas entries_defs = entries_v03_def entries_v04_def entries_v06_def entries_nsec_v04_def entry_extended_def
  entry_bits_v05_def

lemma fst_entry: "fst (attr_entry i w r l n s f) = i" "fst (nsec_entry i w r n) = i"
  by (simp_all add: attr_entry_def nsec_entry_def)

lemma entries_ops_context: "ac_attrcb (init_context_ops ops actx) = fill_attrcb (entries_ops ops actx)"
  by (cases ops) (simp_all add: init_context_defs)

lemma distinct_entries: "distinct (map fst (entries_ops ops actx))"
  by (cases ops) (simp_all add: entries_defs fst_entry index_defs)

lemma w_indices_entries:
  assumes "i \<in> set (w_indices ops sub)"
  shows "i < 37 \<and> (\<exists>ie \<in> set (entries_ops ops actx). fst ie = i)"
  using assms by (cases ops; cases sub) (auto simp: entries_defs fst_entry index_defs)

lemma w_entries_ok:
  assumes "default_lengths actx" and "names_bounded m" and "ops = Ops_v04 \<or> ops = Ops_v05 \<Longrightarrow> \<not> sub"
    and "ie \<in> set (entries_ops ops actx)" and "fst ie \<in> set (w_indices ops sub)"
  shows "w_entry_ok m (snd ie)"
  using assms(3-) w_entry_ok_ownergroup [OF assms(2,1)]
  by (cases ops; cases sub) (auto simp: entries_defs fst_entry index_defs w_entry_okI)

lemma w_table:
  assumes "i \<in> set (w_indices ops sub)" and "default_lengths actx" and "names_bounded m"
    and "ops = Ops_v04 \<or> ops = Ops_v05 \<Longrightarrow> \<not> sub"
  shows "w_entry_ok m (ac_attrcb (init_context_ops ops actx) ! i)"
proof -
  obtain ie where ie: "ie \<in> set (entries_ops ops actx)" "fst ie = i" and "i < 37"
    using w_indices_entries [OF assms(1)] by blast
  then have "fill_attrcb (entries_ops ops actx) ! i = snd ie"
    by (intro fill_attrcb_in) (auto simp: distinct_entries ATTR_CONTEXT_COUNT_ATTR_CB_def)
  then show ?thesis
    using w_entries_ok [OF assms(2,3,4) ie(1)] ie assms(1) by (simp add: entries_ops_context)
qed

section \<open>Sizing and writing\<close>

lemma length_order_bytes:
  assumes "\<forall>i \<in> set is. w_entry_ok (ac_mapping actx) (ac_attrcb actx ! i)"
  shows "length (order_bytes actx stat left is) \<le> sum_list (map (\<lambda>i. unat (attr_maxlength actx i)) is)"
  using assms by (induction "is" arbitrary: left) (simp_all add: Let_def w_entry_ok_def attr_maxlength_def add_mono)

lemma sum_maxlength:
  assumes "\<forall>i \<in> set is. w_entry_ok (ac_mapping actx) (ac_attrcb actx ! i)" and "length is \<le> 20"
  shows "unat (sum_list (map (attr_maxlength actx) is)) = sum_list (map (\<lambda>i. unat (attr_maxlength actx i)) is) \<and>
         sum_list (map (\<lambda>i. unat (attr_maxlength actx i)) is) \<le> 580 * length is"
  using assms
  by (induction "is") (simp_all add: w_entry_ok_def attr_maxlength_def unat_u32_plus)

text \<open>The order in which a set of attributes is written by a context.\<close>

definition write_order :: "attr_context_s \<Rightarrow> sftp_valid_s \<Rightarrow> nat list" where
  "write_order actx valid = attr_order (ac_ops actx)
     \<lparr>sv_flags = sv_flags valid AND sv_flags (ac_w_valid actx), sv_mask = sv_mask valid AND sv_mask (ac_w_valid actx)\<rparr>"

lemma write_order_start:
  "rr_flags r AND RW_ATTR_RESULT_FLAG_WRITE \<noteq> 0 \<Longrightarrow>
   attr_order (ac_ops actx) (rr_valid (parse_start actx valid r)) = write_order actx valid"
  by (simp add: write_order_def parse_start_def Let_def)

lemma write_order_ok:
  assumes "ac_version actx \<le> 6" and "default_lengths actx" and "names_bounded (ac_mapping actx)"
    and "ac_version actx = 4 \<or> ac_version actx = 5 \<Longrightarrow> \<not> bit (sv_flags valid) 8"
    and "i \<in> set (write_order (set_sftp_attr_context actx) valid)"
  shows "i < length (ac_attrcb (set_sftp_attr_context actx)) \<and>
         w_entry_ok (ac_mapping (set_sftp_attr_context actx)) (ac_attrcb (set_sftp_attr_context actx) ! i)"
proof -
  let ?actx = "set_sftp_attr_context actx" and ?ops = "version_ops (ac_version actx)"
  let ?a = "actx\<lparr>ac_ops := ?ops\<rparr>"
  have su: "set_up ?actx" "ac_version ?actx = ac_version actx" "ac_mapping ?actx = ac_mapping actx"
    using set_sftp_attr_context_set_up [OF assms(1)] by simp_all
  have init: "?actx = init_context_ops ?ops ?a" by (rule set_context_init [OF assms(1)])
  have ops: "ac_ops ?actx = ?ops" using su by (simp add: set_up_def)
  let ?v = "\<lparr>sv_flags = sv_flags valid AND sv_flags (ac_w_valid ?actx), sv_mask = sv_mask valid AND sv_mask (ac_w_valid ?actx)\<rparr>"
  have "i \<in> set (w_indices ?ops (bit (sv_flags ?v) 8))"
    using assms(5) ops by (intro w_order_indices [where actx = ?a]) (simp_all add: write_order_def bit_and_iff init)
  moreover have "\<not> bit (sv_flags ?v) 8" if "?ops = Ops_v04 \<or> ?ops = Ops_v05"
    using that assms(4) by (auto simp: version_ops_def bit_and_iff split: if_splits)
  moreover have "default_lengths ?a" using assms(2) by (simp add: default_lengths_def)
  ultimately have "w_entry_ok (ac_mapping actx) (ac_attrcb ?actx ! i)"
    unfolding init using assms(3) by (intro w_table) auto
  moreover have "length (ac_attrcb ?actx) = 37"
    using su by (simp add: set_up_def wf_context_def ATTR_CONTEXT_COUNT_ATTR_CB_def)
  ultimately show ?thesis
    using attr_order_bound assms(5) su by (simp add: write_order_def)
qed

lemma get_size_order:
  assumes "set_up actx" and "cache_inv tab"
  shows "\<exists>tab' r'. get_size_buffer_write_attributes malloc_ok tab actx r valid =
           Some (tab', r', sum_list (map (attr_maxlength actx) (write_order actx valid))) \<and> cache_inv tab'"
proof -
  let ?r = "r\<lparr>rr_flags := rr_flags r OR RW_ATTR_RESULT_FLAG_WRITE\<rparr>"
  let ?st = "\<lparr>ps_buffer = None, ps_r = ?r, ps_stat = None, ps_ptr = hlp_init\<rparr>"
  have len: "length (ac_attrcb actx) = 37"
    using assms(1) by (simp add: set_up_def wf_context_def ATTR_CONTEXT_COUNT_ATTR_CB_def)
  have order: "attr_order (ac_ops actx) (rr_valid (parse_start actx valid ?r)) = write_order actx valid"
    by (rule write_order_start) (simp add: RW_ATTR_RESULT_FLAG_WRITE_def)
  obtain st1 where "parse_cached prepare_write_cb actx (write_order actx valid) (?st\<lparr>ps_r := parse_start actx valid ?r\<rparr>) = Some st1"
    using prepare_write_total [of actx "?st\<lparr>ps_r := parse_start actx valid ?r\<rparr>" "[]" "write_order actx valid"]
      recorded_init attr_order_bound length_attr_order len
    by (fastforce simp: write_order_def intro: le_trans)
  then obtain st' where st': "parse_attributes_generic tab prepare_write_cb actx valid ?st = Some st'"
    using size_p.generic_order [OF assms, of ?st valid] order by auto
  then show ?thesis
    using size_p.cache_order_inv [OF assms _ st', of malloc_ok] order
    by (simp add: get_size_buffer_write_attributes_def Let_def)
qed

text \<open>A buffer of the computed size takes what is written, for names within the lengths of the context and seconds that can be written.\<close>

lemma write_fits:
  assumes "ac_version actx \<le> 6" and "default_lengths actx" and "names_bounded (ac_mapping actx)"
    and "ac_version actx = 4 \<or> ac_version actx = 5 \<Longrightarrow> \<not> bit (sv_flags valid) 8" and "cache_inv tab"
    and "\<forall>i \<in> set (write_order (set_sftp_attr_context actx) valid).
      cb_w (ac_attrcb (set_sftp_attr_context actx) ! i) \<in> sec_writers \<longrightarrow> secs_writable stat"
  shows "\<exists>tab' r' len. get_size_buffer_write_attributes malloc_ok tab (set_sftp_attr_context actx) r valid = Some (tab', r', len) \<and>
    (\<forall>buffer. length buffer = unat len \<longrightarrow>
      (\<exists>ab1 r1. write_attributes_generic tab' (set_sftp_attr_context actx) (set_attr_buffer_write ab buffer len) r2 stat valid =
         Some (ab1, r1, stat) \<and> unat (ab_pos ab1) \<le> unat len \<and> unat (ab_pos ab1) + unat (ab_left ab1) = unat len))"
proof -
  let ?actx = "set_sftp_attr_context actx" let ?is = "write_order ?actx valid"
  have su: "set_up ?actx" using set_sftp_attr_context_set_up [OF assms(1)] by simp
  have ok: "\<forall>i \<in> set ?is. i < length (ac_attrcb ?actx) \<and> w_entry_ok (ac_mapping ?actx) (ac_attrcb ?actx ! i)"
    using write_order_ok [OF assms(1-4)] by blast
  obtain tab' r' where size: "get_size_buffer_write_attributes malloc_ok tab ?actx r valid =
      Some (tab', r', sum_list (map (attr_maxlength ?actx) ?is))" and inv: "cache_inv tab'"
    using get_size_order [OF su assms(5)] by blast
  let ?len = "sum_list (map (attr_maxlength ?actx) ?is)"
  have bytes: "length (order_bytes ?actx stat ?len ?is) \<le> unat ?len"
    using length_order_bytes [of ?is ?actx stat ?len] sum_maxlength [of ?is ?actx] ok
      length_attr_order [of "ac_ops ?actx"] by (simp add: write_order_def)
  have "\<exists>ab1 r1. write_attributes_generic tab' ?actx (set_attr_buffer_write ab buffer ?len) r2 stat valid = Some (ab1, r1, stat) \<and>
      unat (ab_pos ab1) \<le> unat ?len \<and> unat (ab_pos ab1) + unat (ab_left ab1) = unat ?len" if buf: "length buffer = unat ?len" for buffer
  proof -
    let ?ab = "set_attr_buffer_write ab buffer ?len" let ?r = "r2\<lparr>rr_flags := rr_flags r2 OR RW_ATTR_RESULT_FLAG_WRITE\<rparr>"
    let ?st = "\<lparr>ps_buffer = Some ?ab, ps_r = ?r, ps_stat = Some stat, ps_ptr = ()\<rparr>"
    have ab: "ab_ops ?ab = AB_WRITE" "ab_buffer ?ab = Some buffer" "ab_pos ?ab = 0" "ab_left ?ab = ?len"
      by (simp_all add: set_attr_buffer_write_def)
    obtain r1 where "parse_cached attr_write_cb ?actx ?is (?st\<lparr>ps_r := parse_start ?actx valid ?r\<rparr>) =
        Some \<lparr>ps_buffer = Some (ab_wrote ?ab buffer (order_bytes ?actx stat ?len ?is)), ps_r = r1, ps_stat = Some stat, ps_ptr = ()\<rparr>"
      using write_cached [of ?ab buffer ?is ?actx stat "parse_start ?actx valid ?r" "()"] ab buf bytes ok assms(6) unat_lt_u32 [of ?len]
      by (auto simp: w_entry_ok_def writable_def)
    moreover have "attr_order (ac_ops ?actx) (rr_valid (parse_start ?actx valid ?r)) = ?is"
      by (rule write_order_start) (simp add: RW_ATTR_RESULT_FLAG_WRITE_def)
    ultimately obtain r1' where "write_attributes_generic tab' ?actx ?ab r2 stat valid =
        Some (ab_wrote ?ab buffer (order_bytes ?actx stat ?len ?is), r1', stat)"
      using write_p.generic_order [OF su inv, of ?st valid]
      by (auto simp: write_attributes_generic_def Let_def with_flags_def)
    then show ?thesis
      using ab bytes unat_lt_u32 [of ?len]
      by (auto simp: unat_of_nat_u32 unat_u32_minus u32_le_unat)
  qed
  then show ?thesis using size by blast
qed

lemma context_0_lengths:
  "v \<le> 6 \<Longrightarrow> ac_version (context_0 v) = v \<and> ac_mapping (context_0 v) = mapcb_0 \<and> names_bounded mapcb_0"
  using context_0_set_up by (simp add: names_bounded_def mapcb_0_def)

section \<open>Reading back what was written with version 3\<close>

text \<open>What reading the attribute of index \<open>i\<close> that was written for \<open>ws\<close> makes of the attributes.\<close>

definition apply_attr_v03 :: "net_mapcb_s \<Rightarrow> system_stat_s \<Rightarrow> system_stat_s \<Rightarrow> nat \<Rightarrow> system_stat_s" where
  "apply_attr_v03 m ws stat i =
     (if i = 0 then set_size_system_stat stat (get_size_system_stat ws)
      else if i = 1 then
        set_gid_system_stat (set_uid_system_stat stat (get_user_p2l m (fst (get_user_l2p m (get_uid_system_stat ws) 0)) []))
          (get_group_p2l m (fst (get_group_l2p m (get_gid_system_stat ws) 0)) [])
      else if i = 2 then
        set_mode_system_stat (set_type_system_stat stat (get_type_system_stat ws)) (get_mode_system_stat ws AND 0x1FF)
      else set_mtime_system_stat
        (set_atime_system_stat stat (SYSTEM_TIME_INIT\<lparr>st_sec := get_atime_sec_system_stat ws mod 2 ^ 32\<rparr>))
        (SYSTEM_TIME_INIT\<lparr>st_sec := get_mtime_sec_system_stat ws mod 2 ^ 32\<rparr>))"

lemma v03_table:
  assumes "i \<in> {0, 1, 2, 3}"
  shows "ac_attrcb (init_attr_context_v03 actx) ! i =
    snd (entries_v03 ! i)"
  using assms by (auto simp: init_attr_context_v03_def fill_attrcb_nth ATTR_CONTEXT_COUNT_ATTR_CB_def table_defs index_defs)

lemma ab_read_at:
  assumes "ab_ops ab = AB_READ" and "ab_buffer ab = Some b"
  shows "mem_load b (unat (ab_pos ab)) 4 = Some (be32 v) \<Longrightarrow> ab_read_uint32 ab = Some (v, ab_advance ab 4)"
    and "mem_load b (unat (ab_pos ab)) 8 = Some (be64 w) \<Longrightarrow> ab_read_uint64 ab = Some (w, ab_advance ab 8)"
  using assms by (simp_all add: ab_read_uint32_def ab_read_uint64_def read_uint32_def read_uint64_def get_uint32_def get_uint64_def)

lemma two_uint32_at:
  assumes "ab_ops ab = AB_READ" and "ab_buffer ab = Some b" and "unat (ab_pos ab) + 8 < 4294967296"
    and "mem_load b (unat (ab_pos ab)) 8 = Some (be32 v @ be32 w)"
  shows "ab_read_uint32 ab = Some (v, ab_advance ab 4) \<and> ab_read_uint32 (ab_advance ab 4) = Some (w, ab_advance ab 8)"
proof -
  have "mem_load b (unat (ab_pos ab)) 4 = Some (be32 v)" "mem_load b (unat (ab_pos ab) + 4) 4 = Some (be32 w)"
    using mem_load_split [of b "unat (ab_pos ab)" "be32 v" "be32 w"] assms(4) by simp_all
  moreover have "ab_advance (ab_advance ab 4) 4 = ab_advance ab 8" by (simp add: ab_advance_def)
  ultimately show ?thesis
    using ab_read_at(1) [OF assms(1,2)] ab_read_at(1) [of "ab_advance ab 4" b] assms(1,2,3)
    by (simp add: ab_advance_def unat_u32_plus)
qed

lemma ucast_u32_u16:
  "(ucast (a AND b :: u32) :: u16) = ucast a AND ucast b" "(ucast (a OR b :: u32) :: u16) = ucast a OR ucast b"
  "(ucast (ucast (c :: u16) :: u32) :: u16) = c"
  by (rule bit_word_eqI; auto simp: bit_simps dest: bit_imp_le_length)+

lemma perm_wire:
  fixes x :: u16
  defines "w \<equiv> ((ucast (x AND NOT S_IFMT) AND S_PERM) OR ucast (x AND S_IFMT)) :: u32"
  shows "ucast (w AND ucast S_IFMT) = x AND S_IFMT \<and> ucast (w AND S_PERM) = (x AND NOT S_IFMT) AND 0x1FF"
proof -
  have c: "(ucast (ucast S_IFMT :: u32) :: u16) = S_IFMT" "(ucast S_PERM :: u16) = 0x1FF"
    by (simp_all add: ucast_u32_u16(3) S_PERM_def)
  have "w' AND 0x1FF AND S_IFMT = 0" "w' AND S_IFMT AND 0x1FF = 0" for w' :: u16
    by (simp_all add: S_IFMT_def and.assoc)
  then show ?thesis
    unfolding w_def ucast_u32_u16 c
    by (simp add: bit.conj_disj_distrib2 and.assoc)
qed

lemma read_attr_v03_at:
  assumes "ab_ops ab = AB_READ" and "ab_buffer ab = Some b" and "i \<in> {0, 1, 2, 3}"
    and "bs = attr_bytes m ws l (cb_w (snd (entries_v03 ! i)))" and "unat (ab_pos ab) + length bs < 4294967296"
    and "mem_load b (unat (ab_pos ab)) (length bs) = Some bs"
  shows "call_attr_cb (cb_r (snd (entries_v03 ! i))) m ab stat =
    Some (ab_advance ab (of_nat (length bs)), apply_attr_v03 m ws stat i)"
proof -
  consider "i = 0" | "i = 1" | "i = 2" | "i = 3" using assms(3) by auto
  then show ?thesis
  proof cases
    case 1
    then show ?thesis using assms ab_read_at(2) [OF assms(1,2)]
      by (simp add: table_defs attr_bytes_def read_attr_size_v03_def apply_attr_v03_def)
  next
    case 2
    then show ?thesis using assms two_uint32_at [OF assms(1,2)]
      by (simp add: table_defs attr_bytes_def read_attr_uidgid_v03_def apply_attr_v03_def)
  next
    case 3
    then show ?thesis using assms ab_read_at(1) [OF assms(1,2)] perm_wire [of "stx_mode (stx ws)"]
      by (simp add: table_defs attr_bytes_def read_attr_permissions_v03_def apply_attr_v03_def get_mode_system_stat_def
          get_type_system_stat_def)
  next
    case 4
    then show ?thesis using assms two_uint32_at [OF assms(1,2)]
      by (simp add: table_defs attr_bytes_def read_attr_acmodtime_v03_def apply_attr_v03_def uint_word_of_int
          get_atime_system_stat_def get_mtime_system_stat_def timespec_of_def get_atime_sec_system_stat_def
          get_mtime_sec_system_stat_def)
  qed
qed

lemma read_cached_v03:
  assumes "ab_ops ab = AB_READ" and "ab_buffer ab = Some b" and "set is \<subseteq> {0, 1, 2, 3}"
    and "actx = init_attr_context_v03 a" and "recorded actx hlp xs" and "length xs + length is \<le> 37"
    and "unat (ab_pos ab) + length (order_bytes actx ws l is) < 4294967296"
    and "mem_load b (unat (ab_pos ab)) (length (order_bytes actx ws l is)) = Some (order_bytes actx ws l is)"
  shows "\<exists>r' hlp'. parse_cached attr_read_cb actx is \<lparr>ps_buffer = Some ab, ps_r = r, ps_stat = Some stat, ps_ptr = hlp\<rparr> =
    Some \<lparr>ps_buffer = Some (ab_advance ab (of_nat (length (order_bytes actx ws l is)))), ps_r = r',
      ps_stat = Some (foldl (apply_attr_v03 (ac_mapping actx) ws) stat is), ps_ptr = hlp'\<rparr>"
  using assms
proof (induction "is" arbitrary: ab r stat hlp xs l)
  case Nil
  then show ?case by (simp add: ab_advance_def)
next
  case (Cons i "is")
  let ?e = "snd (entries_v03 ! i)" and ?m = "ac_mapping actx"
  let ?bs = "attr_bytes ?m ws l (cb_w ?e)"
  let ?rest = "order_bytes actx ws (l - of_nat (length ?bs)) is"
  let ?ab = "ab_advance ab (of_nat (length ?bs))"
  have i: "i \<in> {0, 1, 2, 3}" using Cons.prems(3) by simp
  have e: "attrcb_at actx i = Some ?e" "ac_attrcb actx ! i = ?e"
    using v03_table [OF i, of a] i by (auto simp: attrcb_at_def Cons.prems(4) init_attr_context_v03_def length_fill_attrcb
        ATTR_CONTEXT_COUNT_ATTR_CB_def)
  have all: "order_bytes actx ws l (i # is) = ?bs @ ?rest" by (simp add: Let_def e)
  have load: "mem_load b (unat (ab_pos ab)) (length ?bs) = Some ?bs"
    "mem_load b (unat (ab_pos ab) + length ?bs) (length ?rest) = Some ?rest"
    using mem_load_split [of b "unat (ab_pos ab)" ?bs ?rest] Cons.prems(8) unfolding all by simp_all
  have fit: "unat (ab_pos ab) + length ?bs + length ?rest < 4294967296" using Cons.prems(7) unfolding all by simp
  have pos: "unat (ab_pos ?ab) = unat (ab_pos ab) + length ?bs"
    using fit by (simp add: ab_advance_def unat_u32_plus unat_of_nat_u32)
  obtain hlp' where hlp': "hlp_append i ?e hlp = Some hlp'" "recorded actx hlp' (xs @ [i])"
    using hlp_append_recorded [OF Cons.prems(5) e(1)] Cons.prems(6) by auto
  have "call_attr_cb (cb_r ?e) ?m ab stat = Some (?ab, apply_attr_v03 ?m ws stat i)"
    by (rule read_attr_v03_at) (use Cons.prems(1,2) i load(1) fit in simp_all)
  then have step: "attr_read_cb actx i \<lparr>ps_buffer = Some ab, ps_r = r, ps_stat = Some stat, ps_ptr = hlp\<rparr> =
      Some \<lparr>ps_buffer = Some ?ab, ps_r = mark_done ?e r, ps_stat = Some (apply_attr_v03 ?m ws stat i), ps_ptr = hlp'\<rparr>"
    using e hlp' by (simp add: attr_read_cb_def call_cb_def)
  have adv: "ab_advance ?ab (of_nat (length ?rest)) = ab_advance ab (of_nat (length ?bs) + of_nat (length ?rest))"
    by (simp add: ab_advance_def add.assoc diff_diff_eq)
  have "\<exists>r' hlp''. parse_cached attr_read_cb actx is
      \<lparr>ps_buffer = Some ?ab, ps_r = mark_done ?e r, ps_stat = Some (apply_attr_v03 ?m ws stat i), ps_ptr = hlp'\<rparr> =
    Some \<lparr>ps_buffer = Some (ab_advance ?ab (of_nat (length ?rest))), ps_r = r',
      ps_stat = Some (foldl (apply_attr_v03 ?m ws) (apply_attr_v03 ?m ws stat i) is), ps_ptr = hlp''\<rparr>"
    by (rule Cons.IH [where xs = "xs @ [i]"]) (use Cons.prems hlp' load fit pos in \<open>simp_all add: ab_advance_def\<close>)
  then show ?case unfolding all by (simp add: step adv)
qed

lemma foldl_set_once:
  assumes "\<And>s. g (f s k) = c" and "\<And>s i. i \<noteq> k \<Longrightarrow> g (f s i) = g s" and "k \<in> set is"
  shows "g (foldl f s is) = c"
  using assms(3)
proof (induction "is" rule: rev_induct)
  case (snoc i "is")
  then show ?case using assms(1,2) by (cases "i = k") auto
qed simp

lemmas v03_setters = set_size_system_stat_def set_uid_system_stat_def set_gid_system_stat_def set_type_system_stat_def
  set_mode_system_stat_def set_atime_system_stat_def set_mtime_system_stat_def sst_mark_def stx_upd_def

lemma apply_attr_v03_size:
  "get_size_system_stat (apply_attr_v03 m ws stat 0) = get_size_system_stat ws"
  "i \<noteq> 0 \<Longrightarrow> get_size_system_stat (apply_attr_v03 m ws stat i) = get_size_system_stat stat"
  by (simp_all add: apply_attr_v03_def v03_setters get_size_system_stat_def)

lemma apply_attr_v03_owner:
  "get_uid_system_stat (apply_attr_v03 m ws stat 1) = get_user_p2l m (fst (get_user_l2p m (get_uid_system_stat ws) 0)) []"
  "i \<noteq> 1 \<Longrightarrow> get_uid_system_stat (apply_attr_v03 m ws stat i) = get_uid_system_stat stat"
  "get_gid_system_stat (apply_attr_v03 m ws stat 1) = get_group_p2l m (fst (get_group_l2p m (get_gid_system_stat ws) 0)) []"
  "i \<noteq> 1 \<Longrightarrow> get_gid_system_stat (apply_attr_v03 m ws stat i) = get_gid_system_stat stat"
  by (simp_all add: apply_attr_v03_def v03_setters get_uid_system_stat_def get_gid_system_stat_def)

lemma apply_attr_v03_mode:
  "stx_mode (stx (apply_attr_v03 m ws stat 2)) = get_type_system_stat ws OR (get_mode_system_stat ws AND 0x1FF)"
  "i \<noteq> 2 \<Longrightarrow> stx_mode (stx (apply_attr_v03 m ws stat i)) = stx_mode (stx stat)"
proof -
  have "(w AND NOT S_IFMT) AND 0x1FF AND NOT S_IFMT = (w AND NOT S_IFMT) AND 0x1FF" for w :: u16
    by (rule bit_word_eqI) (auto simp: bit_and_iff bit_not_iff)
  moreover have "((w AND S_IFMT) OR (v AND NOT S_IFMT)) AND S_IFMT = w AND S_IFMT" for w v :: u16
    by (simp add: bit.conj_disj_distrib2 and.assoc)
  ultimately show "stx_mode (stx (apply_attr_v03 m ws stat 2)) = get_type_system_stat ws OR (get_mode_system_stat ws AND 0x1FF)"
    by (simp add: apply_attr_v03_def v03_setters get_type_system_stat_def get_mode_system_stat_def and.assoc)
qed (simp_all add: apply_attr_v03_def v03_setters)

lemma apply_attr_v03_times:
  assumes "i \<in> {0, 1, 2, 3}"
  shows "stx_atime (stx (apply_attr_v03 m ws stat i)) =
      (if i = 3 then \<lparr>tv_sec = get_atime_sec_system_stat ws mod 2 ^ 32, tv_nsec = 0\<rparr> else stx_atime (stx stat)) \<and>
    stx_mtime (stx (apply_attr_v03 m ws stat i)) =
      (if i = 3 then \<lparr>tv_sec = get_mtime_sec_system_stat ws mod 2 ^ 32, tv_nsec = 0\<rparr> else stx_mtime (stx stat))"
  using assms by (auto simp: apply_attr_v03_def v03_setters timestamp_of_def SYSTEM_TIME_INIT_def)

lemma foldl_times_v03:
  assumes "set is \<subseteq> {0, 1, 2, 3}" and "3 \<in> set is"
  shows "tv_sec (stx_atime (stx (foldl (apply_attr_v03 m ws) stat is))) = get_atime_sec_system_stat ws mod 2 ^ 32 \<and>
    tv_sec (stx_mtime (stx (foldl (apply_attr_v03 m ws) stat is))) = get_mtime_sec_system_stat ws mod 2 ^ 32"
  using assms
proof (induction "is" rule: rev_induct)
  case (snoc i "is")
  then show ?case using apply_attr_v03_times [of i m ws "foldl (apply_attr_v03 m ws) stat is"] by (cases "i = 3") auto
qed simp

lemma attr_order_v03: "attr_order Ops_v03 v = filter (bit (sv_mask v)) [0, 1, 2, 3, 31]"
  by (simp add: attr_order_def type_rows_def)

text \<open>The attributes of \<open>valid\<close> in \<open>stat'\<close> are those of \<open>stat\<close>, as far as version 3 of the protocol carries them.\<close>

definition same_attrs_v03 :: "u32 \<Rightarrow> system_stat_s \<Rightarrow> system_stat_s \<Rightarrow> bool" where
  "same_attrs_v03 valid stat stat' \<longleftrightarrow>
     (bit valid 0 \<longrightarrow> get_size_system_stat stat' = get_size_system_stat stat) \<and>
     (bit valid 1 \<longrightarrow> get_uid_system_stat stat' = get_uid_system_stat stat \<and>
        get_gid_system_stat stat' = get_gid_system_stat stat) \<and>
     (bit valid 2 \<longrightarrow> get_type_system_stat stat' = get_type_system_stat stat \<and>
        get_mode_system_stat stat' = get_mode_system_stat stat AND 0x1FF) \<and>
     (bit valid 3 \<longrightarrow> get_atime_sec_system_stat stat' = get_atime_sec_system_stat stat mod 2 ^ 32 \<and>
        get_mtime_sec_system_stat stat' = get_mtime_sec_system_stat stat mod 2 ^ 32)"

lemma mode_parts:
  fixes x :: u16
  shows "((x AND S_IFMT) OR ((x AND NOT S_IFMT) AND 0x1FF)) AND S_IFMT = x AND S_IFMT \<and>
    ((x AND S_IFMT) OR ((x AND NOT S_IFMT) AND 0x1FF)) AND NOT S_IFMT = (x AND NOT S_IFMT) AND 0x1FF"
  by (intro conjI; rule bit_word_eqI) (auto simp: bit_and_iff bit_or_iff bit_not_iff)

lemma foldl_same_v03:
  assumes "is = filter (bit valid) [0, 1, 2, 3]"
    and "get_user_p2l m (fst (get_user_l2p m (get_uid_system_stat ws) 0)) [] = get_uid_system_stat ws"
    and "get_group_p2l m (fst (get_group_l2p m (get_gid_system_stat ws) 0)) [] = get_gid_system_stat ws"
  shows "same_attrs_v03 valid ws (foldl (apply_attr_v03 m ws) stat is)"
proof -
  let ?s = "foldl (apply_attr_v03 m ws) stat is"
  have "0 \<in> set is \<Longrightarrow> get_size_system_stat ?s = get_size_system_stat ws"
    by (rule foldl_set_once [where k = 0]) (simp_all add: apply_attr_v03_size)
  moreover have "1 \<in> set is \<Longrightarrow> get_uid_system_stat ?s = get_uid_system_stat ws"
    "1 \<in> set is \<Longrightarrow> get_gid_system_stat ?s = get_gid_system_stat ws"
    by (rule foldl_set_once [where k = 1]; simp add: apply_attr_v03_owner [simplified] assms(2,3))+
  moreover have "2 \<in> set is \<Longrightarrow> stx_mode (stx ?s) = get_type_system_stat ws OR (get_mode_system_stat ws AND 0x1FF)"
    by (rule foldl_set_once [where k = 2 and g = "\<lambda>s. stx_mode (stx s)"]) (simp_all add: apply_attr_v03_mode)
  then have "2 \<in> set is \<Longrightarrow> get_type_system_stat ?s = get_type_system_stat ws \<and>
      get_mode_system_stat ?s = get_mode_system_stat ws AND 0x1FF"
    using mode_parts [of "stx_mode (stx ws)"] by (simp add: get_type_system_stat_def get_mode_system_stat_def)
  moreover have "set is \<subseteq> {0, 1, 2, 3}" using assms(1) by auto
  note foldl_times_v03 [OF this, of m ws stat]
  moreover have "0 \<in> set is \<longleftrightarrow> bit valid 0" "1 \<in> set is \<longleftrightarrow> bit valid 1" "2 \<in> set is \<longleftrightarrow> bit valid 2"
    "3 \<in> set is \<longleftrightarrow> bit valid 3"
    unfolding assms(1) by simp_all
  ultimately show ?thesis
    by (simp add: same_attrs_v03_def get_atime_sec_system_stat_def get_mtime_sec_system_stat_def)
qed

lemma v03_context:
  assumes "ac_version actx \<le> 3"
  shows "set_sftp_attr_context actx = init_attr_context_v03 (actx\<lparr>ac_ops := Ops_v03\<rparr>)" "set_up (set_sftp_attr_context actx)"
    "ac_ops (set_sftp_attr_context actx) = Ops_v03" "ac_mapping (set_sftp_attr_context actx) = ac_mapping actx"
proof -
  have "ac_version actx \<le> 6" using assms by (simp add: word_le_nat_alt)
  then show "set_up (set_sftp_attr_context actx)" using set_sftp_attr_context_set_up by blast
qed (use assms in \<open>simp_all add: set_sftp_attr_context_def init_attr_context_v03_def\<close>)

lemma v03_write_order:
  assumes "ac_version actx \<le> 3"
  shows "write_order (set_sftp_attr_context actx) valid = filter (bit (sv_mask valid)) [0, 1, 2, 3]"
proof -
  have "bit (sv_mask (ac_w_valid (set_sftp_attr_context actx))) i \<longleftrightarrow> i \<in> {0, 1, 2, 3}" for i
    using assms by (auto simp: v03_context init_attr_context_v03_def bit_attr_bits index_defs)
  then show ?thesis
    using v03_context(3) [OF assms] by (simp add: write_order_def attr_order_v03 bit_and_iff)
qed

lemma v03_read_order:
  assumes "ac_version actx \<le> 3" and "rr_flags r AND RW_ATTR_RESULT_FLAG_WRITE = 0"
  shows "attr_order Ops_v03 (rr_valid (parse_start (set_sftp_attr_context actx) (split_valid (v AND 0xF)) r)) =
    filter (bit v) [0, 1, 2, 3]"
proof -
  have "bit (sv_mask (ac_r_valid (set_sftp_attr_context actx))) i \<longleftrightarrow> i \<in> {0, 1, 2, 3, 31}" for i
    using assms(1) by (auto simp: v03_context init_attr_context_v03_def bit_attr_bits index_defs)
  moreover have "(0xF :: u32) = mask 4" by (simp add: mask_eq_exp_minus_1)
  ultimately show ?thesis
    using assms(2) by (simp add: attr_order_v03 parse_start_def Let_def split_valid_def bit_and_iff bit_not_iff bit_attr_bit
        bit_mask_iff index_defs)
qed

lemma v03_bytes:
  assumes "actx = init_attr_context_v03 a"
  shows "set is \<subseteq> {0, 1, 2, 3} \<Longrightarrow> \<forall>i \<in> set is. i < length (ac_attrcb actx) \<and> writable (cb_w (ac_attrcb actx ! i)) stat"
    and "set is \<subseteq> {0, 1, 2, 3} \<Longrightarrow> length (order_bytes actx ws l is) = sum_list (map (\<lambda>i. if i = 2 then 4 else 8) is)"
    and "length (order_bytes actx ws l (filter P [0, 1, 2, 3])) \<le> 28"
proof -
  have e: "cb_w (ac_attrcb actx ! i) \<in> set attr_writers \<and> cb_w (ac_attrcb actx ! i) \<notin> sec_writers \<and>
      length (attr_bytes (ac_mapping actx) ws l (cb_w (ac_attrcb actx ! i))) = (if i = 2 then 4 else 8)"
    if "i \<in> {0, 1, 2, 3}" for i l
    using that v03_table [OF that, of a] by (auto simp: assms table_defs attr_writers_def attr_bytes_def sec_writers_def)
  have n: "length (ac_attrcb actx) = 37"
    by (simp add: assms init_attr_context_v03_def length_fill_attrcb ATTR_CONTEXT_COUNT_ATTR_CB_def)
  show "\<forall>i \<in> set is. i < length (ac_attrcb actx) \<and> writable (cb_w (ac_attrcb actx ! i)) stat"
    if sub: "set is \<subseteq> {0, 1, 2, 3}"
  proof
    fix i assume "i \<in> set is"
    then have i: "i \<in> {0, 1, 2, 3}" using sub by blast
    then have "i < 37" by auto
    then show "i < length (ac_attrcb actx) \<and> writable (cb_w (ac_attrcb actx ! i)) stat"
      using e [OF i] unfolding n writable_def by blast
  qed
  have len: "length (order_bytes actx ws l is) = sum_list (map (\<lambda>i. if i = 2 then 4 else 8) is)"
    if "set is \<subseteq> {0, 1, 2, 3}" for "is" l
    using that
  proof (induction "is" arbitrary: l)
    case (Cons i "is")
    have "i \<in> {0, 1, 2, 3}" using Cons.prems by simp
    with Cons show ?case using e [of i l] by (simp add: Let_def)
  qed simp
  show "length (order_bytes actx ws l is) = sum_list (map (\<lambda>i. if i = 2 then 4 else 8) is)" if "set is \<subseteq> {0, 1, 2, 3}"
    by (rule len [OF that])
  show "length (order_bytes actx ws l (filter P [0, 1, 2, 3])) \<le> 28"
  proof -
    have "set (filter P [0, 1, 2, 3]) \<subseteq> {0, 1, 2, 3}" by auto
    moreover have "sum_list (map (\<lambda>i. if i = 2 then 4 else 8) (filter P [0, 1, 2, 3 :: nat])) \<le> (28 :: nat)" by simp
    ultimately show ?thesis using len by metis
  qed
qed

text \<open>
  C9: the buffer that \<open>get_size_buffer_write_attributes\<close> asks for is large enough. For every context of the
  versions 3 to 6 as \<open>init_attr_context\<close> and \<open>set_sftp_attr_context\<close> make it, every set of attributes and every file, a buffer of the size
  it returns takes everything \<open>write_attributes_generic\<close> writes: no byte goes outside the buffer, no null callback is called, and
  the attributes of the file are not changed. This is under three conditions, none of which the code looks at: in versions 4 and 5 no
  nanoseconds of times are asked for, of which the table has the wrong callbacks; the names of users and groups are at most as long
  as a name of 32 bytes with a domain of 253, the lengths the table is computed from; and from version 4 on the seconds of the times are not the least
  64 bit integer, which the writer negates.
\<close>

theorem write_attributes_fits:
  assumes "version \<le> 6" and "actx = set_sftp_attr_context ((init_attr_context actx0 flags mapping)\<lparr>ac_version := version\<rparr>)"
    and "names_bounded mapping" and "version = 4 \<or> version = 5 \<Longrightarrow> \<not> bit (sv_flags valid) 8"
    and "4 \<le> version \<Longrightarrow> secs_writable stat" and "cache_inv tab"
  shows "\<exists>tab' r' len. get_size_buffer_write_attributes malloc_ok tab actx r valid = Some (tab', r', len) \<and>
    (\<forall>buffer. length buffer = unat len \<longrightarrow>
      (\<exists>ab1 r1. write_attributes_generic tab' actx (set_attr_buffer_write ab buffer len) r2 stat valid =
         Some (ab1, r1, stat) \<and> unat (ab_pos ab1) \<le> unat len \<and> unat (ab_pos ab1) + unat (ab_left ab1) = unat len))"
  unfolding assms(2)
proof (rule write_fits)
  let ?a = "(init_attr_context actx0 flags mapping)\<lparr>ac_version := version\<rparr>"
  let ?actx = "set_sftp_attr_context ?a"
  show "default_lengths ?a" by (simp add: default_lengths_def init_attr_context_def)
  show "\<forall>i \<in> set (write_order ?actx valid). cb_w (ac_attrcb ?actx ! i) \<in> sec_writers \<longrightarrow> secs_writable stat"
  proof (cases "version \<le> 3")
    case True
    then have v: "ac_version ?a \<le> 3" by simp
    then show ?thesis
      using v03_bytes(1) [OF v03_context(1) [OF v], of "write_order ?actx valid" stat] v03_write_order [OF v, of valid] by (auto simp: writable_def)
  next
    case False
    then have "4 \<le> version" by (simp add: word_le_nat_alt)
    then show ?thesis using assms(5) by blast
  qed
qed (use assms in \<open>simp_all add: init_attr_context_def\<close>)

theorem write_attributes_fits_witness:
  "\<exists>actx tab' r' len. actx = set_sftp_attr_context ((init_attr_context (context_0 6) 0 mapcb_0)\<lparr>ac_version := 6\<rparr>) \<and>
    get_size_buffer_write_attributes True cache_0 actx init_rw_attr_result \<lparr>sv_flags = 256, sv_mask = 0x802D\<rparr> = Some (tab', r', len) \<and>
    (\<forall>buffer. length buffer = unat len \<longrightarrow>
      (\<exists>ab1 r1. write_attributes_generic tab' actx (set_attr_buffer_write init_nowrite_attr_buffer buffer len) init_rw_attr_result
         stat_0 \<lparr>sv_flags = 256, sv_mask = 0x802D\<rparr> =
         Some (ab1, r1, stat_0) \<and> unat (ab_pos ab1) \<le> unat len \<and> unat (ab_pos ab1) + unat (ab_left ab1) = unat len))"
proof -
  have "secs_writable stat_0" by code_simp
  then show ?thesis
    using write_attributes_fits [OF _ refl _ _ _ cache_step_inv [OF cache_0_step cache_inv_empty], of 6 mapcb_0
        "\<lparr>sv_flags = 256, sv_mask = 0x802D\<rparr>" stat_0 True "context_0 6" 0 init_rw_attr_result init_nowrite_attr_buffer init_rw_attr_result]
      context_0_lengths [of 6] by simp
qed

lemma v03_writes:
  assumes "ac_version actx \<le> 3" and "cache_inv tab" and "28 \<le> length buffer" and "length buffer < 4294967296"
    and ab1_def: "ab1 = set_attr_buffer_write ab buffer (of_nat (length buffer))"
  shows "\<exists>r1. write_attributes_generic tab (set_sftp_attr_context actx) ab1 r stat valid =
    Some (ab_wrote ab1 buffer (order_bytes (set_sftp_attr_context actx) stat (of_nat (length buffer))
      (filter (bit (sv_mask valid)) [0, 1, 2, 3])), r1, stat)"
proof -
  let ?actx = "set_sftp_attr_context actx" let ?is = "filter (bit (sv_mask valid)) [0, 1, 2, 3]"
  let ?r = "r\<lparr>rr_flags := rr_flags r OR RW_ATTR_RESULT_FLAG_WRITE\<rparr>"
  let ?st = "\<lparr>ps_buffer = Some ab1, ps_r = ?r, ps_stat = Some stat, ps_ptr = ()\<rparr>"
  have ab: "ab_ops ab1 = AB_WRITE" "ab_buffer ab1 = Some buffer" "ab_pos ab1 = 0" "ab_left ab1 = of_nat (length buffer)"
    by (simp_all add: ab1_def set_attr_buffer_write_def)
  have "set ?is \<subseteq> {0, 1, 2, 3}" by auto
  then obtain r1 where "parse_cached attr_write_cb ?actx ?is (?st\<lparr>ps_r := parse_start ?actx valid ?r\<rparr>) =
      Some \<lparr>ps_buffer = Some (ab_wrote ab1 buffer (order_bytes ?actx stat (of_nat (length buffer)) ?is)), ps_r = r1,
        ps_stat = Some stat, ps_ptr = ()\<rparr>"
    using write_cached [OF ab(1,2) assms(4) v03_bytes(1) [OF v03_context(1) [OF assms(1)]], of ?is stat
        "parse_start ?actx valid ?r" "()"] ab assms(3) v03_bytes(3) [OF v03_context(1) [OF assms(1)], of stat "of_nat (length buffer)"]
    by (force intro: le_trans simp del: filter.simps)
  moreover have "attr_order (ac_ops ?actx) (rr_valid (parse_start ?actx valid ?r)) = ?is"
    unfolding v03_write_order [OF assms(1), symmetric]
    by (rule write_order_start) (simp add: RW_ATTR_RESULT_FLAG_WRITE_def)
  ultimately show ?thesis
    using write_p.generic_order [OF v03_context(2) [OF assms(1)] assms(2), of ?st valid]
    by (auto simp: write_attributes_generic_def Let_def with_flags_def simp del: filter.simps)
qed

lemma v03_reads:
  assumes "ac_version actx \<le> 3" and "cache_inv tab" and "ab_ops ab = AB_READ" and "ab_buffer ab = Some b"
    and "bs = order_bytes (set_sftp_attr_context actx) ws l (filter (bit v) [0, 1, 2, 3])"
    and "unat (ab_pos ab) + length bs < 4294967296" and "mem_load b (unat (ab_pos ab)) (length bs) = Some bs"
  shows "\<exists>tab2 r2. read_attributes_generic malloc_ok tab (set_sftp_attr_context actx) ab init_rw_attr_result stat (v AND 0xF) =
    Some (tab2, ab_advance ab (of_nat (length bs)), r2,
      foldl (apply_attr_v03 (ac_mapping actx) ws) stat (filter (bit v) [0, 1, 2, 3]))"
proof -
  let ?actx = "set_sftp_attr_context actx" let ?is = "filter (bit v) [0, 1, 2, 3]"
  let ?r = "init_rw_attr_result\<lparr>rr_flags := rr_flags init_rw_attr_result OR RW_ATTR_RESULT_FLAG_READ\<rparr>"
  let ?st = "\<lparr>ps_buffer = Some ab, ps_r = ?r, ps_stat = Some stat, ps_ptr = hlp_init\<rparr>"
  have sub: "set ?is \<subseteq> {0, 1, 2, 3}" and "length ?is \<le> 37" by auto
  then obtain r' hlp' where "parse_cached attr_read_cb ?actx ?is (?st\<lparr>ps_r := parse_start ?actx (split_valid (v AND 0xF)) ?r\<rparr>) =
      Some \<lparr>ps_buffer = Some (ab_advance ab (of_nat (length bs))), ps_r = r',
        ps_stat = Some (foldl (apply_attr_v03 (ac_mapping actx) ws) stat ?is), ps_ptr = hlp'\<rparr>"
    using read_cached_v03 [OF assms(3,4) sub v03_context(1) [OF assms(1)] recorded_init, where ws = ws and l = l
        and r = "parse_start ?actx (split_valid (v AND 0xF)) ?r" and stat = stat] assms(5-) v03_context(4) [OF assms(1)]
    by (auto simp del: filter.simps)
  moreover have "attr_order (ac_ops ?actx) (rr_valid (parse_start ?actx (split_valid (v AND 0xF)) ?r)) = ?is"
    unfolding v03_context(3) [OF assms(1)]
    by (rule v03_read_order [OF assms(1)])
      (simp add: init_rw_attr_result_def RW_ATTR_RESULT_FLAG_READ_def RW_ATTR_RESULT_FLAG_WRITE_def)
  ultimately show ?thesis
    using read_p.generic_order [OF v03_context(2) [OF assms(1)] assms(2), of ?st "split_valid (v AND 0xF)"]
    by (auto simp: read_attributes_generic_def Let_def with_flags_def simp del: filter.simps)
qed

lemma v03_round_trip:
  assumes "ac_version actx \<le> 3" and "cache_inv tab" and "cache_inv tab'" and "28 \<le> length buffer" and "length buffer < 4294967296"
    and "get_user_p2l (ac_mapping actx) (fst (get_user_l2p (ac_mapping actx) (get_uid_system_stat stat) 0)) [] = get_uid_system_stat stat"
    and "get_group_p2l (ac_mapping actx) (fst (get_group_l2p (ac_mapping actx) (get_gid_system_stat stat) 0)) [] = get_gid_system_stat stat"
  shows "\<exists>ab1 r1 b1 tab2 ab2 r2 stat2.
    write_attributes_generic tab (set_sftp_attr_context actx) (set_attr_buffer_write ab buffer (of_nat (length buffer)))
      init_rw_attr_result stat valid = Some (ab1, r1, stat) \<and>
    ab_buffer ab1 = Some b1 \<and>
    read_attributes_generic malloc_ok tab' (set_sftp_attr_context actx) (set_attr_buffer_read ab' b1 (ab_pos ab1))
      init_rw_attr_result stat0 (sv_mask valid AND 0xF) = Some (tab2, ab2, r2, stat2) \<and>
    ab_left ab2 = 0 \<and> same_attrs_v03 (sv_mask valid) stat stat2"
proof -
  let ?actx = "set_sftp_attr_context actx" let ?is = "filter (bit (sv_mask valid)) [0, 1, 2, 3]"
  let ?ab = "set_attr_buffer_write ab buffer (of_nat (length buffer))"
  let ?bs = "order_bytes ?actx stat (of_nat (length buffer)) ?is"
  let ?ab1 = "ab_wrote ?ab buffer ?bs" let ?b1 = "?bs @ drop (length ?bs) buffer"
  have len: "length ?bs \<le> 28" by (rule v03_bytes(3) [OF v03_context(1) [OF assms(1)]])
  obtain r1 where w: "write_attributes_generic tab ?actx ?ab init_rw_attr_result stat valid = Some (?ab1, r1, stat)"
    using v03_writes [OF assms(1,2,4,5) refl] by blast
  have b1: "ab_buffer ?ab1 = Some ?b1" "ab_pos ?ab1 = of_nat (length ?bs)"
    by (simp_all add: set_attr_buffer_write_def)
  let ?ab' = "set_attr_buffer_read ab' ?b1 (of_nat (length ?bs))"
  have ab': "ab_ops ?ab' = AB_READ" "ab_buffer ?ab' = Some ?b1" "ab_pos ?ab' = 0" "ab_left ?ab' = of_nat (length ?bs)"
    by (simp_all add: set_attr_buffer_read_def)
  have pos: "unat (ab_pos ?ab') + length ?bs < 4294967296" using len unfolding ab'(3) by simp
  have load: "mem_load ?b1 (unat (ab_pos ?ab')) (length ?bs) = Some ?bs" unfolding ab'(3) mem_load_def by simp
  obtain tab2 r2 where r: "read_attributes_generic malloc_ok tab' ?actx ?ab' init_rw_attr_result stat0 (sv_mask valid AND 0xF) =
      Some (tab2, ab_advance ?ab' (of_nat (length ?bs)), r2, foldl (apply_attr_v03 (ac_mapping actx) stat) stat0 ?is)"
    using v03_reads [OF assms(1,3) ab'(1,2) refl pos load] by blast
  have same: "same_attrs_v03 (sv_mask valid) stat (foldl (apply_attr_v03 (ac_mapping actx) stat) stat0 ?is)"
    by (rule foldl_same_v03) (use assms(6,7) in simp_all)
  have left: "ab_left (ab_advance ?ab' (of_nat (length ?bs))) = 0" unfolding ab_advance_def using ab'(4) by simp
  show ?thesis
    by (intro exI conjI, rule w, rule b1(1), subst b1(2), rule r, rule left, rule same)
qed

text \<open>
  C7: with version 3, what the one side writes the other side reads. The attributes of a file that are written for
  \<open>valid\<close> into a buffer that is large enough, and read back from the bytes written with the bits of
  the attributes written, give the size, owner, type, permissions and times of the file, of the times what 32 bits
  hold; and the reader stops at the end of the bytes. This holds for the caches of the two sides in any
  consistent state, and for a mapping of users and groups of which the two directions fit.
\<close>

theorem sftp_v03_round_trip:
  assumes "ac_version actx \<le> 3" and "cache_inv tab" and "cache_inv tab'" and "28 \<le> length buffer" and "length buffer < 4294967296"
    and "get_user_p2l (ac_mapping actx) (fst (get_user_l2p (ac_mapping actx) (get_uid_system_stat stat) 0)) [] = get_uid_system_stat stat"
    and "get_group_p2l (ac_mapping actx) (fst (get_group_l2p (ac_mapping actx) (get_gid_system_stat stat) 0)) [] = get_gid_system_stat stat"
  shows "\<exists>ab1 r1 b1 tab2 ab2 r2 stat2.
    write_attributes_generic tab (set_sftp_attr_context actx) (set_attr_buffer_write ab buffer (of_nat (length buffer)))
      init_rw_attr_result stat valid = Some (ab1, r1, stat) \<and>
    ab_buffer ab1 = Some b1 \<and>
    read_attributes_generic malloc_ok tab' (set_sftp_attr_context actx) (set_attr_buffer_read ab' b1 (ab_pos ab1))
      init_rw_attr_result stat0 (sv_mask valid AND 0xF) = Some (tab2, ab2, r2, stat2) \<and>
    ab_left ab2 = 0 \<and> same_attrs_v03 (sv_mask valid) stat stat2"
  using v03_round_trip [OF assms] .

theorem sftp_v03_round_trip_witness:
  "\<exists>ab1 r1 b1 tab2 ab2 r2 stat2.
    write_attributes_generic cache_0 (set_sftp_attr_context (context_0 3))
      (set_attr_buffer_write init_nowrite_attr_buffer (replicate 28 0) (of_nat (length (replicate 28 (0 :: u8)))))
      init_rw_attr_result stat_0 \<lparr>sv_flags = 0, sv_mask = 0xD\<rparr> = Some (ab1, r1, stat_0) \<and>
    ab_buffer ab1 = Some b1 \<and>
    read_attributes_generic True cache_0 (set_sftp_attr_context (context_0 3))
      (set_attr_buffer_read init_read_attr_buffer b1 (ab_pos ab1))
      init_rw_attr_result stat_0 (sv_mask \<lparr>sv_flags = 0, sv_mask = 0xD\<rparr> AND 0xF) = Some (tab2, ab2, r2, stat2) \<and>
    ab_left ab2 = 0 \<and> same_attrs_v03 (sv_mask \<lparr>sv_flags = 0, sv_mask = 0xD\<rparr>) stat_0 stat2"
  by (rule sftp_v03_round_trip)
    (use context_0_lengths [of 3] cache_step_inv [OF cache_0_step cache_inv_empty] in \<open>simp_all add: mapcb_0_def\<close>)

section \<open>Entries with the wrong callback\<close>

text \<open>
  In the tables of versions 4 and 5 the writer of the nanoseconds of the access time is the reader, and their reader
  does nothing. Writing the access time with nanoseconds then calls a reading operation on a buffer that is set up for writing,
  and reading it leaves the nanoseconds in the message, where the next attribute is expected.
\<close>

lemma v04_nsec_callbacks:
  "cb_w (ac_attrcb (init_attr_context_v04 actx) ! SSH_FILEXFER_INDEX_NSEC_ATIME) = R_accesstime_n_v04 \<and>
   cb_r (ac_attrcb (init_attr_context_v04 actx) ! SSH_FILEXFER_INDEX_NSEC_ATIME) = CB_zero \<and>
   cb_w (ac_attrcb (init_attr_context_v05 actx) ! SSH_FILEXFER_INDEX_NSEC_ATIME) = R_accesstime_n_v04"
  by (simp add: init_context_defs fill_attrcb_nth ATTR_CONTEXT_COUNT_ATTR_CB_def table_defs index_defs)

lemma v04_nsec_write_undefined:
  "write_attributes_generic (replicate HASH_ATTRCB_TABLE_SIZE []) (context_0 4)
     (set_attr_buffer_write init_nowrite_attr_buffer (replicate 32 0) 32) init_rw_attr_result stat_0
     \<lparr>sv_flags = 256, sv_mask = 8\<rparr> = None"
  by code_simp

text \<open>
  The creation time is not among the attributes versions 4 and 5 read: a message that has it is read without
  it, and its eight bytes are taken for the next attribute.
\<close>

lemma v04_createtime_not_read:
  "SSH_FILEXFER_INDEX_CREATETIME \<notin> set (attr_order Ops_v04 (rr_valid (parse_start (context_0 4) valid init_rw_attr_result)))"
proof
  let ?v = "rr_valid (parse_start (context_0 4) valid init_rw_attr_result)"
  assume "SSH_FILEXFER_INDEX_CREATETIME \<in> set (attr_order Ops_v04 ?v)"
  moreover have "\<not> bit (sv_mask (ac_r_valid (context_0 4))) 4" by code_simp
  then have "\<not> bit (sv_mask ?v) 4"
    by (simp add: parse_start_def Let_def init_rw_attr_result_def bit_and_iff)
  ultimately show False by (auto simp: index_defs type_rows_def elim!: row_in_order)
qed

end
