(* ===== verification/Sftp_Msg.thy ===== *)
theory Sftp_Msg
  imports Ssh_Uint
begin

text \<open>
  How the SFTP client and the SFTP subsystem build messages: an array of a computed size on the stack, a position, and stores
  at the position that move it. A message is a sequence of such stores, run on the array; a store outside of it has no result. What is sent
  are the bytes up to the last position.
\<close>

definition SSH_FXP_EXTENDED :: u8 where "SSH_FXP_EXTENDED = 200"

section \<open>Stores at a moving position\<close>

declare unat_ucast_u64 [simp]

datatype wr =
    WByte u8
  | W32 u32
  | W64 u64
  | WMem mem u64
  | WSkip u32
  | WLen

text \<open>
  \<open>WMem src len\<close> is a \<open>memcpy\<close> of \<open>len\<close> bytes, where the position is 32 bits wide and the length may be 64 bits; \<open>WSkip\<close> only moves the
  position; \<open>WLen\<close> stores the length of the message, without the length field, in its first four bytes.
\<close>

primrec exec_wr :: "wr \<Rightarrow> mem \<times> u32 \<Rightarrow> (mem \<times> u32) option" where
  "exec_wr (WByte b) dp = map_option (\<lambda>d. (d, snd dp + 1)) (mem_store (fst dp) (unat (snd dp)) [b])"
| "exec_wr (W32 v) dp = map_option (\<lambda>d. (d, snd dp + 4)) (store_uint32 (fst dp) (unat (snd dp)) v)"
| "exec_wr (W64 v) dp = map_option (\<lambda>d. (d, snd dp + 8)) (store_uint64 (fst dp) (unat (snd dp)) v)"
| "exec_wr (WMem src len) dp = do {
     bs \<leftarrow> mem_load src 0 (unat len);
     d \<leftarrow> mem_store (fst dp) (unat (snd dp)) bs;
     Some (d, snd dp + ucast len) }"
| "exec_wr (WSkip k) dp = Some (fst dp, snd dp + k)"
| "exec_wr WLen dp = map_option (\<lambda>d. (d, snd dp)) (store_uint32 (fst dp) 0 (snd dp - 4))"

fun exec_wrs :: "wr list \<Rightarrow> mem \<times> u32 \<Rightarrow> (mem \<times> u32) option" where
  "exec_wrs [] dp = Some dp"
| "exec_wrs (w # ws) dp = do { dp \<leftarrow> exec_wr w dp; exec_wrs ws dp }"

definition build :: "nat \<Rightarrow> wr list \<Rightarrow> u8 list option" where
  "build n ws = do { (d, p) \<leftarrow> exec_wrs ws (replicate n 0, 0); mem_load d 0 (unat p) }"

section \<open>What they store\<close>

primrec wr_out :: "wr \<Rightarrow> u8 list" where
  "wr_out (WByte b) = [b]"
| "wr_out (W32 v) = be32 v"
| "wr_out (W64 v) = be64 v"
| "wr_out (WMem src len) = take (unat len) src"
| "wr_out (WSkip k) = replicate (unat k) 0"
| "wr_out WLen = []"

primrec wr_ok :: "wr \<Rightarrow> bool" where
  "wr_ok (WByte b) \<longleftrightarrow> True"
| "wr_ok (W32 v) \<longleftrightarrow> True"
| "wr_ok (W64 v) \<longleftrightarrow> True"
| "wr_ok (WMem src len) \<longleftrightarrow> unat len \<le> length src"
| "wr_ok (WSkip k) \<longleftrightarrow> True"
| "wr_ok WLen \<longleftrightarrow> False"

definition wrs_out :: "wr list \<Rightarrow> u8 list" where
  "wrs_out ws = concat (map wr_out ws)"

lemma wrs_out_simps [simp]: "wrs_out [] = []" "wrs_out (w # ws) = wr_out w @ wrs_out ws"
  by (simp_all add: wrs_out_def)

text \<open>The array holds \<open>pre\<close> and zeros after it.\<close>

definition filled :: "nat \<Rightarrow> u8 list \<Rightarrow> mem \<times> u32" where
  "filled n pre = (pre @ replicate (n - length pre) 0, of_nat (length pre))"

lemma mem_store_filled:
  assumes "length pre + length bs \<le> n"
  shows "mem_store (pre @ replicate (n - length pre) 0) (length pre) bs = Some ((pre @ bs) @ replicate (n - length (pre @ bs)) 0)"
  using assms by (simp add: mem_store_def)

lemma exec_wr_filled:
  assumes "wr_ok w" and "length pre + length (wr_out w) \<le> n" and "n < 2 ^ 32"
  shows "exec_wr w (filled n pre) = Some (filled n (pre @ wr_out w))"
proof -
  have p: "unat (of_nat (length pre) :: u32) = length pre" using assms(2,3) by (intro unat_of_nat_u32) simp
  note s = mem_store_filled [OF assms(2)]
  show ?thesis
  proof (cases w)
    case (WMem src len)
    have "length (take (unat len) src) = unat len" using WMem assms(1) by simp
    then have "(of_nat (length (take (unat len) src)) :: u32) = ucast len"
      by (simp only: of_nat_unat)
    then show ?thesis
      using WMem s p assms(1) by (simp add: filled_def mem_load_def)
  next
    case (WSkip k)
    have "replicate (n - length pre) (0::u8) = replicate (unat k) 0 @ replicate (n - length pre - unat k) 0"
      using WSkip assms(2) by (simp add: replicate_add [symmetric])
    then show ?thesis using WSkip by (simp add: filled_def)
  qed (use assms(1) s p in \<open>simp_all add: filled_def store_uint32_def store_uint64_def\<close>)
qed

lemma exec_wrs_filled:
  assumes "\<forall>w \<in> set ws. wr_ok w" and "length pre + length (wrs_out ws) \<le> n" and "n < 2 ^ 32"
  shows "exec_wrs ws (filled n pre) = Some (filled n (pre @ wrs_out ws))"
  using assms
proof (induction ws arbitrary: pre)
  case (Cons w ws)
  then have "exec_wr w (filled n pre) = Some (filled n (pre @ wr_out w))" by (intro exec_wr_filled) simp_all
  then show ?case using Cons.IH [of "pre @ wr_out w"] Cons.prems by simp
qed simp

lemma filled_0: "(replicate n 0, 0) = filled n []"
  by (simp add: filled_def)

lemma load_filled: "length pre \<le> n \<Longrightarrow> n < 2 ^ 32 \<Longrightarrow> mem_load (fst (filled n pre)) 0 (unat (snd (filled n pre))) = Some pre"
  by (simp add: filled_def mem_load_def unat_of_nat_u32)

text \<open>A message that fits is the concatenation of what is stored.\<close>

lemma build_ok:
  assumes "\<forall>w \<in> set ws. wr_ok w" and "length (wrs_out ws) \<le> n" and "n < 2 ^ 32"
  shows "build n ws = Some (wrs_out ws)"
  using exec_wrs_filled [of ws "[]" n] load_filled [of "wrs_out ws" n] assms
  by (simp add: build_def filled_0 split_beta)

lemma exec_wrs_append: "exec_wrs (vs @ ws) dp = do { dp \<leftarrow> exec_wrs vs dp; exec_wrs ws dp }"
  by (induction vs arbitrary: dp) (auto simp: bind_eq_None_conv split: bind_splits)

text \<open>The length of a message in front of it.\<close>

definition frame :: "u8 list \<Rightarrow> u8 list" where
  "frame body = be32 (of_nat (length body)) @ body"

text \<open>A message that ends with storing its length over its first four bytes.\<close>

lemma build_len_ok:
  assumes "\<forall>w \<in> set ws. wr_ok w" and "length (wrs_out ws) \<le> n" and "n < 2 ^ 32" and "wrs_out ws = hdr @ body" and "length hdr = 4"
  shows "build n (ws @ [WLen]) = Some (frame body)"
proof -
  have l: "length body + 4 \<le> n" using assms(2,4,5) by simp
  have "of_nat (length (wrs_out ws)) - (4 :: u32) = of_nat (length body)" using assms(4,5) by simp
  then have "exec_wr WLen (filled n (wrs_out ws)) = Some (filled n (frame body))"
    using assms(4,5) l by (simp add: filled_def store_uint32_def mem_store_def frame_def)
  moreover have "exec_wrs ws (filled n []) = Some (filled n (wrs_out ws))"
    using exec_wrs_filled [of ws "[]" n] assms(1-3) by simp
  ultimately have "exec_wrs (ws @ [WLen]) (replicate n 0, 0) = Some (filled n (frame body))"
    by (simp add: exec_wrs_append filled_0 del: exec_wr.simps)
  moreover have "length (frame body) \<le> n" using l by (simp add: frame_def)
  ultimately show ?thesis using load_filled [of "frame body" n] assms(3) by (simp add: build_def split_beta)
qed

end
