(* ===== verification/Sftp_Request.thy ===== *)
theory Sftp_Request
  imports System_Time
begin

text \<open>
  The requests of the SFTP client and the table that connects replies to them: \<open>src/sftp/request-hash.c\<close>, with the types
  of \<open>lib/sftp/common-protocol.h\<close>.

  A request is known by a number, its address; it lives on the stack of the thread that waits for the reply. The rows of the table are
  linked lists, here sequences of addresses as \<open>Simple_List\<close> justifies; to link a request that is linked already would break the lists
  and has no result, \<open>None\<close>.
\<close>

section \<open>Requests and replies\<close>

definition SFTP_REQUEST_STATUS_SEND :: u32 where "SFTP_REQUEST_STATUS_SEND = 1"
definition SFTP_REQUEST_STATUS_WAITING :: u32 where "SFTP_REQUEST_STATUS_WAITING = 2"
definition SFTP_REQUEST_STATUS_RESPONSE :: u32 where "SFTP_REQUEST_STATUS_RESPONSE = 4"
definition SFTP_REQUEST_STATUS_FINISH :: u32 where "SFTP_REQUEST_STATUS_FINISH = 8"
definition SFTP_REQUEST_STATUS_INTERRUPT :: u32 where "SFTP_REQUEST_STATUS_INTERRUPT = 16"
definition SFTP_REQUEST_STATUS_TIMEDOUT :: u32 where "SFTP_REQUEST_STATUS_TIMEDOUT = 32"
definition SFTP_REQUEST_STATUS_DISCONNECT :: u32 where "SFTP_REQUEST_STATUS_DISCONNECT = 64"
definition SFTP_REQUEST_STATUS_ERROR :: u32 where "SFTP_REQUEST_STATUS_ERROR = 128"

definition SFTP_SIGNAL_FLAG_DISCONNECT :: u32 where "SFTP_SIGNAL_FLAG_DISCONNECT = 16 OR 8"

definition EINTR :: u32 where "EINTR = 4"
definition EIO :: u32 where "EIO = 5"
definition ECONNABORTED :: u32 where "ECONNABORTED = 103"
definition ENOTCONN :: u32 where "ENOTCONN = 107"
definition ETIMEDOUT :: u32 where "ETIMEDOUT = 110"

text \<open>The response is a union; the variant tells which member was written.\<close>

datatype sftp_response_u =
    Response_unset
  | Response_status (status_code: u32) (status_linux_error: u32)
  | Response_data (data_flags: u8)
  | Response_name (name_flags: u8) (name_count: u32)

record sftp_reply_s =
  rp_type :: u8
  rp_sequence :: u32
  rp_response :: sftp_response_u
  rp_data :: "mem option"
  rp_size :: u32
  rp_error :: u32

datatype send_cb = Send_default | Send_blocked

record sftp_request_s =
  rq_status :: u32
  rq_id :: u32
  rq_started :: system_timespec_s
  rq_timeout :: system_timespec_s
  rq_reply :: sftp_reply_s
  rq_send :: send_cb

definition reply_zero :: sftp_reply_s where
  "reply_zero = \<lparr>rp_type = 0, rp_sequence = 0, rp_response = Response_unset, rp_data = None, rp_size = 0, rp_error = 0\<rparr>"

definition init_sftp_request :: sftp_request_s where
  "init_sftp_request = \<lparr>rq_status = SFTP_REQUEST_STATUS_WAITING, rq_id = 0, rq_started = SYSTEM_TIME_INIT,
     rq_timeout = SYSTEM_TIME_INIT, rq_reply = reply_zero, rq_send = Send_default\<rparr>"

record sftp_signal_s =
  sg_flags :: u32
  sg_seq :: u32
  sg_seqset :: system_timespec_s
  sg_seqtype :: u8

text \<open>
  The state that the waiting threads and the receiving threads share. There is one table for all clients; the signal and the
  counter of ids belong to a client, which is a number too. \<open>rs_phase\<close> tells where the thread of a request is in \<open>wait_sftp_response\<close>,
  \<open>rs_rx\<close> which request the receiving thread of a client has found and not signalled yet, \<open>rs_marked\<close> whether it has written
  the status of the request since.
\<close>

datatype leave_reason = Leave_only | Leave_seq | Leave_disconnect | Leave_result u32

datatype req_phase = Unsent | Waiting | Leaving leave_reason | Removed u32 | Returned u8

record req_state =
  rs_reqs :: "nat \<Rightarrow> sftp_request_s"
  rs_table :: "nat list list"
  rs_signal :: "nat \<Rightarrow> sftp_signal_s"
  rs_next_id :: "nat \<Rightarrow> u32"
  rs_phase :: "nat \<Rightarrow> req_phase"
  rs_rx :: "nat \<Rightarrow> nat option"
  rs_marked :: "nat \<Rightarrow> bool"

abbreviation req :: "req_state \<Rightarrow> nat \<Rightarrow> sftp_request_s" where "req s r \<equiv> rs_reqs s r"

definition upd_req :: "nat \<Rightarrow> (sftp_request_s \<Rightarrow> sftp_request_s) \<Rightarrow> req_state \<Rightarrow> req_state" where
  "upd_req r f s = s\<lparr>rs_reqs := (rs_reqs s)(r := f (rs_reqs s r))\<rparr>"

definition set_status :: "nat \<Rightarrow> (u32 \<Rightarrow> u32) \<Rightarrow> req_state \<Rightarrow> req_state" where
  "set_status r f = upd_req r (\<lambda>x. x\<lparr>rq_status := f (rq_status x)\<rparr>)"

definition set_error :: "nat \<Rightarrow> u32 \<Rightarrow> req_state \<Rightarrow> req_state" where
  "set_error r e = upd_req r (\<lambda>x. x\<lparr>rq_reply := (rq_reply x)\<lparr>rp_error := e\<rparr>\<rparr>)"

definition set_phase :: "nat \<Rightarrow> req_phase \<Rightarrow> req_state \<Rightarrow> req_state" where
  "set_phase r p s = s\<lparr>rs_phase := (rs_phase s)(r := p)\<rparr>"

section \<open>The table\<close>

definition SFTP_SENDHASH_TABLE_SIZE_DEFAULT :: u32 where "SFTP_SENDHASH_TABLE_SIZE_DEFAULT = 64"

definition init_sftp_sendhash :: "nat list list" where
  "init_sftp_sendhash = replicate (unat SFTP_SENDHASH_TABLE_SIZE_DEFAULT) []"

definition request_hash :: "u32 \<Rightarrow> nat" where
  "request_hash i = unat (i mod SFTP_SENDHASH_TABLE_SIZE_DEFAULT)"

definition listed :: "req_state \<Rightarrow> nat \<Rightarrow> bool" where
  "listed s r \<longleftrightarrow> (\<exists>row \<in> set (rs_table s). r \<in> set row)"

definition add_request_hashtable :: "nat \<Rightarrow> req_state \<Rightarrow> req_state option" where
  "add_request_hashtable r s =
     (let hash = request_hash (rq_id (req s r)) in
      if listed s r then None
      else Some (s\<lparr>rs_table := (rs_table s)[hash := rs_table s ! hash @ [r]]\<rparr>))"

text \<open>\<open>remove_list_element\<close> does nothing for an element that is in no list.\<close>

definition remove_request_hashtable :: "nat \<Rightarrow> req_state \<Rightarrow> req_state" where
  "remove_request_hashtable r s = s\<lparr>rs_table := map (remove1 r) (rs_table s)\<rparr>"

text \<open>The client \<open>sftp\<close> is an argument of the lookup that the source does not use.\<close>

definition lookup_request_hashtable :: "nat \<Rightarrow> u32 \<Rightarrow> req_state \<Rightarrow> nat option \<times> req_state" where
  "lookup_request_hashtable sftp i s =
     (let row = rs_table s ! request_hash i in
      case find (\<lambda>r. rq_id (req s r) = i) row of
        Some r \<Rightarrow> (Some r, remove_request_hashtable r s)
      | None \<Rightarrow> (None, s))"

text \<open>The status is written after the row of the table is unlocked.\<close>

definition mark_response :: "nat \<Rightarrow> req_state \<Rightarrow> req_state" where
  "mark_response r = set_status r (\<lambda>st. (st AND NOT SFTP_REQUEST_STATUS_WAITING) OR SFTP_REQUEST_STATUS_RESPONSE)"

definition get_sftp_request :: "nat \<Rightarrow> u32 \<Rightarrow> req_state \<Rightarrow> nat option \<times> req_state" where
  "get_sftp_request sftp i s =
     (case lookup_request_hashtable sftp i s of
        (Some r, s) \<Rightarrow> (Some r, mark_response r s)
      | (None, s) \<Rightarrow> (None, s))"

definition signal_sftp_received_id :: "nat \<Rightarrow> req_state \<Rightarrow> int \<times> req_state" where
  "signal_sftp_received_id r s =
     (if rq_status (req s r) AND SFTP_REQUEST_STATUS_RESPONSE \<noteq> 0
      then (0, set_status r (\<lambda>st. (st - SFTP_REQUEST_STATUS_RESPONSE) OR SFTP_REQUEST_STATUS_FINISH) s)
      else (-1, set_status r (\<lambda>st. st OR SFTP_REQUEST_STATUS_ERROR) s))"

definition signal_sftp_received_id_error :: "nat \<Rightarrow> req_state \<Rightarrow> req_state" where
  "signal_sftp_received_id_error r s = set_status r (\<lambda>st. st OR SFTP_REQUEST_STATUS_ERROR) s"

section \<open>Sending\<close>

definition get_sftp_request_id :: "nat \<Rightarrow> req_state \<Rightarrow> u32 \<times> req_state" where
  "get_sftp_request_id sftp s =
     (rs_next_id s sftp, s\<lparr>rs_next_id := (rs_next_id s)(sftp := rs_next_id s sftp + 1)\<rparr>)"

text \<open>\<open>sent\<close> is what the function that hands the bytes to the connection returns.\<close>

definition send_sftp_request_data_default :: "int \<Rightarrow> nat \<Rightarrow> req_state \<Rightarrow> int \<times> req_state" where
  "send_sftp_request_data_default sent r s = (sent, set_status r (\<lambda>st. st OR SFTP_REQUEST_STATUS_SEND) s)"

definition send_sftp_request_data_blocked :: "nat \<Rightarrow> req_state \<Rightarrow> int \<times> req_state" where
  "send_sftp_request_data_blocked r s = (-1, s)"

definition set_sftp_request_blocked :: "nat \<Rightarrow> req_state \<Rightarrow> req_state" where
  "set_sftp_request_blocked r s = upd_req r (\<lambda>x. x\<lparr>rq_send := Send_blocked\<rparr>) (set_error r EINTR s)"

primrec call_send :: "send_cb \<Rightarrow> int \<Rightarrow> nat \<Rightarrow> req_state \<Rightarrow> int \<times> req_state" where
  "call_send Send_default sent = send_sftp_request_data_default sent"
| "call_send Send_blocked sent = send_sftp_request_data_blocked"

section \<open>Waiting\<close>

text \<open>
  \<open>wait_sftp_response\<close> up to the label \<open>startcheckwait\<close>: the times are noted and the request is added to the table. The
  deadline is computed too, which overflows for times out of range.
\<close>

definition wait_begin :: "system_timespec_s \<Rightarrow> system_timespec_s \<Rightarrow> nat \<Rightarrow> req_state \<Rightarrow> req_state option" where
  "wait_begin clock timeout r s = do {
     let started = get_current_time_system_time clock;
     expire \<leftarrow> system_time_add_time started timeout;
     s \<leftarrow> add_request_hashtable r (upd_req r (\<lambda>x. x\<lparr>rq_started := started, rq_timeout := copy_system_time timeout\<rparr>) s);
     Some (set_phase r Waiting s) }"

text \<open>
  One round of the checks, which run while the signal is locked. \<open>interrupted\<close> is the answer of the function of the caller, \<open>closed\<close> tells
  whether the channel has an end-of-file, close or exit flag. What the source does after it unlocks the signal, writing the status and removing the
  request from the table, are steps of their own: until the removal the request is \<open>Leaving\<close>.
\<close>

definition break_request_sftp_client :: "bool \<Rightarrow> u32 \<Rightarrow> bool \<times> u32" where
  "break_request_sftp_client closed st = (if closed then (True, st OR SFTP_REQUEST_STATUS_DISCONNECT) else (False, st))"

definition wait_check :: "nat \<Rightarrow> bool \<Rightarrow> bool \<Rightarrow> nat \<Rightarrow> req_state \<Rightarrow> req_state" where
  "wait_check sftp interrupted closed r s =
     (let st = rq_status (req s r); sg = rs_signal s sftp in
      if st AND SFTP_REQUEST_STATUS_FINISH \<noteq> 0 then set_phase r (Returned 1) s
      else if interrupted then
        (if st AND SFTP_REQUEST_STATUS_RESPONSE \<noteq> 0
         then set_status r (\<lambda>st. st AND NOT SFTP_REQUEST_STATUS_INTERRUPT) s
         else set_phase r (Leaving Leave_only)
           (set_error r EINTR (set_status r (\<lambda>st. st OR SFTP_REQUEST_STATUS_INTERRUPT) s)))
      else (case break_request_sftp_client closed st of
        (True, st') \<Rightarrow> set_phase r (Leaving Leave_only) (set_error r ENOTCONN (set_status r (\<lambda>_. st') s))
      | (False, st') \<Rightarrow>
          if st' AND SFTP_REQUEST_STATUS_ERROR \<noteq> 0 then set_phase r (Returned 0) s
          else if sg_seq sg = rp_sequence (rq_reply (req s r)) \<and>
              system_time_test_earlier (rq_started (req s r)) (sg_seqset sg) = 1
          then set_phase r (Leaving Leave_seq) s
          else if sg_flags sg AND SFTP_SIGNAL_FLAG_DISCONNECT \<noteq> 0 then set_phase r (Leaving Leave_disconnect) s
          else s))"

text \<open>\<open>signal_condtimedwait\<close> returned \<open>result > 0\<close>.\<close>

definition wait_result :: "u32 \<Rightarrow> nat \<Rightarrow> req_state \<Rightarrow> req_state" where
  "wait_result result r s = (if result > 0 then set_phase r (Leaving (Leave_result result)) s else s)"

text \<open>
  One step after the signal is unlocked: the removal from the table, under the lock of the row, or what the source writes before it. After a
  failed wait the status is written last.
\<close>

primrec wait_leave :: "leave_reason \<Rightarrow> nat \<Rightarrow> req_state \<Rightarrow> req_state" where
  "wait_leave Leave_only r s = set_phase r (Returned 0) (remove_request_hashtable r s)"
| "wait_leave Leave_seq r s =
     set_phase r (Leaving Leave_only) (set_error r EIO (set_status r (\<lambda>st. st OR SFTP_REQUEST_STATUS_ERROR) s))"
| "wait_leave Leave_disconnect r s =
     set_phase r (Leaving Leave_only) (set_error r ECONNABORTED (set_status r (\<lambda>st. st OR SFTP_REQUEST_STATUS_DISCONNECT) s))"
| "wait_leave (Leave_result result) r s = set_phase r (Removed result) (remove_request_hashtable r s)"

definition wait_removed :: "u32 \<Rightarrow> nat \<Rightarrow> req_state \<Rightarrow> req_state" where
  "wait_removed result r s =
     set_phase r (Returned 0)
       (if result = ETIMEDOUT
        then set_error r ETIMEDOUT (set_status r (\<lambda>st. st OR SFTP_REQUEST_STATUS_TIMEDOUT) s)
        else set_error r result (set_status r (\<lambda>st. st OR SFTP_REQUEST_STATUS_ERROR) s))"

section \<open>Runs\<close>

text \<open>
  A thread initialises a request, sends it, waits; the receiving thread of a client looks a request up, writes its status, fills in the reply and
  signals it. A step is a region under the signal mutex or the lock of a row, or what a thread writes to a request between two of
  them, which no lock protects. A request is memory on the stack of the thread: once the wait has returned, the same memory can be used for
  another request, also while a receiving thread still holds its address.
\<close>

inductive req_step :: "req_state \<Rightarrow> req_state \<Rightarrow> bool" where
  step_init: "rs_phase s r = Unsent \<or> rs_phase s r = Returned v \<Longrightarrow>
    req_step s (set_phase r Unsent (upd_req r (\<lambda>_. init_sftp_request) s))"
| step_send: "rs_phase s r = Unsent \<Longrightarrow> get_sftp_request_id sftp s = (i, t) \<Longrightarrow>
    call_send (rq_send (req s r)) sent r (upd_req r (\<lambda>x. x\<lparr>rq_id := i\<rparr>) t) = (v, s') \<Longrightarrow> req_step s s'"
| step_begin: "rs_phase s r = Unsent \<Longrightarrow> wait_begin clock timeout r s = Some s' \<Longrightarrow> req_step s s'"
| step_check: "rs_phase s r = Waiting \<Longrightarrow> req_step s (wait_check sftp interrupted closed r s)"
| step_result: "rs_phase s r = Waiting \<Longrightarrow> req_step s (wait_result result r s)"
| step_leave: "rs_phase s r = Leaving reason \<Longrightarrow> req_step s (wait_leave reason r s)"
| step_removed: "rs_phase s r = Removed result \<Longrightarrow> req_step s (wait_removed result r s)"
| step_blocked: "req_step s (set_sftp_request_blocked r s)"
| step_lookup: "rs_rx s sftp = None \<Longrightarrow> lookup_request_hashtable sftp i s = (p, s') \<Longrightarrow>
    req_step s (s'\<lparr>rs_rx := (rs_rx s')(sftp := p), rs_marked := (rs_marked s')(sftp := False)\<rparr>)"
| step_mark: "rs_rx s sftp = Some r \<Longrightarrow> \<not> rs_marked s sftp \<Longrightarrow>
    req_step s ((mark_response r s)\<lparr>rs_marked := (rs_marked s)(sftp := True)\<rparr>)"
| step_fill: "rs_rx s sftp = Some r \<Longrightarrow> rs_marked s sftp \<Longrightarrow> req_step s (upd_req r (\<lambda>x. x\<lparr>rq_reply := reply\<rparr>) s)"
| step_received: "rs_rx s sftp = Some r \<Longrightarrow> rs_marked s sftp \<Longrightarrow> signal_sftp_received_id r s = (v, s') \<Longrightarrow>
    req_step s (s'\<lparr>rs_rx := (rs_rx s')(sftp := None)\<rparr>)"
| step_error: "rs_rx s sftp = Some r \<Longrightarrow> rs_marked s sftp \<Longrightarrow>
    req_step s ((signal_sftp_received_id_error r s)\<lparr>rs_rx := (rs_rx s)(sftp := None)\<rparr>)"
| step_signal: "req_step s (s\<lparr>rs_signal := sg\<rparr>)"

text \<open>
  A receiving thread holds a request from the lookup up to the signal. The runs in which the memory of a request is not used again
  while it is held; nothing in the code ensures this.
\<close>

definition held :: "req_state \<Rightarrow> nat \<Rightarrow> bool" where
  "held s r \<longleftrightarrow> (\<exists>c. rs_rx s c = Some r)"

definition reuses_held :: "req_state \<Rightarrow> req_state \<Rightarrow> bool" where
  "reuses_held s s' \<longleftrightarrow> (\<exists>r v. held s r \<and> rs_phase s r = Returned v \<and> rs_phase s' r = Unsent)"

definition clean_step :: "req_state \<Rightarrow> req_state \<Rightarrow> bool" where
  "clean_step s s' \<longleftrightarrow> req_step s s' \<and> \<not> reuses_held s s'"

definition req_start :: "req_state \<Rightarrow> bool" where
  "req_start s \<longleftrightarrow> rs_table s = init_sftp_sendhash \<and> (\<forall>r. rs_phase s r = Unsent \<and> req s r = init_sftp_request) \<and>
     (\<forall>c. rs_rx s c = None \<and> rs_next_id s c = 0)"

section \<open>The table as a map\<close>

text \<open>Every row holds requests with its hash, each of them once.\<close>

definition table_ok :: "req_state \<Rightarrow> bool" where
  "table_ok s \<longleftrightarrow> length (rs_table s) = 64 \<and>
     (\<forall>i < 64. distinct (rs_table s ! i) \<and> (\<forall>r \<in> set (rs_table s ! i). request_hash (rq_id (req s r)) = i))"

lemmas status_defs = SFTP_REQUEST_STATUS_SEND_def SFTP_REQUEST_STATUS_WAITING_def SFTP_REQUEST_STATUS_RESPONSE_def
  SFTP_REQUEST_STATUS_FINISH_def SFTP_REQUEST_STATUS_INTERRUPT_def SFTP_REQUEST_STATUS_TIMEDOUT_def
  SFTP_REQUEST_STATUS_DISCONNECT_def SFTP_REQUEST_STATUS_ERROR_def

lemmas req_simps = upd_req_def set_status_def set_error_def set_phase_def

lemma request_hash_less: "request_hash i < 64"
proof -
  have "i mod 64 < 64" by (simp add: word_mod_less_divisor)
  then show ?thesis by (simp add: request_hash_def SFTP_SENDHASH_TABLE_SIZE_DEFAULT_def word_less_nat_alt)
qed

lemma listed_nth: "listed s r \<longleftrightarrow> (\<exists>i < length (rs_table s). r \<in> set (rs_table s ! i))"
  by (metis in_set_conv_nth listed_def)

lemma listed_iff:
  assumes "table_ok s"
  shows "listed s r \<longleftrightarrow> r \<in> set (rs_table s ! request_hash (rq_id (req s r)))"
proof
  assume "listed s r"
  then obtain i where "i < 64" "r \<in> set (rs_table s ! i)" using assms by (auto simp: listed_nth table_ok_def)
  then show "r \<in> set (rs_table s ! request_hash (rq_id (req s r)))" using assms by (simp add: table_ok_def)
next
  assume "r \<in> set (rs_table s ! request_hash (rq_id (req s r)))"
  then show "listed s r" using assms request_hash_less by (auto simp: listed_nth table_ok_def)
qed

lemma table_ok_add:
  assumes "table_ok s" and "\<not> listed s r" and "h = request_hash (rq_id (req s r))"
  shows "table_ok (s\<lparr>rs_table := (rs_table s)[h := rs_table s ! h @ [r]]\<rparr>)"
  using assms listed_iff [OF assms(1), of r] request_hash_less [of "rq_id (req s r)"]
  by (simp add: table_ok_def nth_list_update)

lemma listed_add:
  assumes "table_ok s" and "h = request_hash (rq_id (req s r))"
  shows "listed (s\<lparr>rs_table := (rs_table s)[h := rs_table s ! h @ [r]]\<rparr>) j \<longleftrightarrow> listed s j \<or> j = r"
proof -
  have h: "h < length (rs_table s)" using assms request_hash_less by (simp add: table_ok_def)
  then have "(\<exists>i < length (rs_table s). j \<in> set ((rs_table s)[h := rs_table s ! h @ [r]] ! i)) \<longleftrightarrow>
      (\<exists>i < length (rs_table s). j \<in> set (rs_table s ! i)) \<or> j = r"
    by (auto simp: nth_list_update split: if_splits)
  then show ?thesis by (simp add: listed_nth)
qed

lemma listed_remove:
  assumes "table_ok s"
  shows "listed (remove_request_hashtable r s) j \<longleftrightarrow> listed s j \<and> j \<noteq> r"
proof -
  have "set (remove1 r (rs_table s ! i)) = set (rs_table s ! i) - {r}" if "i < length (rs_table s)" for i
    using assms that by (simp add: table_ok_def)
  then show ?thesis by (auto simp: listed_nth remove_request_hashtable_def)
qed

lemma table_ok_remove: "table_ok s \<Longrightarrow> table_ok (remove_request_hashtable r s)"
  by (simp add: table_ok_def remove_request_hashtable_def)

lemma table_ok_cong: "rs_table t = rs_table s \<Longrightarrow> (\<And>j. rq_id (req t j) = rq_id (req s j)) \<Longrightarrow> table_ok s \<Longrightarrow> table_ok t"
  by (simp add: table_ok_def)

lemma add_ok:
  assumes "table_ok s" and "\<not> listed s r"
  shows "\<exists>t. add_request_hashtable r s = Some t \<and> table_ok t \<and> Collect (listed t) = insert r (Collect (listed s)) \<and>
    (\<lambda>j. rq_id (req t j)) = (\<lambda>j. rq_id (req s j))"
  using assms table_ok_add [OF assms refl] listed_add [OF assms(1) refl, of r]
  by (auto simp: add_request_hashtable_def Let_def)

lemma lookup_hashtable_cases:
  assumes "table_ok s"
  obtains (found) r where "listed s r" "rq_id (req s r) = i" "lookup_request_hashtable sftp i s = (Some r, remove_request_hashtable r s)"
  | (missing) "\<And>r. listed s r \<Longrightarrow> rq_id (req s r) \<noteq> i" "lookup_request_hashtable sftp i s = (None, s)"
proof (cases "find (\<lambda>r. rq_id (req s r) = i) (rs_table s ! request_hash i)")
  case None
  then have "\<not> listed s r" if "rq_id (req s r) = i" for r
    using that listed_iff [OF assms, of r] by (auto simp: find_None_iff)
  then show thesis using None by (intro missing) (auto simp: lookup_request_hashtable_def Let_def)
next
  case (Some r)
  then have "rq_id (req s r) = i" "r \<in> set (rs_table s ! request_hash i)"
    by (auto simp: find_Some_iff)
  then show thesis using Some listed_iff [OF assms, of r]
    by (intro found [of r]) (auto simp: lookup_request_hashtable_def Let_def)
qed

text \<open>
  What the rest of the client relies on: a table of pending requests with a key each, where entering adds one and taking removes one
  with the key.
\<close>

locale reply_table =
  fixes ok :: "'s \<Rightarrow> bool" and key :: "'s \<Rightarrow> 'r \<Rightarrow> 'k" and pend :: "'s \<Rightarrow> 'r set"
    and enter :: "'r \<Rightarrow> 's \<Rightarrow> 's option" and takeout :: "'k \<Rightarrow> 's \<Rightarrow> 'r option \<times> 's"
  assumes enter_ok: "ok s \<Longrightarrow> r \<notin> pend s \<Longrightarrow>
      \<exists>t. enter r s = Some t \<and> ok t \<and> pend t = insert r (pend s) \<and> key t = key s"
    and takeout_found: "ok s \<Longrightarrow> takeout k s = (Some r, t) \<Longrightarrow>
      r \<in> pend s \<and> key s r = k \<and> ok t \<and> pend t = pend s - {r} \<and> key t = key s"
    and takeout_missing: "ok s \<Longrightarrow> takeout k s = (None, t) \<Longrightarrow> t = s \<and> (\<forall>r \<in> pend s. key s r \<noteq> k)"
begin

lemma takeout_cases:
  assumes "ok s"
  obtains (found) r t where "takeout k s = (Some r, t)" "r \<in> pend s" "key s r = k" "ok t" "pend t = pend s - {r}" "key t = key s"
  | (missing) "takeout k s = (None, s)" "\<forall>r \<in> pend s. key s r \<noteq> k"
proof (cases "takeout k s")
  case (Pair p t)
  show thesis
  proof (cases p)
    case None
    then show ?thesis using takeout_missing [OF assms, of k t] Pair by (intro missing) auto
  next
    case (Some r)
    then show ?thesis using takeout_found [OF assms, of k r t] Pair by (intro found [of r t]) auto
  qed
qed

lemma enter_takeout:
  assumes "ok s" and "r \<notin> pend s" and "\<forall>j \<in> pend s. key s j \<noteq> key s r"
  shows "\<exists>t u. enter r s = Some t \<and> takeout (key s r) t = (Some r, u) \<and> pend u = pend s \<and> takeout (key s r) u = (None, u)"
proof -
  obtain t where t: "enter r s = Some t" "ok t" "pend t = insert r (pend s)" "key t = key s"
    using enter_ok [OF assms(1,2)] by blast
  from t(2) show ?thesis
  proof (cases rule: takeout_cases [of t "key s r"])
    case missing
    then show ?thesis using t(3,4) by simp
  next
    case (found j u)
    then have u: "j = r" "pend u = pend s" "key u = key s" using t(3,4) assms(2,3) by auto
    from found(4) have "takeout (key s r) u = (None, u)"
      by (cases rule: takeout_cases [of u "key s r"]) (use u assms(3) in simp_all)
    then show ?thesis using t(1) found(1) u(1,2) by blast
  qed
qed

end

interpretation rt: reply_table table_ok "\<lambda>s r. rq_id (req s r)" "\<lambda>s. Collect (listed s)" add_request_hashtable
  "lookup_request_hashtable sftp" for sftp
proof
  fix s and r :: nat
  assume "table_ok s" "r \<notin> Collect (listed s)"
  then show "\<exists>t. add_request_hashtable r s = Some t \<and> table_ok t \<and> Collect (listed t) = insert r (Collect (listed s)) \<and>
      (\<lambda>r. rq_id (req t r)) = (\<lambda>r. rq_id (req s r))"
    using add_ok by simp
next
  fix s t :: req_state and i r
  assume s: "table_ok s" and l: "lookup_request_hashtable sftp i s = (Some r, t)"
  from s show "r \<in> Collect (listed s) \<and> rq_id (req s r) = i \<and> table_ok t \<and> Collect (listed t) = Collect (listed s) - {r} \<and>
      (\<lambda>r. rq_id (req t r)) = (\<lambda>r. rq_id (req s r))"
    by (cases rule: lookup_hashtable_cases [of s i sftp])
      (use s l listed_remove table_ok_remove in \<open>auto simp: remove_request_hashtable_def\<close>)
next
  fix s t :: req_state and i
  assume s: "table_ok s" and l: "lookup_request_hashtable sftp i s = (None, t)"
  from s show "t = s \<and> (\<forall>r \<in> Collect (listed s). rq_id (req s r) \<noteq> i)"
    by (cases rule: lookup_hashtable_cases [of s i sftp]) (use l in auto)
qed

section \<open>The invariant\<close>

text \<open>A request in the table is not held by a receiving thread and waits, without a reply yet, or is about to be removed.\<close>

definition quiet :: "u32 \<Rightarrow> bool" where
  "quiet st \<longleftrightarrow> st AND SFTP_REQUEST_STATUS_RESPONSE = 0 \<and> st AND SFTP_REQUEST_STATUS_FINISH = 0 \<and>
     st AND SFTP_REQUEST_STATUS_ERROR = 0"

definition req_ok :: "req_state \<Rightarrow> nat \<Rightarrow> bool" where
  "req_ok s r \<longleftrightarrow>
     (listed s r \<longrightarrow> \<not> held s r \<and> (rs_phase s r = Waiting \<and> quiet (rq_status (req s r)) \<or> (\<exists>x. rs_phase s r = Leaving x))) \<and>
     (rs_phase s r = Unsent \<longrightarrow> quiet (rq_status (req s r)) \<and> \<not> held s r) \<and>
     (rs_phase s r = Returned 1 \<longrightarrow> rq_status (req s r) AND SFTP_REQUEST_STATUS_FINISH \<noteq> 0)"

definition req_inv :: "req_state \<Rightarrow> bool" where
  "req_inv s \<longleftrightarrow> table_ok s \<and> (\<forall>r. req_ok s r)"

text \<open>Every step changes one request.\<close>

definition only :: "nat \<Rightarrow> req_state \<Rightarrow> req_state \<Rightarrow> bool" where
  "only r s s' \<longleftrightarrow> (\<forall>j. j \<noteq> r \<longrightarrow> req s' j = req s j \<and> rs_phase s' j = rs_phase s j \<and>
     (listed s' j \<longrightarrow> listed s j) \<and> (held s' j \<longrightarrow> held s j))"

lemma req_invI:
  assumes "req_inv s" and "only r s s'" and "table_ok s'" and "req_ok s' r"
  shows "req_inv s'"
proof -
  have "req_ok s' j" for j
  proof (cases "j = r")
    case False
    then show ?thesis using assms(1,2) unfolding req_inv_def req_ok_def only_def by metis
  qed (use assms(4) in simp)
  then show ?thesis using assms(3) by (simp add: req_inv_def)
qed

lemma quiet_flags [simp]:
  "quiet st \<Longrightarrow> quiet (st OR SFTP_REQUEST_STATUS_SEND)" "quiet st \<Longrightarrow> quiet (st OR SFTP_REQUEST_STATUS_INTERRUPT)"
  "quiet st \<Longrightarrow> quiet (st OR SFTP_REQUEST_STATUS_DISCONNECT)" "quiet st \<Longrightarrow> quiet (st OR SFTP_REQUEST_STATUS_TIMEDOUT)"
  "quiet SFTP_REQUEST_STATUS_WAITING"
  unfolding quiet_def status_defs by (simp_all add: bit.conj_disj_distrib2)

lemma finish_flag [simp]: "(st OR SFTP_REQUEST_STATUS_FINISH) AND SFTP_REQUEST_STATUS_FINISH \<noteq> 0"
  "st AND SFTP_REQUEST_STATUS_FINISH \<noteq> 0 \<Longrightarrow> (st OR x) AND SFTP_REQUEST_STATUS_FINISH \<noteq> 0"
  unfolding status_defs by (simp_all add: bit.conj_disj_distrib2 or_eq_0_iff)

lemma mark_finish:
  "st AND SFTP_REQUEST_STATUS_FINISH \<noteq> 0 \<Longrightarrow>
    ((st AND NOT SFTP_REQUEST_STATUS_WAITING) OR SFTP_REQUEST_STATUS_RESPONSE) AND SFTP_REQUEST_STATUS_FINISH \<noteq> 0"
  unfolding status_defs by (rule finish_flag(2) [unfolded status_defs]) (simp add: and.assoc)

text \<open>Changes of a request that leave the table alone.\<close>

lemma same_table:
  assumes "rs_table s' = rs_table s" and "rs_rx s' = rs_rx s" and "\<And>j. rq_id (req s' j) = rq_id (req s j) \<or> \<not> listed s j"
    and "\<And>j. j \<noteq> r \<Longrightarrow> req s' j = req s j \<and> rs_phase s' j = rs_phase s j"
  shows "only r s s'" and "table_ok s \<Longrightarrow> table_ok s'" and "listed s' = listed s" and "held s' = held s"
proof -
  show l: "listed s' = listed s" and h: "held s' = held s" using assms(1,2) by (simp_all add: fun_eq_iff listed_def held_def)
  show "only r s s'" using assms(4) l h by (simp add: only_def)
  show "table_ok s \<Longrightarrow> table_ok s'"
    using assms(1,3) unfolding table_ok_def listed_nth by (metis (no_types, opaque_lifting))
qed

lemma simple_inv:
  assumes "req_inv s" and "rs_table s' = rs_table s" and "rs_rx s' = rs_rx s"
    and "\<And>j. j \<noteq> r \<Longrightarrow> req s' j = req s j \<and> rs_phase s' j = rs_phase s j"
    and "rq_id (req s' r) = rq_id (req s r) \<or> \<not> listed s r"
    and "listed s r \<Longrightarrow> rs_phase s' r = Waiting \<and> quiet (rq_status (req s' r)) \<or> (\<exists>x. rs_phase s' r = Leaving x)"
    and "rs_phase s' r = Unsent \<Longrightarrow> quiet (rq_status (req s' r)) \<and> \<not> held s r"
    and "rs_phase s' r = Returned 1 \<Longrightarrow> rq_status (req s' r) AND SFTP_REQUEST_STATUS_FINISH \<noteq> 0"
  shows "req_inv s'"
proof -
  have "rq_id (req s' j) = rq_id (req s j) \<or> \<not> listed s j" for j using assms(4,5) by (cases "j = r") simp_all
  note t = same_table [of s' s r, OF assms(2,3) this assms(4)]
  have "req_ok s r" using assms(1) by (simp add: req_inv_def)
  then have "req_ok s' r" using assms(6-8) t(3,4) unfolding req_ok_def by metis
  moreover have "table_ok s'" using assms(1) t(2) by (simp add: req_inv_def)
  ultimately show ?thesis by (intro req_invI [OF assms(1) t(1)])
qed

lemma req_okD:
  assumes "req_inv s"
  shows "listed s r \<Longrightarrow> \<not> held s r \<and> (rs_phase s r = Waiting \<and> quiet (rq_status (req s r)) \<or> (\<exists>x. rs_phase s r = Leaving x))"
    and "rs_phase s r = Unsent \<Longrightarrow> quiet (rq_status (req s r)) \<and> \<not> held s r \<and> \<not> listed s r"
    and "rs_phase s r = Returned 1 \<Longrightarrow> rq_status (req s r) AND SFTP_REQUEST_STATUS_FINISH \<noteq> 0"
    and "rs_phase s r = Returned v \<or> rs_phase s r = Removed result \<Longrightarrow> \<not> listed s r"
  using assms by (auto simp: req_inv_def req_ok_def)

lemma request_init_inv:
  assumes "req_inv s" and "rs_phase s r = Unsent \<or> rs_phase s r = Returned v" and "rs_phase s r = Unsent \<or> \<not> held s r"
  shows "req_inv (set_phase r Unsent (upd_req r (\<lambda>_. init_sftp_request) s))"
  using req_okD [OF assms(1)] assms(2,3)
  by (intro simple_inv [OF assms(1), of _ r]) (auto simp: req_simps init_sftp_request_def held_def)

lemma send_inv:
  assumes "req_inv s" and "rs_phase s r = Unsent" and "get_sftp_request_id sftp s = (i, t)"
    and "call_send (rq_send (req s r)) sent r (upd_req r (\<lambda>x. x\<lparr>rq_id := i\<rparr>) t) = (v, s')"
  shows "req_inv s'"
  using req_okD(2) [OF assms(1,2)] assms(2-4)
  by (cases "rq_send (req s r)"; intro simple_inv [OF assms(1), of _ r])
    (auto simp: req_simps get_sftp_request_id_def send_sftp_request_data_default_def send_sftp_request_data_blocked_def)

lemma blocked_inv:
  assumes "req_inv s"
  shows "req_inv (set_sftp_request_blocked r s)"
  using req_okD [OF assms, of r]
  by (intro simple_inv [OF assms, of _ r]) (auto simp: set_sftp_request_blocked_def req_simps)

lemma begin_inv:
  assumes "req_inv s" and "rs_phase s r = Unsent" and "wait_begin clock timeout r s = Some s'"
  shows "req_inv s'"
proof -
  let ?x = "(req s r)\<lparr>rq_started := get_current_time_system_time clock, rq_timeout := timeout\<rparr>"
  define t where "t = s\<lparr>rs_reqs := (rs_reqs s)(r := ?x)\<rparr>"
  note u = req_okD(2) [OF assms(1,2)]
  have t: "req_inv t"
    using u assms(2) unfolding t_def by (intro simple_inv [OF assms(1), of _ r]) auto
  then have ok: "table_ok t" by (simp add: req_inv_def)
  define h where "h = request_hash (rq_id (req t r))"
  have l: "\<not> listed t r" using u by (simp add: t_def listed_def)
  have s': "s' = set_phase r Waiting (t\<lparr>rs_table := (rs_table t)[h := rs_table t ! h @ [r]]\<rparr>)" (is "_ = set_phase r Waiting ?t'")
    using assms(3) l
    by (auto simp: wait_begin_def add_request_hashtable_def upd_req_def copy_system_time_def bind_eq_Some_conv Let_def t_def h_def
        split: if_splits)
  have "listed s' j \<longleftrightarrow> listed t j \<or> j = r" for j
    using listed_add [OF ok h_def, of j] by (simp add: s' set_phase_def listed_def)
  moreover have "table_ok s'" using table_ok_add [OF ok l h_def] by (simp add: s' set_phase_def table_ok_def)
  moreover have "held s' = held s" "held t = held s" by (simp_all add: s' t_def set_phase_def held_def fun_eq_iff)
  ultimately show ?thesis
    using u by (intro req_invI [OF t, of r]) (auto simp: only_def req_ok_def s' set_phase_def t_def)
qed

lemma wait_check_cases:
  obtains (finish) "rq_status (req s r) AND SFTP_REQUEST_STATUS_FINISH \<noteq> 0" "wait_check sftp interrupted closed r s = set_phase r (Returned 1) s"
  | (error) "rq_status (req s r) AND SFTP_REQUEST_STATUS_ERROR \<noteq> 0" "wait_check sftp interrupted closed r s = set_phase r (Returned 0) s"
  | (response) "rq_status (req s r) AND SFTP_REQUEST_STATUS_RESPONSE \<noteq> 0"
      "wait_check sftp interrupted closed r s = set_status r (\<lambda>st. st AND NOT SFTP_REQUEST_STATUS_INTERRUPT) s"
  | (flag) e f where "f \<in> {SFTP_REQUEST_STATUS_INTERRUPT, SFTP_REQUEST_STATUS_DISCONNECT}"
      "wait_check sftp interrupted closed r s = set_phase r (Leaving Leave_only) (set_error r e (set_status r (\<lambda>st. st OR f) s))"
  | (leave) x where "wait_check sftp interrupted closed r s = set_phase r (Leaving x) s"
  | (wait) "wait_check sftp interrupted closed r s = s"
proof -
  let ?st = "rq_status (req s r)" and ?sg = "rs_signal s sftp"
  let ?seq = "sg_seq ?sg = rp_sequence (rq_reply (req s r)) \<and> system_time_test_earlier (rq_started (req s r)) (sg_seqset ?sg) = 1"
  note d = wait_check_def Let_def break_request_sftp_client_def
  have c: "set_status r (\<lambda>_. ?st OR SFTP_REQUEST_STATUS_DISCONNECT) s = set_status r (\<lambda>st. st OR SFTP_REQUEST_STATUS_DISCONNECT) s"
    by (simp add: req_simps)
  consider "?st AND SFTP_REQUEST_STATUS_FINISH \<noteq> 0"
    | "?st AND SFTP_REQUEST_STATUS_FINISH = 0" "interrupted" "?st AND SFTP_REQUEST_STATUS_RESPONSE \<noteq> 0"
    | "?st AND SFTP_REQUEST_STATUS_FINISH = 0" "interrupted" "?st AND SFTP_REQUEST_STATUS_RESPONSE = 0"
    | "?st AND SFTP_REQUEST_STATUS_FINISH = 0" "\<not> interrupted" "closed"
    | "?st AND SFTP_REQUEST_STATUS_FINISH = 0" "\<not> interrupted" "\<not> closed" "?st AND SFTP_REQUEST_STATUS_ERROR \<noteq> 0"
    | "?st AND SFTP_REQUEST_STATUS_FINISH = 0" "\<not> interrupted" "\<not> closed" "?st AND SFTP_REQUEST_STATUS_ERROR = 0"
    by blast
  then show thesis
  proof cases
    case 1
    then show ?thesis by (intro finish) (simp_all add: d)
  next
    case 2
    then show ?thesis by (intro response) (simp_all add: d)
  next
    case 3
    then show ?thesis by (intro flag [of SFTP_REQUEST_STATUS_INTERRUPT EINTR]) (simp_all add: d)
  next
    case 4
    then show ?thesis by (intro flag [of SFTP_REQUEST_STATUS_DISCONNECT ENOTCONN]) (simp_all add: d c)
  next
    case 5
    then show ?thesis by (intro error) (simp_all add: d)
  next
    case 6
    then have "wait_check sftp interrupted closed r s = (if ?seq then set_phase r (Leaving Leave_seq) s
        else if sg_flags ?sg AND SFTP_SIGNAL_FLAG_DISCONNECT \<noteq> 0 then set_phase r (Leaving Leave_disconnect) s else s)"
      by (simp add: d)
    then show ?thesis using leave [of Leave_seq] leave [of Leave_disconnect] wait by (simp split: if_splits)
  qed
qed

lemma check_inv:
  assumes "req_inv s" and "rs_phase s r = Waiting"
  shows "req_inv (wait_check sftp interrupted closed r s)"
proof -
  have q: "listed s r \<Longrightarrow> quiet (rq_status (req s r))" using req_okD(1) [OF assms(1), of r] assms(2) by simp
  show ?thesis
  proof (cases rule: wait_check_cases [of s r sftp interrupted closed])
    case (flag f e)
    then show ?thesis using q by (intro simple_inv [OF assms(1), of _ r]) (auto simp: req_simps)
  qed (use assms q in \<open>auto intro!: simple_inv [OF assms(1), of _ r] simp: req_simps quiet_def\<close>)
qed

lemma result_inv:
  assumes "req_inv s" and "rs_phase s r = Waiting"
  shows "req_inv (wait_result result r s)"
  using req_okD [OF assms(1), of r] assms
  by (cases "result > 0") (auto intro!: simple_inv [OF assms(1), of _ r] simp: wait_result_def req_simps)

text \<open>A removal from the table leaves a request that is in no list.\<close>

lemma remove_inv:
  assumes "req_inv s" and "rs_table t = rs_table (remove_request_hashtable r s)" and "rs_rx t = rs_rx s"
    and "\<And>j. j \<noteq> r \<Longrightarrow> rs_phase t j = rs_phase s j" and "\<And>j. req t j = req s j" and "rs_phase t r = Removed x \<or> rs_phase t r = Returned 0"
  shows "req_inv t"
proof -
  have ok: "table_ok s" using assms(1) by (simp add: req_inv_def)
  have l: "listed t j \<longleftrightarrow> listed s j \<and> j \<noteq> r" for j
    using listed_remove [OF ok, of r j] assms(2) by (simp add: listed_def)
  have "table_ok t"
    by (rule table_ok_cong [OF assms(2) _ table_ok_remove [OF ok]]) (use assms(5) in \<open>simp add: remove_request_hashtable_def\<close>)
  then show ?thesis
    using assms(3-6) l by (intro req_invI [OF assms(1), of r]) (auto simp: only_def held_def req_ok_def)
qed

lemma leave_inv:
  assumes "req_inv s" and "rs_phase s r = Leaving reason"
  shows "req_inv (wait_leave reason r s)"
proof (cases reason)
  case Leave_only
  then show ?thesis by (intro remove_inv [OF assms(1), of _ r 0]) (simp_all add: req_simps remove_request_hashtable_def)
next
  case (Leave_result result)
  then show ?thesis by (intro remove_inv [OF assms(1), of _ r result]) (simp_all add: req_simps remove_request_hashtable_def)
qed (use assms in \<open>auto intro!: simple_inv [OF assms(1), of _ r] simp: req_simps\<close>)

lemma removed_inv:
  assumes "req_inv s" and "rs_phase s r = Removed result"
  shows "req_inv (wait_removed result r s)"
  using req_okD(4) [OF assms(1), of r] assms(2) by (intro simple_inv [OF assms(1), of _ r]) (auto simp: req_simps wait_removed_def)

text \<open>Looking up a request takes it out of the table; after that the receiving thread may write to it.\<close>

lemma lookup_cases:
  assumes "table_ok s"
  obtains (found) r where "listed s r" "rq_id (req s r) = i"
      "get_sftp_request sftp i s = (Some r, set_status r (\<lambda>st. (st AND NOT SFTP_REQUEST_STATUS_WAITING) OR SFTP_REQUEST_STATUS_RESPONSE)
        (remove_request_hashtable r s))"
  | (missing) "\<And>r. listed s r \<Longrightarrow> rq_id (req s r) \<noteq> i" "get_sftp_request sftp i s = (None, s)"
  using assms by (cases rule: lookup_hashtable_cases [of s i sftp]) (auto simp: get_sftp_request_def mark_response_def)

lemma lookup_inv:
  assumes "req_inv s" and "rs_rx s sftp = None" and "lookup_request_hashtable sftp i s = (p, s')"
  shows "req_inv (s'\<lparr>rs_rx := (rs_rx s')(sftp := p), rs_marked := m\<rparr>)"
proof -
  let ?s = "s'\<lparr>rs_rx := (rs_rx s')(sftp := p), rs_marked := m\<rparr>"
  have ok: "table_ok s" using assms(1) by (simp add: req_inv_def)
  then show ?thesis
  proof (cases rule: lookup_hashtable_cases [of s i sftp])
    case missing
    then have "s' = s" "p = None" using assms(3) by simp_all
    then show ?thesis using assms(1,2) by (simp add: fun_upd_idem req_inv_def table_ok_def req_ok_def listed_def held_def)
  next
    case (found r)
    have t: "rs_table ?s = rs_table (remove_request_hashtable r s)" "rs_rx ?s = (rs_rx s)(sftp := Some r)" "rs_phase ?s = rs_phase s"
      "rs_reqs ?s = rs_reqs s"
      using found(3) assms(3) by (auto simp: remove_request_hashtable_def)
    have l: "listed ?s j \<longleftrightarrow> listed s j \<and> j \<noteq> r" for j
      using listed_remove [OF ok, of r j] t(1) by (simp add: listed_def)
    have "table_ok ?s"
      by (rule table_ok_cong [OF t(1) _ table_ok_remove [OF ok]]) (use t(4) in \<open>simp add: remove_request_hashtable_def\<close>)
    then show ?thesis
      using t l req_okD(1) [OF assms(1) found(1)]
      by (intro req_invI [OF assms(1), of r]) (auto simp: only_def held_def req_ok_def split: if_splits)
  qed
qed

lemma signal_inv:
  assumes "req_inv s" and "rs_rx s sftp = Some r" and "rs_table t = rs_table s" and "rs_rx t = (rs_rx s)(sftp := None) \<or> rs_rx t = rs_rx s"
    and "rs_phase t = rs_phase s" and "\<And>j. j \<noteq> r \<Longrightarrow> req t j = req s j" and "rq_id (req t r) = rq_id (req s r)"
    and "rq_status (req s r) AND SFTP_REQUEST_STATUS_FINISH \<noteq> 0 \<Longrightarrow> rq_status (req t r) AND SFTP_REQUEST_STATUS_FINISH \<noteq> 0"
  shows "req_inv t"
proof -
  have "held s r" using assms(2) by (auto simp: held_def)
  then have u: "\<not> listed s r" "rs_phase s r \<noteq> Unsent" using req_okD [OF assms(1), of r] by auto
  have l: "listed t = listed s" using assms(3) by (simp add: listed_def fun_eq_iff)
  have "rq_id (req t j) = rq_id (req s j)" for j using assms(6,7) by (cases "j = r") simp_all
  then have "table_ok t" using assms(1,3) by (simp add: req_inv_def table_ok_def)
  moreover have "only r s t" using assms(4-6) l by (auto simp: only_def held_def split: if_splits)
  moreover have "req_ok t r" using u l assms(5,8) req_okD(3) [OF assms(1)] by (simp add: req_ok_def)
  ultimately show ?thesis by (intro req_invI [OF assms(1)])
qed

lemma request_start_inv: "req_start s \<Longrightarrow> req_inv s"
  by (simp add: req_start_def req_inv_def table_ok_def init_sftp_sendhash_def SFTP_SENDHASH_TABLE_SIZE_DEFAULT_def req_ok_def
      listed_nth held_def init_sftp_request_def)

lemma req_step_inv:
  assumes "clean_step s s'" and "req_inv s"
  shows "req_inv s'"
  using assms(1) [unfolded clean_step_def, THEN conjunct1]
proof cases
  case (step_init r v)
  then have "rs_phase s r = Unsent \<or> \<not> held s r"
    using assms(1) by (auto simp: clean_step_def reuses_held_def set_phase_def upd_req_def)
  then show ?thesis using step_init request_init_inv [OF assms(2)] by simp
next
  case (step_send r sftp i t sent v)
  then show ?thesis using send_inv [OF assms(2)] by simp
next
  case (step_check r sftp interrupted closed)
  then show ?thesis using check_inv [OF assms(2)] by simp
next
  case (step_result r result)
  then show ?thesis using result_inv [OF assms(2)] by simp
next
  case (step_leave r reason)
  then show ?thesis using leave_inv [OF assms(2)] by simp
next
  case (step_removed r result)
  then show ?thesis using removed_inv [OF assms(2)] by simp
next
  case (step_lookup sftp i p t)
  then show ?thesis using lookup_inv [OF assms(2)] by simp
next
  case (step_mark sftp r)
  then show ?thesis
    by (intro signal_inv [OF assms(2), of sftp r]) (simp_all add: mark_response_def req_simps mark_finish)
next
  case (step_fill sftp r reply)
  then show ?thesis by (intro signal_inv [OF assms(2), of sftp r]) (auto simp: req_simps)
next
  case (step_received sftp r v t)
  then show ?thesis
    by (intro signal_inv [OF assms(2), of sftp r]) (auto simp: signal_sftp_received_id_def req_simps split: if_splits)
next
  case (step_error sftp r)
  then show ?thesis
    by (intro signal_inv [OF assms(2), of sftp r]) (auto simp: signal_sftp_received_id_error_def req_simps)
next
  case (step_signal sg)
  then show ?thesis using assms(2) by (simp add: req_inv_def table_ok_def req_ok_def listed_def held_def)
qed (use begin_inv [OF assms(2)] blocked_inv [OF assms(2)] in simp_all)

lemma req_runs_inv: "clean_step\<^sup>*\<^sup>* s s' \<Longrightarrow> req_inv s \<Longrightarrow> req_inv s'"
  by (induction rule: rtranclp_induct) (auto intro: req_step_inv)

section \<open>What the table promises\<close>

text \<open>
  C17: no dangling pointers in the table of requests: in every state that the waiting and receiving threads reach, in any interleaving in which the
  memory of a request is not used for another one while a receiving thread still holds its address, a
  request whose call of \<open>wait_sftp_response\<close> has returned is in no row of the table, and the call returned 1 only for a request that is
  finished. Requests live on the stack of the caller, so a request left in the table would be memory that is gone. The condition is one
  that the code does not ensure: a wait that times out returns while a receiving thread holds the request, and if the memory is then used again
  the second wait can return with the request in the table, as lemmas below show.
\<close>

theorem wait_returns_unlisted:
  assumes "req_start s" and "clean_step\<^sup>*\<^sup>* s s'" and "rs_phase s' r = Returned v"
  shows "(\<forall>row \<in> set (rs_table s'). r \<notin> set row) \<and>
    (v = 1 \<longrightarrow> rq_status (req s' r) AND SFTP_REQUEST_STATUS_FINISH \<noteq> 0)"
proof -
  have "req_inv s'" using assms(1,2) by (auto intro: req_runs_inv request_start_inv)
  then show ?thesis using req_okD(3,4) [of s' r] assms(3) by (auto simp: listed_def)
qed

lemma sendhash_facts:
  "length init_sftp_sendhash = 64" "i < 64 \<Longrightarrow> init_sftp_sendhash ! i = []"
  "\<not> (\<exists>row \<in> set init_sftp_sendhash. r \<in> set row)" "request_hash 0 = 0"
proof -
  show l: "length init_sftp_sendhash = 64" by (simp add: init_sftp_sendhash_def SFTP_SENDHASH_TABLE_SIZE_DEFAULT_def)
  show "i < 64 \<Longrightarrow> init_sftp_sendhash ! i = []" using l by (simp add: init_sftp_sendhash_def)
  show "\<not> (\<exists>row \<in> set init_sftp_sendhash. r \<in> set row)"
    unfolding init_sftp_sendhash_def by (metis in_set_replicate empty_iff empty_set)
  show "request_hash 0 = 0" by (simp add: request_hash_def)
qed

definition requests_0 :: req_state where
  "requests_0 = \<lparr>rs_reqs = (\<lambda>r. init_sftp_request), rs_table = init_sftp_sendhash,
     rs_signal = (\<lambda>c. \<lparr>sg_flags = 0, sg_seq = 0, sg_seqset = SYSTEM_TIME_INIT, sg_seqtype = 0\<rparr>), rs_next_id = (\<lambda>c. 0),
     rs_phase = (\<lambda>r. Unsent), rs_rx = (\<lambda>c. None), rs_marked = (\<lambda>c. False)\<rparr>"

lemma requests_0_start: "req_start requests_0"
  by (simp add: req_start_def requests_0_def)

lemma wait_begin_facts:
  assumes "table_ok s" and "\<not> listed s r" and "system_time_add_time (get_current_time_system_time clock) timeout = Some e"
  shows "\<exists>t. wait_begin clock timeout r s = Some t \<and> rs_phase t = (rs_phase s)(r := Waiting) \<and> rs_rx t = rs_rx s \<and>
    rs_next_id t = rs_next_id s \<and> rq_id (req t r) = rq_id (req s r) \<and>
    rs_table t ! request_hash (rq_id (req s r)) = rs_table s ! request_hash (rq_id (req s r)) @ [r]"
proof -
  have "request_hash (rq_id (req s r)) < length (rs_table s)" using assms(1) request_hash_less by (simp add: table_ok_def)
  then show ?thesis
    using assms(2,3) by (simp add: wait_begin_def add_request_hashtable_def Let_def upd_req_def set_phase_def listed_def)
qed

text \<open>The first request of the first client has been sent and waits.\<close>

definition requests_1 :: req_state where
  "requests_1 = the (wait_begin SYSTEM_TIME_INIT SYSTEM_TIME_INIT 0 requests_0)"

lemma requests_0_facts: "table_ok requests_0" "\<not> listed requests_0 r" "rq_id (req requests_0 r) = 0"
  using request_start_inv [OF requests_0_start] sendhash_facts by (simp_all add: req_inv_def requests_0_def listed_def init_sftp_request_def)

text \<open>A step after which the requests that had returned still have reuses nothing.\<close>

lemma clean_stepI:
  assumes "req_step s s'" and "\<And>r v. rs_phase s r = Returned v \<Longrightarrow> rs_phase s' r = Returned v"
  shows "clean_step s s'"
  using assms by (auto simp: clean_step_def reuses_held_def)

lemma clean_steps_req_steps: "clean_step\<^sup>*\<^sup>* s s' \<Longrightarrow> req_step\<^sup>*\<^sup>* s s'"
  by (erule rtranclp_mono [THEN predicate2D, rotated]) (auto simp: clean_step_def)

lemma requests_1_facts:
  "clean_step\<^sup>*\<^sup>* requests_0 requests_1" "rs_phase requests_1 0 = Waiting" "rs_table requests_1 ! request_hash 0 = [0]"
  "rq_id (req requests_1 0) = 0" "rs_rx requests_1 c = None" "rs_next_id requests_1 c = 0"
proof -
  have e: "system_time_add_time (get_current_time_system_time SYSTEM_TIME_INIT) SYSTEM_TIME_INIT = Some SYSTEM_TIME_INIT"
    by (simp add: system_time_add_time_def get_current_time_system_time_def SYSTEM_TIME_INIT_def SYSTEM_TIME_NSEC_MAX_def int64_def)
  obtain t where t: "wait_begin SYSTEM_TIME_INIT SYSTEM_TIME_INIT 0 requests_0 = Some t" "rs_phase t = (rs_phase requests_0)(0 := Waiting)"
      "rs_rx t = rs_rx requests_0" "rs_next_id t = rs_next_id requests_0" "rq_id (req t 0) = 0"
      "rs_table t ! request_hash 0 = rs_table requests_0 ! request_hash 0 @ [0]"
    using wait_begin_facts [OF requests_0_facts(1,2) e, of 0] requests_0_facts(3) by auto
  have "clean_step requests_0 t" by (rule clean_stepI, rule step_begin [OF _ t(1)]) (simp_all add: requests_0_def)
  then show "clean_step\<^sup>*\<^sup>* requests_0 requests_1" "rs_phase requests_1 0 = Waiting" "rs_table requests_1 ! request_hash 0 = [0]"
    "rq_id (req requests_1 0) = 0" "rs_rx requests_1 c = None" "rs_next_id requests_1 c = 0"
    using t sendhash_facts(2,4) by (simp_all add: requests_1_def requests_0_def)
qed

theorem wait_returns_unlisted_witness:
  "\<exists>s. rs_phase s 0 = Returned 0 \<and> rp_error (rq_reply (req s 0)) = ETIMEDOUT \<and> (\<forall>row \<in> set (rs_table s). 0 \<notin> set row)"
proof -
  let ?s1 = "wait_result ETIMEDOUT 0 requests_1"
  let ?s2 = "wait_leave (Leave_result ETIMEDOUT) 0 ?s1"
  let ?s3 = "wait_removed ETIMEDOUT 0 ?s2"
  have "clean_step requests_1 ?s1"
    by (rule clean_stepI, rule step_result [OF requests_1_facts(2)]) (auto simp: wait_result_def set_phase_def requests_1_facts(2))
  moreover have "clean_step ?s1 ?s2"
    by (rule clean_stepI, rule step_leave) (auto simp: wait_result_def set_phase_def ETIMEDOUT_def remove_request_hashtable_def split: if_splits)
  moreover have "clean_step ?s2 ?s3"
    by (rule clean_stepI, rule step_removed) (auto simp: wait_removed_def req_simps)
  ultimately have "clean_step\<^sup>*\<^sup>* requests_0 ?s3" using requests_1_facts(1) by (meson rtranclp.rtrancl_into_rtrancl)
  moreover have "rs_phase ?s3 0 = Returned 0 \<and> rp_error (rq_reply (req ?s3 0)) = ETIMEDOUT"
    by (simp add: wait_removed_def req_simps)
  ultimately show ?thesis using wait_returns_unlisted [OF requests_0_start, of ?s3 0 0] by blast
qed

text \<open>
  C18: the table connects a reply to its request: a request that is entered in a consistent table where no pending request has its id is the one
  that a lookup of the id finds, the lookup leaves the pending requests as they were before, and a second reply with the id finds nothing.
\<close>

theorem request_table_round_trip:
  assumes "table_ok s" and "\<not> listed s r" and "\<forall>j. listed s j \<longrightarrow> rq_id (req s j) \<noteq> rq_id (req s r)"
  shows "\<exists>t u. add_request_hashtable r s = Some t \<and>
    lookup_request_hashtable sftp (rq_id (req s r)) t = (Some r, u) \<and> (\<forall>j. listed u j \<longleftrightarrow> listed s j) \<and>
    lookup_request_hashtable sftp (rq_id (req s r)) u = (None, u)"
  using rt.enter_takeout [of s r] assms by (simp add: set_eq_iff)

theorem request_table_round_trip_witness:
  "table_ok requests_0 \<and> (\<exists>t u. add_request_hashtable 5 requests_0 = Some t \<and> lookup_request_hashtable 0 0 t = (Some 5, u) \<and>
     lookup_request_hashtable 0 0 u = (None, u))"
proof -
  have "\<exists>t u. add_request_hashtable 5 requests_0 = Some t \<and> lookup_request_hashtable 0 0 t = (Some 5, u) \<and>
      (\<forall>j. listed u j \<longleftrightarrow> listed requests_0 j) \<and> lookup_request_hashtable 0 0 u = (None, u)"
    using request_table_round_trip [of requests_0 5 0] requests_0_facts by simp
  then show ?thesis using requests_0_facts(1) by blast
qed

section \<open>Where the waiting is not safe\<close>

text \<open>
  A request that times out returns while the receiving thread holds it: only the interrupted path looks at \<open>RESPONSE\<close>. The receiver then writes the
  reply to memory that may be gone.
\<close>

text \<open>The receiver has found the request 0 and written its status when the wait for it times out.\<close>

definition requests_held :: req_state where
  "requests_held = (let t = remove_request_hashtable 0 requests_1;
     t = t\<lparr>rs_rx := (rs_rx t)(0 := Some 0), rs_marked := (rs_marked t)(0 := False)\<rparr>;
     t = (mark_response 0 t)\<lparr>rs_marked := (rs_marked t)(0 := True)\<rparr> in
     wait_removed ETIMEDOUT 0 (wait_leave (Leave_result ETIMEDOUT) 0 (wait_result ETIMEDOUT 0 t)))"

lemma requests_held_facts:
  "req_step\<^sup>*\<^sup>* requests_0 requests_held" "rs_phase requests_held 0 = Returned 0" "rs_rx requests_held 0 = Some 0" "rs_marked requests_held 0"
  "rs_table requests_held = rs_table (remove_request_hashtable 0 (remove_request_hashtable 0 requests_1))"
proof -
  let ?a = "remove_request_hashtable 0 requests_1"
  let ?b = "?a\<lparr>rs_rx := (rs_rx ?a)(0 := Some 0), rs_marked := (rs_marked ?a)(0 := False)\<rparr>"
  let ?c = "(mark_response 0 ?b)\<lparr>rs_marked := (rs_marked ?b)(0 := True)\<rparr>"
  let ?d = "wait_result ETIMEDOUT 0 ?c"
  let ?e = "wait_leave (Leave_result ETIMEDOUT) 0 ?d"
  have l: "lookup_request_hashtable 0 0 requests_1 = (Some 0, ?a)"
    by (simp add: lookup_request_hashtable_def requests_1_facts)
  have p: "rs_phase ?c 0 = Waiting" by (simp add: mark_response_def req_simps remove_request_hashtable_def requests_1_facts)
  have d: "rs_phase ?d 0 = Leaving (Leave_result ETIMEDOUT)" by (simp add: wait_result_def set_phase_def ETIMEDOUT_def)
  have e: "rs_phase ?e 0 = Removed ETIMEDOUT" by (simp add: set_phase_def)
  have "req_step requests_1 ?b" by (rule step_lookup [OF requests_1_facts(5) l])
  moreover have "req_step ?b ?c" by (rule step_mark) simp_all
  moreover have "req_step ?c ?d" by (rule step_result [OF p])
  moreover have "req_step ?d ?e" by (rule step_leave [OF d])
  moreover have "req_step ?e (wait_removed ETIMEDOUT 0 ?e)" by (rule step_removed [OF e])
  ultimately show "req_step\<^sup>*\<^sup>* requests_0 requests_held"
    unfolding requests_held_def Let_def using clean_steps_req_steps [OF requests_1_facts(1)] by (meson rtranclp.rtrancl_into_rtrancl)
  show "rs_phase requests_held 0 = Returned 0" "rs_rx requests_held 0 = Some 0" "rs_marked requests_held 0"
    "rs_table requests_held = rs_table (remove_request_hashtable 0 (remove_request_hashtable 0 requests_1))"
    by (simp_all add: requests_held_def Let_def wait_removed_def wait_result_def mark_response_def req_simps remove_request_hashtable_def
        ETIMEDOUT_def)
qed

lemma returned_while_held:
  "\<exists>s. req_step\<^sup>*\<^sup>* requests_0 s \<and> rs_phase s 0 = Returned 0 \<and> rs_rx s 0 = Some 0"
  using requests_held_facts by blast

text \<open>
  If the caller uses that memory for its next request, the receiver signals the second one in place of the first: that wait returns 0 and leaves its
  request in the table.
\<close>

lemma reused_while_held:
  "\<exists>s. req_step\<^sup>*\<^sup>* requests_0 s \<and> rs_phase s 0 = Returned 0 \<and> listed s 0"
proof -
  let ?a = "set_phase 0 Unsent (upd_req 0 (\<lambda>_. init_sftp_request) requests_held)"
  have e: "system_time_add_time (get_current_time_system_time SYSTEM_TIME_INIT) SYSTEM_TIME_INIT = Some SYSTEM_TIME_INIT"
    by (simp add: system_time_add_time_def get_current_time_system_time_def SYSTEM_TIME_INIT_def SYSTEM_TIME_NSEC_MAX_def int64_def)
  have a: "req_step requests_held ?a" by (rule step_init [of _ _ 0]) (simp add: requests_held_facts)
  have ok: "table_ok requests_1"
    using req_runs_inv [OF requests_1_facts(1) request_start_inv [OF requests_0_start]] by (simp add: req_inv_def)
  have ok': "table_ok (remove_request_hashtable 0 (remove_request_hashtable 0 requests_1))" by (intro table_ok_remove ok)
  have nl: "\<not> listed ?a 0"
    using listed_remove [OF table_ok_remove [OF ok], of 0 0 0] requests_held_facts(5) by (simp add: listed_def set_phase_def upd_req_def)
  have len: "request_hash 0 < length (rs_table ?a)"
    using ok' request_hash_less requests_held_facts(5) by (simp add: table_ok_def set_phase_def upd_req_def)
  obtain t where t: "wait_begin SYSTEM_TIME_INIT SYSTEM_TIME_INIT 0 ?a = Some t" "rs_phase t 0 = Waiting" "rs_rx t 0 = Some 0"
      "rs_marked t 0" "rq_status (req t 0) = SFTP_REQUEST_STATUS_WAITING" "0 \<in> set (rs_table t ! request_hash 0)"
      "length (rs_table t) = length (rs_table ?a)"
    using nl len e requests_held_facts
    by (simp add: wait_begin_def add_request_hashtable_def Let_def upd_req_def set_phase_def listed_def init_sftp_request_def)
  let ?b = "(signal_sftp_received_id_error 0 t)\<lparr>rs_rx := (rs_rx t)(0 := None)\<rparr>"
  let ?c = "wait_check 0 False False 0 ?b"
  have b: "req_step ?a t" by (rule step_begin [OF _ t(1)]) (simp add: set_phase_def)
  have c: "req_step t ?b" by (rule step_error [OF t(3,4)])
  have d: "req_step ?b ?c" by (rule step_check) (simp add: signal_sftp_received_id_error_def req_simps t(2))
  have "rs_phase ?c 0 = Returned 0 \<and> rs_table ?c = rs_table t"
    using t(5) by (simp add: wait_check_def break_request_sftp_client_def signal_sftp_received_id_error_def req_simps Let_def status_defs)
  then have "rs_phase ?c 0 = Returned 0 \<and> listed ?c 0" using t(6,7) len by (auto simp: listed_def)
  then show ?thesis using requests_held_facts(1) a b c d by (meson rtranclp.rtrancl_into_rtrancl)
qed

text \<open>A request is sent before it is in the table; a reply that comes in between finds nothing and is dropped.\<close>

lemma reply_before_wait_lost:
  assumes "rs_phase s r = Unsent" and "req_inv s"
  shows "fst (get_sftp_request sftp i s) \<noteq> Some r"
proof -
  have "table_ok s" using assms(2) by (simp add: req_inv_def)
  then show ?thesis
    using req_okD(2) [OF assms(2,1)] by (cases rule: lookup_cases [of s i sftp]) auto
qed

text \<open>There is one table for all clients and the ids count per client: a reply to client 1 completes the request of client 0.\<close>

lemma reply_crosses_clients: "fst (get_sftp_request 1 (fst (get_sftp_request_id 1 requests_1)) requests_1) = Some 0"
  by (simp add: get_sftp_request_def get_sftp_request_id_def lookup_request_hashtable_def requests_1_facts)

end
