(* ===== verification/Sftp_Send.thy ===== *)
theory Sftp_Send
  imports Sftp_Msg Sftp_Request
begin

text \<open>
  The requests that the SFTP client sends: \<open>src/sftp/send/send-v03.c\<close> up to \<open>send-v06.c\<close> and \<open>send.c\<close>.

  A function that sends a request takes an id, builds the message in an array on the stack and hands it to the send function of the request. The
  members of the union \<open>call\<close> are arguments here: a pointer is a memory object, with its length in bytes beside it. The bytes that reach the
  connection are part of the result; \<open>conn\<close> is what the connection returns for them.
\<close>

section \<open>Constants\<close>

definition SSH_FXP_INIT :: u8 where "SSH_FXP_INIT = 1"
definition SSH_FXP_OPEN :: u8 where "SSH_FXP_OPEN = 3"
definition SSH_FXP_CLOSE :: u8 where "SSH_FXP_CLOSE = 4"
definition SSH_FXP_READ :: u8 where "SSH_FXP_READ = 5"
definition SSH_FXP_WRITE :: u8 where "SSH_FXP_WRITE = 6"
definition SSH_FXP_LSTAT :: u8 where "SSH_FXP_LSTAT = 7"
definition SSH_FXP_FSTAT :: u8 where "SSH_FXP_FSTAT = 8"
definition SSH_FXP_SETSTAT :: u8 where "SSH_FXP_SETSTAT = 9"
definition SSH_FXP_FSETSTAT :: u8 where "SSH_FXP_FSETSTAT = 10"
definition SSH_FXP_OPENDIR :: u8 where "SSH_FXP_OPENDIR = 11"
definition SSH_FXP_READDIR :: u8 where "SSH_FXP_READDIR = 12"
definition SSH_FXP_REMOVE :: u8 where "SSH_FXP_REMOVE = 13"
definition SSH_FXP_MKDIR :: u8 where "SSH_FXP_MKDIR = 14"
definition SSH_FXP_RMDIR :: u8 where "SSH_FXP_RMDIR = 15"
definition SSH_FXP_REALPATH :: u8 where "SSH_FXP_REALPATH = 16"
definition SSH_FXP_STAT :: u8 where "SSH_FXP_STAT = 17"
definition SSH_FXP_RENAME :: u8 where "SSH_FXP_RENAME = 18"
definition SSH_FXP_READLINK :: u8 where "SSH_FXP_READLINK = 19"
definition SSH_FXP_SYMLINK :: u8 where "SSH_FXP_SYMLINK = 20"
definition SSH_FXP_LINK :: u8 where "SSH_FXP_LINK = 21"
definition SSH_FXP_BLOCK :: u8 where "SSH_FXP_BLOCK = 22"
definition SSH_FXP_UNBLOCK :: u8 where "SSH_FXP_UNBLOCK = 23"
definition SSH_FILEXFER_TYPE_REGULAR :: u8 where "SSH_FILEXFER_TYPE_REGULAR = 1"

text \<open>The flags of \<open>open\<close>, \<open>rename\<close> and \<open>flock\<close> of the system.\<close>

definition O_WRONLY :: u32 where "O_WRONLY = 1"
definition O_RDWR :: u32 where "O_RDWR = 2"
definition O_CREAT :: u32 where "O_CREAT = 64"
definition O_EXCL :: u32 where "O_EXCL = 128"
definition O_TRUNC :: u32 where "O_TRUNC = 512"
definition O_APPEND :: u32 where "O_APPEND = 1024"
definition RENAME_NOREPLACE :: u32 where "RENAME_NOREPLACE = 1"
definition LOCK_SH :: u32 where "LOCK_SH = 1"
definition LOCK_EX :: u32 where "LOCK_EX = 2"

record sftp_openmode_s =
  om_access :: u32
  om_flags :: u32

definition or_flags :: "u32 \<Rightarrow> sftp_openmode_s \<Rightarrow> sftp_openmode_s" where
  "or_flags f om = om\<lparr>om_flags := om_flags om OR f\<rparr>"

definition or_access :: "u32 \<Rightarrow> sftp_openmode_s \<Rightarrow> sftp_openmode_s" where
  "or_access f om = om\<lparr>om_access := om_access om OR f\<rparr>"

text \<open>\<open>SSH_FXF_READ\<close>, \<open>WRITE\<close>, \<open>APPEND\<close>, \<open>CREAT\<close>, \<open>TRUNC\<close> and \<open>EXCL\<close> are the bits 1, 2, 4, 8, 16 and 32.\<close>

definition get_sftp_openmode_v03 :: "u32 \<Rightarrow> sftp_openmode_s \<Rightarrow> sftp_openmode_s" where
  "get_sftp_openmode_v03 posix_flags om =
     (let om = (if posix_flags AND O_WRONLY \<noteq> 0 then or_flags 2 om
                else if posix_flags AND O_RDWR \<noteq> 0 then or_flags (2 OR 1) om else or_flags 1 om);
          om = (if posix_flags AND O_APPEND \<noteq> 0 then or_flags 4 om else om)
      in if posix_flags AND O_CREAT \<noteq> 0
         then (let om = or_flags 8 om in
               if posix_flags AND O_EXCL \<noteq> 0 then or_flags 32 om
               else if posix_flags AND O_TRUNC \<noteq> 0 then or_flags 16 om else om)
         else om)"

text \<open>
  From version 5: the access bits \<open>ACE4_READ_DATA\<close> 1, \<open>WRITE_DATA\<close> 2, \<open>APPEND_DATA\<close> 4, \<open>READ_ATTRIBUTES\<close> 0x80 and
  \<open>WRITE_ATTRIBUTES\<close> 0x100; the dispositions \<open>CREATE_NEW\<close> 0, \<open>CREATE_TRUNCATE\<close> 1, \<open>OPEN_EXISTING\<close> 2, \<open>OPEN_OR_CREATE\<close> 3,
  \<open>TRUNCATE_EXISTING\<close> 4, and \<open>APPEND_DATA_ATOMIC\<close> 0x10.
\<close>

definition get_sftp_openmode :: "u32 \<Rightarrow> sftp_openmode_s \<Rightarrow> sftp_openmode_s" where
  "get_sftp_openmode posix_flags om =
     (let om = (if posix_flags AND O_RDWR \<noteq> 0 then or_access (1 OR 0x80 OR 2 OR 0x100) om
                else if posix_flags AND O_WRONLY \<noteq> 0 then or_access (2 OR 0x100) om else or_access (1 OR 0x80) om);
          om = (if posix_flags AND O_APPEND \<noteq> 0 then or_flags 0x10 (or_access (2 OR 0x100 OR 4) om) else om)
      in if posix_flags AND O_CREAT \<noteq> 0 \<and> posix_flags AND O_TRUNC \<noteq> 0 then or_flags 1 om
         else if posix_flags AND O_CREAT \<noteq> 0 then or_flags (if posix_flags AND O_EXCL \<noteq> 0 then 0 else 3) om
         else if posix_flags AND O_TRUNC \<noteq> 0 then or_flags 4 om
         else or_flags 2 om)"


section \<open>Sending\<close>

type_synonym send_fn = "nat \<Rightarrow> nat \<Rightarrow> (u8 list \<Rightarrow> int) \<Rightarrow> req_state \<Rightarrow> (u8 list option \<times> int \<times> req_state) option"

definition send_request :: "nat \<Rightarrow> (u32 \<Rightarrow> wr list) \<Rightarrow> send_fn" where
  "send_request n ws sftp r conn s = do {
     let (i, s) = get_sftp_request_id sftp s;
     let s = upd_req r (\<lambda>x. x\<lparr>rq_id := i\<rparr>) s;
     bs \<leftarrow> build n (ws i);
     let (v, s) = call_send (rq_send (req s r)) (conn bs) r s;
     Some (if rq_send (req s r) = Send_default then Some bs else None, v, s) }"


section \<open>Version 3\<close>


definition send_sftp_open_v03 :: "mem \<Rightarrow> u32 \<Rightarrow> u32 \<Rightarrow> u32 \<Rightarrow> mem \<Rightarrow> send_fn" where
  "send_sftp_open_v03 path len posix_flags siz buff =
     (let om = get_sftp_openmode_v03 posix_flags \<lparr>om_access = 0, om_flags = 0\<rparr> in
      send_request (unat (17 + len + siz + 5)) (\<lambda>i.
        [W32 0, WByte SSH_FXP_OPEN, W32 i, W32 len, WMem path (ucast len), W32 (om_flags om)] @
        (if siz > 0 then [WMem buff (ucast siz)] else [W32 0, WByte SSH_FILEXFER_TYPE_REGULAR]) @ [WLen]))"




















definition send_sftp_custom_v03 :: "u8 \<Rightarrow> u32 \<Rightarrow> mem \<Rightarrow> send_fn" where
  "send_sftp_custom_v03 nr siz data = send_request (unat (9 + siz)) (\<lambda>i.
     [W32 (9 + siz), WByte nr, W32 i, WMem data (ucast siz)])"

section \<open>Version 4\<close>







section \<open>Version 5\<close>



section \<open>Version 6\<close>





section \<open>The tables\<close>

text \<open>The member of the union \<open>call\<close> that is set; the tables choose a function for each.\<close>

datatype sftp_call =
    Call_init u32
  | Call_open mem u32 u32 u32 mem
  | Call_read mem u32 u64 u64
  | Call_write mem u32 u64 u64 mem
  | Call_close mem u32
  | Call_stat mem u32
  | Call_lstat mem u32
  | Call_fstat mem u32
  | Call_setstat mem u32 u32 mem
  | Call_fsetstat mem u32 u32 mem
  | Call_realpath mem u32
  | Call_readlink mem u32
  | Call_opendir mem u32
  | Call_readdir mem u32
  | Call_remove mem u32
  | Call_rmdir mem u32
  | Call_mkdir mem u32 u32 mem
  | Call_rename mem u32 mem u32 u32
  | Call_symlink mem u32 mem u32
  | Call_block mem u32 u64 u64 u32
  | Call_unblock mem u32 u64 u64
  | Call_extension mem u32 u32 mem
  | Call_custom u8 u32 mem






section \<open>The messages of the protocol\<close>

text \<open>
  The type and the fields after the id, as the drafts of the protocol and the comments in the source give them: strings with
  their length in front, numbers in network byte order. \<open>version\<close> is 3 to 6, \<open>valid\<close> the attributes of interest.
\<close>

definition sstr :: "mem \<Rightarrow> u32 \<Rightarrow> u8 list" where
  "sstr m len = be32 len @ take (unat len) m"

text \<open>
  Attributes that are not given: no valid attribute, and from version 4 on the type of the file.
\<close>

definition open_attrs :: "nat \<Rightarrow> u32 \<Rightarrow> mem \<Rightarrow> u8 list" where
  "open_attrs version siz buff =
     (if siz > 0 then take (unat siz) buff else be32 0 @ (if version < 4 then [] else [SSH_FILEXFER_TYPE_REGULAR]))"

text \<open>
  What the flags of \<open>open\<close> mean: the two lowest bits are the access mode, 0 to read, 1 to write, 2 to do both, 3 is not used; a file is only
  created exclusively or truncated with the flags for it. In the versions 3 and 4 these are bits of one field, where truncating is possible
  together with creating only; from version 5 on there is a mask of the access that is wanted and a number for what happens to a
  file that is or is not there.
\<close>

definition has :: "u32 \<Rightarrow> u32 \<Rightarrow> bool" where
  "has p f \<longleftrightarrow> p AND f \<noteq> 0"

definition reads :: "u32 \<Rightarrow> bool" where
  "reads p \<longleftrightarrow> p AND 3 \<in> {0, 2}"

definition writes :: "u32 \<Rightarrow> bool" where
  "writes p \<longleftrightarrow> p AND 3 \<in> {1, 2}"

definition flags_of :: "(bool \<times> u32) list \<Rightarrow> u32" where
  "flags_of xs = foldr (\<lambda>(b, f) m. if b then f OR m else m) xs 0"

definition pflags :: "u32 \<Rightarrow> u32" where
  "pflags p = flags_of [(reads p, 1), (writes p, 2), (has p O_APPEND, 4), (has p O_CREAT, 8),
     (has p O_CREAT \<and> has p O_TRUNC \<and> \<not> has p O_EXCL, 16), (has p O_CREAT \<and> has p O_EXCL, 32)]"

definition desired_access :: "u32 \<Rightarrow> u32" where
  "desired_access p = flags_of [(reads p, 0x1), (reads p, 0x80), (writes p \<or> has p O_APPEND, 0x2), (writes p \<or> has p O_APPEND, 0x100),
     (has p O_APPEND, 0x4)]"

definition disposition :: "u32 \<Rightarrow> u32" where
  "disposition p = (case (has p O_CREAT, has p O_EXCL, has p O_TRUNC) of
     (True, True, _) \<Rightarrow> 0 | (True, False, True) \<Rightarrow> 1 | (True, False, False) \<Rightarrow> 3
   | (False, _, True) \<Rightarrow> 4 | (False, _, False) \<Rightarrow> 2)"

definition open_fields :: "nat \<Rightarrow> u32 \<Rightarrow> u8 list" where
  "open_fields version p =
     (if version < 5 then be32 (pflags p)
      else be32 (desired_access p) @ be32 (disposition p OR (if has p O_APPEND then 0x10 else 0)))"

text \<open>A lock is advisory; a shared one keeps writers and deleting out, an exclusive one readers.\<close>

definition lock_mask :: "u32 \<Rightarrow> u32" where
  "lock_mask typ = flags_of [(True, 0x200), (has typ LOCK_SH, 0x80), (has typ LOCK_SH, 0x100), (has typ LOCK_EX \<and> \<not> has typ LOCK_SH, 0x40)]"

definition openmode_0 :: sftp_openmode_s where
  "openmode_0 = \<lparr>om_access = 0, om_flags = 0\<rparr>"

fun request_body :: "nat \<Rightarrow> u32 \<Rightarrow> sftp_call \<Rightarrow> u8 \<times> u8 list" where
  "request_body version valid (Call_open path len posix_flags siz buff) = (SSH_FXP_OPEN, sstr path len @ open_fields version posix_flags @ open_attrs version siz buff)"
| "request_body version valid (Call_read handle len offset siz) = (SSH_FXP_READ, sstr handle len @ be64 offset @ be32 (ucast siz))"
| "request_body version valid (Call_write handle len offset siz data) =
     (SSH_FXP_WRITE, sstr handle len @ be64 offset @ be32 (ucast siz) @ take (unat siz) data)"
| "request_body version valid (Call_close handle len) = (SSH_FXP_CLOSE, sstr handle len)"
| "request_body version valid (Call_stat path len) = (SSH_FXP_STAT, sstr path len @ (if version < 4 then [] else be32 valid))"
| "request_body version valid (Call_lstat path len) = (SSH_FXP_LSTAT, sstr path len @ (if version < 4 then [] else be32 valid))"
| "request_body version valid (Call_fstat handle len) = (SSH_FXP_FSTAT, sstr handle len @ (if version < 4 then [] else be32 valid))"
| "request_body version valid (Call_setstat path len siz buff) = (SSH_FXP_SETSTAT, sstr path len @ take (unat siz) buff)"
| "request_body version valid (Call_fsetstat handle len siz buff) = (SSH_FXP_FSETSTAT, sstr handle len @ take (unat siz) buff)"
| "request_body version valid (Call_realpath path len) = (SSH_FXP_REALPATH, sstr path len @ (if version < 6 then [] else [3]))"
| "request_body version valid (Call_readlink path len) = (SSH_FXP_READLINK, sstr path len)"
| "request_body version valid (Call_opendir path len) = (SSH_FXP_OPENDIR, sstr path len)"
| "request_body version valid (Call_readdir handle len) = (SSH_FXP_READDIR, sstr handle len)"
| "request_body version valid (Call_remove path len) = (SSH_FXP_REMOVE, sstr path len)"
| "request_body version valid (Call_rmdir path len) = (SSH_FXP_RMDIR, sstr path len)"
| "request_body version valid (Call_mkdir path len siz buff) = (SSH_FXP_MKDIR, sstr path len @ take (unat siz) buff)"
| "request_body version valid (Call_rename path len target target_len posix_flags) = (SSH_FXP_RENAME, sstr path len @ sstr target target_len @
     (if version < 5 then [] else be32 (if posix_flags AND RENAME_NOREPLACE = 0 then 5 else 4)))"
| "request_body version valid (Call_symlink path len target target_len) =
     (if version < 6 then (SSH_FXP_SYMLINK, sstr path len @ sstr target target_len)
      else (SSH_FXP_LINK, sstr path len @ sstr target target_len @ [1]))"
| "request_body version valid (Call_block handle len offset siz typ) =
     (SSH_FXP_BLOCK, sstr handle len @ be64 offset @ be64 siz @ be32 (lock_mask typ))"
| "request_body version valid (Call_unblock handle len offset siz) = (SSH_FXP_UNBLOCK, sstr handle len @ be64 offset @ be64 siz)"
| "request_body version valid (Call_extension name len siz data) = (SSH_FXP_EXTENDED, sstr name len @ take (unat siz) data)"
| "request_body version valid (Call_custom nr siz data) = (nr, take (unat siz) data)"
| "request_body version valid (Call_init v) = (SSH_FXP_INIT, be32 v)"






text \<open>What is left after the message is built: the id is noted, and the send function of the request decides.\<close>

definition sends :: "u8 list \<Rightarrow> send_fn" where
  "sends bs sftp r conn s =
     (let s = upd_req r (\<lambda>x. x\<lparr>rq_id := rs_next_id s sftp\<rparr>) (snd (get_sftp_request_id sftp s)) in
      case rq_send (req s r) of
        Send_default \<Rightarrow> Some (Some bs, conn bs, set_status r (\<lambda>st. st OR SFTP_REQUEST_STATUS_SEND) s)
      | Send_blocked \<Rightarrow> Some (None, -1, s))"


lemma send_request_build:
  "build n (ws (rs_next_id s sftp)) = Some bs \<Longrightarrow> send_request n ws sftp r conn s = sends bs sftp r conn s"
  by (simp add: send_request_def sends_def get_sftp_request_id_def Let_def send_sftp_request_data_default_def
      send_sftp_request_data_blocked_def upd_req_def set_status_def split: send_cb.split)


lemma send_frame_len:
  assumes "\<And>i. ws i = W32 0 # vs i @ [WLen]" and "\<forall>w \<in> set (vs (rs_next_id s sftp)). wr_ok w" and "wrs_out (vs (rs_next_id s sftp)) = body"
    and "4 + length body \<le> n" and "n < 2 ^ 32"
  shows "send_request n ws sftp r conn s = sends (frame body) sftp r conn s"
proof (rule send_request_build)
  have "build n ((W32 0 # vs (rs_next_id s sftp)) @ [WLen]) = Some (frame body)"
    using assms(2-5) by (intro build_len_ok [where hdr = "be32 0"]) simp_all
  then show "build n (ws (rs_next_id s sftp)) = Some (frame body)" using assms(1) by simp
qed




text \<open>The flags the code computes are those of the protocol.\<close>

lemma access_cases:
  fixes p :: u32
  assumes "p AND 3 \<noteq> 3"
  obtains "p AND 1 = 0" "p AND 2 = 0" "p AND 3 = 0" | "p AND 1 = 1" "p AND 2 = 0" "p AND 3 = 1" | "p AND 1 = 0" "p AND 2 = 2" "p AND 3 = 2"
proof -
  have "p AND 3 = take_bit 2 p" by (simp add: take_bit_eq_mask mask_eq_exp_minus_1)
  then have "p AND 3 = p mod 4" by (simp add: take_bit_eq_mod)
  then have "unat (p AND 3) < 4" by (simp add: unat_mod)
  then have "unat (p AND 3) = 0 \<or> unat (p AND 3) = 1 \<or> unat (p AND 3) = 2 \<or> unat (p AND 3) = 3" by linarith
  moreover have "p AND 3 = of_nat (unat (p AND 3))" by simp
  ultimately have "p AND 3 = 0 \<or> p AND 3 = 1 \<or> p AND 3 = 2 \<or> p AND 3 = 3" by (elim disjE) simp_all
  moreover have "p AND 1 = (p AND 3) AND 1" "p AND 2 = (p AND 3) AND 2" by (simp_all add: and.assoc)
  ultimately show thesis using assms that by force
qed

lemma openmode_v03_pflags:
  assumes "p AND 3 \<noteq> 3"
  shows "om_flags (get_sftp_openmode_v03 p openmode_0) = pflags p"
  by (cases rule: access_cases [OF assms])
    (simp_all add: get_sftp_openmode_v03_def Let_def or_flags_def openmode_0_def pflags_def flags_of_def has_def reads_def writes_def O_WRONLY_def
      O_RDWR_def O_APPEND_def O_CREAT_def O_EXCL_def O_TRUNC_def)










section \<open>What is sent\<close>






section \<open>Where the messages are wrong\<close>

text \<open>The length of a custom request counts the length field too: four bytes more than there are.\<close>

lemma custom_length_wrong:
  assumes "unat siz \<le> length data" and "unat siz < 2 ^ 31"
  shows "send_sftp_custom_v03 nr siz data sftp r conn s =
    sends (be32 (9 + siz) @ nr # be32 (rs_next_id s sftp) @ take (unat siz) data) sftp r conn s"
  unfolding send_sftp_custom_v03_def
  by (rule send_request_build, subst build_ok) (use assms in \<open>simp_all add: unat_u32_plus\<close>)

text \<open>An exclusive create that also truncates asks the server to create or truncate: an existing file is emptied instead of refused.\<close>

lemma openmode_excl_trunc:
  "om_flags (get_sftp_openmode (O_WRONLY OR O_CREAT OR O_EXCL OR O_TRUNC) openmode_0) = 1"
  "om_flags (get_sftp_openmode (O_WRONLY OR O_CREAT OR O_TRUNC) openmode_0) = 1"
  by (simp_all add: get_sftp_openmode_def Let_def or_flags_def or_access_def openmode_0_def O_WRONLY_def O_CREAT_def O_EXCL_def O_TRUNC_def
      O_RDWR_def O_APPEND_def)

text \<open>An open without attributes in version 3 ends with the byte of a file type, which that version does not have.\<close>

lemma open_v03_extra_byte:
  assumes "unat len \<le> length path" and "unat len < 2 ^ 31" and "p AND 3 \<noteq> 3"
  shows "send_sftp_open_v03 path len p 0 buff sftp r conn s =
    sends (frame (SSH_FXP_OPEN # be32 (rs_next_id s sftp) @ snd (request_body 3 0 (Call_open path len p 0 buff)) @ [SSH_FILEXFER_TYPE_REGULAR]))
      sftp r conn s"
  using assms openmode_v03_pflags [of p]
  by (auto simp: send_sftp_open_v03_def Let_def sstr_def unat_u32_plus open_attrs_def open_fields_def openmode_0_def intro!: send_frame_len)

end
