(* ===== verification/Sftp_Recv.thy ===== *)
theory Sftp_Recv
  imports Sftp_Msg Sftp_Request
begin

text \<open>
  Replies: the functions of the SFTP subsystem that build them, \<open>src/ssh/subsystem/sftp/send.c\<close>, and those of the client that receive
  them, \<open>src/sftp/recv.c\<close> and \<open>src/sftp/recv/recv-v03.c\<close> up to \<open>recv-v06.c\<close>.

  A received message is a memory object with its size; reading or moving bytes outside of the object has no result, \<open>None\<close>.
\<close>

section \<open>Replies of the subsystem\<close>

definition SSH_FXP_VERSION :: u8 where "SSH_FXP_VERSION = 2"
definition SSH_FXP_STATUS :: u8 where "SSH_FXP_STATUS = 101"
definition SSH_FXP_HANDLE :: u8 where "SSH_FXP_HANDLE = 102"
definition SSH_FXP_DATA :: u8 where "SSH_FXP_DATA = 103"
definition SSH_FXP_NAME :: u8 where "SSH_FXP_NAME = 104"
definition SSH_FXP_ATTRS :: u8 where "SSH_FXP_ATTRS = 105"
definition SSH_FXP_EXTENDED_REPLY :: u8 where "SSH_FXP_EXTENDED_REPLY = 201"

text \<open>The bytes that are given to \<open>send_sftp_subsystem\<close>, which writes them to the connection.\<close>

definition reply_sftp_status_simple :: "u32 \<Rightarrow> u32 \<Rightarrow> u8 list option" where
  "reply_sftp_status_simple i status =
     build 21 [WSkip 4, WByte SSH_FXP_STATUS, W32 i, W32 status, W32 0, W32 0, WLen]"

definition reply_sftp_bytes_common :: "u32 \<Rightarrow> u8 \<Rightarrow> mem \<Rightarrow> u32 \<Rightarrow> u8 list option" where
  "reply_sftp_bytes_common i code bytes len =
     build (unat (13 + len)) [WSkip 4, WByte code, W32 i, W32 len, WMem bytes (ucast len), WLen]"

definition reply_sftp_attrs :: "u32 \<Rightarrow> mem \<Rightarrow> u32 \<Rightarrow> u8 list option" where
  "reply_sftp_attrs i attr len =
     build (unat (9 + len)) [WSkip 4, WByte SSH_FXP_ATTRS, W32 i, WMem attr (ucast len), WLen]"

definition reply_sftp_data :: "u32 \<Rightarrow> mem \<Rightarrow> u32 \<Rightarrow> u8 \<Rightarrow> u8 list option" where
  "reply_sftp_data i bytes len eof =
     build (unat (14 + len)) ([WSkip 4, WByte SSH_FXP_DATA, W32 i, W32 len, WMem bytes (ucast len)] @
       (if eof \<noteq> 0 then [WByte 1] else []) @ [WLen])"

definition reply_sftp_handle :: "u32 \<Rightarrow> mem \<Rightarrow> u32 \<Rightarrow> u8 list option" where
  "reply_sftp_handle i handle len = reply_sftp_bytes_common i SSH_FXP_HANDLE handle len"

definition reply_sftp_names :: "u32 \<Rightarrow> u32 \<Rightarrow> mem \<Rightarrow> u32 \<Rightarrow> u8 \<Rightarrow> u8 list option" where
  "reply_sftp_names i count names len eof =
     build (unat (14 + len)) ([WSkip 4, WByte SSH_FXP_NAME, W32 i, W32 count, WMem names (ucast len)] @
       (if eof \<noteq> 0 then [WByte 1] else []) @ [WLen])"

definition reply_sftp_extension :: "u32 \<Rightarrow> mem \<Rightarrow> u32 \<Rightarrow> u8 list option" where
  "reply_sftp_extension i bytes len =
     build (unat (9 + len)) [WSkip 4, WByte SSH_FXP_EXTENDED_REPLY, W32 i, WMem bytes (ucast len), WLen]"

section \<open>The errors of a status\<close>

definition ENOENT :: u32 where "ENOENT = 2"
definition EPERM :: u32 where "EPERM = 1"
definition EWOULDBLOCK :: u32 where "EWOULDBLOCK = 11"
definition EACCES :: u32 where "EACCES = 13"
definition EEXIST :: u32 where "EEXIST = 17"
definition ENODEV :: u32 where "ENODEV = 19"
definition ENOTDIR :: u32 where "ENOTDIR = 20"
definition EISDIR :: u32 where "EISDIR = 21"
definition EINVAL :: u32 where "EINVAL = 22"
definition ENOSPC :: u32 where "ENOSPC = 28"
definition ENOLCK :: u32 where "ENOLCK = 37"
definition ENOTEMPTY :: u32 where "ENOTEMPTY = 39"
definition ELOOP :: u32 where "ELOOP = 40"
definition ENODATA :: u32 where "ENODATA = 61"
definition EBADMSG :: u32 where "EBADMSG = 74"
definition EOPNOTSUPP :: u32 where "EOPNOTSUPP = 95"
definition ESHUTDOWN :: u32 where "ESHUTDOWN = 108"
definition EINPROGRESS :: u32 where "EINPROGRESS = 115"
definition EDQUOT :: u32 where "EDQUOT = 122"

definition linux_error_map_v03 :: "u32 list" where
  "linux_error_map_v03 = [0, ENODATA, ENOENT, EPERM, EIO, EBADMSG, ENOTCONN, ESHUTDOWN, EOPNOTSUPP]"

definition linux_error_map_v04 :: "u32 list" where
  "linux_error_map_v04 = [0, ENODATA, ENOENT, EPERM, EIO, EBADMSG, ENOTCONN, ESHUTDOWN, EOPNOTSUPP, EINVAL, ENOENT, EEXIST, EACCES, ENODEV]"

definition linux_error_map_v05 :: "u32 list" where
  "linux_error_map_v05 = [0, ENODATA, ENOENT, EPERM, EIO, EBADMSG, ENOTCONN, ESHUTDOWN, EOPNOTSUPP, EINVAL, ENOENT, EEXIST, EACCES, ENODEV,
     ENOSPC, EDQUOT, EIO, EWOULDBLOCK]"

definition linux_error_map_v06 :: "u32 list" where
  "linux_error_map_v06 = [0, ENODATA, ENOENT, EPERM, EIO, EBADMSG, ENOTCONN, ESHUTDOWN, EOPNOTSUPP, EINVAL, ENOENT, EEXIST, EACCES, ENODEV,
     ENOSPC, EDQUOT, EIO, EWOULDBLOCK, ENOTEMPTY, ENOTDIR, EINVAL, ELOOP, EPERM, EINVAL, EISDIR, EPERM, EPERM, EINPROGRESS, EIO, EINVAL,
     EINVAL, ENOLCK]"

text \<open>The four functions \<open>map_sftp_error\<close> have the same text, each with the table of its version.\<close>

definition map_sftp_error :: "u32 list \<Rightarrow> u32 \<Rightarrow> u32" where
  "map_sftp_error linux_error_map ssh_fx_error =
     (if unat ssh_fx_error < length linux_error_map then linux_error_map ! unat ssh_fx_error else EIO)"

section \<open>Receiving replies\<close>

record sftp_header_s =
  hd_type :: u8
  hd_id :: u32
  hd_seq :: u32
  hd_len :: u32
  hd_buffer :: mem

type_synonym recv_fn = "nat \<Rightarrow> sftp_header_s \<Rightarrow> req_state \<Rightarrow> req_state option"

definition set_reply :: "nat \<Rightarrow> (sftp_reply_s \<Rightarrow> sftp_reply_s) \<Rightarrow> req_state \<Rightarrow> req_state" where
  "set_reply r f = upd_req r (\<lambda>x. x\<lparr>rq_reply := f (rq_reply x)\<rparr>)"

text \<open>The shape of all handlers: find the request, and do something with it; a reply without a request is dropped.\<close>

definition with_request :: "nat \<Rightarrow> sftp_header_s \<Rightarrow> (nat \<Rightarrow> req_state \<Rightarrow> req_state option) \<Rightarrow> req_state \<Rightarrow> req_state option" where
  "with_request sftp header f s = (case get_sftp_request sftp (hd_id header) s of (Some r, s) \<Rightarrow> f r s | (None, s) \<Rightarrow> Some s)"

definition mem_move :: "mem \<Rightarrow> nat \<Rightarrow> nat \<Rightarrow> mem option" where
  "mem_move buffer pos n = do { bs \<leftarrow> mem_load buffer pos n; mem_store buffer 0 bs }"

definition mem_byte :: "mem \<Rightarrow> nat \<Rightarrow> u8 option" where
  "mem_byte buffer pos = map_option hd (mem_load buffer pos 1)"

definition receive_sftp_status :: "u32 list \<Rightarrow> recv_fn" where
  "receive_sftp_status errors sftp header = with_request sftp header (\<lambda>r s. do {
     code \<leftarrow> get_uint32 (hd_buffer header) 0;
     let s = set_reply r (\<lambda>rp. rp\<lparr>rp_type := hd_type header, rp_response := Response_status code (map_sftp_error errors code)\<rparr>) s;
     Some (snd (signal_sftp_received_id r s)) })"

definition receive_sftp_status_v03 :: recv_fn where "receive_sftp_status_v03 = receive_sftp_status linux_error_map_v03"
definition receive_sftp_status_v04 :: recv_fn where "receive_sftp_status_v04 = receive_sftp_status linux_error_map_v04"

definition SFTP_HANDLE_MAXSIZE :: u32 where "SFTP_HANDLE_MAXSIZE = 255"

definition receive_sftp_handle_v03 :: recv_fn where
  "receive_sftp_handle_v03 sftp header = with_request sftp header (\<lambda>r s. do {
     siz \<leftarrow> get_uint32 (hd_buffer header) 0;
     let s = set_reply r (\<lambda>rp. rp\<lparr>rp_type := hd_type header, rp_size := siz\<rparr>) s;
     if siz \<le> SFTP_HANDLE_MAXSIZE \<and> siz + 4 \<le> hd_len header then do {
       buffer \<leftarrow> mem_move (hd_buffer header) 4 (unat siz);
       Some (snd (signal_sftp_received_id r (set_reply r (\<lambda>rp. rp\<lparr>rp_data := Some buffer\<rparr>) s))) }
     else Some (signal_sftp_received_id_error r s) })"

definition receive_sftp_data_v03 :: recv_fn where
  "receive_sftp_data_v03 sftp header = with_request sftp header (\<lambda>r s. do {
     siz \<leftarrow> get_uint32 (hd_buffer header) 0;
     buffer \<leftarrow> mem_move (hd_buffer header) 4 (unat siz);
     let s = set_reply r (\<lambda>rp. rp\<lparr>rp_type := hd_type header, rp_response := Response_data 0, rp_size := siz, rp_data := Some buffer\<rparr>) s;
     Some (snd (signal_sftp_received_id r s)) })"

definition receive_sftp_name :: "u8 \<Rightarrow> recv_fn" where
  "receive_sftp_name flags sftp header = with_request sftp header (\<lambda>r s. do {
     count \<leftarrow> get_uint32 (hd_buffer header) 0;
     let siz = hd_len header - 4;
     buffer \<leftarrow> mem_move (hd_buffer header) 4 (unat siz);
     let s = set_reply r (\<lambda>rp. rp\<lparr>rp_type := hd_type header, rp_response := Response_name flags count, rp_size := siz,
       rp_data := Some buffer\<rparr>) s;
     Some (snd (signal_sftp_received_id r s)) })"

definition receive_sftp_name_v03 :: recv_fn where "receive_sftp_name_v03 = receive_sftp_name 0"

definition receive_sftp_attr_v03 :: recv_fn where
  "receive_sftp_attr_v03 sftp header = with_request sftp header (\<lambda>r s.
     let s = set_reply r (\<lambda>rp. rp\<lparr>rp_type := hd_type header, rp_size := hd_len header, rp_data := Some (hd_buffer header)\<rparr>) s
     in Some (snd (signal_sftp_received_id r s)))"

definition receive_sftp_extension_v03 :: recv_fn where
  "receive_sftp_extension_v03 sftp header s = Some s"

definition receive_sftp_extension_reply_v03 :: recv_fn where
  "receive_sftp_extension_reply_v03 sftp header = with_request sftp header (\<lambda>r s.
     let s = set_reply r (\<lambda>rp. rp\<lparr>rp_type := hd_type header, rp_size := hd_len header, rp_data := Some (hd_buffer header)\<rparr>) s
     in Some (snd (signal_sftp_received_id r s)))"

text \<open>
  Version 5: after the code come the message, which is copied to an array of \<open>len + 1\<close> bytes for the log, the language and data of the error.
\<close>

definition receive_sftp_status_generic_v05 :: "u32 list \<Rightarrow> recv_fn" where
  "receive_sftp_status_generic_v05 errors sftp header = with_request sftp header (\<lambda>r s. do {
     let buffer = hd_buffer header;
     code \<leftarrow> get_uint32 buffer 0;
     let s = set_reply r (\<lambda>rp. rp\<lparr>rp_type := hd_type header, rp_response := Response_status code (map_sftp_error errors code)\<rparr>) s;
     len \<leftarrow> get_uint32 buffer 4;
     pos \<leftarrow> (if len > 0 then do {
         bs \<leftarrow> mem_load buffer 8 (unat len);
         errormessage \<leftarrow> mem_store (replicate (unat (len + 1)) 0) 0 (bs @ [0]);
         Some (8 + len) }
       else Some 8);
     s \<leftarrow> (if pos + 4 < hd_len header then do {
         len \<leftarrow> get_uint32 buffer (unat pos);
         let pos = pos + 4;
         if pos + len < hd_len header then do {
           let pos = pos + len;
           buffer \<leftarrow> mem_move buffer (unat pos) (unat (hd_len header - pos));
           Some (set_reply r (\<lambda>rp. rp\<lparr>rp_size := hd_len header - pos, rp_data := Some buffer\<rparr>) s) }
         else Some s }
       else Some s);
     Some (snd (signal_sftp_received_id r s)) })"

definition receive_sftp_status_v05 :: recv_fn where
  "receive_sftp_status_v05 = receive_sftp_status_generic_v05 linux_error_map_v05"

definition receive_sftp_status_v06 :: recv_fn where
  "receive_sftp_status_v06 = receive_sftp_status_generic_v05 linux_error_map_v06"

text \<open>\<open>SFTP_RESPONSE_FLAG_EOF_SUPPORTED\<close> is 1, \<open>SFTP_RESPONSE_FLAG_EOF\<close> 2.\<close>

definition receive_sftp_data_v06 :: recv_fn where
  "receive_sftp_data_v06 sftp header = with_request sftp header (\<lambda>r s. do {
     let buffer = hd_buffer header;
     siz \<leftarrow> get_uint32 buffer 0;
     flags \<leftarrow> (if siz + 4 < hd_len header
       then do { b \<leftarrow> mem_byte buffer (unat (siz + 4)); Some (if b \<noteq> 0 then 1 OR 2 else 1) } else Some 1);
     buffer \<leftarrow> mem_move buffer 4 (unat siz);
     let s = set_reply r (\<lambda>rp. rp\<lparr>rp_type := hd_type header, rp_response := Response_data flags, rp_size := siz,
       rp_data := Some buffer\<rparr>) s;
     Some (snd (signal_sftp_received_id r s)) })"

definition receive_sftp_name_v06 :: recv_fn where "receive_sftp_name_v06 = receive_sftp_name 1"

record sftp_recv_ops_s =
  ro_status :: recv_fn
  ro_handle :: recv_fn
  ro_data :: recv_fn
  ro_name :: recv_fn
  ro_attr :: recv_fn
  ro_extension :: recv_fn
  ro_extension_reply :: recv_fn

definition recv_ops_v03 :: sftp_recv_ops_s where
  "recv_ops_v03 = \<lparr>ro_status = receive_sftp_status_v03, ro_handle = receive_sftp_handle_v03, ro_data = receive_sftp_data_v03,
     ro_name = receive_sftp_name_v03, ro_attr = receive_sftp_attr_v03, ro_extension = receive_sftp_extension_v03,
     ro_extension_reply = receive_sftp_extension_reply_v03\<rparr>"

definition recv_ops_v04 :: sftp_recv_ops_s where
  "recv_ops_v04 = recv_ops_v03\<lparr>ro_status := receive_sftp_status_v04\<rparr>"

definition recv_ops_v05 :: sftp_recv_ops_s where
  "recv_ops_v05 = recv_ops_v03\<lparr>ro_status := receive_sftp_status_v05\<rparr>"

definition recv_ops_v06 :: sftp_recv_ops_s where
  "recv_ops_v06 = recv_ops_v03\<lparr>ro_status := receive_sftp_status_v06, ro_data := receive_sftp_data_v06, ro_name := receive_sftp_name_v06\<rparr>"

definition set_sftp_recv_version :: "u8 \<Rightarrow> sftp_recv_ops_s \<Rightarrow> sftp_recv_ops_s" where
  "set_sftp_recv_version version old =
     (if version = 3 then recv_ops_v03 else if version = 4 then recv_ops_v04 else if version = 5 then recv_ops_v05
      else if version = 6 then recv_ops_v06 else old)"

section \<open>Receiving data\<close>

definition signal_sftp_reply_invalid :: "nat \<Rightarrow> u32 \<Rightarrow> u8 \<Rightarrow> req_state \<Rightarrow> int \<times> req_state" where
  "signal_sftp_reply_invalid sftp i typ s = (case get_sftp_request sftp i s of
     (Some r, s) \<Rightarrow> (0, signal_sftp_received_id_error r (set_reply r (\<lambda>rp. rp\<lparr>rp_type := typ\<rparr>) s))
   | (None, s) \<Rightarrow> (-1, s))"

definition signal_seq :: "nat \<Rightarrow> u32 \<Rightarrow> u8 \<Rightarrow> system_timespec_s \<Rightarrow> req_state \<Rightarrow> req_state" where
  "signal_seq sftp seq typ clock s = s\<lparr>rs_signal := (rs_signal s)(sftp := (rs_signal s sftp)\<lparr>sg_seq := seq, sg_seqtype := typ,
     sg_seqset := get_current_time_system_time clock\<rparr>)\<rparr>"

definition process_receive_sftp_reply_error :: "nat \<Rightarrow> mem \<Rightarrow> u32 \<Rightarrow> u32 \<Rightarrow> system_timespec_s \<Rightarrow> req_state \<Rightarrow> req_state option" where
  "process_receive_sftp_reply_error sftp buffer siz seq clock s = do {
     (found, s) \<leftarrow> (if siz \<ge> 9 then do {
         typ \<leftarrow> mem_byte buffer 4;
         i \<leftarrow> get_uint32 buffer 5;
         Some (signal_sftp_reply_invalid sftp i typ s) }
       else Some (-1, s));
     if found = 0 then Some s
     else do {
       typ \<leftarrow> (if siz \<ge> 5 then mem_byte buffer 4 else Some 0);
       Some (signal_seq sftp seq typ clock s) } }"

definition dispatch_reply :: "sftp_recv_ops_s \<Rightarrow> recv_fn" where
  "dispatch_reply ops sftp header s =
     (let typ = hd_type header in
      if typ = SSH_FXP_STATUS then ro_status ops sftp header s
      else if typ = SSH_FXP_HANDLE then ro_handle ops sftp header s
      else if typ = SSH_FXP_DATA then ro_data ops sftp header s
      else if typ = SSH_FXP_NAME then ro_name ops sftp header s
      else if typ = SSH_FXP_ATTRS then ro_attr ops sftp header s
      else if typ = SSH_FXP_EXTENDED then ro_extension ops sftp header s
      else if typ = SSH_FXP_EXTENDED_REPLY then ro_extension_reply ops sftp header s
      else Some (snd (signal_sftp_reply_invalid sftp (hd_id header) typ s)))"

definition receive_sftp_reply ::
    "sftp_recv_ops_s \<Rightarrow> nat \<Rightarrow> mem \<Rightarrow> u32 \<Rightarrow> u32 \<Rightarrow> system_timespec_s \<Rightarrow> req_state \<Rightarrow> req_state option" where
  "receive_sftp_reply ops sftp buffer siz seq clock s =
     (if siz < 9 then process_receive_sftp_reply_error sftp buffer siz seq clock s
      else do {
        len \<leftarrow> get_uint32 buffer 0;
        if 4 + len > siz then process_receive_sftp_reply_error sftp buffer siz seq clock s
        else do {
          typ \<leftarrow> mem_byte buffer 4;
          i \<leftarrow> get_uint32 buffer 5;
          let hlen = len - 1 - 4;
          buffer \<leftarrow> mem_move buffer 9 (unat hlen);
          buffer \<leftarrow> mem_store buffer (unat hlen) (replicate (unat (siz - hlen)) 0);
          let header = \<lparr>hd_type = typ, hd_id = i, hd_seq = seq, hd_len = hlen, hd_buffer = buffer\<rparr>;
          dispatch_reply ops sftp header s } })"

text \<open>
  The reply to the init message has no id; its request has the id \<open>2^32 - 1\<close>. When that request is not found, the source signals an error to a
  null pointer.
\<close>

definition receive_sftp_init :: "nat \<Rightarrow> mem \<Rightarrow> u32 \<Rightarrow> u32 \<Rightarrow> system_timespec_s \<Rightarrow> req_state \<Rightarrow> req_state option" where
  "receive_sftp_init sftp buffer siz seq clock s =
     (if siz \<ge> 5 then do {
        len \<leftarrow> get_uint32 buffer 0;
        typ \<leftarrow> mem_byte buffer 4;
        let len = len - 1;
        if 5 + len \<le> siz \<and> typ = SSH_FXP_VERSION then do {
          buffer \<leftarrow> mem_move buffer 5 (unat len);
          case get_sftp_request sftp (-1) s of
            (Some r, s) \<Rightarrow>
              Some (snd (signal_sftp_received_id r (set_reply r (\<lambda>rp. rp\<lparr>rp_type := typ, rp_size := len, rp_data := Some buffer\<rparr>) s)))
          | (None, s) \<Rightarrow> None }
        else Some s }
      else process_receive_sftp_reply_error sftp [] siz seq clock s)"

text \<open>The function behind \<open>receive_data\<close>: the first message switches it.\<close>

datatype receive_cb = Receive_init | Receive_reply

definition init_sftp_receive :: receive_cb where
  "init_sftp_receive = Receive_init"

definition switch_sftp_receive :: "string \<Rightarrow> receive_cb \<Rightarrow> receive_cb" where
  "switch_sftp_receive what cb = (if what = ''init'' then Receive_init else if what = ''session'' then Receive_reply else cb)"

definition receive_sftp_data ::
    "receive_cb \<Rightarrow> sftp_recv_ops_s \<Rightarrow> nat \<Rightarrow> mem \<Rightarrow> u32 \<Rightarrow> u32 \<Rightarrow> system_timespec_s \<Rightarrow> req_state \<Rightarrow> (receive_cb \<times> req_state) option" where
  "receive_sftp_data cb ops sftp buffer siz seq clock s = (case cb of
     Receive_init \<Rightarrow> map_option (Pair Receive_reply) (receive_sftp_init sftp buffer siz seq clock s)
   | Receive_reply \<Rightarrow> map_option (Pair Receive_reply) (receive_sftp_reply ops sftp buffer siz seq clock s))"

section \<open>From the subsystem to the request\<close>

lemma mem_byte_at: "mem_byte (xs @ b # ys) (length xs) = Some b"
  by (simp add: mem_byte_def mem_load_def)

text \<open>The header that the handlers get for a message of the right length: the body is moved to the front and the rest cleared.\<close>

lemma receive_frame:
  assumes "length body + 9 < 2 ^ 32"
  shows "receive_sftp_reply ops sftp (frame (t # be32 i @ body)) (of_nat (length body + 9)) seq clock s =
    dispatch_reply ops sftp \<lparr>hd_type = t, hd_id = i, hd_seq = seq, hd_len = of_nat (length body), hd_buffer = body @ replicate 9 0\<rparr> s"
proof -
  let ?b = "frame (t # be32 i @ body)" and ?n = "of_nat (length body) :: u32"
  have n: "unat ?n = length body" using assms by (simp add: unat_of_nat_u32)
  have u: "unat (?n + 9) = length body + 9" using assms n by (subst unat_u32_plus) simp_all
  have len: "get_uint32 ?b 0 = Some (?n + 5)"
    using get_uint32_at [of "[]" "?n + 5" "t # be32 i @ body"] by (simp add: frame_def add.commute)
  have ty: "mem_byte ?b 4 = Some t" using mem_byte_at [of "be32 (?n + 5)" t "be32 i @ body"] by (simp add: frame_def add.commute)
  have i: "get_uint32 ?b 5 = Some i" using get_uint32_at [of "be32 (?n + 5) @ [t]" i body] by (simp add: frame_def add.commute)
  have mv: "mem_move ?b 9 (length body) = Some (body @ drop (length body) ?b)"
    by (simp add: mem_move_def mem_load_def mem_store_def frame_def)
  have z: "mem_store (body @ drop (length body) ?b) (length body) (replicate 9 0) = Some (body @ replicate 9 0)"
    by (simp add: mem_store_def frame_def)
  have nine: "unat (9 :: u32) = 9" by simp
  have "\<not> ?n + 9 < 9" using u nine unfolding u32_less_unat by linarith
  moreover have "\<not> ?n + 9 < 9 + ?n" by (simp add: add.commute)
  ultimately show ?thesis using len ty i mv z n by (simp add: receive_sftp_reply_def Let_def)
qed

text \<open>The request of a reply, and what is left after it is finished.\<close>

definition got :: "nat \<Rightarrow> req_state \<Rightarrow> req_state" where
  "got r s = set_status r (\<lambda>st. (st AND NOT SFTP_REQUEST_STATUS_WAITING) OR SFTP_REQUEST_STATUS_RESPONSE) (remove_request_hashtable r s)"

lemma get_found:
  assumes "table_ok s" and "listed s r" and "\<forall>j. listed s j \<and> rq_id (req s j) = rq_id (req s r) \<longrightarrow> j = r"
  shows "get_sftp_request sftp (rq_id (req s r)) s = (Some r, got r s)"
  using assms(1)
proof (cases rule: lookup_cases [of s "rq_id (req s r)" sftp])
  case (found j)
  then have "j = r" using assms(3) by blast
  then show ?thesis using found(3) by (simp add: got_def)
next
  case missing
  then show ?thesis using assms(2) by blast
qed

definition answered :: "nat \<Rightarrow> (sftp_reply_s \<Rightarrow> bool) \<Rightarrow> req_state \<Rightarrow> req_state \<Rightarrow> bool" where
  "answered r P s s' \<longleftrightarrow> P (rq_reply (req s' r)) \<and> rq_status (req s' r) AND SFTP_REQUEST_STATUS_FINISH \<noteq> 0 \<and>
     \<not> listed s' r \<and> (\<forall>j. j \<noteq> r \<longrightarrow> req s' j = req s j \<and> (listed s' j \<longleftrightarrow> listed s j))"

lemma answered_signal:
  assumes "table_ok s" and "P (f (rq_reply (req s r)))"
  shows "answered r P s (snd (signal_sftp_received_id r (set_reply r f (got r s))))"
proof -
  let ?s = "snd (signal_sftp_received_id r (set_reply r f (got r s)))"
  have "rs_table ?s = rs_table (remove_request_hashtable r s)"
    by (simp add: signal_sftp_received_id_def set_reply_def got_def req_simps)
  then have "listed ?s j \<longleftrightarrow> listed s j \<and> j \<noteq> r" for j using listed_remove [OF assms(1), of r j] by (simp add: listed_def)
  moreover have "((rq_status (req s r) AND NOT SFTP_REQUEST_STATUS_WAITING) OR SFTP_REQUEST_STATUS_RESPONSE) AND
      SFTP_REQUEST_STATUS_RESPONSE \<noteq> 0"
    by (simp add: status_defs bit.conj_disj_distrib2 or_eq_0_iff)
  ultimately show ?thesis using assms(2)
    by (simp add: answered_def signal_sftp_received_id_def set_reply_def got_def req_simps remove_request_hashtable_def
        SFTP_REQUEST_STATUS_FINISH_def)
qed

text \<open>What the subsystem answers, and what the client makes of it in a version of the protocol.\<close>

datatype answer =
    Ans_status u32
  | Ans_handle "u8 list"
  | Ans_data "u8 list" bool
  | Ans_names u32 "u8 list" bool
  | Ans_attrs "u8 list"
  | Ans_extension "u8 list"

primrec answer_bytes :: "u32 \<Rightarrow> answer \<Rightarrow> u8 list option" where
  "answer_bytes i (Ans_status status) = reply_sftp_status_simple i status"
| "answer_bytes i (Ans_handle bs) = reply_sftp_handle i bs (of_nat (length bs))"
| "answer_bytes i (Ans_data bs eof) = reply_sftp_data i bs (of_nat (length bs)) (of_bool eof)"
| "answer_bytes i (Ans_names count bs eof) = reply_sftp_names i count bs (of_nat (length bs)) (of_bool eof)"
| "answer_bytes i (Ans_attrs bs) = reply_sftp_attrs i bs (of_nat (length bs))"
| "answer_bytes i (Ans_extension bs) = reply_sftp_extension i bs (of_nat (length bs))"

primrec answer_type :: "answer \<Rightarrow> u8" where
  "answer_type (Ans_status status) = SSH_FXP_STATUS"
| "answer_type (Ans_handle bs) = SSH_FXP_HANDLE"
| "answer_type (Ans_data bs eof) = SSH_FXP_DATA"
| "answer_type (Ans_names count bs eof) = SSH_FXP_NAME"
| "answer_type (Ans_attrs bs) = SSH_FXP_ATTRS"
| "answer_type (Ans_extension bs) = SSH_FXP_EXTENDED_REPLY"

primrec answer_body :: "answer \<Rightarrow> u8 list" where
  "answer_body (Ans_status status) = be32 status @ be32 0 @ be32 0"
| "answer_body (Ans_handle bs) = be32 (of_nat (length bs)) @ bs"
| "answer_body (Ans_data bs eof) = be32 (of_nat (length bs)) @ bs @ (if eof then [1] else [])"
| "answer_body (Ans_names count bs eof) = be32 count @ bs @ (if eof then [1] else [])"
| "answer_body (Ans_attrs bs) = bs"
| "answer_body (Ans_extension bs) = bs"

text \<open>The replies of the subsystem stay inside their arrays and have the form of the protocol.\<close>

lemma answer_bytes_frame:
  assumes "length (answer_body a) < 2 ^ 31"
  shows "answer_bytes i a = Some (frame (answer_type a # be32 i @ answer_body a))"
proof -
  have n: "build n xs = Some (frame body)"
    if "xs = WSkip 4 # butlast (tl xs) @ [WLen]" "\<forall>w \<in> set (butlast (tl xs)). wr_ok w" "wrs_out (butlast (tl xs)) = body"
      "length body + 4 \<le> n" "n < 2 ^ 32" for n xs body
    using build_len_ok [of "WSkip 4 # butlast (tl xs)" n "replicate 4 0" body] that by simp
  have u: "unat (k + of_nat (length bs) :: u32) = unat k + length bs" if "length bs < 2 ^ 31" "unat k < 32" for k bs
    using that by (subst unat_u32_plus) (simp_all add: unat_of_nat_u32)
  show ?thesis
    by (cases a) (use assms in \<open>auto simp: reply_sftp_status_simple_def reply_sftp_handle_def reply_sftp_bytes_common_def
      reply_sftp_data_def reply_sftp_names_def reply_sftp_attrs_def reply_sftp_extension_def u unat_of_nat_u32
      intro!: n\<close>)
qed

text \<open>What the client has of an answer, in a version of the protocol: only version 6 knows the end of a file or directory.\<close>

definition error_map :: "u8 \<Rightarrow> u32 list" where
  "error_map version = (if version = 3 then linux_error_map_v03 else if version = 4 then linux_error_map_v04
     else if version = 5 then linux_error_map_v05 else linux_error_map_v06)"

definition reply_holds :: "u8 list \<Rightarrow> sftp_reply_s \<Rightarrow> bool" where
  "reply_holds bs rp \<longleftrightarrow> rp_size rp = of_nat (length bs) \<and> (\<exists>rest. rp_data rp = Some (bs @ rest))"

primrec answer_read :: "u8 \<Rightarrow> answer \<Rightarrow> sftp_reply_s \<Rightarrow> bool" where
  "answer_read version (Ans_status status) rp \<longleftrightarrow>
     rp_response rp = Response_status status (map_sftp_error (error_map version) status)"
| "answer_read version (Ans_handle bs) rp \<longleftrightarrow> reply_holds bs rp"
| "answer_read version (Ans_data bs eof) rp \<longleftrightarrow>
     rp_response rp = Response_data (if version = 6 then if eof then 3 else 1 else 0) \<and> reply_holds bs rp"
| "answer_read version (Ans_names count bs eof) rp \<longleftrightarrow>
     rp_response rp = Response_name (if version = 6 then 1 else 0) count \<and> reply_holds (bs @ (if eof then [1] else [])) rp"
| "answer_read version (Ans_attrs bs) rp \<longleftrightarrow> reply_holds bs rp"
| "answer_read version (Ans_extension bs) rp \<longleftrightarrow> reply_holds bs rp"

definition reply_header :: "u32 \<Rightarrow> u32 \<Rightarrow> answer \<Rightarrow> sftp_header_s" where
  "reply_header i seq a = \<lparr>hd_type = answer_type a, hd_id = i, hd_seq = seq, hd_len = of_nat (length (answer_body a)),
     hd_buffer = answer_body a @ replicate 9 0\<rparr>"

lemma set_reply_twice: "set_reply r g (set_reply r f s) = set_reply r (\<lambda>rp. g (f rp)) s"
  by (simp add: set_reply_def req_simps)

lemma mem_move_body: "\<exists>rest'. mem_move (be32 v @ bs @ rest) 4 (length bs) = Some (bs @ rest')"
  by (simp add: mem_move_def mem_load_def mem_store_def)

text \<open>Each handler, on the message of the subsystem: the request gets a reply that holds the answer and is finished.\<close>

definition handled :: "u8 \<Rightarrow> nat \<Rightarrow> answer \<Rightarrow> req_state \<Rightarrow> req_state option \<Rightarrow> bool" where
  "handled version r a s res \<longleftrightarrow> (\<exists>f. res = Some (snd (signal_sftp_received_id r (set_reply r f (got r s)))) \<and>
     (\<forall>rp. rp_type (f rp) = answer_type a \<and> answer_read version a (f rp)))"

lemma handledI: "res = Some (snd (signal_sftp_received_id r (set_reply r f (got r s)))) \<Longrightarrow>
    (\<And>rp. rp_type (f rp) = answer_type a) \<Longrightarrow> (\<And>rp. answer_read version a (f rp)) \<Longrightarrow> handled version r a s res"
  unfolding handled_def by blast

lemma with_request_found:
  "get_sftp_request sftp i s = (Some r, got r s) \<Longrightarrow> hd_id header = i \<Longrightarrow> with_request sftp header f s = f r (got r s)"
  by (simp add: with_request_def)

lemma get_front: "get_uint32 (be32 v @ rest) 0 = Some v"
  using get_uint32_at [of "[]" v rest] by simp

lemma handle_handled:
  assumes "get_sftp_request sftp i s = (Some r, got r s)" and "length bs \<le> 255"
  shows "handled version r (Ans_handle bs) s (receive_sftp_handle_v03 sftp (reply_header i seq (Ans_handle bs)) s)"
proof -
  let ?n = "of_nat (length bs) :: u32"
  have n: "unat ?n = length bs" using assms(2) by (intro unat_of_nat_u32) simp
  have "unat (255 :: u32) = 255" by simp
  then have le: "?n \<le> 255" using assms(2) n unfolding word_le_nat_alt by simp
  obtain rest where m: "mem_move (be32 ?n @ bs @ replicate 9 0) 4 (length bs) = Some (bs @ rest)" using mem_move_body by blast
  show ?thesis
    by (rule handledI [where f = "\<lambda>rp. rp\<lparr>rp_type := SSH_FXP_HANDLE, rp_size := ?n, rp_data := Some (bs @ rest)\<rparr>"])
      (simp_all add: receive_sftp_handle_v03_def with_request_found [OF assms(1)] reply_header_def get_front n le m
        SFTP_HANDLE_MAXSIZE_def set_reply_twice reply_holds_def add.commute Let_def)
qed

lemma data_handled:
  assumes "get_sftp_request sftp i s = (Some r, got r s)" and "length bs < 2 ^ 31" and "version \<noteq> 6"
  shows "handled version r (Ans_data bs eof) s (receive_sftp_data_v03 sftp (reply_header i seq (Ans_data bs eof)) s)"
proof -
  let ?n = "of_nat (length bs) :: u32" and ?e = "if eof then [1 :: u8] else []"
  have n: "unat ?n = length bs" using assms(2) by (intro unat_of_nat_u32) simp
  obtain rest where m: "mem_move (be32 ?n @ bs @ ?e @ replicate 9 0) 4 (length bs) = Some (bs @ rest)" using mem_move_body by blast
  show ?thesis
    by (rule handledI [where f = "\<lambda>rp. rp\<lparr>rp_type := SSH_FXP_DATA, rp_response := Response_data 0, rp_size := ?n, rp_data := Some (bs @ rest)\<rparr>"])
      (use m assms(3) in \<open>simp_all add: receive_sftp_data_v03_def with_request_found [OF assms(1)] reply_header_def get_front n
        reply_holds_def Let_def\<close>)
qed

lemma data_v06_handled:
  assumes "get_sftp_request sftp i s = (Some r, got r s)" and "length bs < 2 ^ 31"
  shows "handled 6 r (Ans_data bs eof) s (receive_sftp_data_v06 sftp (reply_header i seq (Ans_data bs eof)) s)"
proof -
  let ?n = "of_nat (length bs) :: u32" and ?e = "if eof then [1 :: u8] else []" and ?f = "if eof then 3 else 1 :: u8"
  have n: "unat ?n = length bs" using assms(2) by (intro unat_of_nat_u32) simp
  have n4: "unat (?n + 4) = length bs + 4" using assms(2) n by (subst unat_u32_plus) simp_all
  have l: "?n + 4 < ?n + 5 \<longleftrightarrow> True" using assms(2) n n4 unfolding word_less_nat_alt by (subst unat_u32_plus) simp_all
  have b: "mem_byte (be32 ?n @ bs @ 1 # rest) (length bs + 4) = Some 1" for rest
    using mem_byte_at [of "be32 ?n @ bs" 1 rest] by (simp add: add.commute)
  obtain rest where m: "mem_move (be32 ?n @ bs @ ?e @ replicate 9 0) 4 (length bs) = Some (bs @ rest)" using mem_move_body by blast
  show ?thesis
    by (rule handledI [where f = "\<lambda>rp. rp\<lparr>rp_type := SSH_FXP_DATA, rp_response := Response_data ?f, rp_size := ?n, rp_data := Some (bs @ rest)\<rparr>"])
      (use m l b n4 in \<open>simp_all add: receive_sftp_data_v06_def with_request_found [OF assms(1)] reply_header_def get_front n
        reply_holds_def Let_def add.commute\<close>)
qed

lemma name_handled:
  assumes "get_sftp_request sftp i s = (Some r, got r s)" and "length bs < 2 ^ 31" and "flags = (if version = 6 then 1 else 0)"
  shows "handled version r (Ans_names count bs eof) s (receive_sftp_name flags sftp (reply_header i seq (Ans_names count bs eof)) s)"
proof -
  let ?bs = "bs @ (if eof then [1 :: u8] else [])"
  let ?n = "of_nat (length ?bs) :: u32"
  have n: "unat ?n = length ?bs" using assms(2) by (intro unat_of_nat_u32) simp
  obtain rest where m: "mem_move (be32 count @ ?bs @ replicate 9 0) 4 (length ?bs) = Some (?bs @ rest)" using mem_move_body by blast
  have h: "hd_buffer (reply_header i seq (Ans_names count bs eof)) = be32 count @ ?bs @ replicate 9 0"
    "hd_len (reply_header i seq (Ans_names count bs eof)) - 4 = ?n" "hd_id (reply_header i seq (Ans_names count bs eof)) = i"
    "hd_type (reply_header i seq (Ans_names count bs eof)) = SSH_FXP_NAME"
    by (simp_all add: reply_header_def)
  show ?thesis
    by (rule handledI [where f = "\<lambda>rp. rp\<lparr>rp_type := SSH_FXP_NAME, rp_response := Response_name flags count, rp_size := ?n,
        rp_data := Some (?bs @ rest)\<rparr>"])
      (simp_all only: receive_sftp_name_def with_request_found [OF assms(1) h(3)] h get_front n m Let_def bind.simps,
        simp_all add: assms(3) reply_holds_def)
qed

lemma whole_handled:
  assumes "get_sftp_request sftp i s = (Some r, got r s)"
  shows "handled version r (Ans_attrs bs) s (receive_sftp_attr_v03 sftp (reply_header i seq (Ans_attrs bs)) s)"
    and "handled version r (Ans_extension bs) s (receive_sftp_extension_reply_v03 sftp (reply_header i seq (Ans_extension bs)) s)"
  by (rule handledI [where f = "\<lambda>rp. rp\<lparr>rp_type := t, rp_size := of_nat (length bs), rp_data := Some (bs @ replicate 9 0)\<rparr>" for t];
      simp add: receive_sftp_attr_v03_def receive_sftp_extension_reply_v03_def with_request_found [OF assms] reply_header_def
        reply_holds_def Let_def)+

lemma status_handled:
  assumes "get_sftp_request sftp i s = (Some r, got r s)" and "errors = error_map version"
  shows "handled version r (Ans_status status) s (receive_sftp_status errors sftp (reply_header i seq (Ans_status status)) s)"
    and "handled version r (Ans_status status) s (receive_sftp_status_generic_v05 errors sftp (reply_header i seq (Ans_status status)) s)"
proof -
  let ?f = "\<lambda>rp. rp\<lparr>rp_type := SSH_FXP_STATUS, rp_response := Response_status status (map_sftp_error errors status)\<rparr>"
  have 4: "get_uint32 (be32 status @ be32 0 @ rest) 4 = Some 0" for rest
    using get_uint32_at [of "be32 status" 0 rest] by simp
  show "handled version r (Ans_status status) s (receive_sftp_status errors sftp (reply_header i seq (Ans_status status)) s)"
    by (rule handledI [where f = ?f])
      (simp_all add: receive_sftp_status_def with_request_found [OF assms(1)] reply_header_def get_front Let_def assms(2))
  show "handled version r (Ans_status status) s (receive_sftp_status_generic_v05 errors sftp (reply_header i seq (Ans_status status)) s)"
    by (rule handledI [where f = ?f])
      (simp_all add: receive_sftp_status_generic_v05_def with_request_found [OF assms(1)] reply_header_def get_front 4 Let_def assms(2))
qed

lemmas recv_ops_defs = recv_ops_v03_def recv_ops_v04_def recv_ops_v05_def recv_ops_v06_def

lemmas handler_defs = receive_sftp_status_v03_def receive_sftp_status_v04_def receive_sftp_status_v05_def receive_sftp_status_v06_def
  receive_sftp_name_v03_def receive_sftp_name_v06_def

lemmas reply_type_defs = SSH_FXP_STATUS_def SSH_FXP_HANDLE_def SSH_FXP_DATA_def SSH_FXP_NAME_def SSH_FXP_ATTRS_def SSH_FXP_EXTENDED_def
  SSH_FXP_EXTENDED_REPLY_def

primrec handler_of :: "answer \<Rightarrow> sftp_recv_ops_s \<Rightarrow> recv_fn" where
  "handler_of (Ans_status status) = ro_status"
| "handler_of (Ans_handle bs) = ro_handle"
| "handler_of (Ans_data bs eof) = ro_data"
| "handler_of (Ans_names count bs eof) = ro_name"
| "handler_of (Ans_attrs bs) = ro_attr"
| "handler_of (Ans_extension bs) = ro_extension_reply"

lemma dispatch_handler: "dispatch_reply ops sftp (reply_header i seq a) s = handler_of a ops sftp (reply_header i seq a) s"
  by (cases a) (simp_all add: dispatch_reply_def reply_header_def reply_type_defs)

text \<open>The answers that the protocol and the client allow: a handle is not longer than 255 bytes, a message less than \<open>2^31\<close>.\<close>

definition answer_ok :: "answer \<Rightarrow> bool" where
  "answer_ok a \<longleftrightarrow> length (answer_body a) < 2 ^ 31 \<and> (\<forall>bs. a = Ans_handle bs \<longrightarrow> length bs \<le> 255)"

lemma handler_handled:
  assumes "get_sftp_request sftp i s = (Some r, got r s)" and "answer_ok a" and "version \<in> {3, 4, 5, 6}"
  shows "handled version r a s (handler_of a (set_sftp_recv_version version old) sftp (reply_header i seq a) s)"
proof -
  note h = handle_handled [OF assms(1)] data_handled [OF assms(1)] data_v06_handled [OF assms(1)] name_handled [OF assms(1)]
    whole_handled [OF assms(1)] status_handled [OF assms(1)]
  consider "version = 3" | "version = 4" | "version = 5" | "version = 6" using assms(3) by blast
  then show ?thesis
    by cases (cases a; use assms(2) in \<open>simp add: set_sftp_recv_version_def recv_ops_defs handler_defs answer_ok_def error_map_def h\<close>)+
qed

text \<open>
  C12: an answer of the subsystem arrives. In every version of the protocol, the bytes that the subsystem builds for an answer (a status, a handle,
  data, names, attributes or an extended reply) with the id of the one request that is waiting with this id are received without an access
  outside the buffer, and this request, and no other, gets a reply of the right type that holds the answer: the status with the error of
  its code in the version's table, the bytes and their number, the count of the names, and in version 6 whether this was the end of the
  file. The request is finished and no longer in the table.
\<close>

theorem reply_round_trip:
  assumes "table_ok s" and "listed s r" and "\<forall>j. listed s j \<and> rq_id (req s j) = rq_id (req s r) \<longrightarrow> j = r"
    and "answer_ok a" and "version \<in> {3, 4, 5, 6}"
  shows "\<exists>bytes s'. answer_bytes (rq_id (req s r)) a = Some bytes \<and>
    receive_sftp_reply (set_sftp_recv_version version old) sftp bytes (of_nat (length bytes)) seq clock s = Some s' \<and>
    answered r (\<lambda>rp. rp_type rp = answer_type a \<and> answer_read version a rp) s s'"
proof -
  let ?i = "rq_id (req s r)" and ?ops = "set_sftp_recv_version version old"
  let ?b = "frame (answer_type a # be32 ?i @ answer_body a)"
  have l: "length (answer_body a) < 2 ^ 31" using assms(4) by (simp add: answer_ok_def)
  have "length ?b = length (answer_body a) + 9" by (simp add: frame_def)
  then have "receive_sftp_reply ?ops sftp ?b (of_nat (length ?b)) seq clock s = dispatch_reply ?ops sftp (reply_header ?i seq a) s"
    using receive_frame [of "answer_body a"] l by (simp only: reply_header_def) simp
  moreover obtain f where "dispatch_reply ?ops sftp (reply_header ?i seq a) s = Some (snd (signal_sftp_received_id r (set_reply r f (got r s))))"
      and "\<forall>rp. rp_type (f rp) = answer_type a \<and> answer_read version a (f rp)"
    using handler_handled [OF get_found [OF assms(1-3)] assms(4,5), where old = old and seq = seq] unfolding dispatch_handler handled_def by blast
  ultimately show ?thesis
    using answer_bytes_frame [OF l, of ?i] answered_signal [OF assms(1), of "\<lambda>rp. rp_type rp = answer_type a \<and> answer_read version a rp" f r]
    by (intro exI [of _ ?b] exI [of _ "snd (signal_sftp_received_id r (set_reply r f (got r s)))"] conjI) simp_all
qed

definition requests_2 :: req_state where
  "requests_2 = the (add_request_hashtable 5 requests_0)"

lemma requests_2_facts: "table_ok requests_2" "listed requests_2 j \<longleftrightarrow> j = 5" "rq_id (req requests_2 j) = 0"
proof -
  obtain t where t: "add_request_hashtable 5 requests_0 = Some t" "table_ok t" "Collect (listed t) = insert 5 (Collect (listed requests_0))"
      "(\<lambda>j. rq_id (req t j)) = (\<lambda>j. rq_id (req requests_0 j))"
    using add_ok [OF requests_0_facts(1,2), of 5] by blast
  then show "table_ok requests_2" "listed requests_2 j \<longleftrightarrow> j = 5" "rq_id (req requests_2 j) = 0"
    using requests_0_facts(2,3) by (auto simp: requests_2_def fun_eq_iff)
qed

theorem reply_round_trip_witness:
  "\<exists>bytes s'. answer_bytes 0 (Ans_data [104, 105] True) = Some bytes \<and>
    receive_sftp_reply recv_ops_v06 0 bytes (of_nat (length bytes)) 0 SYSTEM_TIME_INIT requests_2 = Some s' \<and>
    rp_response (rq_reply (req s' 5)) = Response_data 3 \<and> (\<exists>rest. rp_data (rq_reply (req s' 5)) = Some ([104, 105] @ rest)) \<and> \<not> listed s' 5"
proof -
  have "answer_ok (Ans_data [104, 105] True)" by (simp add: answer_ok_def)
  then show ?thesis
    using reply_round_trip [of requests_2 5 "Ans_data [104, 105] True" 6 recv_ops_v03 0 0 SYSTEM_TIME_INIT] requests_2_facts
    by (auto simp: answered_def reply_holds_def set_sftp_recv_version_def)
qed

section \<open>Messages that are not well-formed\<close>

lemma mem_byte_nth: "k < length m \<Longrightarrow> mem_byte m k = Some (m ! k)"
  by (simp add: mem_byte_def mem_load_def hd_drop_conv_nth)

text \<open>What is left of a request whose reply was found to be wrong.\<close>

lemma invalid_found:
  assumes "table_ok s" and "get_sftp_request sftp i s = (Some r, got r s)" and "signal_sftp_reply_invalid sftp i t s = (v, s')"
  shows "v = 0" and "rp_type (rq_reply (req s' r)) = t" and "listed s' j \<longleftrightarrow> listed s j \<and> j \<noteq> r" and "j \<noteq> r \<Longrightarrow> req s' j = req s j"
    and "rq_status (req s r) AND SFTP_REQUEST_STATUS_FINISH = 0 \<Longrightarrow> rs_phase (wait_check c interrupted closed r s') r =
      (if interrupted then rs_phase s r else if closed then Leaving Leave_only else Returned 0)"
proof -
  let ?st = "((rq_status (req s r) AND NOT SFTP_REQUEST_STATUS_WAITING) OR SFTP_REQUEST_STATUS_RESPONSE) OR SFTP_REQUEST_STATUS_ERROR"
  have s': "v = 0" "s' = signal_sftp_received_id_error r (set_reply r (\<lambda>rp. rp\<lparr>rp_type := t\<rparr>) (got r s))"
    using assms(2,3) by (simp_all add: signal_sftp_reply_invalid_def)
  then show "v = 0" "rp_type (rq_reply (req s' r)) = t" "j \<noteq> r \<Longrightarrow> req s' j = req s j"
    by (simp_all add: signal_sftp_received_id_error_def set_reply_def got_def req_simps remove_request_hashtable_def)
  have "rs_table s' = rs_table (remove_request_hashtable r s)"
    by (simp add: s' signal_sftp_received_id_error_def set_reply_def got_def req_simps)
  then show "listed s' j \<longleftrightarrow> listed s j \<and> j \<noteq> r" using listed_remove [OF assms(1), of r j] by (simp add: listed_def)
  assume "rq_status (req s r) AND SFTP_REQUEST_STATUS_FINISH = 0"
  then have "?st AND SFTP_REQUEST_STATUS_FINISH = 0" "?st AND SFTP_REQUEST_STATUS_ERROR \<noteq> 0"
    "?st AND SFTP_REQUEST_STATUS_RESPONSE \<noteq> 0"
    by (simp_all add: status_defs bit.conj_disj_distrib2 or_eq_0_iff and.assoc and.left_commute)
  moreover have "rq_status (req s' r) = ?st"
    by (simp add: s' signal_sftp_received_id_error_def set_reply_def got_def req_simps remove_request_hashtable_def)
  moreover have "rs_phase s' = rs_phase s"
    by (simp add: s' signal_sftp_received_id_error_def set_reply_def got_def req_simps remove_request_hashtable_def)
  ultimately show "rs_phase (wait_check c interrupted closed r s') r =
      (if interrupted then rs_phase s r else if closed then Leaving Leave_only else Returned 0)"
    by (simp add: wait_check_def break_request_sftp_client_def set_phase_def set_status_def set_error_def upd_req_def)
qed

text \<open>
  C19: a reply that is cut off is reported: when the length field of a message is below \<open>2^32 - 4\<close> and announces more than was received, of
  which there are at least nine bytes, the client reads only the nine bytes of the header; the one waiting request with the id that
  stands there gets the type of the message, leaves the table and no other request changes. What the next check of the waiting thread
  then does depends on its caller: if the caller is not interrupted the wait ends without success, at once or, when the channel is closed, after
  the removal from the table; if the caller is interrupted the error is not looked at, since the response flag is still set, and the
  thread goes on waiting.
\<close>

theorem cut_off_reply_reported:
  assumes "table_ok s" and "listed s r" and "\<forall>j. listed s j \<and> rq_id (req s j) = rq_id (req s r) \<longrightarrow> j = r"
    and "rq_status (req s r) AND SFTP_REQUEST_STATUS_FINISH = 0"
    and "length buffer = unat siz" and "9 \<le> unat siz" and "get_uint32 buffer 0 = Some len" and "unat siz < 4 + unat len"
    and "4 + unat len < 2 ^ 32" and "get_uint32 buffer 5 = Some (rq_id (req s r))"
  shows "\<exists>s'. receive_sftp_reply ops sftp buffer siz seq clock s = Some s' \<and> rp_type (rq_reply (req s' r)) = buffer ! 4 \<and>
    (\<forall>j. listed s' j \<longleftrightarrow> listed s j \<and> j \<noteq> r) \<and> (\<forall>j. j \<noteq> r \<longrightarrow> req s' j = req s j) \<and>
    (\<forall>c interrupted closed. rs_phase (wait_check c interrupted closed r s') r =
      (if interrupted then rs_phase s r else if closed then Leaving Leave_only else Returned 0))"
proof -
  obtain v s' where i: "signal_sftp_reply_invalid sftp (rq_id (req s r)) (buffer ! 4) s = (v, s')" by fastforce
  note f = invalid_found [OF assms(1) get_found [OF assms(1-3)] i]
  have nine: "unat (9 :: u32) = 9" by simp
  have "unat (4 + len) = 4 + unat len" using assms(9) by (subst unat_u32_plus) simp_all
  then have "siz < 4 + len" "\<not> siz < 9" "9 \<le> siz" using assms(6,8) nine unfolding word_less_nat_alt word_le_nat_alt by simp_all
  moreover have "mem_byte buffer 4 = Some (buffer ! 4)" using assms(5,6) by (intro mem_byte_nth) simp
  ultimately have "receive_sftp_reply ops sftp buffer siz seq clock s = Some s'"
    using assms(7,10) i f(1) by (simp add: receive_sftp_reply_def process_receive_sftp_reply_error_def)
  then show ?thesis using f assms(4) by blast
qed

definition cut_off_reply :: mem where
  "cut_off_reply = be32 100 @ [SSH_FXP_DATA] @ be32 0"

theorem cut_off_reply_reported_witness:
  "\<exists>s'. receive_sftp_reply recv_ops_v03 0 cut_off_reply 9 0 SYSTEM_TIME_INIT requests_2 = Some s' \<and>
    rp_type (rq_reply (req s' 5)) = SSH_FXP_DATA \<and> \<not> listed s' 5"
proof -
  have "rq_status (req requests_2 5) AND SFTP_REQUEST_STATUS_FINISH = 0"
    by (simp add: requests_2_def requests_0_def add_request_hashtable_def listed_def sendhash_facts Let_def init_sftp_request_def status_defs)
  moreover have "get_uint32 cut_off_reply 0 = Some 100" "get_uint32 cut_off_reply 5 = Some 0"
    using get_uint32_at [of "[]" 100 "[SSH_FXP_DATA] @ be32 0"] get_uint32_at [of "be32 100 @ [SSH_FXP_DATA]" 0 "[]"]
    by (simp_all add: cut_off_reply_def)
  moreover have "length cut_off_reply = 9" "cut_off_reply ! 4 = SSH_FXP_DATA" by (simp_all add: cut_off_reply_def nth_append)
  moreover have "unat (9 :: u32) = 9" "unat (100 :: u32) = 100" by simp_all
  ultimately show ?thesis
    using cut_off_reply_reported [of requests_2 5 cut_off_reply 9 100 recv_ops_v03 0 0 SYSTEM_TIME_INIT] requests_2_facts by auto
qed

section \<open>Where a message is trusted\<close>

text \<open>
  The test of the length wraps: for a length field from \<open>2^32 - 4\<close> on, \<open>4 + len\<close> is small; and for a length below five, the length of the rest
  is negative. In both cases the body is moved outside of the buffer.
\<close>

lemma reply_length_unsafe:
  assumes "length buffer = unat siz" and "9 \<le> unat siz" and "unat siz < 2 ^ 31" and "get_uint32 buffer 0 = Some len"
    and "get_uint32 buffer 5 = Some i" and "len < 5 \<or> 4294967292 \<le> len"
  shows "receive_sftp_reply ops sftp buffer siz seq clock s = None"
proof -
  have u: "unat (5 :: u32) = 5" "unat (4294967292 :: u32) = 4294967292" "unat (9 :: u32) = 9" by simp_all
  have l: "unat len < 5 \<or> 4294967292 \<le> unat len" using assms(6) u unfolding word_less_nat_alt word_le_nat_alt by simp
  have h: "unat (len - 5) \<ge> 2 ^ 31"
    using l unat_lt_u32 [of len] u(1) by (auto simp: unat_sub_if' word_size)
  have "unat (4 + len) = (4 + unat len) mod 4294967296" by (simp add: unat_u32_plus_mod)
  then have "unat (4 + len) \<le> 8" using l unat_lt_u32 [of len] by (auto simp: mod_if)
  then have "\<not> siz < 4 + len" "\<not> siz < 9" using assms(2) u unfolding word_less_nat_alt by simp_all
  moreover have "mem_move buffer 9 (unat (len - 5)) = None" using h assms(1,3) by (simp add: mem_move_def mem_load_def)
  moreover have "mem_byte buffer 4 = Some (buffer ! 4)" using assms(1,2) by (intro mem_byte_nth) simp
  ultimately show ?thesis using assms(4,5) by (simp add: receive_sftp_reply_def Let_def)
qed

text \<open>The size of data is not compared with the length of the message.\<close>

lemma data_size_unsafe:
  assumes "get_sftp_request sftp (hd_id header) s = (Some r, s')" and "get_uint32 (hd_buffer header) 0 = Some siz"
    and "length (hd_buffer header) < 4 + unat siz"
  shows "receive_sftp_data_v03 sftp header s = None"
  using assms by (simp add: receive_sftp_data_v03_def with_request_def mem_move_def mem_load_def)

text \<open>Nor is the length of the message in a status.\<close>

lemma status_message_unsafe:
  assumes "get_sftp_request sftp (hd_id header) s = (Some r, s')" and "get_uint32 (hd_buffer header) 0 = Some code"
    and "get_uint32 (hd_buffer header) 4 = Some len" and "length (hd_buffer header) < 8 + unat len" and "len > 0"
  shows "receive_sftp_status_v05 sftp header s = None"
  using assms by (simp add: receive_sftp_status_v05_def receive_sftp_status_generic_v05_def with_request_def mem_load_def)

text \<open>A version message while no thread waits for it.\<close>

lemma unexpected_version_unsafe:
  assumes "get_sftp_request sftp (- 1) s = (None, s')" and "siz \<ge> 5" and "get_uint32 buffer 0 = Some len"
    and "mem_byte buffer 4 = Some SSH_FXP_VERSION"
    and "5 + (len - 1) \<le> siz"
  shows "receive_sftp_init sftp buffer siz seq clock s = None"
  using assms by (simp add: receive_sftp_init_def Let_def bind_eq_None_conv)

end
