(* ===== verification/Users.thy ===== *)
theory Users
  imports Ssh_String
begin

text \<open>
  The mapping of users and groups between the two sides of a connection, \<open>src/lib/users\<close>: the fields of a \<open>getent\<close> line, the choice
  of the mapping functions, and these functions from the protocol to the local system and back.

  A name is a pointer into a memory object and a length; \<open>ne_mem\<close> is the object from the pointer on, or the null pointer. The domain, when there is one, is a
  place in the same object. The local user database is a parameter: what \<open>getpwnam\<close>, \<open>getpwuid\<close>, \<open>getgrnam\<close> and \<open>getgrgid\<close> find.
\<close>

section \<open>Data\<close>

definition NET_IDMAPPING_FLAG_INIT :: u32 where "NET_IDMAPPING_FLAG_INIT = 1"
definition NET_IDMAPPING_FLAG_CLIENT :: u32 where "NET_IDMAPPING_FLAG_CLIENT = 256"
definition NET_IDMAPPING_FLAG_SHARED :: u32 where "NET_IDMAPPING_FLAG_SHARED = 1024"
definition NET_IDMAPPING_FLAG_MAPBYID :: u32 where "NET_IDMAPPING_FLAG_MAPBYID = 1048576"
definition NET_IDMAPPING_FLAG_MAPBYNAME :: u32 where "NET_IDMAPPING_FLAG_MAPBYNAME = 2097152"
definition NET_IDMAPPING_FLAG_NONSTRICT :: u32 where "NET_IDMAPPING_FLAG_NONSTRICT = 4194304"
definition NET_IDMAPPING_FLAG_CACHE :: u32 where "NET_IDMAPPING_FLAG_CACHE = 8388608"

definition GETENT_FLAG_GROUP :: u8 where "GETENT_FLAG_GROUP = 2"

definition USERS_ENOENT :: u32 where "USERS_ENOENT = 2"
definition USERS_EIO :: u32 where "USERS_EIO = 5"

record net_entity_s =
  ne_flags :: u32
  ne_mem :: "mem option"
  ne_len :: u32
  ne_domain :: "(nat \<times> u32) option"
  ne_id :: u32
  ne_localid :: u32

text \<open>
  \<open>gf_id\<close> is the first member of the union: the user id of a user, the group id of a group. Names and directories are positions in the line.
\<close>

record getent_fields_s =
  gf_flags :: u8
  gf_name :: "nat option"
  gf_len :: u32
  gf_id :: u32
  gf_gid :: u32
  gf_fullname :: "nat option"
  gf_home :: "nat option"

text \<open>The functions the pointers of a mapping can point to; those for users and for groups are chosen together.\<close>

datatype p2l_cb = P2l_shared_byid | P2l_shared_byname | P2l_nonshared_byid | P2l_nonshared_byname
datatype l2p_cb = L2p_byid | L2p_byname_client | L2p_byname_server
datatype lookup_cb = Lookup_dummy | Lookup_byid_map | Lookup_byid_system | Lookup_byname_system | Lookup_cache
datatype setup_cb = Setup_net | Setup_done

record user_db =
  db_uid_byname :: "u8 list \<Rightarrow> u32 option"
  db_gid_byname :: "u8 list \<Rightarrow> u32 option"
  db_user_byuid :: "u32 \<Rightarrow> u8 list option"
  db_group_bygid :: "u32 \<Rightarrow> u8 list option"

text \<open>The two \<open>find\<close> functions of the cache, when there is one: the entity and the error code afterwards.\<close>

record users_cache_ops =
  find_user_ent2local :: "net_entity_s \<Rightarrow> (net_entity_s \<times> u32) option"
  find_group_ent2local :: "net_entity_s \<Rightarrow> (net_entity_s \<times> u32) option"

record net_idmapping_s =
  im_flags :: u32
  im_pw_uid :: u32
  im_pw_gid :: u32
  im_getent_su :: mem
  im_getent_su_len :: u32
  im_su :: getent_fields_s
  im_getent_sg :: mem
  im_getent_sg_len :: u32
  im_sg :: getent_fields_s
  im_unknown_uid :: u32
  im_unknown_gid :: u32
  im_p2l :: "p2l_cb option"
  im_l2p :: "l2p_cb option"
  im_lookup :: lookup_cb
  im_setup :: "setup_cb option"
  im_cache :: "users_cache_ops option"

section \<open>The fields of a line\<close>

text \<open>The standard library: \<open>memchr\<close> on \<open>n\<close> bytes, which stops at the byte it finds, and \<open>atoi\<close>, of which an overflow is undefined.\<close>

definition c_memchr :: "mem \<Rightarrow> nat \<Rightarrow> u8 \<Rightarrow> nat \<Rightarrow> nat option option" where
  "c_memchr m pos c n =
     (let k = length (takeWhile (\<lambda>b. b \<noteq> c) (take n (drop pos m))) in
      if k < n \<and> pos + k < length m then Some (Some (pos + k))
      else if pos + n \<le> length m then Some None else None)"

definition c_isspace :: "u8 \<Rightarrow> bool" where
  "c_isspace b \<longleftrightarrow> b = 32 \<or> 9 \<le> b \<and> b \<le> 13"

definition c_isdigit :: "u8 \<Rightarrow> bool" where
  "c_isdigit b \<longleftrightarrow> 48 \<le> b \<and> b \<le> 57"

definition digits_value :: "u8 list \<Rightarrow> nat" where
  "digits_value ds = foldl (\<lambda>v d. 10 * v + unat (d - 48)) 0 ds"

definition c_atoi :: "mem \<Rightarrow> nat \<Rightarrow> int option" where
  "c_atoi m pos =
     (let t = dropWhile c_isspace (drop pos m);
          neg = (t \<noteq> [] \<and> hd t = 45);
          t = (if t \<noteq> [] \<and> (hd t = 45 \<or> hd t = 43) then tl t else t);
          ds = takeWhile c_isdigit t;
          v = (if neg then - int (digits_value ds) else int (digits_value ds)) in
      if length ds < length t \<and> - (2 ^ 31) \<le> v \<and> v < 2 ^ 31 then Some v else None)"

definition init_getent_fields :: getent_fields_s where
  "init_getent_fields = \<lparr>gf_flags = 0, gf_name = None, gf_len = 0, gf_id = 0, gf_gid = 0, gf_fullname = None, gf_home = None\<rparr>"

definition get_next_field :: "mem \<Rightarrow> nat \<Rightarrow> int \<Rightarrow> (mem \<times> nat option \<times> int) option" where
  "get_next_field m pos siz =
     (if siz \<le> 0 then Some (m, None, siz)
      else do {
        sep \<leftarrow> c_memchr m pos 58 (nat siz);
        Some (case sep of
          None \<Rightarrow> (m, None, siz)
        | Some i \<Rightarrow> (m[i := 0], Some (i + 1), siz - int (i + 1 - pos))) })"

text \<open>The result -1 is the label \<open>error\<close>.\<close>

definition get_getent_fields :: "mem \<Rightarrow> u32 \<Rightarrow> getent_fields_s \<Rightarrow> (int \<times> mem \<times> getent_fields_s) option" where
  "get_getent_fields m len flds = do {
     let left = sint len;
     let flds = flds\<lparr>gf_name := Some 0\<rparr>;
     (m, pos, left) \<leftarrow> get_next_field m 0 left;
     case pos of None \<Rightarrow> Some (-1, m, flds) | Some pos \<Rightarrow> do {
     n \<leftarrow> c_strlen m;
     let flds = flds\<lparr>gf_len := of_nat n\<rparr>;
     (m, pos, left) \<leftarrow> get_next_field m pos left;
     case pos of None \<Rightarrow> Some (-1, m, flds) | Some pos \<Rightarrow> do {
     let tmp = pos;
     (m, pos, left) \<leftarrow> get_next_field m pos left;
     case pos of None \<Rightarrow> Some (-1, m, flds) | Some pos \<Rightarrow> do {
     n \<leftarrow> c_atoi m tmp;
     let flds = flds\<lparr>gf_id := word_of_int n\<rparr>;
     if gf_flags flds AND GETENT_FLAG_GROUP \<noteq> 0 then Some (0, m, flds)
     else do {
     let tmp = pos;
     (m, pos, left) \<leftarrow> get_next_field m pos left;
     case pos of None \<Rightarrow> Some (-1, m, flds) | Some pos \<Rightarrow> do {
     n \<leftarrow> c_atoi m tmp;
     let flds = flds\<lparr>gf_id := word_of_int n, gf_fullname := Some pos\<rparr>;
     (m, pos, left) \<leftarrow> get_next_field m pos left;
     case pos of None \<Rightarrow> Some (-1, m, flds) | Some pos \<Rightarrow> do {
     let flds = flds\<lparr>gf_home := Some pos\<rparr>;
     (m, pos, left) \<leftarrow> get_next_field m pos left;
     Some (0, m, flds) } } } } } } }"

section \<open>Lookups\<close>

text \<open>The local id is changed only when the name or id is known.\<close>

definition get_local_uid_byname :: "user_db \<Rightarrow> u8 list \<Rightarrow> u32 \<Rightarrow> u32 \<times> u32" where
  "get_local_uid_byname db name uid = (case db_uid_byname db name of Some pw_uid \<Rightarrow> (pw_uid, 0) | None \<Rightarrow> (uid, USERS_ENOENT))"

definition get_local_uid_byid :: "user_db \<Rightarrow> u32 \<Rightarrow> u32 \<Rightarrow> u32 \<Rightarrow> u32 \<times> u32" where
  "get_local_uid_byid db rid uid error = (case db_user_byuid db rid of Some _ \<Rightarrow> (rid, error) | None \<Rightarrow> (uid, USERS_ENOENT))"

definition get_local_gid_byname :: "user_db \<Rightarrow> u8 list \<Rightarrow> u32 \<Rightarrow> u32 \<times> u32" where
  "get_local_gid_byname db name gid = (case db_gid_byname db name of Some gr_gid \<Rightarrow> (gr_gid, 0) | None \<Rightarrow> (gid, USERS_ENOENT))"

definition get_local_gid_byid :: "user_db \<Rightarrow> u32 \<Rightarrow> u32 \<Rightarrow> u32 \<Rightarrow> u32 \<times> u32" where
  "get_local_gid_byid db rid gid error = (case db_group_bygid db rid of Some _ \<Rightarrow> (rid, error) | None \<Rightarrow> (gid, USERS_ENOENT))"

definition lookup_user_byid_map :: "net_entity_s \<Rightarrow> (net_entity_s \<times> u32) option" where
  "lookup_user_byid_map user = Some (user\<lparr>ne_localid := ne_id user\<rparr>, 0)"

definition lookup_group_byid_map :: "net_entity_s \<Rightarrow> (net_entity_s \<times> u32) option" where
  "lookup_group_byid_map grp = Some (grp\<lparr>ne_localid := ne_id grp\<rparr>, 0)"

definition lookup_user_byid_system :: "user_db \<Rightarrow> net_entity_s \<Rightarrow> (net_entity_s \<times> u32) option" where
  "lookup_user_byid_system db user =
     (let (uid, error) = get_local_uid_byid db (ne_id user) (ne_localid user) 0 in Some (user\<lparr>ne_localid := uid\<rparr>, error))"

definition lookup_group_byid_system :: "user_db \<Rightarrow> net_entity_s \<Rightarrow> (net_entity_s \<times> u32) option" where
  "lookup_group_byid_system db grp =
     (let (gid, error) = get_local_gid_byid db (ne_id grp) (ne_localid grp) 0 in Some (grp\<lparr>ne_localid := gid\<rparr>, error))"

text \<open>The name is copied to the stack with a zero byte after it; the database sees it up to the first zero byte.\<close>

definition stack_name :: "net_entity_s \<Rightarrow> mem option" where
  "stack_name e = do {
     m \<leftarrow> ne_mem e;
     bs \<leftarrow> mem_load m 0 (unat (ne_len e));
     tmp \<leftarrow> mem_store (stack_array (ne_len e + 1)) 0 bs;
     mem_store tmp (unat (ne_len e)) [0] }"

lemma stack_name_eq:
  assumes "ne_mem e = Some m" and "unat (ne_len e) \<le> length m" and "unat (ne_len e) + 1 < 2 ^ 32"
  shows "stack_name e = Some (take (unat (ne_len e)) m @ [0])"
proof -
  have "unat (ne_len e + 1) = unat (ne_len e) + 1" using assms(3) by (subst unat_u32_plus) simp_all
  moreover have "length (take (unat (ne_len e)) m) = unat (ne_len e)" using assms(2) by simp
  ultimately show ?thesis
    using assms(1,2) drop_zeros [of "unat (ne_len e)" 1] by (simp add: stack_name_def mem_load_def mem_store_def stack_array_def)
qed

definition lookup_user_byname_system :: "user_db \<Rightarrow> net_entity_s \<Rightarrow> (net_entity_s \<times> u32) option" where
  "lookup_user_byname_system db user = do {
     tmp \<leftarrow> stack_name user;
     let (uid, error) = get_local_uid_byname db (takeWhile (\<lambda>b. b \<noteq> 0) tmp) (ne_localid user);
     Some (user\<lparr>ne_localid := uid\<rparr>, error) }"

definition lookup_group_byname_system :: "user_db \<Rightarrow> net_entity_s \<Rightarrow> (net_entity_s \<times> u32) option" where
  "lookup_group_byname_system db grp = do {
     tmp \<leftarrow> stack_name grp;
     let (gid, error) = get_local_gid_byname db (takeWhile (\<lambda>b. b \<noteq> 0) tmp) (ne_localid grp);
     Some (grp\<lparr>ne_localid := gid\<rparr>, error) }"

definition lookup_user_cache :: "net_idmapping_s \<Rightarrow> net_entity_s \<Rightarrow> (net_entity_s \<times> u32) option" where
  "lookup_user_cache mapping entity = do { cache \<leftarrow> im_cache mapping; find_user_ent2local cache entity }"

definition lookup_group_cache :: "net_idmapping_s \<Rightarrow> net_entity_s \<Rightarrow> (net_entity_s \<times> u32) option" where
  "lookup_group_cache mapping entity = do { cache \<leftarrow> im_cache mapping; find_group_ent2local cache entity }"

definition lookup_dummy :: "net_entity_s \<Rightarrow> (net_entity_s \<times> u32) option" where
  "lookup_dummy e = Some (e, 0)"

text \<open>The calls through the pointers \<open>lookup_user\<close> and \<open>lookup_group\<close>; the callers do not look at the error.\<close>

definition call_lookup_user :: "user_db \<Rightarrow> net_idmapping_s \<Rightarrow> net_entity_s \<Rightarrow> net_entity_s option" where
  "call_lookup_user db mapping user = map_option fst (case im_lookup mapping of
     Lookup_dummy \<Rightarrow> lookup_dummy user
   | Lookup_byid_map \<Rightarrow> lookup_user_byid_map user
   | Lookup_byid_system \<Rightarrow> lookup_user_byid_system db user
   | Lookup_byname_system \<Rightarrow> lookup_user_byname_system db user
   | Lookup_cache \<Rightarrow> lookup_user_cache mapping user)"

definition call_lookup_group :: "user_db \<Rightarrow> net_idmapping_s \<Rightarrow> net_entity_s \<Rightarrow> net_entity_s option" where
  "call_lookup_group db mapping grp = map_option fst (case im_lookup mapping of
     Lookup_dummy \<Rightarrow> lookup_dummy grp
   | Lookup_byid_map \<Rightarrow> lookup_group_byid_map grp
   | Lookup_byid_system \<Rightarrow> lookup_group_byid_system db grp
   | Lookup_byname_system \<Rightarrow> lookup_group_byname_system db grp
   | Lookup_cache \<Rightarrow> lookup_group_cache mapping grp)"

section \<open>From the protocol to the local system\<close>

definition get_user_p2l_shared_byid :: "user_db \<Rightarrow> net_idmapping_s \<Rightarrow> net_entity_s \<Rightarrow> net_entity_s option" where
  "get_user_p2l_shared_byid db mapping user = call_lookup_user db mapping (user\<lparr>ne_localid := im_unknown_uid mapping\<rparr>)"

definition get_group_p2l_shared_byid :: "user_db \<Rightarrow> net_idmapping_s \<Rightarrow> net_entity_s \<Rightarrow> net_entity_s option" where
  "get_group_p2l_shared_byid db mapping grp = call_lookup_group db mapping (grp\<lparr>ne_localid := im_unknown_gid mapping\<rparr>)"

text \<open>
  The search for the domain: \<open>memchr\<close> gets the length as the byte to look for and the code of \<open>@\<close>, 64, as the number of bytes. The
  result says whether a byte was found; the difference of the lengths is unsigned.
\<close>

definition split_domain :: "net_entity_s \<Rightarrow> (bool \<times> net_entity_s) option" where
  "split_domain ent = do {
     m \<leftarrow> ne_mem ent;
     sep \<leftarrow> c_memchr m 0 (ucast (ne_len ent)) 64;
     Some (case sep of
       None \<Rightarrow> (False, ent)
     | Some i \<Rightarrow> (True, ent\<lparr>ne_domain := Some (i + 1, ne_len ent - of_nat i - 1), ne_mem := Some (m[i := 0]), ne_len := of_nat i\<rparr>)) }"

definition get_user_p2l_shared_byname :: "user_db \<Rightarrow> net_idmapping_s \<Rightarrow> net_entity_s \<Rightarrow> net_entity_s option" where
  "get_user_p2l_shared_byname db mapping user = do {
     (sep, user) \<leftarrow> split_domain (user\<lparr>ne_localid := im_unknown_uid mapping\<rparr>);
     call_lookup_user db mapping user }"

definition get_group_p2l_shared_byname :: "user_db \<Rightarrow> net_idmapping_s \<Rightarrow> net_entity_s \<Rightarrow> net_entity_s option" where
  "get_group_p2l_shared_byname db mapping grp = do {
     (sep, grp) \<leftarrow> split_domain (grp\<lparr>ne_localid := im_unknown_gid mapping\<rparr>);
     call_lookup_group db mapping grp }"

definition get_user_p2l_nonshared_byid :: "user_db \<Rightarrow> net_idmapping_s \<Rightarrow> net_entity_s \<Rightarrow> net_entity_s option" where
  "get_user_p2l_nonshared_byid db mapping user =
     (let user = user\<lparr>ne_localid := im_unknown_uid mapping\<rparr> in
      if ne_id user = gf_id (im_su mapping) then Some (user\<lparr>ne_localid := im_pw_uid mapping\<rparr>)
      else if ne_id user = 0 then Some (user\<lparr>ne_localid := 0\<rparr>)
      else call_lookup_user db mapping user)"

definition get_group_p2l_nonshared_byid :: "user_db \<Rightarrow> net_idmapping_s \<Rightarrow> net_entity_s \<Rightarrow> net_entity_s option" where
  "get_group_p2l_nonshared_byid db mapping grp =
     (let grp = grp\<lparr>ne_localid := im_unknown_gid mapping\<rparr> in
      if ne_id grp = gf_id (im_sg mapping) then Some (grp\<lparr>ne_localid := im_pw_gid mapping\<rparr>)
      else if ne_id grp = 0 then Some (grp\<lparr>ne_localid := 0\<rparr>)
      else call_lookup_group db mapping grp)"

definition root_name :: "u8 list" where "root_name = [114, 111, 111, 116]"

text \<open>\<open>memcmp\<close> of the name with a text of the same length; the lengths are compared first.\<close>

definition name_is :: "net_entity_s \<Rightarrow> mem \<Rightarrow> nat \<Rightarrow> u32 \<Rightarrow> bool option" where
  "name_is ent m pos len =
     (if ne_len ent = len then do {
        name \<leftarrow> ne_mem ent;
        a \<leftarrow> mem_load name 0 (unat len);
        b \<leftarrow> mem_load m pos (unat len);
        Some (a = b) }
      else Some False)"

definition get_user_p2l_nonshared_byname :: "user_db \<Rightarrow> net_idmapping_s \<Rightarrow> net_entity_s \<Rightarrow> net_entity_s option" where
  "get_user_p2l_nonshared_byname db mapping user = do {
     (sep, user) \<leftarrow> split_domain (user\<lparr>ne_localid := im_unknown_uid mapping\<rparr>);
     if sep then call_lookup_user db mapping user
     else do {
       pos \<leftarrow> (if ne_len user = gf_len (im_su mapping) then gf_name (im_su mapping) else Some 0);
       own \<leftarrow> name_is user (im_getent_su mapping) pos (gf_len (im_su mapping));
       if own then Some (user\<lparr>ne_localid := im_pw_uid mapping\<rparr>)
       else do {
         root \<leftarrow> name_is user root_name 0 4;
         if root then Some (user\<lparr>ne_localid := 0\<rparr>) else call_lookup_user db mapping user } } }"

definition get_group_p2l_nonshared_byname :: "user_db \<Rightarrow> net_idmapping_s \<Rightarrow> net_entity_s \<Rightarrow> net_entity_s option" where
  "get_group_p2l_nonshared_byname db mapping grp = do {
     (sep, grp) \<leftarrow> split_domain (grp\<lparr>ne_localid := im_unknown_gid mapping\<rparr>);
     if sep then call_lookup_group db mapping grp
     else do {
       pos \<leftarrow> (if ne_len grp = gf_len (im_sg mapping) then gf_name (im_sg mapping) else Some 0);
       own \<leftarrow> name_is grp (im_getent_sg mapping) pos (gf_len (im_sg mapping));
       if own then Some (grp\<lparr>ne_localid := im_pw_gid mapping\<rparr>)
       else do {
         root \<leftarrow> name_is grp root_name 0 4;
         if root then Some (grp\<lparr>ne_localid := 0\<rparr>) else call_lookup_group db mapping grp } } }"

section \<open>From the local system to the protocol\<close>

definition get_user_l2p_byid :: "net_idmapping_s \<Rightarrow> net_entity_s \<Rightarrow> net_entity_s option" where
  "get_user_l2p_byid m user =
     (let user = user\<lparr>ne_id := gf_id (im_su m)\<rparr> in Some (if ne_localid user = 0 then user\<lparr>ne_id := 0\<rparr> else user))"

definition get_group_l2p_byid :: "net_idmapping_s \<Rightarrow> net_entity_s \<Rightarrow> net_entity_s option" where
  "get_group_l2p_byid m grp =
     (let grp = grp\<lparr>ne_id := gf_id (im_sg m)\<rparr> in Some (if ne_localid grp = 0 then grp\<lparr>ne_id := 0\<rparr> else grp))"

text \<open>Writing a name to where the entity points, if it points anywhere; only the length counts otherwise.\<close>

definition write_name :: "net_entity_s \<Rightarrow> u8 list option \<Rightarrow> u32 \<Rightarrow> net_entity_s option" where
  "write_name ent name len =
     (case ne_mem ent of
        None \<Rightarrow> Some (ent\<lparr>ne_len := len\<rparr>)
      | Some m \<Rightarrow> do { bs \<leftarrow> name; m \<leftarrow> mem_store m 0 bs; Some (ent\<lparr>ne_len := len, ne_mem := Some m\<rparr>) })"

definition get_user_l2p_byname_client :: "net_idmapping_s \<Rightarrow> net_entity_s \<Rightarrow> net_entity_s option" where
  "get_user_l2p_byname_client m user =
     (if ne_localid user = 0 then write_name user (Some root_name) 4
      else write_name user (do { pos \<leftarrow> gf_name (im_su m); mem_load (im_getent_su m) pos (unat (gf_len (im_su m))) }) (gf_len (im_su m)))"

definition get_group_l2p_byname_client :: "net_idmapping_s \<Rightarrow> net_entity_s \<Rightarrow> net_entity_s option" where
  "get_group_l2p_byname_client m grp =
     (if ne_localid grp = 0 then write_name grp (Some root_name) 4
      else write_name grp (do { pos \<leftarrow> gf_name (im_sg m); mem_load (im_getent_sg m) pos (unat (gf_len (im_sg m))) }) (gf_len (im_sg m)))"

definition cb_id_found :: "u8 list \<Rightarrow> net_entity_s \<Rightarrow> net_entity_s option" where
  "cb_id_found name ent = do {
     m \<leftarrow> ne_mem ent;
     m \<leftarrow> mem_store m 0 name;
     Some (ent\<lparr>ne_len := of_nat (length name), ne_mem := Some m\<rparr>) }"

definition cb_id_notfound :: "net_entity_s \<Rightarrow> net_entity_s option" where
  "cb_id_notfound ent = Some (ent\<lparr>ne_len := 0\<rparr>)"

definition get_local_user_byuid :: "user_db \<Rightarrow> u32 \<Rightarrow> (u8 list \<Rightarrow> 'a) \<Rightarrow> 'a \<Rightarrow> 'a" where
  "get_local_user_byuid db uid cb_found cb_notfound = (case db_user_byuid db uid of Some pw_name \<Rightarrow> cb_found pw_name | None \<Rightarrow> cb_notfound)"

definition get_local_group_bygid :: "user_db \<Rightarrow> u32 \<Rightarrow> (u8 list \<Rightarrow> 'a) \<Rightarrow> 'a \<Rightarrow> 'a" where
  "get_local_group_bygid db gid cb_found cb_notfound = (case db_group_bygid db gid of Some gr_name \<Rightarrow> cb_found gr_name | None \<Rightarrow> cb_notfound)"

definition get_user_l2p_byname_server :: "user_db \<Rightarrow> net_entity_s \<Rightarrow> net_entity_s option" where
  "get_user_l2p_byname_server db user = get_local_user_byuid db (ne_localid user) (\<lambda>name. cb_id_found name user) (cb_id_notfound user)"

definition get_group_l2p_byname_server :: "user_db \<Rightarrow> net_entity_s \<Rightarrow> net_entity_s option" where
  "get_group_l2p_byname_server db grp = get_local_group_bygid db (ne_localid grp) (\<lambda>name. cb_id_found name grp) (cb_id_notfound grp)"

section \<open>Choosing the functions\<close>

definition set_net_entity_map_func :: "net_idmapping_s \<Rightarrow> u32 \<Rightarrow> net_idmapping_s" where
  "set_net_entity_map_func m flags =
     (let flags = flags AND (NET_IDMAPPING_FLAG_MAPBYID OR NET_IDMAPPING_FLAG_MAPBYNAME);
          m = m\<lparr>im_lookup := Lookup_dummy\<rparr>;
          byname_l2p = (if im_flags m AND NET_IDMAPPING_FLAG_CLIENT \<noteq> 0 then L2p_byname_client else L2p_byname_server) in
      if im_flags m AND NET_IDMAPPING_FLAG_SHARED \<noteq> 0 then
        (if flags AND NET_IDMAPPING_FLAG_MAPBYID \<noteq> 0 then
           m\<lparr>im_p2l := Some P2l_shared_byid, im_l2p := Some L2p_byid, im_lookup := Lookup_byid_map,
             im_flags := im_flags m OR NET_IDMAPPING_FLAG_MAPBYID\<rparr>
         else if flags AND NET_IDMAPPING_FLAG_MAPBYNAME \<noteq> 0 then
           m\<lparr>im_p2l := Some P2l_shared_byname, im_l2p := Some byname_l2p, im_lookup := Lookup_byname_system,
             im_flags := im_flags m OR NET_IDMAPPING_FLAG_MAPBYNAME\<rparr>
         else m)
      else if flags AND NET_IDMAPPING_FLAG_MAPBYID \<noteq> 0 then
        m\<lparr>im_p2l := Some P2l_nonshared_byid, im_l2p := Some L2p_byid,
          im_lookup := (if im_flags m AND NET_IDMAPPING_FLAG_CACHE \<noteq> 0 then Lookup_cache
            else if im_flags m AND NET_IDMAPPING_FLAG_NONSTRICT \<noteq> 0 then Lookup_byid_map else Lookup_byid_system),
          im_flags := im_flags m OR NET_IDMAPPING_FLAG_MAPBYID\<rparr>
      else if flags AND NET_IDMAPPING_FLAG_MAPBYNAME \<noteq> 0 then
        m\<lparr>im_p2l := Some P2l_nonshared_byname, im_l2p := Some byname_l2p, im_lookup := Lookup_byname_system,
          im_flags := im_flags m OR NET_IDMAPPING_FLAG_MAPBYNAME\<rparr>
      else m)"

definition init_net_idmapping :: "u32 \<Rightarrow> u32 \<Rightarrow> net_idmapping_s" where
  "init_net_idmapping pw_uid pw_gid = set_net_entity_map_func
     \<lparr>im_flags = NET_IDMAPPING_FLAG_INIT, im_pw_uid = pw_uid, im_pw_gid = pw_gid, im_getent_su = [], im_getent_su_len = 0, im_su = init_getent_fields,
      im_getent_sg = [], im_getent_sg_len = 0, im_sg = init_getent_fields, im_unknown_uid = -1, im_unknown_gid = -1, im_p2l = None, im_l2p = None,
      im_lookup = Lookup_dummy, im_setup = None, im_cache = None\<rparr> NET_IDMAPPING_FLAG_MAPBYID"

text \<open>The calls through the pointers of \<open>mapcb\<close>.\<close>

definition call_user_p2l :: "user_db \<Rightarrow> net_idmapping_s \<Rightarrow> net_entity_s \<Rightarrow> net_entity_s option" where
  "call_user_p2l db m user = do {
     cb \<leftarrow> im_p2l m;
     case cb of
       P2l_shared_byid \<Rightarrow> get_user_p2l_shared_byid db m user
     | P2l_shared_byname \<Rightarrow> get_user_p2l_shared_byname db m user
     | P2l_nonshared_byid \<Rightarrow> get_user_p2l_nonshared_byid db m user
     | P2l_nonshared_byname \<Rightarrow> get_user_p2l_nonshared_byname db m user }"

definition call_group_p2l :: "user_db \<Rightarrow> net_idmapping_s \<Rightarrow> net_entity_s \<Rightarrow> net_entity_s option" where
  "call_group_p2l db m grp = do {
     cb \<leftarrow> im_p2l m;
     case cb of
       P2l_shared_byid \<Rightarrow> get_group_p2l_shared_byid db m grp
     | P2l_shared_byname \<Rightarrow> get_group_p2l_shared_byname db m grp
     | P2l_nonshared_byid \<Rightarrow> get_group_p2l_nonshared_byid db m grp
     | P2l_nonshared_byname \<Rightarrow> get_group_p2l_nonshared_byname db m grp }"

definition call_user_l2p :: "user_db \<Rightarrow> net_idmapping_s \<Rightarrow> net_entity_s \<Rightarrow> net_entity_s option" where
  "call_user_l2p db m user = do {
     cb \<leftarrow> im_l2p m;
     case cb of
       L2p_byid \<Rightarrow> get_user_l2p_byid m user
     | L2p_byname_client \<Rightarrow> get_user_l2p_byname_client m user
     | L2p_byname_server \<Rightarrow> get_user_l2p_byname_server db user }"

definition call_group_l2p :: "user_db \<Rightarrow> net_idmapping_s \<Rightarrow> net_entity_s \<Rightarrow> net_entity_s option" where
  "call_group_l2p db m grp = do {
     cb \<leftarrow> im_l2p m;
     case cb of
       L2p_byid \<Rightarrow> get_group_l2p_byid m grp
     | L2p_byname_client \<Rightarrow> get_group_l2p_byname_client m grp
     | L2p_byname_server \<Rightarrow> get_group_l2p_byname_server db grp }"

section \<open>The fields of a well-formed line\<close>

lemma takeWhile_upto: "c \<notin> set f \<Longrightarrow> takeWhile (\<lambda>b. b \<noteq> c) (f @ c # r) = f"
  by (induction f) auto

lemma sint_of_nat_u32: "n < 2 ^ 31 \<Longrightarrow> sint (of_nat n :: u32) = int n"
  by (simp add: signed_of_nat signed_take_bit_int_eq_self)

lemma memchr_found:
  assumes "c \<notin> set f" and "length f < n"
  shows "c_memchr (pre @ f @ c # post) (length pre) c n = Some (Some (length pre + length f))"
proof -
  have "takeWhile (\<lambda>b. b \<noteq> c) (take n (f @ c # post)) = f"
    using assms takeWhile_upto [of c f "take (n - length f - 1) post"] by (simp add: take_Cons')
  then show ?thesis using assms(2) by (simp add: c_memchr_def)
qed

lemma next_field_found:
  assumes "58 \<notin> set f" and "int (length f) < siz"
  shows "get_next_field (pre @ f @ 58 # post) (length pre) siz =
    Some (pre @ f @ 0 # post, Some (length pre + length f + 1), siz - int (length f) - 1)"
proof -
  have "c_memchr (pre @ f @ 58 # post) (length pre) 58 (nat siz) = Some (Some (length pre + length f))"
    by (rule memchr_found) (use assms in simp_all)
  moreover have "(pre @ f @ 58 # post)[length pre + length f := 0] = pre @ f @ 0 # post" by (simp add: list_update_append)
  ultimately show ?thesis using assms(2) by (simp add: get_next_field_def)
qed

lemma atoi_digits:
  assumes "\<forall>d \<in> set ds. c_isdigit d" and "digits_value ds < 2 ^ 31"
  shows "c_atoi (pre @ ds @ 0 # post) (length pre) = Some (int (digits_value ds))"
proof -
  have z: "\<not> c_isdigit 0" "\<not> c_isspace 0" by (simp_all add: c_isdigit_def c_isspace_def)
  have d: "\<not> c_isspace d \<and> d \<noteq> 45 \<and> d \<noteq> 43" if "c_isdigit d" for d
  proof -
    have "48 \<le> unat d" using that by (simp add: c_isdigit_def word_le_nat_alt)
    then show ?thesis by (auto simp: c_isspace_def word_le_nat_alt)
  qed
  have h: "dropWhile c_isspace (ds @ 0 # post) = ds @ 0 # post" using z d assms(1) by (cases ds) auto
  have t: "takeWhile c_isdigit (ds @ 0 # post) = ds" using z assms(1) by (simp add: takeWhile_append2)
  have "hd (ds @ 0 # post) \<noteq> 45" "hd (ds @ 0 # post) \<noteq> 43" using d assms(1) by (cases ds; simp)+
  then show ?thesis using assms(2) t h by (simp add: c_atoi_def Let_def)
qed

lemma strlen_prefix: "0 \<notin> set f \<Longrightarrow> c_strlen (f @ 0 # post) = Some (length f)"
  by (simp add: c_strlen_def takeWhile_upto)

text \<open>The three fields users and groups have in common.\<close>

definition getent_start :: "u8 list \<Rightarrow> u8 list \<Rightarrow> u8 list \<Rightarrow> bool" where
  "getent_start name pw num \<longleftrightarrow> 58 \<notin> set name \<and> 0 \<notin> set name \<and> 58 \<notin> set pw \<and> (\<forall>d \<in> set num. c_isdigit d) \<and> digits_value num < 2 ^ 31"

lemma digits_no_colon: "\<forall>d \<in> set ds. c_isdigit d \<Longrightarrow> 58 \<notin> set ds"
  by (auto simp: c_isdigit_def)

lemma getent_common:
  fixes flds :: getent_fields_s
  assumes "getent_start name pw num" and "length (name @ 58 # pw @ 58 # num @ 58 # rest) < 2 ^ 31"
  defines "line \<equiv> name @ 58 # pw @ 58 # num @ 58 # rest" and "m \<equiv> name @ 0 # pw @ 0 # num @ 0 # rest"
    and "flds1 \<equiv> flds\<lparr>gf_name := Some 0, gf_len := of_nat (length name), gf_id := of_nat (digits_value num)\<rparr>"
    and "pos \<equiv> length name + length pw + length num + 3"
  shows "get_getent_fields (line @ tail) (of_nat (length line)) flds =
    (if gf_flags flds AND GETENT_FLAG_GROUP \<noteq> 0 then Some (0, m @ tail, flds1)
     else do {
       (m, pos', left) \<leftarrow> get_next_field (m @ tail) pos (int (length rest));
       case pos' of None \<Rightarrow> Some (-1, m, flds1) | Some pos' \<Rightarrow> do {
       n \<leftarrow> c_atoi m pos;
       let flds = flds1\<lparr>gf_id := word_of_int n, gf_fullname := Some pos'\<rparr>;
       (m, pos, left) \<leftarrow> get_next_field m pos' left;
       case pos of None \<Rightarrow> Some (-1, m, flds) | Some pos \<Rightarrow> do {
       let flds = flds\<lparr>gf_home := Some pos\<rparr>;
       (m, pos, left) \<leftarrow> get_next_field m pos left;
       Some (0, m, flds) } } })"
proof -
  have g: "58 \<notin> set name" "0 \<notin> set name" "58 \<notin> set pw" "\<forall>d \<in> set num. c_isdigit d" "digits_value num < 2 ^ 31"
    using assms(1) by (simp_all add: getent_start_def)
  have n: "58 \<notin> set num" using digits_no_colon [OF g(4)] .
  have l: "sint (of_nat (length line) :: u32) = int (length line)" using assms(2) by (intro sint_of_nat_u32) (simp add: line_def)
  let ?m1 = "name @ 0 # pw @ 58 # num @ 58 # rest @ tail" and ?m2 = "name @ 0 # pw @ 0 # num @ 58 # rest @ tail"
  have 1: "get_next_field (line @ tail) 0 (int (length line)) = Some (?m1, Some (length name + 1), int (length pw + length num + length rest + 2))"
    using next_field_found [OF g(1), of "int (length line)" "[]" "pw @ 58 # num @ 58 # rest @ tail"] by (simp add: line_def)
  have 2: "get_next_field ?m1 (length name + 1) (int (length pw + length num + length rest + 2)) =
      Some (?m2, Some (length name + length pw + 2), int (length num + length rest + 1))"
    using next_field_found [OF g(3), of "int (length pw + length num + length rest + 2)" "name @ [0]" "num @ 58 # rest @ tail"] by simp
  have 3: "get_next_field ?m2 (length name + length pw + 2) (int (length num + length rest + 1)) = Some (m @ tail, Some pos, int (length rest))"
    using next_field_found [OF n, of "int (length num + length rest + 1)" "name @ 0 # pw @ [0]" "rest @ tail"] by (simp add: m_def pos_def)
  have s: "c_strlen ?m1 = Some (length name)" using strlen_prefix [OF g(2)] by simp
  have a: "c_atoi (m @ tail) (length name + length pw + 2) = Some (int (digits_value num))"
    using atoi_digits [OF g(4,5), of "name @ 0 # pw @ [0]" "rest @ tail"] by (simp add: m_def)
  have f: "flds\<lparr>gf_name := Some 0, gf_len := word_of_nat (length name), gf_id := word_of_int (int (digits_value num))\<rparr> = flds1"
      "gf_flags flds1 = gf_flags flds" by (simp_all add: flds1_def)
  show ?thesis
    unfolding get_getent_fields_def Let_def l 1 by (simp only: s 2 3 a f Option.bind.bind_lunit prod.case option.case)
qed

text \<open>
  C34: the fields of a group: of a line \<open>name:password:gid:rest\<close> the name and the id are found, whatever comes after it in memory.
\<close>

theorem getent_group_fields:
  assumes "getent_start name pw num" and "length (name @ 58 # pw @ 58 # num @ 58 # rest) < 2 ^ 31" and "gf_flags flds AND GETENT_FLAG_GROUP \<noteq> 0"
  shows "\<exists>m flds'. get_getent_fields ((name @ 58 # pw @ 58 # num @ 58 # rest) @ tail) (of_nat (length (name @ 58 # pw @ 58 # num @ 58 # rest))) flds =
      Some (0, m, flds') \<and> gf_name flds' = Some 0 \<and> gf_len flds' = of_nat (length name) \<and> take (length name) m = name \<and>
      gf_id flds' = of_nat (digits_value num)"
  unfolding getent_common [OF assms(1,2)] using assms(3) by simp

theorem getent_group_fields_witness:
  "getent_start [97] [120] [53, 48] \<and>
   (\<exists>m flds'. get_getent_fields (([97] @ 58 # [120] @ 58 # [53, 48] @ 58 # []) @ [0, 0]) (of_nat (length ([97] @ 58 # [120] @ 58 # [53, 48] @ 58 # ([] :: u8 list))))
      (init_getent_fields\<lparr>gf_flags := 2\<rparr>) = Some (0, m, flds') \<and> gf_id flds' = 50)"
proof -
  have s: "getent_start [97] [120] [53, 48]" by (simp add: getent_start_def c_isdigit_def digits_value_def)
  have d: "digits_value [53, 48] = 50" by (simp add: digits_value_def)
  show ?thesis using s getent_group_fields [OF s, of "[]" "init_getent_fields\<lparr>gf_flags := 2\<rparr>" "[0, 0]"] unfolding d
    by (auto simp: GETENT_FLAG_GROUP_def)
qed

text \<open>
  For a user the fourth field, the id of the group, ends up as the id of the user: both are stored in the same place, and the place for the
  group id is never written.
\<close>

lemma getent_user_fields:
  assumes "getent_start name pw uid" and "\<forall>d \<in> set gid. c_isdigit d" and "digits_value gid < 2 ^ 31" and "58 \<notin> set gecos"
    and "length (name @ 58 # pw @ 58 # uid @ 58 # gid @ 58 # gecos @ 58 # home) < 2 ^ 31" and "gf_flags flds AND GETENT_FLAG_GROUP = 0"
    and "58 \<notin> set home"
  shows "\<exists>m flds'. get_getent_fields ((name @ 58 # pw @ 58 # uid @ 58 # gid @ 58 # gecos @ 58 # home) @ tail)
      (of_nat (length (name @ 58 # pw @ 58 # uid @ 58 # gid @ 58 # gecos @ 58 # home))) flds = Some (0, m, flds') \<and>
      gf_id flds' = of_nat (digits_value gid) \<and> gf_gid flds' = gf_gid flds"
proof -
  let ?pre = "name @ 0 # pw @ 0 # uid @ [0]"
  let ?p = "length ?pre"
  have p: "length name + length pw + length uid + 3 = ?p" by simp
  have g: "58 \<notin> set gid" using digits_no_colon [OF assms(2)] .
  have 1: "get_next_field ((name @ 0 # pw @ 0 # uid @ 0 # gid @ 58 # gecos @ 58 # home) @ tail) ?p (int (length (gid @ 58 # gecos @ 58 # home))) =
      Some (?pre @ gid @ 0 # gecos @ 58 # home @ tail, Some (?p + length gid + 1), int (length gecos + length home + 1))"
    using next_field_found [OF g, of "int (length (gid @ 58 # gecos @ 58 # home))" ?pre "gecos @ 58 # home @ tail"] by (simp add: add_ac)
  have a: "c_atoi (?pre @ gid @ 0 # gecos @ 58 # home @ tail) ?p = Some (int (digits_value gid))"
    using atoi_digits [OF assms(2,3), of ?pre "gecos @ 58 # home @ tail"] by (simp only: append_assoc)
  have 2: "get_next_field (?pre @ gid @ 0 # gecos @ 58 # home @ tail) (?p + length gid + 1) (int (length gecos + length home + 1)) =
      Some (?pre @ gid @ 0 # gecos @ 0 # home @ tail, Some (?p + length gid + length gecos + 2), int (length home))"
    using next_field_found [OF assms(4), of "int (length gecos + length home + 1)" "?pre @ gid @ [0]" "home @ tail"] by (simp add: add_ac)
  have 3: "get_next_field (?pre @ gid @ 0 # gecos @ 0 # home @ tail) (?p + length gid + length gecos + 2) (int (length home)) =
      Some (?pre @ gid @ 0 # gecos @ 0 # home @ tail, None, int (length home))"
  proof -
    let ?m = "?pre @ gid @ 0 # gecos @ 0 # home @ tail" and ?q = "?p + length gid + length gecos + 2"
    have "?m = (?pre @ gid @ 0 # gecos @ [0]) @ home @ tail" "?q = length (?pre @ gid @ 0 # gecos @ [0])" by simp_all
    then have d: "drop ?q ?m = home @ tail" by (metis append_eq_conv_conj)
    have "takeWhile (\<lambda>b. b \<noteq> 58) home = home" using assms(7) by (simp add: takeWhile_eq_all_conv) blast
    then have t: "length (takeWhile (\<lambda>b. b \<noteq> 58) home) = length home" by (rule arg_cong)
    have "c_memchr ?m ?q 58 (length home) = Some None" unfolding c_memchr_def d by (simp add: t)
    then show ?thesis by (cases "home = []") (simp_all add: get_next_field_def)
  qed
  show ?thesis
    unfolding getent_common [OF assms(1,5)] p 1 using assms(6) by (simp only: a 2 3 Option.bind.bind_lunit prod.case option.case Let_def) simp
qed

section \<open>The mapping by id\<close>

text \<open>What the functions for a database that is not shared make of an id, for the lookup that has been chosen.\<close>

lemma map_func_byid:
  assumes "im_flags m0 AND NET_IDMAPPING_FLAG_SHARED = 0" and "flags AND NET_IDMAPPING_FLAG_MAPBYID \<noteq> 0" and "m = set_net_entity_map_func m0 flags"
  shows "im_p2l m = Some P2l_nonshared_byid" "im_l2p m = Some L2p_byid" "im_su m = im_su m0" "im_sg m = im_sg m0"
    "im_pw_uid m = im_pw_uid m0" "im_pw_gid m = im_pw_gid m0" "im_unknown_uid m = im_unknown_uid m0" "im_unknown_gid m = im_unknown_gid m0"
    "im_cache m = im_cache m0"
    "im_lookup m = (if im_flags m0 AND NET_IDMAPPING_FLAG_CACHE \<noteq> 0 then Lookup_cache
       else if im_flags m0 AND NET_IDMAPPING_FLAG_NONSTRICT \<noteq> 0 then Lookup_byid_map else Lookup_byid_system)"
proof -
  have "flags AND (NET_IDMAPPING_FLAG_MAPBYID OR NET_IDMAPPING_FLAG_MAPBYNAME) AND NET_IDMAPPING_FLAG_MAPBYID = flags AND NET_IDMAPPING_FLAG_MAPBYID"
    by (simp add: NET_IDMAPPING_FLAG_MAPBYID_def NET_IDMAPPING_FLAG_MAPBYNAME_def and.assoc)
  then show "im_p2l m = Some P2l_nonshared_byid" "im_l2p m = Some L2p_byid" "im_su m = im_su m0" "im_sg m = im_sg m0"
    "im_pw_uid m = im_pw_uid m0" "im_pw_gid m = im_pw_gid m0" "im_unknown_uid m = im_unknown_uid m0" "im_unknown_gid m = im_unknown_gid m0"
    "im_cache m = im_cache m0"
    "im_lookup m = (if im_flags m0 AND NET_IDMAPPING_FLAG_CACHE \<noteq> 0 then Lookup_cache
       else if im_flags m0 AND NET_IDMAPPING_FLAG_NONSTRICT \<noteq> 0 then Lookup_byid_map else Lookup_byid_system)"
    using assms by (simp_all add: set_net_entity_map_func_def Let_def and.assoc)
qed

definition local_uid :: "user_db \<Rightarrow> net_idmapping_s \<Rightarrow> u32 \<Rightarrow> u32" where
  "local_uid db m n = (if n = gf_id (im_su m) then im_pw_uid m else if n = 0 then 0
     else if im_flags m AND NET_IDMAPPING_FLAG_NONSTRICT \<noteq> 0 \<or> db_user_byuid db n \<noteq> None then n else im_unknown_uid m)"

definition local_gid :: "user_db \<Rightarrow> net_idmapping_s \<Rightarrow> u32 \<Rightarrow> u32" where
  "local_gid db m n = (if n = gf_id (im_sg m) then im_pw_gid m else if n = 0 then 0
     else if im_flags m AND NET_IDMAPPING_FLAG_NONSTRICT \<noteq> 0 \<or> db_group_bygid db n \<noteq> None then n else im_unknown_gid m)"

lemma p2l_byid:
  assumes "im_flags m0 AND NET_IDMAPPING_FLAG_SHARED = 0" and "flags AND NET_IDMAPPING_FLAG_MAPBYID \<noteq> 0" and "im_flags m0 AND NET_IDMAPPING_FLAG_CACHE = 0"
  shows "call_user_p2l db (set_net_entity_map_func m0 flags) e = Some (e\<lparr>ne_localid := local_uid db m0 (ne_id e)\<rparr>)"
    and "call_group_p2l db (set_net_entity_map_func m0 flags) e = Some (e\<lparr>ne_localid := local_gid db m0 (ne_id e)\<rparr>)"
proof -
  note f = map_func_byid [OF assms(1,2) refl]
  show "call_user_p2l db (set_net_entity_map_func m0 flags) e = Some (e\<lparr>ne_localid := local_uid db m0 (ne_id e)\<rparr>)"
    using assms(3) by (auto simp: call_user_p2l_def f get_user_p2l_nonshared_byid_def call_lookup_user_def lookup_user_byid_map_def
      lookup_user_byid_system_def get_local_uid_byid_def local_uid_def Let_def split: option.splits)
  show "call_group_p2l db (set_net_entity_map_func m0 flags) e = Some (e\<lparr>ne_localid := local_gid db m0 (ne_id e)\<rparr>)"
    using assms(3) by (auto simp: call_group_p2l_def f get_group_p2l_nonshared_byid_def call_lookup_group_def lookup_group_byid_map_def
      lookup_group_byid_system_def get_local_gid_byid_def local_gid_def Let_def split: option.splits)
qed

lemma l2p_byid:
  assumes "im_flags m0 AND NET_IDMAPPING_FLAG_SHARED = 0" and "flags AND NET_IDMAPPING_FLAG_MAPBYID \<noteq> 0"
  shows "call_user_l2p db (set_net_entity_map_func m0 flags) u = Some (u\<lparr>ne_id := if ne_localid u = 0 then 0 else gf_id (im_su m0)\<rparr>)"
    and "call_group_l2p db (set_net_entity_map_func m0 flags) g = Some (g\<lparr>ne_id := if ne_localid g = 0 then 0 else gf_id (im_sg m0)\<rparr>)"
proof -
  note f = map_func_byid [OF assms refl]
  show "call_user_l2p db (set_net_entity_map_func m0 flags) u = Some (u\<lparr>ne_id := if ne_localid u = 0 then 0 else gf_id (im_su m0)\<rparr>)"
    by (simp add: call_user_l2p_def f get_user_l2p_byid_def Let_def)
  show "call_group_l2p db (set_net_entity_map_func m0 flags) g = Some (g\<lparr>ne_id := if ne_localid g = 0 then 0 else gf_id (im_sg m0)\<rparr>)"
    by (simp add: call_group_l2p_def f get_group_l2p_byid_def Let_def)
qed

text \<open>
  The two directions of the mapping by id fit, for a database that is not shared and without a cache: the local user and root, and
  the group of the local user and the group of root, are the same again after they have gone to the other side and come back, provided
  that the user and group of the connection do not have the id 0 on the server.
\<close>

lemma byid_there_and_back:
  assumes "im_flags m0 AND NET_IDMAPPING_FLAG_SHARED = 0" and "flags AND NET_IDMAPPING_FLAG_MAPBYID \<noteq> 0" and "im_flags m0 AND NET_IDMAPPING_FLAG_CACHE = 0"
    and "gf_id (im_su m0) \<noteq> 0" and "gf_id (im_sg m0) \<noteq> 0" and "ne_localid u \<in> {0, im_pw_uid m0}" and "ne_localid g \<in> {0, im_pw_gid m0}"
  shows "\<exists>u1 u2 g1 g2. call_user_l2p db (set_net_entity_map_func m0 flags) u = Some u1 \<and>
    call_user_p2l db (set_net_entity_map_func m0 flags) (u1\<lparr>ne_localid := x\<rparr>) = Some u2 \<and> ne_localid u2 = ne_localid u \<and>
    call_group_l2p db (set_net_entity_map_func m0 flags) g = Some g1 \<and>
    call_group_p2l db (set_net_entity_map_func m0 flags) (g1\<lparr>ne_localid := y\<rparr>) = Some g2 \<and> ne_localid g2 = ne_localid g"
  using assms(4-7) l2p_byid [OF assms(1,2)] p2l_byid [OF assms(1-3)] by (auto simp: local_uid_def local_gid_def)

definition db_none :: user_db where
  "db_none = \<lparr>db_uid_byname = \<lambda>_. None, db_gid_byname = \<lambda>_. None, db_user_byuid = \<lambda>_. None, db_group_bygid = \<lambda>_. None\<rparr>"

definition mapping_example :: net_idmapping_s where
  "mapping_example = (init_net_idmapping 1000 100)\<lparr>im_su := init_getent_fields\<lparr>gf_id := 1001\<rparr>, im_sg := init_getent_fields\<lparr>gf_id := 101\<rparr>\<rparr>"

definition entity_example :: net_entity_s where
  "entity_example = \<lparr>ne_flags = 0, ne_mem = None, ne_len = 0, ne_domain = None, ne_id = 0, ne_localid = 0\<rparr>"

lemma byid_there_and_back_example:
  "\<exists>u1 u2. call_user_l2p db_none (set_net_entity_map_func mapping_example NET_IDMAPPING_FLAG_MAPBYID) (entity_example\<lparr>ne_localid := 1000\<rparr>) = Some u1 \<and>
     call_user_p2l db_none (set_net_entity_map_func mapping_example NET_IDMAPPING_FLAG_MAPBYID) (u1\<lparr>ne_localid := 7\<rparr>) = Some u2 \<and> ne_localid u2 = 1000"
proof -
  have f: "im_flags mapping_example = 1048577" "gf_id (im_su mapping_example) = 1001" "gf_id (im_sg mapping_example) = 101" "im_pw_uid mapping_example = 1000"
    by (simp_all add: mapping_example_def init_net_idmapping_def set_net_entity_map_func_def Let_def NET_IDMAPPING_FLAG_INIT_def
      NET_IDMAPPING_FLAG_SHARED_def NET_IDMAPPING_FLAG_MAPBYID_def NET_IDMAPPING_FLAG_MAPBYNAME_def)
  show ?thesis
    using byid_there_and_back [of mapping_example NET_IDMAPPING_FLAG_MAPBYID "entity_example\<lparr>ne_localid := 1000\<rparr>" entity_example db_none 7 0]
    by (auto simp: f entity_example_def NET_IDMAPPING_FLAG_SHARED_def NET_IDMAPPING_FLAG_MAPBYID_def NET_IDMAPPING_FLAG_CACHE_def)
qed

text \<open>
  The way back through a shared database by id is not the way there: every user but root goes out as the user of the connection.
\<close>

lemma shared_byid_one_way:
  assumes "im_flags m0 AND NET_IDMAPPING_FLAG_SHARED \<noteq> 0" and "ne_localid u \<noteq> 0"
  shows "\<exists>u1 u2. call_user_l2p db (set_net_entity_map_func m0 NET_IDMAPPING_FLAG_MAPBYID) u = Some u1 \<and>
    call_user_p2l db (set_net_entity_map_func m0 NET_IDMAPPING_FLAG_MAPBYID) u1 = Some u2 \<and> ne_localid u2 = gf_id (im_su m0)"
  using assms by (simp add: set_net_entity_map_func_def call_user_l2p_def call_user_p2l_def get_user_l2p_byid_def get_user_p2l_shared_byid_def
    call_lookup_user_def lookup_user_byid_map_def Let_def NET_IDMAPPING_FLAG_MAPBYID_def NET_IDMAPPING_FLAG_MAPBYNAME_def)

text \<open>
  A name that is not followed by 64 readable bytes is read outside its memory, unless a byte happens to have its length as value; and the
  domain of a name is not found.
\<close>

lemma short_name_unsafe:
  assumes "ne_mem ent = Some name" and "length name < 64" and "ucast (ne_len ent) \<notin> set name"
  shows "split_domain ent = None"
proof -
  have "takeWhile (\<lambda>b. b \<noteq> ucast (ne_len ent)) name = name" using assms(3) by (simp add: takeWhile_eq_all_conv) blast
  then have t: "length (takeWhile (\<lambda>b. b \<noteq> ucast (ne_len ent)) name) = length name" by (rule arg_cong)
  then have "c_memchr name 0 (ucast (ne_len ent)) 64 = None" using assms(2) by (simp add: c_memchr_def t)
  then show ?thesis using assms(1) by (simp add: split_domain_def)
qed

lemma domain_not_found:
  "split_domain (entity_example\<lparr>ne_mem := Some ([106, 111, 101, 64, 97] @ replicate 59 0), ne_len := 5\<rparr>) =
    Some (False, entity_example\<lparr>ne_mem := Some ([106, 111, 101, 64, 97] @ replicate 59 0), ne_len := 5\<rparr>)"
  by code_simp

end
