(* ===== verification/Skip_List.thy ===== *)
theory Skip_List
  imports Prelude
begin

text \<open>
  Skip lists, \<open>src/lib/sl\<close>: a sorted linked list with lanes of dirnodes above it, used for the users, groups and domains of a
  connection and for directories.

  The linked list is the sequence of its elements, as \<open>Simple_List\<close> justifies. A dirnode has an address; the start of the lanes, which is
  part of the list's structure, has address 0. Reading or changing a dirnode that does not exist, or a junction it does not have, has
  no result, \<open>None\<close>. The operations run one after the other: a wait for a condition that does not hold is a wait that nobody ends and has
  no result either.
\<close>

section \<open>Data\<close>

definition SKIPLIST_PROB :: u32 where "SKIPLIST_PROB = 4"
definition SKIPLIST_MAXLANES :: u8 where "SKIPLIST_MAXLANES = 10"
definition SKIPLIST_FLAG_ALLOC :: u32 where "SKIPLIST_FLAG_ALLOC = 1"

definition DIRNODE_LOCK_PREWRITE :: u8 where "DIRNODE_LOCK_PREWRITE = 2"
definition DIRNODE_LOCK_WRITE :: u8 where "DIRNODE_LOCK_WRITE = 4"
definition DIRNODE_LOCK_READ :: u8 where "DIRNODE_LOCK_READ = 8"

definition DIRNODE_FLAG_START :: u8 where "DIRNODE_FLAG_START = 1"
definition DIRNODE_FLAG_ALLOC :: u8 where "DIRNODE_FLAG_ALLOC = 2"

definition SL_MOVE_FLAG_REMOVE :: u8 where "SL_MOVE_FLAG_REMOVE = 4"
definition SL_MOVE_FLAG_MOVELEFT :: u8 where "SL_MOVE_FLAG_MOVELEFT = 8"
definition SL_MOVE_FLAG_MOVERIGHT :: u8 where "SL_MOVE_FLAG_MOVERIGHT = 16"
definition SL_MOVE_FLAG_DIRNODERIGHT :: u8 where "SL_MOVE_FLAG_DIRNODERIGHT = 32"

definition SL_SEARCHRESULT_FLAG_FIRST :: u32 where "SL_SEARCHRESULT_FLAG_FIRST = 1"
definition SL_SEARCHRESULT_FLAG_LAST :: u32 where "SL_SEARCHRESULT_FLAG_LAST = 2"
definition SL_SEARCHRESULT_FLAG_EXACT :: u32 where "SL_SEARCHRESULT_FLAG_EXACT = 4"
definition SL_SEARCHRESULT_FLAG_BEFORE :: u32 where "SL_SEARCHRESULT_FLAG_BEFORE = 8"
definition SL_SEARCHRESULT_FLAG_AFTER :: u32 where "SL_SEARCHRESULT_FLAG_AFTER = 16"
definition SL_SEARCHRESULT_FLAG_NOENT :: u32 where "SL_SEARCHRESULT_FLAG_NOENT = 32"
definition SL_SEARCHRESULT_FLAG_DIRNODE :: u32 where "SL_SEARCHRESULT_FLAG_DIRNODE = 64"
definition SL_SEARCHRESULT_FLAG_EMPTY :: u32 where "SL_SEARCHRESULT_FLAG_EMPTY = 128"
definition SL_SEARCHRESULT_FLAG_EXCLUSIVE :: u32 where "SL_SEARCHRESULT_FLAG_EXCLUSIVE = 256"
definition SL_SEARCHRESULT_FLAG_OK :: u32 where "SL_SEARCHRESULT_FLAG_OK = 512"
definition SL_SEARCHRESULT_FLAG_ERROR :: u32 where "SL_SEARCHRESULT_FLAG_ERROR = 1048576"

record sl_junction_s =
  jn_step :: u32
  jn_n :: nat
  jn_p :: nat
  jn_count :: u32

text \<open>The two functions \<open>compare\<close> of a dirnode can point to.\<close>

datatype sl_compare = Compare_end | Compare_ops

record sl_dirnode_s =
  dn_list :: "nat option"
  dn_flags :: u8
  dn_lock :: u8
  dn_lockers :: u32
  dn_level :: nat
  dn_compare :: sl_compare
  dn_junction :: "sl_junction_s list"

record sl_move_dirnode_s =
  mv_flags :: u8
  mv_dirnode :: "nat option"
  mv_left :: u32
  mv_right :: u32
  mv_step :: u32
  mv_list :: "nat option"

text \<open>
  \<open>compare\<close> compares an element with what is looked for; \<open>get_list_element\<close> makes the element that is inserted, or fails. The element
  may not be in the list already.
\<close>

record 'b sl_ops_s =
  op_compare :: "nat \<Rightarrow> 'b \<Rightarrow> int"
  op_get_list_element :: "'b \<Rightarrow> nat option"

record 'b sl_skiplist_s =
  sk_ops :: "'b sl_ops_s"
  sk_prob :: u32
  sk_flags :: u32
  sk_maxlevel :: nat
  sk_header :: "nat list"
  sk_size :: u32
  sk_dirnodes :: "nat \<Rightarrow> sl_dirnode_s option"
  sk_fresh :: nat

record sl_path_s =
  pt_dirnode :: nat
  pt_lockset :: u8
  pt_lock :: u8

record sl_vector_s =
  vc_maxlevel :: nat
  vc_minlevel :: nat
  vc_level :: nat
  vc_path :: "sl_path_s list"

record 'b sl_searchresult_s =
  sr_lookupdata :: 'b
  sr_found :: "nat option"
  sr_flags :: u32
  sr_ctr :: u32
  sr_row :: u32
  sr_step :: u32

datatype sl_alloc = Alloc_vector nat | Alloc_dirnode nat

section \<open>Access\<close>

definition get_junction :: "'b sl_skiplist_s \<Rightarrow> nat \<Rightarrow> nat \<Rightarrow> sl_junction_s option" where
  "get_junction sl d i = do {
     dn \<leftarrow> sk_dirnodes sl d;
     if i < length (dn_junction dn) then Some (dn_junction dn ! i) else None }"

definition upd_dirnode :: "nat \<Rightarrow> (sl_dirnode_s \<Rightarrow> sl_dirnode_s) \<Rightarrow> 'b sl_skiplist_s \<Rightarrow> 'b sl_skiplist_s option" where
  "upd_dirnode d f sl = do {
     dn \<leftarrow> sk_dirnodes sl d;
     Some (sl\<lparr>sk_dirnodes := (sk_dirnodes sl)(d \<mapsto> f dn)\<rparr>) }"

definition upd_junction :: "nat \<Rightarrow> nat \<Rightarrow> (sl_junction_s \<Rightarrow> sl_junction_s) \<Rightarrow> 'b sl_skiplist_s \<Rightarrow> 'b sl_skiplist_s option" where
  "upd_junction d i f sl = do {
     jn \<leftarrow> get_junction sl d i;
     upd_dirnode d (\<lambda>dn. dn\<lparr>dn_junction := (dn_junction dn)[i := f jn]\<rparr>) sl }"

definition get_path :: "sl_vector_s \<Rightarrow> nat \<Rightarrow> sl_path_s option" where
  "get_path v i = (if i < length (vc_path v) then Some (vc_path v ! i) else None)"

definition upd_path :: "nat \<Rightarrow> (sl_path_s \<Rightarrow> sl_path_s) \<Rightarrow> sl_vector_s \<Rightarrow> sl_vector_s option" where
  "upd_path i f v = (if i < length (vc_path v) then Some (v\<lparr>vc_path := (vc_path v)[i := f (vc_path v ! i)]\<rparr>) else None)"

definition list_insert_before :: "nat \<Rightarrow> nat \<Rightarrow> nat list \<Rightarrow> nat list" where
  "list_insert_before b e xs = takeWhile (\<lambda>x. x \<noteq> b) xs @ e # dropWhile (\<lambda>x. x \<noteq> b) xs"

definition list_insert_after :: "nat \<Rightarrow> nat \<Rightarrow> nat list \<Rightarrow> nat list" where
  "list_insert_after a e xs = takeWhile (\<lambda>x. x \<noteq> a) xs @ a # e # tl (dropWhile (\<lambda>x. x \<noteq> a) xs)"

definition add_element :: "(nat list \<Rightarrow> nat list) \<Rightarrow> nat \<Rightarrow> 'b sl_skiplist_s \<Rightarrow> 'b sl_skiplist_s option" where
  "add_element f e sl = (if e \<in> set (sk_header sl) then None else Some (sl\<lparr>sk_header := f (sk_header sl)\<rparr>))"

section \<open>Creation\<close>

definition SIZEOF_JUNCTION :: u64 where "SIZEOF_JUNCTION = 32"

definition start_junction :: sl_junction_s where
  "start_junction = \<lparr>jn_step = 0, jn_n = 0, jn_p = 0, jn_count = 0\<rparr>"

definition init_sl_dirnode :: "nat \<Rightarrow> u8 \<Rightarrow> sl_dirnode_s \<Rightarrow> sl_dirnode_s" where
  "init_sl_dirnode count flag dn = dn\<lparr>dn_list := None, dn_lock := 0, dn_lockers := 0, dn_flags := dn_flags dn OR flag,
     dn_level := count - 1, dn_junction := replicate count start_junction\<rparr>"

definition dirnode_zero :: sl_dirnode_s where
  "dirnode_zero = \<lparr>dn_list = None, dn_flags = 0, dn_lock = 0, dn_lockers = 0, dn_level = 0, dn_compare = Compare_ops, dn_junction = []\<rparr>"

definition create_sl_dirnode :: "(sl_alloc \<Rightarrow> bool) \<Rightarrow> nat \<Rightarrow> 'b sl_skiplist_s \<Rightarrow> nat option \<times> 'b sl_skiplist_s" where
  "create_sl_dirnode malloc level sl =
     (if malloc (Alloc_dirnode level)
      then (Some (sk_fresh sl), sl\<lparr>sk_dirnodes := (sk_dirnodes sl)(sk_fresh sl \<mapsto>
          (init_sl_dirnode (level + 1) DIRNODE_FLAG_ALLOC dirnode_zero)\<lparr>dn_compare := Compare_ops\<rparr>), sk_fresh := sk_fresh sl + 1\<rparr>)
      else (None, sl))"

text \<open>\<open>sizeof_sl\<close> is the size of the structure without its lanes.\<close>

definition calc_nrlanes_from_size :: "u32 \<Rightarrow> u32 \<Rightarrow> u8" where
  "calc_nrlanes_from_size sizeof_sl siz =
     (if (scast siz :: u64) \<le> ucast sizeof_sl then 0
      else let nrlanes = ucast ((scast (siz - sizeof_sl) :: u64) div SIZEOF_JUNCTION) :: u8
        in if nrlanes \<le> 1 then 0 else nrlanes - 1)"

definition get_size_sl_skiplist :: "u32 \<Rightarrow> u8 \<Rightarrow> u32 \<times> u8" where
  "get_size_sl_skiplist sizeof_sl maxlanes =
     (let maxlanes = if maxlanes = 0 then SKIPLIST_MAXLANES else maxlanes
      in (sizeof_sl + (ucast maxlanes + 1) * ucast SIZEOF_JUNCTION, maxlanes))"

text \<open>The structure is allocated here when \<open>sl\<close> is the null pointer, otherwise it is cleared memory of the caller.\<close>

definition start_skiplist :: "u32 \<Rightarrow> u8 \<Rightarrow> u32 \<Rightarrow> u32 \<Rightarrow> 'b sl_skiplist_s \<Rightarrow> 'b sl_skiplist_s" where
  "start_skiplist sizeof_sl nrlanes prob siz sl = sl\<lparr>sk_maxlevel := unat (ucast nrlanes - 1 :: u16), sk_prob := prob, sk_header := [],
     sk_dirnodes := [0 \<mapsto> (init_sl_dirnode (unat (ucast (ucast (siz - sizeof_sl) div SIZEOF_JUNCTION) :: u16)) DIRNODE_FLAG_START
       dirnode_zero)\<lparr>dn_level := 0\<rparr>], sk_fresh := 1\<rparr>"

definition create_sl_skiplist ::
    "bool \<Rightarrow> u32 \<Rightarrow> 'b sl_skiplist_s \<Rightarrow> 'b sl_skiplist_s option \<Rightarrow> u8 \<Rightarrow> u32 \<Rightarrow> 'b sl_skiplist_s option" where
  "create_sl_skiplist malloc sizeof_sl fresh_sl sl prob siz =
     (let prob = if prob = 0 then SKIPLIST_PROB else ucast prob in
      case sl of
        None \<Rightarrow>
          let nrlanes = calc_nrlanes_from_size sizeof_sl siz in
          if nrlanes = 0 \<or> \<not> malloc then None
          else Some (start_skiplist sizeof_sl nrlanes prob siz (fresh_sl\<lparr>sk_flags := SKIPLIST_FLAG_ALLOC, sk_size := siz\<rparr>))
      | Some sl \<Rightarrow>
          let sl = if sk_size sl = 0 then sl\<lparr>sk_size := siz\<rparr> else sl;
              nrlanes = if sk_size sl > 0 then calc_nrlanes_from_size sizeof_sl (sk_size sl) else 0 in
          if sk_size sl > 0 \<and> nrlanes = 0 then None else Some (start_skiplist sizeof_sl nrlanes prob siz sl))"

text \<open>The null pointers that \<open>init_sl_skiplist\<close> refuses are \<open>ops = None\<close>.\<close>

definition init_sl_skiplist :: "'b sl_ops_s option \<Rightarrow> 'b sl_skiplist_s \<Rightarrow> (int \<times> 'b sl_skiplist_s) option" where
  "init_sl_skiplist ops sl = (case ops of
     None \<Rightarrow> Some (-1, sl)
   | Some ops \<Rightarrow> do {
       dn \<leftarrow> sk_dirnodes sl 0;
       if sk_maxlevel sl + 1 < length (dn_junction dn) then do {
         let n = sk_maxlevel sl + 2;
         let jns = map (\<lambda>jn. jn\<lparr>jn_n := 0, jn_p := 0\<rparr>) (take n (dn_junction dn)) @ drop n (dn_junction dn);
         sl \<leftarrow> upd_dirnode 0 (\<lambda>dn. dn\<lparr>dn_junction := jns,
           dn_compare := (if dn_flags dn AND DIRNODE_FLAG_START \<noteq> 0 then Compare_end else Compare_ops)\<rparr>) (sl\<lparr>sk_ops := ops\<rparr>);
         Some (0, sl) }
       else None })"

definition create_vector_path :: "(sl_alloc \<Rightarrow> bool) \<Rightarrow> nat \<Rightarrow> nat \<Rightarrow> sl_vector_s option" where
  "create_vector_path malloc level d =
     (if malloc (Alloc_vector level)
      then Some \<lparr>vc_maxlevel = level, vc_minlevel = 0, vc_level = level,
        vc_path = replicate (level + 1) \<lparr>pt_dirnode = d, pt_lockset = 0, pt_lock = 0\<rparr>\<rparr>
      else None)"

definition init_sl_searchresult :: "'b \<Rightarrow> u32 \<Rightarrow> 'b sl_searchresult_s" where
  "init_sl_searchresult lookupdata flags =
     \<lparr>sr_lookupdata = lookupdata, sr_found = None, sr_flags = flags, sr_ctr = 0, sr_row = 0, sr_step = 0\<rparr>"

definition sr_set :: "u32 \<Rightarrow> 'b sl_searchresult_s \<Rightarrow> 'b sl_searchresult_s" where
  "sr_set flags r = r\<lparr>sr_flags := sr_flags r OR flags\<rparr>"

section \<open>Locks\<close>

text \<open>The two tables of lock functions: \<open>sl_default_lockops\<close> and \<open>sl_nolock_lockops\<close>, of which the latter is used for exclusive access.\<close>

datatype sl_lockops = Lockops_default | Lockops_nolock

type_synonym 'b sl_correct =
  "'b sl_skiplist_s \<Rightarrow> sl_vector_s \<Rightarrow> nat \<Rightarrow> sl_move_dirnode_s \<Rightarrow> ('b sl_skiplist_s \<times> sl_move_dirnode_s) option"

primrec release_levels :: "'b sl_correct \<Rightarrow> sl_vector_s \<Rightarrow> nat list \<Rightarrow> 'b sl_skiplist_s \<times> sl_move_dirnode_s \<Rightarrow> 'b sl_skiplist_s option" where
  "release_levels cb v [] st = Some (fst st)"
| "release_levels cb v (i # is) st = do {
     path \<leftarrow> get_path v i;
     (sl, move) \<leftarrow> cb (fst st) v i (snd st);
     sl \<leftarrow> (if pt_lock path \<noteq> 0
       then upd_dirnode (pt_dirnode path) (\<lambda>dn. dn\<lparr>dn_lockers := dn_lockers dn - 1, dn_lock := dn_lock dn AND NOT (pt_lockset path)\<rparr>) sl
       else Some sl);
     release_levels cb v is (sl, move) }"

definition remove_lock_vector ::
    "sl_lockops \<Rightarrow> 'b sl_skiplist_s \<Rightarrow> sl_vector_s \<Rightarrow> 'b sl_correct \<Rightarrow> sl_move_dirnode_s \<Rightarrow> 'b sl_skiplist_s option" where
  "remove_lock_vector lockops sl v cb move = (case lockops of
     Lockops_default \<Rightarrow> release_levels cb v [vc_level v..<vc_maxlevel v + 1] (sl, move)
   | Lockops_nolock \<Rightarrow> Some sl)"

text \<open>Taking the read lock of a dirnode, for the entry of the path at the level of the vector.\<close>

definition take_readlock :: "nat \<Rightarrow> 'b sl_skiplist_s \<Rightarrow> sl_vector_s \<Rightarrow> ('b sl_skiplist_s \<times> sl_vector_s) option" where
  "take_readlock d sl v = do {
     dn \<leftarrow> sk_dirnodes sl d;
     if dn_lock dn AND (DIRNODE_LOCK_WRITE OR DIRNODE_LOCK_PREWRITE) \<noteq> 0 then None
     else do {
       v \<leftarrow> upd_path (vc_level v) (\<lambda>_. \<lparr>pt_dirnode = d, pt_lockset = DIRNODE_LOCK_READ, pt_lock = 1\<rparr>) v;
       sl \<leftarrow> upd_dirnode d (\<lambda>dn. dn\<lparr>dn_lock := dn_lock dn AND DIRNODE_LOCK_READ, dn_lockers := dn_lockers dn + 1\<rparr>) sl;
       Some (sl, v) } }"

definition set_path_dirnode :: "nat \<Rightarrow> sl_vector_s \<Rightarrow> sl_vector_s option" where
  "set_path_dirnode d v = upd_path (vc_level v) (\<lambda>p. p\<lparr>pt_dirnode := d\<rparr>) v"

definition readlock_vector_path ::
    "sl_lockops \<Rightarrow> 'b sl_skiplist_s \<Rightarrow> sl_vector_s \<Rightarrow> nat \<Rightarrow> ('b sl_skiplist_s \<times> sl_vector_s) option" where
  "readlock_vector_path lockops sl v d = (case lockops of
     Lockops_default \<Rightarrow> take_readlock d sl v
   | Lockops_nolock \<Rightarrow> map_option (Pair sl) (set_path_dirnode d v))"

definition drop_locker :: "nat \<Rightarrow> 'b sl_skiplist_s \<Rightarrow> 'b sl_skiplist_s option" where
  "drop_locker d = upd_dirnode d (\<lambda>dn. dn\<lparr>dn_lockers := dn_lockers dn - 1,
     dn_lock := (if dn_lockers dn - 1 = 0 then dn_lock dn AND NOT DIRNODE_LOCK_READ else dn_lock dn)\<rparr>)"

definition remove_readlock_vector_path ::
    "sl_lockops \<Rightarrow> 'b sl_skiplist_s \<Rightarrow> sl_vector_s \<Rightarrow> ('b sl_skiplist_s \<times> sl_vector_s) option" where
  "remove_readlock_vector_path lockops sl v = (case lockops of
     Lockops_default \<Rightarrow> do {
       path \<leftarrow> get_path v (vc_level v);
       if pt_lock path \<noteq> 0 then do {
         sl \<leftarrow> drop_locker (pt_dirnode path) sl;
         v \<leftarrow> upd_path (vc_level v) (\<lambda>p. p\<lparr>pt_lock := 0, pt_lockset := 0\<rparr>) v;
         Some (sl, v) }
       else Some (sl, v) }
   | Lockops_nolock \<Rightarrow> Some (sl, v))"

definition move_readlock_vector_path ::
    "sl_lockops \<Rightarrow> 'b sl_skiplist_s \<Rightarrow> sl_vector_s \<Rightarrow> nat \<Rightarrow> ('b sl_skiplist_s \<times> sl_vector_s) option" where
  "move_readlock_vector_path lockops sl v d = (case lockops of
     Lockops_default \<Rightarrow> do {
       path \<leftarrow> get_path v (vc_level v);
       if pt_dirnode path = d then Some (sl, v)
       else do {
         sl \<leftarrow> (if pt_lock path \<noteq> 0 then drop_locker (pt_dirnode path) sl else Some sl);
         v \<leftarrow> (if pt_lock path \<noteq> 0 then upd_path (vc_level v) (\<lambda>p. p\<lparr>pt_lock := 0\<rparr>) v else Some v);
         take_readlock d sl v } }
   | Lockops_nolock \<Rightarrow> map_option (Pair sl) (set_path_dirnode d v))"

definition upgrade_readlock_vector_path ::
    "'b sl_skiplist_s \<Rightarrow> sl_vector_s \<Rightarrow> nat \<Rightarrow> (int \<times> 'b sl_skiplist_s \<times> sl_vector_s) option" where
  "upgrade_readlock_vector_path sl v level = do {
     path \<leftarrow> get_path v level;
     let d = pt_dirnode path;
     dn \<leftarrow> sk_dirnodes sl d;
     if dn_lock dn AND DIRNODE_LOCK_PREWRITE \<noteq> 0 then do {
       sl \<leftarrow> drop_locker d sl;
       v \<leftarrow> upd_path level (\<lambda>p. p\<lparr>pt_lockset := pt_lockset p AND NOT DIRNODE_LOCK_READ, pt_lock := 0\<rparr>) v;
       Some (-1, sl, v) }
     else if dn_lockers dn > 1 then None
     else do {
       sl \<leftarrow> upd_dirnode d (\<lambda>dn. dn\<lparr>dn_lock := (dn_lock dn OR DIRNODE_LOCK_PREWRITE) AND DIRNODE_LOCK_WRITE AND
         NOT DIRNODE_LOCK_PREWRITE AND NOT DIRNODE_LOCK_READ, dn_lockers := dn_lockers dn + 1 - 1\<rparr>) sl;
       v \<leftarrow> upd_path level (\<lambda>p. p\<lparr>pt_lockset := (pt_lockset p OR DIRNODE_LOCK_WRITE) AND NOT DIRNODE_LOCK_READ\<rparr>) v;
       Some (0, sl, v) } }"

primrec upgrade_levels ::
    "bool \<Rightarrow> nat \<Rightarrow> nat list \<Rightarrow> 'b sl_skiplist_s \<times> sl_vector_s \<Rightarrow> (int \<times> 'b sl_skiplist_s \<times> sl_vector_s) option" where
  "upgrade_levels move d [] st = Some (0, st)"
| "upgrade_levels move d (level # ls) st = do {
     path \<leftarrow> get_path (snd st) level;
     st \<leftarrow> (if move \<and> pt_dirnode path = d then do {
         jn \<leftarrow> get_junction (fst st) d level;
         move_readlock_vector_path Lockops_default (fst st) (snd st) (jn_p jn) }
       else Some st);
     path \<leftarrow> get_path (snd st) level;
     if pt_lock path \<noteq> 0 then do {
       (result, sl, v) \<leftarrow> upgrade_readlock_vector_path (fst st) (snd st) level;
       if result = -1 then Some (-1, sl, v) else upgrade_levels move d ls (sl, v) }
     else upgrade_levels move d ls st }"

definition upgrade_readlock_vector ::
    "sl_lockops \<Rightarrow> 'b sl_skiplist_s \<Rightarrow> sl_vector_s \<Rightarrow> bool \<Rightarrow> (int \<times> 'b sl_skiplist_s \<times> sl_vector_s) option" where
  "upgrade_readlock_vector lockops sl v move = (case lockops of
     Lockops_default \<Rightarrow> do {
       path \<leftarrow> get_path v 0;
       upgrade_levels move (pt_dirnode path) [vc_level v..<vc_maxlevel v + 1] (sl, v) }
   | Lockops_nolock \<Rightarrow> Some (0, sl, v))"

section \<open>Searching\<close>

definition move_lock_vector_path_down :: "sl_vector_s \<Rightarrow> sl_vector_s option" where
  "move_lock_vector_path_down v = do {
     let level = vc_level v;
     path \<leftarrow> get_path v level;
     v \<leftarrow> upd_path (level - 1) (\<lambda>_. path) v;
     v \<leftarrow> upd_path level (\<lambda>p. p\<lparr>pt_lock := 0, pt_lockset := 0\<rparr>) v;
     Some (v\<lparr>vc_level := level - 1\<rparr>) }"

text \<open>The entry of the level moves to the bottom; the entries from there up to the level keep the dirnode without the lock.\<close>

definition move_lock_vector_down :: "sl_vector_s \<Rightarrow> sl_vector_s option" where
  "move_lock_vector_down v = do {
     let level = vc_level v;
     path \<leftarrow> get_path v level;
     if level = 0 then Some v
     else Some (v\<lparr>vc_path := path # replicate level (path\<lparr>pt_lock := 0, pt_lockset := 0\<rparr>) @ drop (level + 1) (vc_path v), vc_level := 0\<rparr>) }"

definition call_compare :: "sl_compare \<Rightarrow> 'b sl_ops_s \<Rightarrow> nat \<Rightarrow> 'b \<Rightarrow> int" where
  "call_compare c ops e b = (case c of Compare_end \<Rightarrow> 1 | Compare_ops \<Rightarrow> op_compare ops e b)"

text \<open>
  The walk over the lanes. The element \<open>list\<close> of the source is the first one of \<open>ls\<close>, which are the elements from there on. The result says
  where the walk over the linked list goes on, or that the search is over.
\<close>

function lane_loop :: "sl_lockops \<Rightarrow> 'b sl_skiplist_s \<Rightarrow> sl_vector_s \<Rightarrow> nat \<Rightarrow> nat list \<Rightarrow> 'b sl_searchresult_s \<Rightarrow>
    ('b sl_skiplist_s \<times> sl_vector_s \<times> 'b sl_searchresult_s \<times> nat list option) option" where
  "lane_loop lockops sl v d [] r = None"
| "lane_loop lockops sl v d (e # es) r = do {
     jn \<leftarrow> get_junction sl d (vc_level v);
     dn \<leftarrow> sk_dirnodes sl (jn_n jn);
     let diff = call_compare (dn_compare dn) (sk_ops sl) e (sr_lookupdata r);
     if diff > 0 then
       (if vc_level v = 0 then Some (sl, v, r, Some (e # es))
        else do { v' \<leftarrow> move_lock_vector_path_down v; lane_loop lockops sl v' d (e # es) r })
     else if diff = 0 then do {
       let r = sr_set (SL_SEARCHRESULT_FLAG_EXACT OR SL_SEARCHRESULT_FLAG_DIRNODE) (r\<lparr>sr_found := Some e, sr_row := sr_row r + (jn_step jn - 1)\<rparr>);
       (sl, v) \<leftarrow> move_readlock_vector_path lockops sl v (jn_n jn);
       v \<leftarrow> move_lock_vector_down v;
       Some (sl, v, r, None) }
     else do {
       let r = r\<lparr>sr_row := sr_row r + jn_step jn\<rparr>;
       (sl, v) \<leftarrow> move_readlock_vector_path lockops sl v (jn_n jn);
       if es = [] then do {
         let r = sr_set (SL_SEARCHRESULT_FLAG_NOENT OR SL_SEARCHRESULT_FLAG_LAST OR SL_SEARCHRESULT_FLAG_AFTER) (r\<lparr>sr_found := dn_list dn\<rparr>);
         v \<leftarrow> move_lock_vector_down v;
         Some (sl, v, r, None) }
       else lane_loop lockops sl v (jn_n jn) es (r\<lparr>sr_step := 1\<rparr>) } }"
  by pat_completeness auto

lemma path_down_level: "move_lock_vector_path_down v = Some v' \<Longrightarrow> vc_level v' = vc_level v - 1"
  by (auto simp: move_lock_vector_path_down_def Let_def bind_eq_Some_conv)

termination lane_loop
  by (relation "measures [\<lambda>(lo, sl, v, d, ls, r). length ls, \<lambda>(lo, sl, v, d, ls, r). vc_level v]") (auto dest: path_down_level)

text \<open>The walk over the linked list.\<close>

fun linear_loop :: "('b \<Rightarrow> nat \<Rightarrow> int) \<Rightarrow> u64 \<Rightarrow> nat list \<Rightarrow> 'b sl_searchresult_s \<Rightarrow> 'b sl_searchresult_s" where
  "linear_loop cmp count [] r = r"
| "linear_loop cmp count (e # es) r =
     (if ucast (sr_ctr r) > count then r
      else let diff = cmp (sr_lookupdata r) e; r = r\<lparr>sr_ctr := sr_ctr r + 1\<rparr> in
        if diff < 0 then
          (let r = r\<lparr>sr_row := sr_row r + 1, sr_step := sr_step r + 1\<rparr> in
           if es = [] then sr_set (SL_SEARCHRESULT_FLAG_NOENT OR SL_SEARCHRESULT_FLAG_AFTER) r else linear_loop cmp count es r)
        else if diff = 0 then sr_set SL_SEARCHRESULT_FLAG_EXACT (r\<lparr>sr_found := Some e\<rparr>)
        else sr_set (SL_SEARCHRESULT_FLAG_NOENT OR SL_SEARCHRESULT_FLAG_BEFORE) (r\<lparr>sr_found := Some e\<rparr>))"

text \<open>\<open>sl_find_generic\<close> from the first lock up to the label \<open>out\<close>.\<close>

definition sl_search :: "sl_lockops \<Rightarrow> 'b sl_skiplist_s \<Rightarrow> sl_vector_s \<Rightarrow> 'b sl_searchresult_s \<Rightarrow>
    ('b sl_skiplist_s \<times> sl_vector_s \<times> 'b sl_searchresult_s) option" where
  "sl_search lockops sl v r = do {
     (sl, v) \<leftarrow> readlock_vector_path lockops sl v 0;
     v \<leftarrow> set_path_dirnode 0 (v\<lparr>vc_level := vc_level v - 1\<rparr>);
     let xs = sk_header sl;
     let compare = (\<lambda>e. op_compare (sk_ops sl) e (sr_lookupdata r));
     let out = (\<lambda>r. map_option (\<lambda>v. (sl, v, r)) (move_lock_vector_down v));
     if xs = [] then out (sr_set SL_SEARCHRESULT_FLAG_EMPTY r)
     else if compare (last xs) < 0 then
       out (sr_set (SL_SEARCHRESULT_FLAG_NOENT OR SL_SEARCHRESULT_FLAG_LAST OR SL_SEARCHRESULT_FLAG_AFTER)
         (r\<lparr>sr_found := Some (last xs), sr_row := of_nat (length xs)\<rparr>))
     else if compare (last xs) = 0 then
       out (sr_set (SL_SEARCHRESULT_FLAG_EXACT OR SL_SEARCHRESULT_FLAG_LAST) (r\<lparr>sr_found := Some (last xs), sr_row := of_nat (length xs)\<rparr>))
     else if compare (hd xs) > 0 then
       out (sr_set (SL_SEARCHRESULT_FLAG_NOENT OR SL_SEARCHRESULT_FLAG_FIRST OR SL_SEARCHRESULT_FLAG_BEFORE)
         (r\<lparr>sr_found := Some (hd xs), sr_row := 0\<rparr>))
     else if compare (hd xs) = 0 then
       out (sr_set (SL_SEARCHRESULT_FLAG_EXACT OR SL_SEARCHRESULT_FLAG_FIRST) (r\<lparr>sr_found := Some (hd xs), sr_row := 1\<rparr>))
     else do {
       (sl, v, r, rest) \<leftarrow> lane_loop lockops sl v 0 xs (r\<lparr>sr_row := 1\<rparr>);
       Some (sl, v, case rest of
         Some ls \<Rightarrow> linear_loop (\<lambda>b e. op_compare (sk_ops sl) e b) (of_nat (length (sk_header sl))) ls r
       | None \<Rightarrow> r) } }"

type_synonym 'b sl_cb =
  "sl_lockops \<Rightarrow> 'b sl_skiplist_s \<Rightarrow> sl_vector_s \<Rightarrow> 'b sl_searchresult_s \<Rightarrow> ('b sl_skiplist_s \<times> 'b sl_searchresult_s) option"

definition sl_find_generic ::
    "(sl_alloc \<Rightarrow> bool) \<Rightarrow> sl_lockops \<Rightarrow> 'b sl_cb \<Rightarrow> 'b sl_skiplist_s \<Rightarrow> 'b sl_searchresult_s \<Rightarrow> ('b sl_skiplist_s \<times> 'b sl_searchresult_s) option" where
  "sl_find_generic malloc lockops cb sl r = do {
     start \<leftarrow> sk_dirnodes sl 0;
     case create_vector_path malloc (dn_level start + 1) 0 of
       None \<Rightarrow> Some (sl, sr_set SL_SEARCHRESULT_FLAG_ERROR r)
     | Some v \<Rightarrow> do {
         (sl, v, r) \<leftarrow> sl_search lockops sl v r;
         cb lockops sl v r } }"

definition move_zero :: sl_move_dirnode_s where
  "move_zero = \<lparr>mv_flags = 0, mv_dirnode = None, mv_left = 0, mv_right = 0, mv_step = 0, mv_list = None\<rparr>"

definition correct_dirnodes_ignore :: "'b sl_correct" where
  "correct_dirnodes_ignore sl v level move = Some (sl, move)"

definition sl_find_cb :: "'b sl_cb" where
  "sl_find_cb lockops sl v r = map_option (\<lambda>sl. (sl, r)) (remove_lock_vector lockops sl v correct_dirnodes_ignore move_zero)"

definition lockops_of :: "'b sl_searchresult_s \<Rightarrow> sl_lockops" where
  "lockops_of r = (if sr_flags r AND SL_SEARCHRESULT_FLAG_EXCLUSIVE \<noteq> 0 then Lockops_nolock else Lockops_default)"

definition sl_find ::
    "(sl_alloc \<Rightarrow> bool) \<Rightarrow> 'b sl_skiplist_s \<Rightarrow> 'b sl_searchresult_s \<Rightarrow> ('b sl_skiplist_s \<times> 'b sl_searchresult_s) option" where
  "sl_find malloc sl r = sl_find_generic malloc (lockops_of r) sl_find_cb sl r"

section \<open>Inserting\<close>

primrec levelup_loop :: "'b sl_skiplist_s \<Rightarrow> nat list \<Rightarrow> u32 \<times> int \<Rightarrow> (u32 \<times> int) option" where
  "levelup_loop sl [] st = Some st"
| "levelup_loop sl (ctr # ctrs) st = do {
     jn \<leftarrow> get_junction sl 0 ctr;
     if jn_count jn + 1 = 0 then None
     else do {
       let hlp = fst st div (jn_count jn + 1);
       levelup_loop sl ctrs (hlp, if hlp > sk_prob sl then int ctr else snd st) } }"

definition do_levelup :: "'b sl_skiplist_s \<Rightarrow> int option" where
  "do_levelup sl = do {
     let hlp = of_nat (length (sk_header sl));
     if hlp > sk_prob sl then do {
       start \<leftarrow> sk_dirnodes sl 0;
       (hlp, level) \<leftarrow> levelup_loop sl [0..<dn_level start + 1] (hlp, -1);
       Some (if level = int (dn_level start) \<and> hlp > sk_prob sl then level + 1 else level) }
     else Some 0 }"

text \<open>The steps of the lane below that the new dirnode skips.\<close>

definition new_steps :: "'b sl_skiplist_s \<Rightarrow> sl_vector_s \<Rightarrow> nat \<Rightarrow> nat \<Rightarrow> nat \<Rightarrow> sl_move_dirnode_s \<Rightarrow> sl_move_dirnode_s option" where
  "new_steps sl v level prev nxt ins = do {
     path \<leftarrow> get_path v (level - 1);
     let tmp = pt_dirnode path;
     ins \<leftarrow> (if prev \<noteq> tmp then do {
         jn \<leftarrow> get_junction sl prev (level - 1);
         Some (ins\<lparr>mv_left := mv_left ins + jn_step jn\<rparr>) }
       else Some ins);
     jn \<leftarrow> get_junction sl tmp (level - 1);
     if nxt \<noteq> jn_n jn then do {
       jn \<leftarrow> get_junction sl nxt (level - 1);
       jn \<leftarrow> get_junction sl (jn_p jn) (level - 1);
       Some (ins\<lparr>mv_right := mv_right ins + jn_step jn\<rparr>) }
     else Some ins }"

text \<open>A new dirnode is put between its neighbours of a lane; a lane above it only gets one step longer.\<close>

definition correct_dirnodes_insert :: "'b sl_correct" where
  "correct_dirnodes_insert sl v level ins = do {
     path \<leftarrow> get_path v level;
     let prev = pt_dirnode path;
     below \<leftarrow> (case mv_dirnode ins of
         None \<Rightarrow> Some None
       | Some new \<Rightarrow> do { dn \<leftarrow> sk_dirnodes sl new; Some (if dn_level dn \<ge> level then Some new else None) });
     case below of
       Some new \<Rightarrow> do {
         jn \<leftarrow> get_junction sl prev level;
         let nxt = jn_n jn;
         sl \<leftarrow> upd_junction prev level (\<lambda>jn. jn\<lparr>jn_n := new\<rparr>) sl;
         sl \<leftarrow> upd_junction new level (\<lambda>jn. jn\<lparr>jn_p := prev\<rparr>) sl;
         sl \<leftarrow> upd_junction nxt level (\<lambda>jn. jn\<lparr>jn_p := new\<rparr>) sl;
         sl \<leftarrow> upd_junction new level (\<lambda>jn. jn\<lparr>jn_n := nxt\<rparr>) sl;
         ins \<leftarrow> (if level > 0 then new_steps sl v level prev nxt ins else Some ins);
         sl \<leftarrow> upd_junction prev level (\<lambda>jn. jn\<lparr>jn_step := mv_left ins\<rparr>) sl;
         sl \<leftarrow> upd_junction new level (\<lambda>jn. jn\<lparr>jn_step := mv_right ins\<rparr>) sl;
         sl \<leftarrow> upd_junction 0 level (\<lambda>jn. jn\<lparr>jn_count := jn_count jn + 1\<rparr>) sl;
         Some (sl, ins) }
     | None \<Rightarrow> do {
         sl \<leftarrow> upd_junction prev level (\<lambda>jn. jn\<lparr>jn_step := jn_step jn + 1\<rparr>) sl;
         Some (sl, ins) } }"

text \<open>
  A dirnode is moved along the elements \<open>ps\<close> on its way, towards the side with more of them. The unsigned differences of the source are kept.
\<close>

fun move_left_loop :: "nat list \<Rightarrow> nat \<Rightarrow> sl_move_dirnode_s \<Rightarrow> nat \<times> sl_move_dirnode_s" where
  "move_left_loop [] e move = (e, move)"
| "move_left_loop (p # ps) e move =
     (if mv_left move - mv_right move > 1 \<and> mv_list move \<noteq> Some p
      then move_left_loop ps p (move\<lparr>mv_step := mv_step move - 1, mv_left := mv_left move - 1, mv_right := mv_right move + 1\<rparr>)
      else (e, move))"

fun move_right_loop :: "nat list \<Rightarrow> nat \<Rightarrow> sl_move_dirnode_s \<Rightarrow> nat \<times> sl_move_dirnode_s" where
  "move_right_loop [] e move = (e, move)"
| "move_right_loop (p # ps) e move =
     (if mv_right move - mv_left move > 1 \<and> mv_list move \<noteq> Some p
      then move_right_loop ps p (move\<lparr>mv_step := mv_step move + 1, mv_left := mv_left move + 1, mv_right := mv_right move - 1\<rparr>)
      else (e, move))"

definition move_sl_dirnode ::
    "(nat \<Rightarrow> sl_move_dirnode_s \<Rightarrow> nat \<times> sl_move_dirnode_s) \<Rightarrow> bool \<Rightarrow> 'b sl_skiplist_s \<Rightarrow> sl_move_dirnode_s \<Rightarrow>
      ('b sl_skiplist_s \<times> sl_move_dirnode_s) option" where
  "move_sl_dirnode loop apart sl move =
     (if apart then do {
        d \<leftarrow> mv_dirnode move;
        dn \<leftarrow> sk_dirnodes sl d;
        e \<leftarrow> dn_list dn;
        if e \<in> set (sk_header sl) then do {
          let (e', move) = loop e move;
          sl \<leftarrow> upd_dirnode d (\<lambda>dn. dn\<lparr>dn_list := Some e'\<rparr>) sl;
          Some (sl, move) }
        else None }
      else Some (sl, move))"

definition move_sl_dirnode_left :: "'b sl_skiplist_s \<Rightarrow> sl_move_dirnode_s \<Rightarrow> ('b sl_skiplist_s \<times> sl_move_dirnode_s) option" where
  "move_sl_dirnode_left sl move =
     move_sl_dirnode (\<lambda>e. move_left_loop (rev (takeWhile (\<lambda>x. x \<noteq> e) (sk_header sl))) e) (mv_left move - mv_right move > 1) sl move"

definition move_sl_dirnode_right :: "'b sl_skiplist_s \<Rightarrow> sl_move_dirnode_s \<Rightarrow> ('b sl_skiplist_s \<times> sl_move_dirnode_s) option" where
  "move_sl_dirnode_right sl move =
     move_sl_dirnode (\<lambda>e. move_right_loop (tl (dropWhile (\<lambda>x. x \<noteq> e) (sk_header sl))) e) (mv_right move - mv_left move > 1) sl move"

definition insert_sl_dirnode :: "(sl_alloc \<Rightarrow> bool) \<Rightarrow> 'b sl_skiplist_s \<Rightarrow> nat \<Rightarrow> sl_move_dirnode_s \<Rightarrow>
    (nat option \<times> 'b sl_skiplist_s \<times> sl_move_dirnode_s) option" where
  "insert_sl_dirnode malloc sl e ins = do {
     newlevel \<leftarrow> do_levelup sl;
     if newlevel \<ge> 0 then do {
       let newlevel = min (nat newlevel) (sk_maxlevel sl);
       case create_sl_dirnode malloc newlevel sl of
         (Some new, sl) \<Rightarrow> do {
           sl \<leftarrow> upd_dirnode new (\<lambda>dn. dn\<lparr>dn_list := Some e\<rparr>) sl;
           sl \<leftarrow> upd_dirnode 0 (\<lambda>dn. dn\<lparr>dn_level := max (dn_level dn) newlevel\<rparr>) sl;
           Some (Some new, sl, ins\<lparr>mv_dirnode := Some new\<rparr>) }
       | (None, sl) \<Rightarrow> Some (None, sl, ins) }
     else Some (None, sl, ins) }"

definition insert_sl_dirnode_left :: "(sl_alloc \<Rightarrow> bool) \<Rightarrow> 'b sl_skiplist_s \<Rightarrow> nat \<Rightarrow> sl_move_dirnode_s \<Rightarrow>
    ('b sl_skiplist_s \<times> sl_move_dirnode_s) option" where
  "insert_sl_dirnode_left malloc sl e ins = do {
     (new, sl, ins) \<leftarrow> insert_sl_dirnode malloc sl e ins;
     if new \<noteq> None then move_sl_dirnode_left sl ins else Some (sl, ins) }"

definition insert_sl_dirnode_right :: "(sl_alloc \<Rightarrow> bool) \<Rightarrow> 'b sl_skiplist_s \<Rightarrow> nat \<Rightarrow> sl_move_dirnode_s \<Rightarrow>
    ('b sl_skiplist_s \<times> sl_move_dirnode_s) option" where
  "insert_sl_dirnode_right malloc sl e ins = do {
     (new, sl, ins) \<leftarrow> insert_sl_dirnode malloc sl e ins;
     if new \<noteq> None then move_sl_dirnode_right sl ins else Some (sl, ins) }"

text \<open>A dirnode for the new element, if the part of the lane where it comes is long enough.\<close>

definition place_dirnode :: "(sl_alloc \<Rightarrow> bool) \<Rightarrow> 'b sl_skiplist_s \<Rightarrow> nat \<Rightarrow> sl_move_dirnode_s \<Rightarrow>
    ('b sl_skiplist_s \<times> sl_move_dirnode_s) option" where
  "place_dirnode malloc sl e ins =
     (let left = mv_left ins; right = mv_right ins; prob = sk_prob sl in
      if left \<ge> prob \<and> right \<ge> prob then map_option snd (insert_sl_dirnode malloc sl e ins)
      else if left + right + 1 \<ge> 2 * prob \<or> left > prob + 1 \<or> left > prob + 1 then
        (if left > right then insert_sl_dirnode_left malloc sl e ins
         else if right > left then insert_sl_dirnode_right malloc sl e ins
         else Some (sl, ins))
      else Some (sl, ins))"

text \<open>The new element comes into the list, next to the element the search has found; \<open>jn\<close> is the junction the search ended at.\<close>

definition link_element :: "(sl_alloc \<Rightarrow> bool) \<Rightarrow> 'b sl_skiplist_s \<Rightarrow> sl_junction_s \<Rightarrow> nat \<Rightarrow> 'b sl_searchresult_s \<Rightarrow>
    ('b sl_skiplist_s \<times> sl_move_dirnode_s \<times> 'b sl_searchresult_s) option" where
  "link_element malloc sl jn e r = do {
     let done = (sr_set SL_SEARCHRESULT_FLAG_OK r)\<lparr>sr_found := Some e\<rparr>;
     if sr_flags r AND SL_SEARCHRESULT_FLAG_EMPTY \<noteq> 0 then do {
       sl \<leftarrow> add_element (\<lambda>xs. e # xs) e sl;
       sl \<leftarrow> upd_junction 0 0 (\<lambda>jn. jn\<lparr>jn_step := 1\<rparr>) sl;
       Some (sl, move_zero, done) }
     else if sr_flags r AND SL_SEARCHRESULT_FLAG_BEFORE \<noteq> 0 then do {
       b \<leftarrow> sr_found r;
       sl \<leftarrow> add_element (list_insert_before b e) e sl;
       (sl, ins) \<leftarrow> place_dirnode malloc sl e (move_zero\<lparr>mv_left := sr_step r, mv_right := jn_step jn - sr_step r + 1\<rparr>);
       Some (sl, ins, done) }
     else if sr_flags r AND SL_SEARCHRESULT_FLAG_AFTER \<noteq> 0 then do {
       a \<leftarrow> sr_found r;
       sl \<leftarrow> add_element (list_insert_after a e) e sl;
       (sl, ins) \<leftarrow> place_dirnode malloc sl e (move_zero\<lparr>mv_left := sr_step r + 1, mv_right := jn_step jn - sr_step r\<rparr>);
       Some (sl, ins, done) }
     else do {
       (sl, ins) \<leftarrow> place_dirnode malloc sl e move_zero;
       Some (sl, ins, r) } }"

definition sl_insert_cb :: "(sl_alloc \<Rightarrow> bool) \<Rightarrow> 'b sl_cb" where
  "sl_insert_cb malloc lockops sl v r = do {
     let nothing = (\<lambda>sl v r. map_option (\<lambda>sl. (sl, r)) (remove_lock_vector lockops sl v correct_dirnodes_ignore move_zero));
     if sr_flags r AND SL_SEARCHRESULT_FLAG_EXACT \<noteq> 0 then nothing sl v r
     else do {
       (result, sl, v) \<leftarrow> upgrade_readlock_vector lockops sl v False;
       if result \<noteq> 0 then nothing sl v r
       else case op_get_list_element (sk_ops sl) (sr_lookupdata r) of
         None \<Rightarrow> nothing sl v (sr_set SL_SEARCHRESULT_FLAG_ERROR r)
       | Some e \<Rightarrow> do {
           path \<leftarrow> get_path v 0;
           jn \<leftarrow> get_junction sl (pt_dirnode path) 0;
           (sl, ins, r) \<leftarrow> link_element malloc sl jn e r;
           map_option (\<lambda>sl. (sl, r)) (remove_lock_vector lockops sl v correct_dirnodes_insert ins) } } }"

definition sl_insert ::
    "(sl_alloc \<Rightarrow> bool) \<Rightarrow> 'b sl_skiplist_s \<Rightarrow> 'b sl_searchresult_s \<Rightarrow> ('b sl_skiplist_s \<times> 'b sl_searchresult_s) option" where
  "sl_insert malloc sl r = sl_find_generic malloc (lockops_of r) (sl_insert_cb malloc) sl r"

section \<open>Deleting\<close>

definition correct_sl_dirnodes_remove :: "'b sl_correct" where
  "correct_sl_dirnodes_remove sl v level move = do {
     below \<leftarrow> (case mv_dirnode move of
         None \<Rightarrow> Some None
       | Some old \<Rightarrow> do { dn \<leftarrow> sk_dirnodes sl old; Some (if dn_level dn \<ge> level then Some (old, dn) else None) });
     case below of
       Some (old, dn) \<Rightarrow> do {
         jn \<leftarrow> get_junction sl old level;
         sl \<leftarrow> upd_junction (jn_p jn) level (\<lambda>pj. pj\<lparr>jn_n := jn_n jn, jn_step := jn_step pj + (jn_step jn - 1)\<rparr>) sl;
         sl \<leftarrow> upd_junction 0 level (\<lambda>jn. jn\<lparr>jn_count := jn_count jn - 1\<rparr>) sl;
         Some (if level = dn_level dn then (sl\<lparr>sk_dirnodes := (sk_dirnodes sl)(old := None)\<rparr>, move\<lparr>mv_dirnode := None\<rparr>) else (sl, move)) }
     | None \<Rightarrow> do {
         path \<leftarrow> get_path v level;
         sl \<leftarrow> upd_junction (pt_dirnode path) level (\<lambda>jn. jn\<lparr>jn_step := jn_step jn - 1\<rparr>) sl;
         Some (sl, move) } }"

definition correct_sl_dirnodes_move :: "'b sl_correct" where
  "correct_sl_dirnodes_move sl v level move = do {
     below \<leftarrow> (case mv_dirnode move of
         None \<Rightarrow> Some None
       | Some d \<Rightarrow> do { dn \<leftarrow> sk_dirnodes sl d; Some (if dn_level dn \<ge> level then Some d else None) });
     case below of
       Some d \<Rightarrow> do {
         jn \<leftarrow> get_junction sl d level;
         let prev = jn_p jn;
         sl \<leftarrow> upd_junction prev level (\<lambda>jn. jn\<lparr>jn_step := jn_step jn + mv_step move\<rparr>) sl;
         sl \<leftarrow> upd_junction d level (\<lambda>jn. jn\<lparr>jn_step := jn_step jn - mv_step move\<rparr>) sl;
         sl \<leftarrow> upd_junction (if mv_flags move AND SL_MOVE_FLAG_DIRNODERIGHT \<noteq> 0 then prev else d) level
           (\<lambda>jn. jn\<lparr>jn_step := jn_step jn - 1\<rparr>) sl;
         Some (sl, move) }
     | None \<Rightarrow> do {
         path \<leftarrow> get_path v level;
         sl \<leftarrow> upd_junction (pt_dirnode path) level (\<lambda>jn. jn\<lparr>jn_step := jn_step jn - 1\<rparr>) sl;
         Some (sl, move) } }"

text \<open>The three steps of the source: a dirnode that stands on the deleted element is removed or moved aside; otherwise a short part of the
  lane is made longer by moving a dirnode at one of its ends.\<close>

definition start_move :: "nat \<Rightarrow> u32 \<Rightarrow> u32 \<Rightarrow> u8 \<Rightarrow> nat \<Rightarrow> sl_move_dirnode_s" where
  "start_move d left right flags e =
     \<lparr>mv_flags = flags, mv_dirnode = Some d, mv_left = left, mv_right = right, mv_step = 0, mv_list = Some e\<rparr>"

definition delete_at_dirnode ::
    "'b sl_skiplist_s \<Rightarrow> nat \<Rightarrow> nat \<Rightarrow> ('b sl_skiplist_s \<times> sl_move_dirnode_s \<times> 'b sl_correct) option" where
  "delete_at_dirnode sl d e = do {
     jn \<leftarrow> get_junction sl d 0;
     pj \<leftarrow> get_junction sl (jn_p jn) 0;
     let left = jn_step pj;
     let right = jn_step jn;
     if left + right + 1 < 2 * sk_prob sl then
       Some (sl, start_move d left right SL_MOVE_FLAG_REMOVE e, correct_sl_dirnodes_remove)
     else if left > right + 1 then do {
       (sl, move) \<leftarrow> move_sl_dirnode_left sl (start_move d left right SL_MOVE_FLAG_MOVELEFT e);
       Some (sl, move, correct_sl_dirnodes_move) }
     else if right > left + 1 then do {
       (sl, move) \<leftarrow> move_sl_dirnode_right sl (start_move d left right SL_MOVE_FLAG_MOVELEFT e);
       Some (sl, move, correct_sl_dirnodes_move) }
     else Some (sl, move_zero\<lparr>mv_list := Some e\<rparr>, correct_sl_dirnodes_move) }"

definition delete_between ::
    "'b sl_skiplist_s \<Rightarrow> nat \<Rightarrow> nat \<Rightarrow> ('b sl_skiplist_s \<times> sl_move_dirnode_s) option" where
  "delete_between sl d e = do {
     jn \<leftarrow> get_junction sl d 0;
     if jn_step jn < sk_prob sl - 1 then do {
       let nxt = jn_n jn;
       dn \<leftarrow> sk_dirnodes sl d;
       nn \<leftarrow> sk_dirnodes sl nxt;
       nj \<leftarrow> get_junction sl nxt 0;
       let d_start = (dn_flags dn AND DIRNODE_FLAG_START \<noteq> 0);
       let n_start = (dn_flags nn AND DIRNODE_FLAG_START \<noteq> 0);
       let next_left = move_sl_dirnode_left sl (start_move nxt (jn_step jn) (jn_step nj) (SL_MOVE_FLAG_DIRNODERIGHT OR SL_MOVE_FLAG_MOVELEFT) e);
       let next_right = move_sl_dirnode_right sl (start_move nxt (jn_step jn) (jn_step nj) (SL_MOVE_FLAG_DIRNODERIGHT OR SL_MOVE_FLAG_MOVERIGHT) e);
       let stay = Some (sl, move_zero\<lparr>mv_list := Some e\<rparr>);
       if \<not> d_start \<and> \<not> n_start then do {
         pj \<leftarrow> get_junction sl (jn_p jn) 0;
         if jn_step jn > jn_step nj then next_left
         else if jn_step pj > jn_step nj then
           move_sl_dirnode_left sl (start_move d (jn_step pj) (jn_step jn) SL_MOVE_FLAG_MOVELEFT e)
         else if jn_step jn < jn_step nj then next_right
         else stay }
       else if d_start \<and> \<not> n_start then
         (if jn_step jn < jn_step nj then next_right else if jn_step jn > jn_step nj then next_left else stay)
       else if \<not> d_start \<and> n_start then do {
         pj \<leftarrow> get_junction sl (jn_p jn) 0;
         if jn_step pj > jn_step jn then
           move_sl_dirnode_left sl (start_move d (jn_step pj) (jn_step jn) SL_MOVE_FLAG_MOVERIGHT e)
         else stay }
       else stay }
     else Some (sl, move_zero\<lparr>mv_list := Some e\<rparr>) }"

definition sl_delete_cb :: "'b sl_cb" where
  "sl_delete_cb lockops sl v r = do {
     path \<leftarrow> get_path v 0;
     let d = pt_dirnode path;
     let at_dirnode = (sr_flags r AND SL_SEARCHRESULT_FLAG_DIRNODE \<noteq> 0);
     if sr_flags r AND SL_SEARCHRESULT_FLAG_EXACT = 0 then
       map_option (\<lambda>sl. (sl, r)) (remove_lock_vector lockops sl v correct_dirnodes_ignore move_zero)
     else do {
       (result, sl, v) \<leftarrow> upgrade_readlock_vector lockops sl v at_dirnode;
       if result \<noteq> 0 then
         map_option (\<lambda>sl. (sl, sr_set SL_SEARCHRESULT_FLAG_ERROR r)) (remove_lock_vector lockops sl v correct_dirnodes_ignore move_zero)
       else do {
         e \<leftarrow> sr_found r;
         (sl, move, cb) \<leftarrow> (if at_dirnode then delete_at_dirnode sl d e
           else map_option (\<lambda>(sl, move). (sl, move, correct_sl_dirnodes_move)) (delete_between sl d e));
         let sl = sl\<lparr>sk_header := remove1 e (sk_header sl)\<rparr>;
         map_option (\<lambda>sl. (sl, sr_set SL_SEARCHRESULT_FLAG_OK r)) (remove_lock_vector lockops sl v cb move) } } }"

definition sl_delete ::
    "(sl_alloc \<Rightarrow> bool) \<Rightarrow> 'b sl_skiplist_s \<Rightarrow> 'b sl_searchresult_s \<Rightarrow> ('b sl_skiplist_s \<times> 'b sl_searchresult_s) option" where
  "sl_delete malloc sl r = sl_find_generic malloc (lockops_of r) sl_delete_cb sl r"

section \<open>Clearing\<close>

primrec remove_levels :: "nat \<Rightarrow> nat list \<Rightarrow> 'b sl_skiplist_s \<Rightarrow> 'b sl_skiplist_s option" where
  "remove_levels d [] sl = Some sl"
| "remove_levels d (i # is) sl = do {
     jn \<leftarrow> get_junction sl d i;
     sl \<leftarrow> upd_junction (jn_p jn) i (\<lambda>pj. pj\<lparr>jn_step := jn_step pj + jn_step jn, jn_n := jn_n jn\<rparr>) sl;
     sl \<leftarrow> upd_junction (jn_n jn) i (\<lambda>nj. nj\<lparr>jn_p := jn_p jn\<rparr>) sl;
     sl \<leftarrow> upd_junction 0 i (\<lambda>jn. jn\<lparr>jn_count := jn_count jn - 1\<rparr>) sl;
     remove_levels d is sl }"

definition remove_sl_dirnode :: "nat \<Rightarrow> 'b sl_skiplist_s \<Rightarrow> 'b sl_skiplist_s option" where
  "remove_sl_dirnode d sl = do {
     dn \<leftarrow> sk_dirnodes sl d;
     remove_levels d [0..<dn_level dn + 1] sl }"

partial_function (option) clear_loop :: "nat \<Rightarrow> 'b sl_skiplist_s \<Rightarrow> 'b sl_skiplist_s option" where
  "clear_loop d sl = do {
     dn \<leftarrow> sk_dirnodes sl d;
     jn \<leftarrow> get_junction sl d 0;
     if dn_flags dn AND DIRNODE_FLAG_START \<noteq> 0 then Some sl
     else do {
       sl \<leftarrow> remove_sl_dirnode d sl;
       clear_loop (jn_n jn) (sl\<lparr>sk_dirnodes := (sk_dirnodes sl)(d := None)\<rparr>) } }"

definition clear_sl_skiplist :: "'b sl_skiplist_s \<Rightarrow> 'b sl_skiplist_s option" where
  "clear_sl_skiplist sl = do {
     jn \<leftarrow> get_junction sl 0 0;
     clear_loop (jn_n jn) sl }"

end
