(* ===== verification/Skip_List_Search.thy ===== *)
theory Skip_List_Search
  imports Skip_List
begin

text \<open>
  The search in a skip list: the well-formedness of the lanes, the locks a search holds and gives back, and what the search finds, with and
  without locks.
\<close>

declare unat_ucast_u64 [simp]

section \<open>Well-formed skip lists\<close>

text \<open>The junction exists.\<close>

definition has :: "'b sl_skiplist_s \<Rightarrow> nat \<Rightarrow> nat \<Rightarrow> bool" where
  "has sl d i \<longleftrightarrow> get_junction sl d i \<noteq> None"

text \<open>
  The start has one junction more than lanes are allowed, every other dirnode one for each of its lanes; what a junction points to has
  a junction in the same lane.
\<close>

definition node_ok :: "'b sl_skiplist_s \<Rightarrow> nat \<Rightarrow> sl_dirnode_s \<Rightarrow> bool" where
  "node_ok sl d dn \<longleftrightarrow> d < sk_fresh sl \<and>
     (if d = 0 then dn_compare dn = Compare_end \<and> dn_flags dn AND DIRNODE_FLAG_START \<noteq> 0 \<and>
        length (dn_junction dn) = sk_maxlevel sl + 2 \<and> dn_level dn \<le> sk_maxlevel sl
      else dn_compare dn = Compare_ops \<and> length (dn_junction dn) = dn_level dn + 1)"

definition jn_ok :: "'b sl_skiplist_s \<Rightarrow> nat \<Rightarrow> sl_junction_s \<Rightarrow> bool" where
  "jn_ok sl i jn \<longleftrightarrow> has sl (jn_n jn) i \<and> has sl (jn_p jn) i"

definition lanes_ok :: "'b sl_skiplist_s \<Rightarrow> bool" where
  "lanes_ok sl \<longleftrightarrow> sk_dirnodes sl 0 \<noteq> None \<and> (\<forall>d dn. sk_dirnodes sl d = Some dn \<longrightarrow> node_ok sl d dn) \<and>
     (\<forall>d i jn. get_junction sl d i = Some jn \<longrightarrow> jn_ok sl i jn)"

text \<open>The number of dirnodes of a lane, for the lanes \<open>is\<close> with one more to come.\<close>

definition counts_ok :: "nat \<Rightarrow> nat list \<Rightarrow> 'b sl_skiplist_s \<Rightarrow> bool" where
  "counts_ok b is sl \<longleftrightarrow> (\<forall>i jn. get_junction sl 0 i = Some jn \<longrightarrow> unat (jn_count jn) + of_bool (i \<in> set is) \<le> b)"

text \<open>The locks that are held are those of the vector.\<close>

definition lockers_of :: "sl_vector_s \<Rightarrow> nat \<Rightarrow> nat" where
  "lockers_of v d = length (filter (\<lambda>p. pt_lock p \<noteq> 0 \<and> pt_dirnode p = d) (vc_path v))"

definition locks_ok :: "sl_vector_s \<Rightarrow> 'b sl_skiplist_s \<Rightarrow> bool" where
  "locks_ok v sl \<longleftrightarrow> (\<forall>d dn. sk_dirnodes sl d = Some dn \<longrightarrow> dn_lock dn = 0 \<and> dn_lockers dn = of_nat (lockers_of v d))"

definition path_ok :: "sl_lockops \<Rightarrow> sl_vector_s \<Rightarrow> 'b sl_skiplist_s \<Rightarrow> bool" where
  "path_ok lockops v sl \<longleftrightarrow> (lockops = Lockops_nolock \<longrightarrow> (\<forall>p \<in> set (vc_path v). pt_lock p = 0)) \<and>
     vc_level v < vc_maxlevel v \<and> length (vc_path v) = vc_maxlevel v + 1 \<and> has sl 0 (vc_maxlevel v) \<and>
     (\<forall>i \<le> vc_maxlevel v. has sl (pt_dirnode (vc_path v ! i)) i) \<and>
     (\<forall>i \<le> vc_maxlevel v. pt_lock (vc_path v ! i) \<noteq> 0 \<longrightarrow>
        i = vc_maxlevel v \<and> pt_dirnode (vc_path v ! i) = 0 \<or> i = vc_level v \<and> pt_dirnode (vc_path v ! i) \<noteq> 0)"

text \<open>Two skip lists that differ only in the locks.\<close>

definition strip :: "'b sl_skiplist_s \<Rightarrow> 'b sl_skiplist_s" where
  "strip sl = sl\<lparr>sk_dirnodes := \<lambda>d. map_option (\<lambda>dn. dn\<lparr>dn_lock := 0, dn_lockers := 0\<rparr>) (sk_dirnodes sl d)\<rparr>"

lemma get_junction_iff: "get_junction sl d i = Some jn \<longleftrightarrow>
    (\<exists>dn. sk_dirnodes sl d = Some dn \<and> i < length (dn_junction dn) \<and> jn = dn_junction dn ! i)"
  by (auto simp: get_junction_def bind_eq_Some_conv split: if_splits)

lemma hasI: "get_junction sl d i = Some jn \<Longrightarrow> has sl d i"
  by (simp add: has_def)

lemma hasE: "has sl d i \<Longrightarrow> \<exists>jn. get_junction sl d i = Some jn"
  by (auto simp: has_def)

lemma has_iff: "has sl d i \<longleftrightarrow> (\<exists>dn. sk_dirnodes sl d = Some dn \<and> i < length (dn_junction dn))"
  by (auto simp: has_def get_junction_def split: bind_splits)

lemma strip_junction: "get_junction (strip sl) d i = get_junction sl d i"
  by (auto simp: strip_def get_junction_def bind_eq_Some_conv split: option.splits bind_splits)

lemma strip_sel [simp]:
  "sk_header (strip sl) = sk_header sl" "sk_ops (strip sl) = sk_ops sl" "sk_prob (strip sl) = sk_prob sl"
  "sk_maxlevel (strip sl) = sk_maxlevel sl" "sk_fresh (strip sl) = sk_fresh sl" "has (strip sl) = has sl"
  by (simp_all add: strip_def has_def fun_eq_iff strip_junction [unfolded strip_def])

lemma node_ok_strip: "node_ok (strip sl) d (dn\<lparr>dn_lock := l, dn_lockers := n\<rparr>) \<longleftrightarrow> node_ok sl d dn"
  by (simp add: node_ok_def)

lemma jn_ok_strip [simp]: "jn_ok (strip sl) = jn_ok sl"
  by (simp add: jn_ok_def fun_eq_iff)

lemma lanes_ok_strip [simp]: "lanes_ok (strip sl) \<longleftrightarrow> lanes_ok sl"
proof -
  have d: "sk_dirnodes (strip sl) d = map_option (\<lambda>dn. dn\<lparr>dn_lock := 0, dn_lockers := 0\<rparr>) (sk_dirnodes sl d)" for d
    by (simp add: strip_def)
  show ?thesis unfolding lanes_ok_def d strip_junction jn_ok_strip
    by (auto simp: node_ok_strip) (metis node_ok_strip)
qed

lemma counts_ok_strip [simp]: "counts_ok b is (strip sl) = counts_ok b is sl"
  by (simp add: counts_ok_def strip_junction)

lemma path_ok_strip [simp]: "path_ok lo v (strip sl) = path_ok lo v sl"
  by (simp add: path_ok_def)

lemma strip_transfer:
  assumes "strip sl' = strip sl"
  shows "lanes_ok sl' = lanes_ok sl" "counts_ok b is sl' = counts_ok b is sl" "path_ok lo v sl' = path_ok lo v sl" "has sl' = has sl"
    "sk_header sl' = sk_header sl" "sk_ops sl' = sk_ops sl" "sk_maxlevel sl' = sk_maxlevel sl" "get_junction sl' = get_junction sl"
    "sk_prob sl' = sk_prob sl"
  by (metis assms lanes_ok_strip counts_ok_strip path_ok_strip strip_sel strip_junction ext)+

lemma strip_upd: "upd_dirnode d f sl = Some sl' \<Longrightarrow>
    (\<And>dn. (f dn)\<lparr>dn_lock := 0, dn_lockers := 0\<rparr> = dn\<lparr>dn_lock := 0, dn_lockers := 0\<rparr>) \<Longrightarrow> strip sl' = strip sl"
  by (auto simp: upd_dirnode_def strip_def bind_eq_Some_conv fun_eq_iff)


section \<open>Locks\<close>

definition locks :: "sl_path_s \<Rightarrow> nat \<Rightarrow> bool" where
  "locks p d \<longleftrightarrow> pt_lock p \<noteq> 0 \<and> pt_dirnode p = d"

lemma lockers_of_alt: "lockers_of v d = length (filter (\<lambda>p. locks p d) (vc_path v))"
  by (simp add: lockers_of_def locks_def)

lemma lockers_update:
  assumes "i < length (vc_path v)" and "vc_path w = (vc_path v)[i := p]"
  shows "lockers_of w d + of_bool (locks (vc_path v ! i) d) = lockers_of v d + of_bool (locks p d)"
proof -
  have e: "vc_path v = take i (vc_path v) @ vc_path v ! i # drop (Suc i) (vc_path v)" using assms(1) by (rule id_take_nth_drop)
  have "lockers_of v d = length (filter (\<lambda>p. locks p d) (take i (vc_path v))) + of_bool (locks (vc_path v ! i) d) +
      length (filter (\<lambda>p. locks p d) (drop (Suc i) (vc_path v)))"
    using arg_cong [OF e, of "\<lambda>x. length (filter (\<lambda>p. locks p d) x)"] by (simp add: lockers_of_alt)
  moreover have "lockers_of w d = length (filter (\<lambda>p. locks p d) (take i (vc_path v))) + of_bool (locks p d) +
      length (filter (\<lambda>p. locks p d) (drop (Suc i) (vc_path v)))"
    using assms by (simp add: lockers_of_alt upd_conv_take_nth_drop)
  ultimately show ?thesis by simp
qed

lemma upd_dirnode_ok: "sk_dirnodes sl d = Some dn \<Longrightarrow> upd_dirnode d f sl = Some (sl\<lparr>sk_dirnodes := (sk_dirnodes sl)(d \<mapsto> f dn)\<rparr>)"
  by (simp add: upd_dirnode_def)

lemma take_readlock_ok:
  assumes "locks_ok v sl" and "has sl d i" and "vc_level v < length (vc_path v)" and "pt_lock (vc_path v ! vc_level v) = 0"
  shows "\<exists>sl' v'. take_readlock d sl v = Some (sl', v') \<and>
    v' = v\<lparr>vc_path := (vc_path v)[vc_level v := \<lparr>pt_dirnode = d, pt_lockset = DIRNODE_LOCK_READ, pt_lock = 1\<rparr>]\<rparr> \<and>
    strip sl' = strip sl \<and> locks_ok v' sl'"
proof -
  let ?p = "\<lparr>pt_dirnode = d, pt_lockset = DIRNODE_LOCK_READ, pt_lock = 1\<rparr>"
  let ?v = "v\<lparr>vc_path := (vc_path v)[vc_level v := ?p]\<rparr>"
  obtain dn where dn: "sk_dirnodes sl d = Some dn" using assms(2) by (auto simp: has_iff)
  then have l: "dn_lock dn = 0" using assms(1) by (simp add: locks_ok_def)
  let ?f = "\<lambda>dn. dn\<lparr>dn_lock := dn_lock dn AND DIRNODE_LOCK_READ, dn_lockers := dn_lockers dn + 1\<rparr>"
  let ?sl = "sl\<lparr>sk_dirnodes := (sk_dirnodes sl)(d \<mapsto> ?f dn)\<rparr>"
  have u: "upd_dirnode d ?f sl = Some ?sl" using dn by (rule upd_dirnode_ok)
  have "lockers_of ?v x = lockers_of v x + of_bool (x = d)" for x
    using lockers_update [of "vc_level v" v ?v ?p x] assms(3,4) by (auto simp: locks_def)
  then have "locks_ok ?v ?sl" using assms(1) dn l by (auto simp: locks_ok_def)
  moreover have "strip ?sl = strip sl" using strip_upd [OF u] by simp
  moreover have "take_readlock d sl v = Some (?sl, ?v)" using dn l u assms(3) by (simp add: take_readlock_def upd_path_def)
  ultimately show ?thesis by blast
qed

lemma unlock_ok:
  assumes "locks_ok v sl" and "has sl (pt_dirnode (vc_path v ! i)) j" and "i < length (vc_path v)" and "pt_lock (vc_path v ! i) \<noteq> 0"
    and "vc_path w = (vc_path v)[i := p]" and "pt_lock p = 0" and "\<And>dn. dn_lock dn = 0 \<Longrightarrow> g dn = 0"
  shows "\<exists>sl'. upd_dirnode (pt_dirnode (vc_path v ! i)) (\<lambda>dn. dn\<lparr>dn_lockers := dn_lockers dn - 1, dn_lock := g dn\<rparr>) sl = Some sl' \<and>
    strip sl' = strip sl \<and> locks_ok w sl'"
proof -
  let ?d = "pt_dirnode (vc_path v ! i)"
  obtain dn where dn: "sk_dirnodes sl ?d = Some dn" using assms(2) by (auto simp: has_iff)
  then have l: "dn_lock dn = 0" "dn_lockers dn = of_nat (lockers_of v ?d)" using assms(1) by (simp_all add: locks_ok_def)
  have n: "lockers_of w x + of_bool (x = ?d) = lockers_of v x" for x
    using lockers_update [OF assms(3,5), of x] assms(4,6) by (auto simp: locks_def)
  let ?f = "\<lambda>dn. dn\<lparr>dn_lockers := dn_lockers dn - 1, dn_lock := g dn\<rparr>"
  let ?sl = "sl\<lparr>sk_dirnodes := (sk_dirnodes sl)(?d \<mapsto> ?f dn)\<rparr>"
  have u: "upd_dirnode ?d ?f sl = Some ?sl" using dn by (rule upd_dirnode_ok)
  have "lockers_of v ?d = lockers_of w ?d + 1" using n [of ?d] by simp
  then have "dn_lockers dn - 1 = of_nat (lockers_of w ?d)" using l(2) by simp
  moreover have "lockers_of w x = lockers_of v x" if "x \<noteq> ?d" for x using n [of x] that by simp
  ultimately have "locks_ok w ?sl" using assms(1) assms(7) [OF l(1)] by (auto simp: locks_ok_def)
  moreover have "strip ?sl = strip sl" using strip_upd [OF u] by simp
  ultimately show ?thesis using u by blast
qed

lemma drop_locker_ok:
  assumes "locks_ok v sl" and "has sl (pt_dirnode (vc_path v ! i)) j" and "i < length (vc_path v)" and "pt_lock (vc_path v ! i) \<noteq> 0"
    and "vc_path w = (vc_path v)[i := p]" and "pt_lock p = 0"
  shows "\<exists>sl'. drop_locker (pt_dirnode (vc_path v ! i)) sl = Some sl' \<and> strip sl' = strip sl \<and> locks_ok w sl'"
  unfolding drop_locker_def by (rule unlock_ok [OF assms]) simp

text \<open>What a step of the search keeps: the vector stays a path of held locks, and nothing but locks changes.\<close>

definition keeps :: "sl_lockops \<Rightarrow> 'b sl_skiplist_s \<Rightarrow> sl_vector_s \<Rightarrow> 'b sl_skiplist_s \<Rightarrow> sl_vector_s \<Rightarrow> bool" where
  "keeps lockops sl v sl' v' \<longleftrightarrow> strip sl' = strip sl \<and> locks_ok v' sl' \<and> path_ok lockops v' sl' \<and> vc_maxlevel v' = vc_maxlevel v"

lemma path_okD:
  assumes "path_ok lockops v sl"
  shows "vc_level v < vc_maxlevel v" "length (vc_path v) = vc_maxlevel v + 1"
    "i \<le> vc_maxlevel v \<Longrightarrow> has sl (pt_dirnode (vc_path v ! i)) i"
    "i \<le> vc_maxlevel v \<Longrightarrow> pt_lock (vc_path v ! i) \<noteq> 0 \<Longrightarrow>
      i = vc_maxlevel v \<and> pt_dirnode (vc_path v ! i) = 0 \<or> i = vc_level v \<and> pt_dirnode (vc_path v ! i) \<noteq> 0"
    "lockops = Lockops_nolock \<Longrightarrow> p \<in> set (vc_path v) \<Longrightarrow> pt_lock p = 0"
    "has sl 0 (vc_maxlevel v)"
  using assms by (auto simp: path_ok_def)

text \<open>Changing the entry of the level of the vector.\<close>

lemma path_ok_update:
  assumes "path_ok lockops v sl" and "has sl (pt_dirnode p) (vc_level v)" and "pt_lock p \<noteq> 0 \<Longrightarrow> pt_dirnode p \<noteq> 0 \<and> lockops \<noteq> Lockops_nolock"
  shows "path_ok lockops (v\<lparr>vc_path := (vc_path v)[vc_level v := p]\<rparr>) sl"
proof -
  note o = path_okD [OF assms(1)]
  let ?w = "v\<lparr>vc_path := (vc_path v)[vc_level v := p]\<rparr>"
  have nth: "(vc_path v)[vc_level v := p] ! i = (if i = vc_level v then p else vc_path v ! i)" for i using o(1,2) by (simp add: nth_list_update)
  have "pt_lock q = 0" if "lockops = Lockops_nolock" "q \<in> set (vc_path ?w)" for q
    using o(5) [OF that(1)] that assms(3) set_update_subset_insert [of "vc_path v" "vc_level v" p] by auto
  moreover have "has sl (pt_dirnode (vc_path ?w ! i)) i" if "i \<le> vc_maxlevel v" for i using o(3) that assms(2) by (simp add: nth)
  moreover have "i = vc_maxlevel v \<and> pt_dirnode (vc_path ?w ! i) = 0 \<or> i = vc_level v \<and> pt_dirnode (vc_path ?w ! i) \<noteq> 0"
    if "i \<le> vc_maxlevel v" "pt_lock (vc_path ?w ! i) \<noteq> 0" for i
    using o(4) [of i] that assms(3) by (auto simp: nth split: if_splits)
  ultimately show ?thesis using o(1,2,6) unfolding path_ok_def by simp
qed

lemma move_readlock_keeps:
  assumes "path_ok lockops v sl" and "locks_ok v sl" and "has sl d (vc_level v)" and "d \<noteq> 0"
  shows "\<exists>sl' v'. move_readlock_vector_path lockops sl v d = Some (sl', v') \<and> keeps lockops sl v sl' v' \<and> vc_level v' = vc_level v \<and>
    pt_dirnode (vc_path v' ! vc_level v) = d"
proof (cases lockops)
  case Lockops_nolock
  let ?v = "v\<lparr>vc_path := (vc_path v)[vc_level v := (vc_path v ! vc_level v)\<lparr>pt_dirnode := d\<rparr>]\<rparr>"
  note o = path_okD [OF assms(1)]
  have z: "pt_lock (vc_path v ! vc_level v) = 0" using o(1,2) o(5) [OF Lockops_nolock] by simp
  have "path_ok lockops ?v sl" by (rule path_ok_update [OF assms(1)]) (simp_all add: assms(3) z)
  moreover have "lockers_of ?v x = lockers_of v x" for x using lockers_update [of "vc_level v" v ?v _ x] o(1,2) z by (simp add: locks_def)
  ultimately show ?thesis using assms(2) o(1,2) Lockops_nolock
    by (simp add: move_readlock_vector_path_def set_path_dirnode_def upd_path_def keeps_def locks_ok_def)
next
  case Lockops_default
  note o = path_okD [OF assms(1)]
  let ?p = "vc_path v ! vc_level v"
  have i: "vc_level v < length (vc_path v)" using o(1,2) by simp
  then have g: "get_path v (vc_level v) = Some ?p" by (simp add: get_path_def)
  let ?new = "\<lparr>pt_dirnode = d, pt_lockset = DIRNODE_LOCK_READ, pt_lock = 1\<rparr>"
  show ?thesis
  proof (cases "pt_dirnode ?p = d")
    case True
    then show ?thesis using assms(1,2) g Lockops_default by (simp add: move_readlock_vector_path_def keeps_def)
  next
    case False
    obtain sl1 v1 where 1: "(if pt_lock ?p \<noteq> 0 then drop_locker (pt_dirnode ?p) sl else Some sl) = Some sl1"
        "(if pt_lock ?p \<noteq> 0 then upd_path (vc_level v) (\<lambda>p. p\<lparr>pt_lock := 0\<rparr>) v else Some v) = Some v1"
        "strip sl1 = strip sl" "locks_ok v1 sl1" "v1 = v\<lparr>vc_path := (vc_path v)[vc_level v := ?p\<lparr>pt_lock := 0\<rparr>]\<rparr>"
    proof (cases "pt_lock ?p = 0")
      case True
      then have "(vc_path v)[vc_level v := ?p\<lparr>pt_lock := 0\<rparr>] = vc_path v" by (metis list_update_id sl_path_s.surjective sl_path_s.update_convs(3))
      then show thesis using that [of sl v] True assms(2) by simp
    next
      case False
      let ?w = "v\<lparr>vc_path := (vc_path v)[vc_level v := ?p\<lparr>pt_lock := 0\<rparr>]\<rparr>"
      obtain sl1 where "drop_locker (pt_dirnode ?p) sl = Some sl1" "strip sl1 = strip sl" "locks_ok ?w sl1"
        using drop_locker_ok [OF assms(2) _ i False, of "vc_level v" ?w "?p\<lparr>pt_lock := 0\<rparr>"] o(1) o(3) [of "vc_level v"] by auto
      then show thesis using that [of sl1 ?w] False i by (simp add: upd_path_def)
    qed
    have "has sl1 d (vc_level v)" using assms(3) strip_transfer(4) [OF 1(3)] by simp
    then obtain sl2 v2 where 2: "take_readlock d sl1 v1 = Some (sl2, v2)" "v2 = v\<lparr>vc_path := (vc_path v)[vc_level v := ?new]\<rparr>"
        "strip sl2 = strip sl1" "locks_ok v2 sl2"
      using take_readlock_ok [OF 1(4), of d "vc_level v"] i by (auto simp: 1(5))
    have "path_ok lockops v2 sl" unfolding 2(2) by (rule path_ok_update [OF assms(1)]) (simp_all add: assms(3,4) Lockops_default)
    then have "path_ok lockops v2 sl2" using strip_transfer(3) [of sl2 sl] 1(3) 2(3) by simp
    moreover have "move_readlock_vector_path lockops sl v d = Some (sl2, v2)"
      using 1(1,2) 2(1) g False Lockops_default by (simp add: move_readlock_vector_path_def)
    ultimately show ?thesis using 1(3) 2 i by (simp add: keeps_def)
  qed
qed

lemma has_less: "has sl d i \<Longrightarrow> j \<le> i \<Longrightarrow> has sl d j"
  by (auto simp: has_iff)

lemma locks_none: "i < length (vc_path v) \<Longrightarrow> pt_lock (vc_path v ! i) = 0 \<Longrightarrow> \<not> locks (vc_path v ! i) d"
  by (simp add: locks_def)

lemma path_down_keeps:
  assumes "path_ok lockops v sl" and "locks_ok v sl" and "vc_level v \<noteq> 0"
  shows "\<exists>v'. move_lock_vector_path_down v = Some v' \<and> keeps lockops sl v sl v' \<and> vc_level v' = vc_level v - 1 \<and>
    pt_dirnode (vc_path v' ! (vc_level v - 1)) = pt_dirnode (vc_path v ! vc_level v)"
proof -
  let ?l = "vc_level v" and ?p = "vc_path v ! vc_level v"
  let ?q = "?p\<lparr>pt_lock := 0, pt_lockset := 0\<rparr>"
  note o = path_okD [OF assms(1)]
  define u where "u = v\<lparr>vc_path := (vc_path v)[?l - 1 := ?p]\<rparr>"
  define w where "w = v\<lparr>vc_path := (vc_path v)[?l - 1 := ?p, ?l := ?q], vc_level := ?l - 1\<rparr>"
  have l: "?l < length (vc_path v)" "?l - 1 < length (vc_path v)" "?l - 1 \<noteq> ?l" using o(1,2) assms(3) by simp_all
  have ul: "vc_path u ! ?l = ?p" "length (vc_path u) = length (vc_path v)" using l by (simp_all add: u_def)
  have z: "pt_lock (vc_path v ! (?l - 1)) = 0" using o(1) o(4) [of "?l - 1"] l(3) by fastforce
  have "lockers_of w d = lockers_of v d" for d
    using lockers_update [of "?l - 1" v u ?p d] lockers_update [of ?l u w ?q d] l ul z by (simp add: u_def w_def locks_def)
  then have "locks_ok w sl" using assms(2) by (simp add: locks_ok_def)
  moreover have nth: "vc_path w ! i = (if i = ?l then ?q else if i = ?l - 1 then ?p else vc_path v ! i)" for i
    using l by (simp add: w_def nth_list_update)
  have ws: "vc_maxlevel w = vc_maxlevel v" "vc_level w = ?l - 1" by (simp_all add: w_def)
  have "path_ok lockops w sl"
    unfolding path_ok_def
  proof (intro conjI allI impI ballI)
    fix p assume "lockops = Lockops_nolock" "p \<in> set (vc_path w)"
    moreover have "set (vc_path w) \<subseteq> insert ?q (set (vc_path v))"
      using l set_update_subset_insert [of "(vc_path v)[?l - 1 := ?p]" ?l ?q] set_update_subset_insert [of "vc_path v" "?l - 1" ?p] nth_mem [OF l(1)]
      by (auto simp: w_def)
    ultimately show "pt_lock p = 0" using o(5) by fastforce
  next
    fix i assume i: "i \<le> vc_maxlevel w"
    then show "has sl (pt_dirnode (vc_path w ! i)) i" using o(1) o(3) [of i] o(3) [of ?l] by (auto simp: nth ws intro: has_less)
    assume "pt_lock (vc_path w ! i) \<noteq> 0"
    then show "i = vc_maxlevel w \<and> pt_dirnode (vc_path w ! i) = 0 \<or> i = vc_level w \<and> pt_dirnode (vc_path w ! i) \<noteq> 0"
      using i o(1) o(4) [of i] o(4) [of ?l] l(3) by (auto simp: nth ws split: if_splits)
  qed (use o(1,2,6) in \<open>simp_all add: w_def\<close>)
  ultimately have "keeps lockops sl v sl w" by (simp add: keeps_def w_def)
  moreover have "move_lock_vector_path_down v = Some w"
    using l by (simp add: move_lock_vector_path_down_def get_path_def upd_path_def w_def Let_def)
  ultimately show ?thesis using nth l(3) by (auto simp: w_def)
qed

lemma vector_down_keeps:
  assumes "path_ok lockops v sl" and "locks_ok v sl"
  shows "\<exists>v'. move_lock_vector_down v = Some v' \<and> keeps lockops sl v sl v' \<and> vc_level v' = 0 \<and>
    pt_dirnode (vc_path v' ! 0) = pt_dirnode (vc_path v ! vc_level v)"
proof (cases "vc_level v = 0")
  case True
  then show ?thesis using assms path_okD(1,2) [OF assms(1)]
    by (simp add: move_lock_vector_down_def get_path_def keeps_def)
next
  case False
  let ?l = "vc_level v" and ?p = "vc_path v ! vc_level v"
  let ?q = "?p\<lparr>pt_lock := 0, pt_lockset := 0\<rparr>"
  note o = path_okD [OF assms(1)]
  define w where "w = v\<lparr>vc_path := ?p # replicate ?l ?q @ drop (?l + 1) (vc_path v), vc_level := 0\<rparr>"
  have l: "?l < length (vc_path v)" using o(1,2) by simp
  have z: "pt_lock (vc_path v ! i) = 0" if "i < ?l" for i using o(1) o(4) [of i] that by fastforce
  have "\<not> locks p d" if "p \<in> set (take ?l (vc_path v))" for p d
    using that z l by (auto simp: locks_def in_set_conv_nth)
  then have t: "filter (\<lambda>p. locks p d) (take ?l (vc_path v)) = []" for d by (simp add: filter_empty_conv)
  have "lockers_of w d = lockers_of v d" for d
    using arg_cong [OF id_take_nth_drop [OF l], of "\<lambda>x. length (filter (\<lambda>p. locks p d) x)"] t [of d]
    by (simp add: lockers_of_alt w_def locks_def [of ?q])
  then have "locks_ok w sl" using assms(2) by (simp add: locks_ok_def)
  moreover have nth: "vc_path w ! i = (if i = 0 then ?p else if i \<le> ?l then ?q else vc_path v ! i)" if "i < length (vc_path v)" for i
    using l that by (auto simp: w_def nth_Cons nth_append split: nat.splits)
  have ws: "vc_maxlevel w = vc_maxlevel v" "vc_level w = 0" by (simp_all add: w_def)
  have "path_ok lockops w sl"
    unfolding path_ok_def
  proof (intro conjI allI impI ballI)
    fix p assume "lockops = Lockops_nolock" "p \<in> set (vc_path w)"
    then show "pt_lock p = 0" using o(5) l in_set_dropD [of p "?l + 1" "vc_path v"] by (auto simp: w_def)
  next
    fix i assume i: "i \<le> vc_maxlevel w"
    then have i': "i < length (vc_path v)" using o(2) by (simp add: w_def)
    show "has sl (pt_dirnode (vc_path w ! i)) i"
      using i o(1) o(3) [of i] o(3) [of ?l] by (auto simp: nth [OF i'] ws intro: has_less)
    assume "pt_lock (vc_path w ! i) \<noteq> 0"
    then show "i = vc_maxlevel w \<and> pt_dirnode (vc_path w ! i) = 0 \<or> i = vc_level w \<and> pt_dirnode (vc_path w ! i) \<noteq> 0"
      using i o(1) o(4) [of i] o(4) [of ?l] by (auto simp: nth [OF i'] ws split: if_splits)
  qed (use o(1,2,6) in \<open>simp_all add: w_def\<close>)
  ultimately have "keeps lockops sl v sl w" by (simp add: keeps_def w_def)
  moreover have "move_lock_vector_down v = Some w" using l False by (simp add: move_lock_vector_down_def get_path_def w_def Let_def)
  ultimately show ?thesis by (auto simp: w_def)
qed

text \<open>No locks at all.\<close>

definition unlocked :: "'b sl_skiplist_s \<Rightarrow> bool" where
  "unlocked sl \<longleftrightarrow> (\<forall>d dn. sk_dirnodes sl d = Some dn \<longrightarrow> dn_lock dn = 0 \<and> dn_lockers dn = 0)"

lemma lockers_none: "\<forall>p \<in> set (vc_path v). pt_lock p = 0 \<Longrightarrow> lockers_of v d = 0"
  by (simp add: lockers_of_def filter_empty_conv)

lemma unlocked_iff: "\<forall>p \<in> set (vc_path v). pt_lock p = 0 \<Longrightarrow> locks_ok v sl \<longleftrightarrow> unlocked sl"
  by (simp add: locks_ok_def unlocked_def lockers_none)

lemma strip_unlocked: "unlocked sl \<Longrightarrow> strip sl = sl"
proof -
  assume u: "unlocked sl"
  have e: "dn\<lparr>dn_lock := 0, dn_lockers := 0\<rparr> = dn" if "dn_lock dn = 0" "dn_lockers dn = 0" for dn :: sl_dirnode_s
    using that by (cases dn) simp
  have "map_option (\<lambda>dn. dn\<lparr>dn_lock := 0, dn_lockers := 0\<rparr>) (sk_dirnodes sl d) = sk_dirnodes sl d" for d
    using u e by (cases "sk_dirnodes sl d") (auto simp: unlocked_def)
  then show ?thesis by (simp add: strip_def)
qed

lemma strip_unlocked_eq: "strip sl' = strip sl \<Longrightarrow> unlocked sl \<Longrightarrow> unlocked sl' \<Longrightarrow> sl' = sl"
  by (metis strip_unlocked)

subsection \<open>Taking the first lock\<close>

lemma lanes_okD:
  assumes "lanes_ok sl"
  shows "\<exists>dn. sk_dirnodes sl 0 = Some dn \<and> dn_level dn \<le> sk_maxlevel sl \<and> length (dn_junction dn) = sk_maxlevel sl + 2 \<and>
    dn_compare dn = Compare_end \<and> dn_flags dn AND DIRNODE_FLAG_START \<noteq> 0 \<and> 0 < sk_fresh sl"
    and "get_junction sl d i = Some jn \<Longrightarrow> has sl (jn_n jn) i \<and> has sl (jn_p jn) i"
    and "sk_dirnodes sl d = Some dn \<Longrightarrow> d \<noteq> 0 \<Longrightarrow> dn_compare dn = Compare_ops \<and> length (dn_junction dn) = dn_level dn + 1"
    and "sk_dirnodes sl d = Some dn \<Longrightarrow> d < sk_fresh sl"
  using assms by (fastforce simp: lanes_ok_def node_ok_def jn_ok_def)+

lemma set_path_same: "vc_level v < length (vc_path v) \<Longrightarrow> pt_dirnode (vc_path v ! vc_level v) = d \<Longrightarrow> set_path_dirnode d v = Some v"
  by (cases v) (auto simp: set_path_dirnode_def upd_path_def)

lemma search_start:
  assumes "lanes_ok sl" and "unlocked sl" and "sk_dirnodes sl 0 = Some dn"
    and "create_vector_path malloc (dn_level dn + 1) 0 = Some v"
  shows "\<exists>sl1 v1 v2. readlock_vector_path lockops sl v 0 = Some (sl1, v1) \<and> set_path_dirnode 0 (v1\<lparr>vc_level := vc_level v1 - 1\<rparr>) = Some v2 \<and>
    strip sl1 = strip sl \<and> locks_ok v2 sl1 \<and> path_ok lockops v2 sl1 \<and> vc_maxlevel v2 = dn_level dn + 1 \<and>
    pt_dirnode (vc_path v2 ! vc_level v2) = 0"
proof -
  let ?z = "\<lparr>pt_dirnode = 0, pt_lockset = 0, pt_lock = 0\<rparr>"
  let ?n = "dn_level dn + 1"
  have v: "v = \<lparr>vc_maxlevel = ?n, vc_minlevel = 0, vc_level = ?n, vc_path = replicate (?n + 1) ?z\<rparr>"
    using assms(4) by (simp add: create_vector_path_def split: if_splits)
  have h: "has sl 0 i" if "i \<le> ?n" for i using lanes_okD(1) [OF assms(1)] assms(3) that by (auto simp: has_iff)
  have lv: "locks_ok v sl" using assms(2) by (subst unlocked_iff) (simp_all add: v)
  have nz: "vc_path v ! i = ?z" if "i \<le> ?n" for i using that by (simp add: v del: replicate_Suc)
  have len: "length (vc_path v) = ?n + 1" "vc_level v = ?n" "vc_maxlevel v = ?n" by (simp_all add: v)
  obtain sl1 p where 1: "readlock_vector_path lockops sl v 0 = Some (sl1, v\<lparr>vc_path := (vc_path v)[?n := p]\<rparr>)" "strip sl1 = strip sl"
      "locks_ok (v\<lparr>vc_path := (vc_path v)[?n := p]\<rparr>) sl1" "pt_dirnode p = 0" "lockops = Lockops_nolock \<Longrightarrow> pt_lock p = 0"
  proof (cases lockops)
    case Lockops_nolock
    have "v\<lparr>vc_path := (vc_path v)[?n := ?z]\<rparr> = v" using nz [of ?n] by (metis list_update_id order_refl sl_vector_s.surjective sl_vector_s.update_convs(4))
    moreover have "set_path_dirnode 0 v = Some v" by (rule set_path_same) (simp_all add: len nz)
    ultimately show thesis using that [of sl ?z] lv Lockops_nolock by (simp add: readlock_vector_path_def)
  next
    case Lockops_default
    then show thesis using take_readlock_ok [OF lv h [of ?n]] that [of _ "\<lparr>pt_dirnode = 0, pt_lockset = DIRNODE_LOCK_READ, pt_lock = 1\<rparr>"] nz [of ?n]
      by (auto simp: len readlock_vector_path_def)
  qed
  let ?w = "v\<lparr>vc_path := (vc_path v)[?n := p], vc_level := dn_level dn\<rparr>"
  have "lockers_of ?w = lockers_of (v\<lparr>vc_path := (vc_path v)[?n := p]\<rparr>)" by (simp add: lockers_of_def fun_eq_iff)
  then have "locks_ok ?w sl1" using 1(3) by (simp add: locks_ok_def)
  moreover have "path_ok lockops ?w sl1"
  proof -
    have n: "(vc_path v)[?n := p] ! i = (if i = ?n then p else ?z)" if "i \<le> ?n" for i using that nz len by (simp add: nth_list_update)
    have "pt_lock q = 0" if "lockops = Lockops_nolock" "q \<in> set ((vc_path v)[?n := p])" for q
      using that n 1(5) len by (auto simp: in_set_conv_nth less_Suc_eq_le split: if_splits)
    then show ?thesis unfolding path_ok_def using n 1(4) h strip_transfer(4) [OF 1(2)] len by auto
  qed
  moreover have "set_path_dirnode 0 ?w = Some ?w" by (rule set_path_same) (use nz len in \<open>simp_all add: nth_list_update\<close>)
  ultimately show ?thesis using 1(1,2) len nz by (auto simp: nth_list_update)
qed

section \<open>The search\<close>

text \<open>What the functions of the caller promise: elements have keys, and compare tells how the key stands to the one looked for.\<close>

definition cmp_ok :: "'b sl_ops_s \<Rightarrow> (nat \<Rightarrow> 'k::linorder) \<Rightarrow> ('b \<Rightarrow> 'k) \<Rightarrow> bool" where
  "cmp_ok ops key lk \<longleftrightarrow> (\<forall>e b. (op_compare ops e b < 0 \<longleftrightarrow> key e < lk b) \<and> (op_compare ops e b = 0 \<longleftrightarrow> key e = lk b))"

lemma cmp_okD:
  assumes "cmp_ok ops key lk"
  shows "op_compare ops e b < 0 \<longleftrightarrow> key e < lk b" "op_compare ops e b = 0 \<longleftrightarrow> key e = lk b" "op_compare ops e b > 0 \<longleftrightarrow> lk b < key e"
proof -
  show c: "op_compare ops e b < 0 \<longleftrightarrow> key e < lk b" "op_compare ops e b = 0 \<longleftrightarrow> key e = lk b" using assms by (simp_all add: cmp_ok_def)
  have "op_compare ops e b > 0 \<longleftrightarrow> \<not> op_compare ops e b < 0 \<and> op_compare ops e b \<noteq> 0" by linarith
  then show "op_compare ops e b > 0 \<longleftrightarrow> lk b < key e" unfolding c using less_linear [of "key e" "lk b"] by auto
qed

text \<open>Lanes without dirnodes.\<close>

definition flat :: "'b sl_skiplist_s \<Rightarrow> bool" where
  "flat sl \<longleftrightarrow> (\<forall>i jn. get_junction sl 0 i = Some jn \<longrightarrow> jn_n jn = 0 \<and> jn_count jn = 0)"

lemma keeps_trans: "keeps lo sl v sl1 v1 \<Longrightarrow> keeps lo sl1 v1 sl2 v2 \<Longrightarrow> keeps lo sl v sl2 v2"
  by (simp add: keeps_def)

lemma keepsD:
  assumes "keeps lo sl v sl' v'"
  shows "strip sl' = strip sl" "locks_ok v' sl'" "path_ok lo v' sl'" "vc_maxlevel v' = vc_maxlevel v"
    "lanes_ok sl' = lanes_ok sl" "sk_ops sl' = sk_ops sl" "sk_header sl' = sk_header sl" "flat sl' = flat sl" "has sl' = has sl"
proof -
  show s: "strip sl' = strip sl" "locks_ok v' sl'" "path_ok lo v' sl'" "vc_maxlevel v' = vc_maxlevel v" using assms by (simp_all add: keeps_def)
  show "lanes_ok sl' = lanes_ok sl" "sk_ops sl' = sk_ops sl" "sk_header sl' = sk_header sl" "has sl' = has sl" "flat sl' = flat sl"
    using strip_transfer [OF s(1)] by (simp_all only: flat_def)
qed

definition lane_result :: "(nat \<Rightarrow> 'k::linorder) \<Rightarrow> 'k \<Rightarrow> nat list \<Rightarrow> 'b sl_searchresult_s \<Rightarrow> 'b sl_searchresult_s \<Rightarrow> nat list option \<Rightarrow> bool" where
  "lane_result key k ls r r' rest \<longleftrightarrow> sr_lookupdata r' = sr_lookupdata r \<and> sr_ctr r' = sr_ctr r \<and> (case rest of
     None \<Rightarrow> sr_flags r' = sr_flags r OR (SL_SEARCHRESULT_FLAG_EXACT OR SL_SEARCHRESULT_FLAG_DIRNODE) \<and>
       (\<exists>ys e zs. ls = ys @ e # zs \<and> sr_found r' = Some e \<and> key e = k \<and> (\<forall>y \<in> set ys. key y < k))
   | Some ls' \<Rightarrow> sr_flags r' = sr_flags r \<and> (\<exists>ys. ls = ys @ ls' \<and> ls' \<noteq> [] \<and> (\<forall>y \<in> set ys. key y < k)))"

lemma lane_result_skip:
  assumes "lane_result key k es (r\<lparr>sr_row := row, sr_step := step\<rparr>) r' rest" and "key e < k"
  shows "lane_result key k (e # es) r r' rest"
proof (cases rest)
  case None
  then obtain ys x zs where "es = ys @ x # zs" "sr_found r' = Some x" "key x = k" "\<forall>y \<in> set ys. key y < k"
    using assms(1) by (auto simp: lane_result_def)
  then have "\<exists>ys x zs. e # es = ys @ x # zs \<and> sr_found r' = Some x \<and> key x = k \<and> (\<forall>y \<in> set ys. key y < k)"
    using assms(2) by (intro exI [of _ "e # ys"] exI [of _ x] exI [of _ zs]) simp
  then show ?thesis using assms(1) None by (simp add: lane_result_def)
next
  case (Some ls)
  then obtain ys where "es = ys @ ls" "ls \<noteq> []" "\<forall>y \<in> set ys. key y < k" using assms(1) by (auto simp: lane_result_def)
  then have "\<exists>ys. e # es = ys @ ls \<and> ls \<noteq> [] \<and> (\<forall>y \<in> set ys. key y < k)" using assms(2) by (intro exI [of _ "e # ys"]) simp
  then show ?thesis using assms(1) Some by (simp add: lane_result_def)
qed

declare lane_loop.simps(2) [simp del]

lemma lane_loop_steps:
  assumes "get_junction sl d (vc_level v) = Some jn" and "sk_dirnodes sl (jn_n jn) = Some dn"
    and "diff = call_compare (dn_compare dn) (sk_ops sl) e (sr_lookupdata r)"
  shows "diff > 0 \<Longrightarrow> vc_level v = 0 \<Longrightarrow> lane_loop lockops sl v d (e # es) r = Some (sl, v, r, Some (e # es))"
    and "diff > 0 \<Longrightarrow> vc_level v \<noteq> 0 \<Longrightarrow> move_lock_vector_path_down v = Some v' \<Longrightarrow>
      lane_loop lockops sl v d (e # es) r = lane_loop lockops sl v' d (e # es) r"
    and "diff = 0 \<Longrightarrow> move_readlock_vector_path lockops sl v (jn_n jn) = Some (sl1, v1) \<Longrightarrow> move_lock_vector_down v1 = Some v2 \<Longrightarrow>
      lane_loop lockops sl v d (e # es) r = Some (sl1, v2,
        sr_set (SL_SEARCHRESULT_FLAG_EXACT OR SL_SEARCHRESULT_FLAG_DIRNODE) (r\<lparr>sr_found := Some e, sr_row := sr_row r + (jn_step jn - 1)\<rparr>), None)"
    and "diff < 0 \<Longrightarrow> move_readlock_vector_path lockops sl v (jn_n jn) = Some (sl1, v1) \<Longrightarrow> es \<noteq> [] \<Longrightarrow>
      lane_loop lockops sl v d (e # es) r = lane_loop lockops sl1 v1 (jn_n jn) es (r\<lparr>sr_row := sr_row r + jn_step jn, sr_step := 1\<rparr>)"
  unfolding lane_loop.simps(2) [of lockops sl v d e es r] using assms(1,2) unfolding assms(3) by simp_all

lemma lane_loop_ok:
  fixes key :: "nat \<Rightarrow> 'k::linorder"
  assumes "cmp_ok (sk_ops sl) key lk" and "lanes_ok sl" and "path_ok lockops v sl" and "locks_ok v sl"
    and "d = pt_dirnode (vc_path v ! vc_level v)" and "ls \<noteq> []" and "lk (sr_lookupdata r) < key (last ls)"
  shows "\<exists>sl' v' r' rest. lane_loop lockops sl v d ls r = Some (sl', v', r', rest) \<and> keeps lockops sl v sl' v' \<and> vc_level v' = 0 \<and>
    lane_result key (lk (sr_lookupdata r)) ls r r' rest \<and> (flat sl \<and> d = 0 \<longrightarrow> rest \<noteq> None \<and> pt_dirnode (vc_path v' ! 0) = 0)"
  using assms
proof (induction lockops sl v d ls r rule: lane_loop.induct)
  case (1 lockops sl v d r)
  then show ?case by simp
next
  case (2 lockops sl v d e es r)
  let ?k = "lk (sr_lookupdata r)"
  note o = path_okD [OF "2.prems"(3)]
  have "has sl d (vc_level v)" using o(1) o(3) [of "vc_level v"] "2.prems"(5) by simp
  then obtain jn where jn: "get_junction sl d (vc_level v) = Some jn" using hasE by blast
  then have hn: "has sl (jn_n jn) (vc_level v)" using lanes_okD(2) [OF "2.prems"(2)] by blast
  then obtain dn where dn: "sk_dirnodes sl (jn_n jn) = Some dn" by (auto simp: has_iff)
  define diff where "diff = call_compare (dn_compare dn) (sk_ops sl) e (sr_lookupdata r)"
  have start: "jn_n jn \<noteq> 0" if "diff \<le> 0"
    using that lanes_okD(1) [OF "2.prems"(2)] dn by (cases "jn_n jn = 0") (auto simp: diff_def call_compare_def)
  have cmp: "dn_compare dn = Compare_ops" if "diff \<le> 0" using lanes_okD(3) [OF "2.prems"(2) dn start [OF that]] by simp
  have diff: "diff = op_compare (sk_ops sl) e (sr_lookupdata r)" if "diff \<le> 0"
    unfolding diff_def cmp [OF that] by (simp only: call_compare_def sl_compare.case)
  note c = cmp_okD [OF "2.prems"(1), of e "sr_lookupdata r"]
  note steps = lane_loop_steps [OF jn dn diff_def]
  consider "diff > 0" "vc_level v = 0" | "diff > 0" "vc_level v \<noteq> 0" | "diff = 0" | "diff < 0" by linarith
  then show ?case
  proof cases
    case 1
    then show ?thesis using steps(1) [of lockops es] "2.prems"(3-5) by (auto simp: keeps_def lane_result_def)
  next
    case 2
    obtain v' where v': "move_lock_vector_path_down v = Some v'" "keeps lockops sl v sl v'" "vc_level v' = vc_level v - 1"
        "pt_dirnode (vc_path v' ! (vc_level v - 1)) = pt_dirnode (vc_path v ! vc_level v)"
      using path_down_keeps [OF "2.prems"(3,4) 2(2)] by blast
    have d: "d = pt_dirnode (vc_path v' ! vc_level v')" using "2.prems"(5) v'(3,4) by simp
    have "\<exists>sl' v'' r' rest. lane_loop lockops sl v' d (e # es) r = Some (sl', v'', r', rest) \<and> keeps lockops sl v' sl' v'' \<and> vc_level v'' = 0 \<and>
        lane_result key ?k (e # es) r r' rest \<and> (flat sl \<and> d = 0 \<longrightarrow> rest \<noteq> None \<and> pt_dirnode (vc_path v'' ! 0) = 0)"
      using "2.IH"(1) [OF jn dn diff_def 2 v'(1) "2.prems"(1,2) keepsD(3,2) [OF v'(2)] d "2.prems"(6,7)] .
    then show ?thesis unfolding steps(2) [OF 2 v'(1)] using keeps_trans [OF v'(2)] by blast
  next
    case 3
    obtain sl1 v1 where 1: "move_readlock_vector_path lockops sl v (jn_n jn) = Some (sl1, v1)" "keeps lockops sl v sl1 v1"
      using move_readlock_keeps [OF "2.prems"(3,4) hn] start 3 by auto
    obtain v2 where v2: "move_lock_vector_down v1 = Some v2" "keeps lockops sl1 v1 sl1 v2" "vc_level v2 = 0"
      using vector_down_keeps [OF keepsD(3,2) [OF 1(2)]] by blast
    have "key e = ?k" using 3 diff unfolding c(2) [symmetric] by linarith
    moreover have "\<exists>ys. (\<exists>zs. e # es = ys @ e # zs) \<and> (\<forall>y \<in> set ys. key y < ?k)" by (rule exI [of _ "[]"]) simp
    ultimately have "lane_result key ?k (e # es) r
        (sr_set (SL_SEARCHRESULT_FLAG_EXACT OR SL_SEARCHRESULT_FLAG_DIRNODE) (r\<lparr>sr_found := Some e, sr_row := sr_row r + (jn_step jn - 1)\<rparr>)) None"
      by (simp add: lane_result_def sr_set_def)
    moreover have "\<not> (flat sl \<and> d = 0)" using start 3 jn by (auto simp: flat_def)
    ultimately show ?thesis unfolding steps(3) [OF 3 1(1) v2(1)] using keeps_trans [OF 1(2) v2(2)] v2(3) by blast
  next
    case 4
    obtain sl1 v1 where 1: "move_readlock_vector_path lockops sl v (jn_n jn) = Some (sl1, v1)" "keeps lockops sl v sl1 v1"
        "vc_level v1 = vc_level v" "pt_dirnode (vc_path v1 ! vc_level v) = jn_n jn"
      using move_readlock_keeps [OF "2.prems"(3,4) hn] start 4 by auto
    have k: "key e < ?k" using 4 diff unfolding c(1) [symmetric] by linarith
    then have es: "es \<noteq> []" using "2.prems"(7) by auto
    let ?r = "r\<lparr>sr_row := sr_row r + jn_step jn, sr_step := 1\<rparr>"
    have n: "\<not> diff > 0" "diff \<noteq> 0" using 4 by simp_all
    have p: "cmp_ok (sk_ops sl1) key lk" "lanes_ok sl1" "jn_n jn = pt_dirnode (vc_path v1 ! vc_level v1)" "?k < key (last es)"
      using "2.prems"(1,2,7) keepsD(5,6) [OF 1(2)] 1(3,4) es by simp_all
    have "\<exists>sl' v' r' rest. lane_loop lockops sl1 v1 (jn_n jn) es ?r = Some (sl', v', r', rest) \<and> keeps lockops sl1 v1 sl' v' \<and> vc_level v' = 0 \<and>
        lane_result key ?k es ?r r' rest"
      using "2.IH"(2) [OF jn dn diff_def n refl 1(1) refl es] p keepsD(3,2) [OF 1(2)] es by auto
    moreover have "\<not> (flat sl \<and> d = 0)" using start 4 jn by (auto simp: flat_def)
    ultimately show ?thesis unfolding steps(4) [OF 4 1(1) es] using keeps_trans [OF 1(2)] lane_result_skip [where key = key and k = ?k and e = e and r = r, OF _ k] by blast
  qed
qed

text \<open>Where a key is, or belongs, in a sorted list, and how a result says so.\<close>

datatype sl_place = Nowhere | At nat | Before nat | After nat

definition place_of :: "(nat \<Rightarrow> 'k::linorder) \<Rightarrow> 'k \<Rightarrow> nat list \<Rightarrow> sl_place" where
  "place_of key k xs = (if xs = [] then Nowhere
     else case dropWhile (\<lambda>e. key e < k) xs of [] \<Rightarrow> After (last xs) | e # es \<Rightarrow> if key e = k then At e else Before e)"

text \<open>The flags that say where, and those for the result of what is done there.\<close>

definition place_mask :: u32 where "place_mask = 1049244"

primrec place_flag :: "sl_place \<Rightarrow> u32" where
  "place_flag Nowhere = SL_SEARCHRESULT_FLAG_EMPTY"
| "place_flag (At e) = SL_SEARCHRESULT_FLAG_EXACT"
| "place_flag (Before e) = SL_SEARCHRESULT_FLAG_BEFORE"
| "place_flag (After e) = SL_SEARCHRESULT_FLAG_AFTER"

primrec place_elem :: "sl_place \<Rightarrow> nat option" where
  "place_elem Nowhere = None"
| "place_elem (At e) = Some e"
| "place_elem (Before e) = Some e"
| "place_elem (After e) = Some e"

definition found_at :: "'b sl_searchresult_s \<Rightarrow> sl_place \<Rightarrow> bool" where
  "found_at r p \<longleftrightarrow> sr_flags r AND place_mask = place_flag p \<and> sr_found r = place_elem p"

lemmas sl_flag_defs = SL_SEARCHRESULT_FLAG_FIRST_def SL_SEARCHRESULT_FLAG_LAST_def SL_SEARCHRESULT_FLAG_EXACT_def
  SL_SEARCHRESULT_FLAG_BEFORE_def SL_SEARCHRESULT_FLAG_AFTER_def SL_SEARCHRESULT_FLAG_NOENT_def SL_SEARCHRESULT_FLAG_DIRNODE_def
  SL_SEARCHRESULT_FLAG_EMPTY_def SL_SEARCHRESULT_FLAG_EXCLUSIVE_def SL_SEARCHRESULT_FLAG_OK_def SL_SEARCHRESULT_FLAG_ERROR_def place_mask_def

lemma place_of_split:
  assumes "xs = ys @ e # zs" and "\<forall>y \<in> set ys. key y < k" and "k \<le> key e"
  shows "place_of key k xs = (if key e = k then At e else Before e)"
proof -
  have "dropWhile (\<lambda>e. key e < k) (ys @ e # zs) = e # zs" using assms(2,3) by (simp add: dropWhile_append2)
  then show ?thesis using assms(1) by (simp add: place_of_def)
qed

definition key_sorted :: "(nat \<Rightarrow> 'k::linorder) \<Rightarrow> nat list \<Rightarrow> bool" where
  "key_sorted key xs \<longleftrightarrow> sorted_wrt (\<lambda>a b. key a < key b) xs"

lemma key_sorted_last:
  assumes "key_sorted key xs" and "xs \<noteq> []"
  shows "e \<in> set (butlast xs) \<Longrightarrow> key e < key (last xs)"
  using assms append_butlast_last_id [OF assms(2)] by (metis key_sorted_def sorted_wrt_append list.set_intros(1))

lemma place_of_last:
  assumes "key_sorted key xs" and "xs \<noteq> []"
  shows "key (last xs) < k \<Longrightarrow> place_of key k xs = After (last xs)" and "key (last xs) = k \<Longrightarrow> place_of key k xs = At (last xs)"
proof -
  have s: "xs = butlast xs @ [last xs]" using assms(2) by simp
  have b: "\<forall>y \<in> set (butlast xs). key y < key (last xs)" using key_sorted_last [OF assms] by blast
  show "place_of key k xs = After (last xs)" if "key (last xs) < k"
  proof -
    have "\<forall>y \<in> set xs. key y < k" using b that s by (metis UnE empty_set less_trans list.set(2) set_append singletonD)
    then have d: "dropWhile (\<lambda>e. key e < k) xs = []" by simp
    show ?thesis unfolding place_of_def d using assms(2) by simp
  qed
  show "place_of key k xs = At (last xs)" if "key (last xs) = k"
    using place_of_split [OF s, of key k] b that by simp
qed

lemma linear_loop_ok:
  fixes key :: "nat \<Rightarrow> 'k::linorder"
  assumes "\<And>e. cmp (sr_lookupdata r) e < 0 \<longleftrightarrow> key e < k" and "\<And>e. cmp (sr_lookupdata r) e = 0 \<longleftrightarrow> key e = k"
    and "ls \<noteq> []" and "k < key (last ls)" and "unat (sr_ctr r) + length ls \<le> unat count" and "unat count < 2 ^ 32"
  shows "\<exists>ys e zs. ls = ys @ e # zs \<and> (\<forall>y \<in> set ys. key y < k) \<and> k \<le> key e \<and> sr_found (linear_loop cmp count ls r) = Some e \<and>
    sr_flags (linear_loop cmp count ls r) =
      sr_flags r OR (if key e = k then SL_SEARCHRESULT_FLAG_EXACT else SL_SEARCHRESULT_FLAG_NOENT OR SL_SEARCHRESULT_FLAG_BEFORE) \<and>
    sr_lookupdata (linear_loop cmp count ls r) = sr_lookupdata r"
  using assms
proof (induction ls arbitrary: r)
  case (Cons e es)
  have c: "\<not> ucast (sr_ctr r) > count" using Cons.prems(5) by (simp add: word_less_nat_alt)
  consider "key e < k" | "key e = k" | "k < key e" using less_linear by blast
  then show ?case
  proof cases
    case 1
    then have es: "es \<noteq> []" using Cons.prems(4) by auto
    let ?r = "r\<lparr>sr_ctr := sr_ctr r + 1, sr_row := sr_row r + 1, sr_step := sr_step r + 1\<rparr>"
    have "unat (sr_ctr ?r) = unat (sr_ctr r) + 1"
      using Cons.prems(5,6) by (simp add: unat_word_ariths(1))
    then obtain ys x zs where x: "es = ys @ x # zs" "\<forall>y \<in> set ys. key y < k" "k \<le> key x" "sr_found (linear_loop cmp count es ?r) = Some x"
        "sr_flags (linear_loop cmp count es ?r) =
          sr_flags r OR (if key x = k then SL_SEARCHRESULT_FLAG_EXACT else SL_SEARCHRESULT_FLAG_NOENT OR SL_SEARCHRESULT_FLAG_BEFORE)"
        "sr_lookupdata (linear_loop cmp count es ?r) = sr_lookupdata r"
      using Cons.IH [of ?r] Cons.prems es by auto
    have "linear_loop cmp count (e # es) r = linear_loop cmp count es ?r" using c es 1 Cons.prems(1) by simp
    then show ?thesis using x 1 by (intro exI [of _ "e # ys"] exI [of _ x] exI [of _ zs]) simp
  next
    case 2
    then have "\<not> cmp (sr_lookupdata r) e < 0" "cmp (sr_lookupdata r) e = 0" using Cons.prems(1,2) by simp_all
    then show ?thesis using c 2 by (intro exI [of _ "[]"] exI [of _ e] exI [of _ es]) (simp add: sr_set_def)
  next
    case 3
    then have "\<not> cmp (sr_lookupdata r) e < 0" "cmp (sr_lookupdata r) e \<noteq> 0" using Cons.prems(1,2) by auto
    then show ?thesis using c 3 by (intro exI [of _ "[]"] exI [of _ e] exI [of _ es]) (auto simp: sr_set_def)
  qed
qed simp


text \<open>A skip list between two operations.\<close>

definition sl_ok :: "(nat \<Rightarrow> 'k::linorder) \<Rightarrow> 'b sl_skiplist_s \<Rightarrow> bool" where
  "sl_ok key sl \<longleftrightarrow> lanes_ok sl \<and> unlocked sl \<and> key_sorted key (sk_header sl) \<and> counts_ok (length (sk_header sl)) [] sl"

text \<open>What the search has found, in the state where the locks of its path are held.\<close>

definition searched :: "(nat \<Rightarrow> 'k::linorder) \<Rightarrow> 'k \<Rightarrow> sl_lockops \<Rightarrow> 'b sl_skiplist_s \<Rightarrow> 'b sl_searchresult_s \<Rightarrow>
    'b sl_skiplist_s \<Rightarrow> sl_vector_s \<Rightarrow> 'b sl_searchresult_s \<Rightarrow> bool" where
  "searched key k lockops sl r sl' v' r' \<longleftrightarrow> strip sl' = strip sl \<and> locks_ok v' sl' \<and> path_ok lockops v' sl' \<and> vc_level v' = 0 \<and>
     found_at r' (place_of key k (sk_header sl)) \<and> sr_lookupdata r' = sr_lookupdata r \<and>
     (flat sl \<longrightarrow> pt_dirnode (vc_path v' ! 0) = 0 \<and> sr_flags r' AND SL_SEARCHRESULT_FLAG_DIRNODE = 0)"

text \<open>The flags of the caller, none or that the access is exclusive, do not get in the way.\<close>

lemma caller_flags:
  assumes "f \<in> {0, SL_SEARCHRESULT_FLAG_EXCLUSIVE}" and "y \<in> {place_mask, SL_SEARCHRESULT_FLAG_DIRNODE}"
  shows "(f OR x) AND y = x AND y"
  using assms by (auto simp: sl_flag_defs bit.conj_disj_distrib2)

text \<open>What the lanes leave over is done by the walk over the list.\<close>

lemma walk_found:
  fixes key :: "nat \<Rightarrow> 'k::linorder"
  assumes "cmp_ok ops key lk" and "lane_result key (lk b) xs r r' rest" and "lk b < key (last xs)" and "length xs < 2 ^ 32"
    and r: "sr_lookupdata r = b" "sr_ctr r = 0" "sr_flags r = f" and f: "f \<in> {0, SL_SEARCHRESULT_FLAG_EXCLUSIVE}"
    and q: "q = (case rest of Some ls \<Rightarrow> linear_loop (\<lambda>b e. op_compare ops e b) (of_nat (length xs)) ls r' | None \<Rightarrow> r')"
  shows "found_at q (place_of key (lk b) xs) \<and> sr_lookupdata q = b \<and> (rest \<noteq> None \<longrightarrow> sr_flags q AND SL_SEARCHRESULT_FLAG_DIRNODE = 0)"
proof (cases rest)
  case None
  obtain ys e zs where e: "xs = ys @ e # zs" "sr_found r' = Some e" "key e = lk b" "\<forall>y \<in> set ys. key y < lk b"
    and "sr_flags r' = f OR (SL_SEARCHRESULT_FLAG_EXACT OR SL_SEARCHRESULT_FLAG_DIRNODE)" "sr_lookupdata r' = b"
    using assms(2) None r by (auto simp: lane_result_def)
  then show ?thesis using place_of_split [OF e(1,4)] None caller_flags [OF f] by (simp add: found_at_def q sl_flag_defs)
next
  case (Some ls)
  obtain ys where ys: "xs = ys @ ls" "ls \<noteq> []" "\<forall>y \<in> set ys. key y < lk b" and r': "sr_flags r' = f" "sr_lookupdata r' = b" "sr_ctr r' = 0"
    using assms(2) Some r by (auto simp: lane_result_def)
  have n: "unat (of_nat (length xs) :: u64) = length xs" using assms(4) by (simp add: unsigned_of_nat take_bit_nat_eq_self)
  have q': "q = linear_loop (\<lambda>b e. op_compare ops e b) (of_nat (length xs)) ls r'" by (simp add: q Some)
  have pre: "op_compare ops x (sr_lookupdata r') < 0 \<longleftrightarrow> key x < lk b" "op_compare ops x (sr_lookupdata r') = 0 \<longleftrightarrow> key x = lk b"
    "lk b < key (last ls)" "unat (sr_ctr r') + length ls \<le> unat (of_nat (length xs) :: u64)" "unat (of_nat (length xs) :: u64) < 2 ^ 32" for x
    using cmp_okD [OF assms(1), of _ b] r' assms(3,4) ys(1,2) unfolding n by simp_all
  obtain ys' e zs where e: "ls = ys' @ e # zs" "\<forall>y \<in> set ys'. key y < lk b" "lk b \<le> key e" "sr_found q = Some e" "sr_lookupdata q = b"
    "sr_flags q = f OR (if key e = lk b then SL_SEARCHRESULT_FLAG_EXACT else SL_SEARCHRESULT_FLAG_NOENT OR SL_SEARCHRESULT_FLAG_BEFORE)"
    using linear_loop_ok [where cmp = "\<lambda>b e. op_compare ops e b" and key = key, OF pre(1,2) ys(2) pre(3-5)] unfolding q' [symmetric] r' by blast
  have "place_of key (lk b) xs = (if key e = lk b then At e else Before e)"
    by (rule place_of_split [of _ "ys @ ys'" _ zs]) (use ys e(1-3) in auto)
  then show ?thesis using e(4-6) caller_flags [OF f] by (simp add: found_at_def sl_flag_defs)
qed

text \<open>What the two ends of the list decide, in the order the code looks at them, and the lanes and the walk for what is left.\<close>

definition search_cases :: "(nat \<Rightarrow> int) \<Rightarrow> nat list \<Rightarrow> (u32 \<Rightarrow> nat option \<Rightarrow> u32 \<Rightarrow> 'a) \<Rightarrow> 'a \<Rightarrow> 'a \<Rightarrow> 'a" where
  "search_cases compare xs out none walk =
     (if xs = [] then none
      else if compare (last xs) < 0 then
        out (SL_SEARCHRESULT_FLAG_NOENT OR SL_SEARCHRESULT_FLAG_LAST OR SL_SEARCHRESULT_FLAG_AFTER) (Some (last xs)) (of_nat (length xs))
      else if compare (last xs) = 0 then out (SL_SEARCHRESULT_FLAG_EXACT OR SL_SEARCHRESULT_FLAG_LAST) (Some (last xs)) (of_nat (length xs))
      else if compare (hd xs) > 0 then
        out (SL_SEARCHRESULT_FLAG_NOENT OR SL_SEARCHRESULT_FLAG_FIRST OR SL_SEARCHRESULT_FLAG_BEFORE) (Some (hd xs)) 0
      else if compare (hd xs) = 0 then out (SL_SEARCHRESULT_FLAG_EXACT OR SL_SEARCHRESULT_FLAG_FIRST) (Some (hd xs)) 1
      else walk)"

lemma search_cases_ok:
  fixes key :: "nat \<Rightarrow> 'k::linorder"
  assumes "\<And>e. compare e < 0 \<longleftrightarrow> key e < k" "\<And>e. compare e = 0 \<longleftrightarrow> key e = k" "\<And>e. compare e > 0 \<longleftrightarrow> k < key e"
    and "key_sorted key xs"
    and out: "\<And>x e row. x AND place_mask = place_flag (place_of key k xs) \<Longrightarrow> e = place_elem (place_of key k xs) \<Longrightarrow>
      x AND SL_SEARCHRESULT_FLAG_DIRNODE = 0 \<Longrightarrow> P (out x e row)"
    and "xs = [] \<Longrightarrow> P none" and "xs \<noteq> [] \<Longrightarrow> k < key (last xs) \<Longrightarrow> key (hd xs) < k \<Longrightarrow> P walk"
  shows "P (search_cases compare xs out none walk)"
proof -
  consider "xs = []" | "xs \<noteq> []" "key (last xs) < k" | "xs \<noteq> []" "key (last xs) = k" | "xs \<noteq> []" "k < key (last xs)" "k < key (hd xs)"
    | "xs \<noteq> []" "k < key (last xs)" "k = key (hd xs)" | "xs \<noteq> []" "k < key (last xs)" "key (hd xs) < k"
    using less_linear by metis
  then show ?thesis
  proof cases
    case 1
    then show ?thesis using assms(6) by (simp add: search_cases_def)
  next
    case 2
    then show ?thesis using out [of "SL_SEARCHRESULT_FLAG_NOENT OR SL_SEARCHRESULT_FLAG_LAST OR SL_SEARCHRESULT_FLAG_AFTER" "Some (last xs)"]
        place_of_last(1) [OF assms(4), of k] assms(1) by (simp add: search_cases_def sl_flag_defs)
  next
    case 3
    then show ?thesis using out [of "SL_SEARCHRESULT_FLAG_EXACT OR SL_SEARCHRESULT_FLAG_LAST" "Some (last xs)"]
        place_of_last(2) [OF assms(4), of k] assms(1,2) by (simp add: search_cases_def sl_flag_defs)
  next
    case 4
    have "xs = [] @ hd xs # tl xs" using 4 by simp
    then have "place_of key k xs = Before (hd xs)" using place_of_split [of xs "[]" "hd xs" "tl xs" key k] 4 by auto
    then show ?thesis using out [of "SL_SEARCHRESULT_FLAG_NOENT OR SL_SEARCHRESULT_FLAG_FIRST OR SL_SEARCHRESULT_FLAG_BEFORE" "Some (hd xs)"]
        4 assms(1-3) less_not_sym [OF 4(2)] less_imp_neq [OF 4(2)] by (simp add: search_cases_def sl_flag_defs)
  next
    case 5
    have "xs = [] @ hd xs # tl xs" using 5 by simp
    then have "place_of key k xs = At (hd xs)" using place_of_split [of xs "[]" "hd xs" "tl xs" key k] 5 by auto
    then show ?thesis using out [of "SL_SEARCHRESULT_FLAG_EXACT OR SL_SEARCHRESULT_FLAG_FIRST" "Some (hd xs)"]
        5 assms(1-3) less_not_sym [OF 5(2)] less_imp_neq [OF 5(2)] by (simp add: search_cases_def sl_flag_defs)
  next
    case 6
    then show ?thesis using assms(1-3,7) less_not_sym [OF 6(2)] less_imp_neq [OF 6(2)] less_not_sym [OF 6(3)] less_imp_neq [OF 6(3)]
      by (simp add: search_cases_def)
  qed
qed

lemma sl_search_ok:
  fixes key :: "nat \<Rightarrow> 'k::linorder"
  assumes "sl_ok key sl" and "cmp_ok (sk_ops sl) key lk" and "sk_dirnodes sl 0 = Some dn"
    and "create_vector_path malloc (dn_level dn + 1) 0 = Some v" and "length (sk_header sl) < 2 ^ 32"
    and "r = init_sl_searchresult b f" and "f \<in> {0, SL_SEARCHRESULT_FLAG_EXCLUSIVE}"
  shows "\<exists>sl' v' r'. sl_search lockops sl v r = Some (sl', v', r') \<and> searched key (lk b) lockops sl r sl' v' r'"
proof -
  let ?xs = "sk_header sl" and ?k = "lk b"
  have ok: "lanes_ok sl" "unlocked sl" "key_sorted key ?xs" using assms(1) by (simp_all add: sl_ok_def)
  have r: "sr_lookupdata r = b" "sr_ctr r = 0" "sr_flags r = f" "sr_found r = None" by (simp_all add: assms(6) init_sl_searchresult_def)
  obtain sl1 v1 v2 where 1: "readlock_vector_path lockops sl v 0 = Some (sl1, v1)" "set_path_dirnode 0 (v1\<lparr>vc_level := vc_level v1 - 1\<rparr>) = Some v2"
      "strip sl1 = strip sl" "locks_ok v2 sl1" "path_ok lockops v2 sl1" "pt_dirnode (vc_path v2 ! vc_level v2) = 0"
    using search_start [OF ok(1,2) assms(3,4)] by blast
  note t = strip_transfer [OF 1(3)]
  have fl: "flat sl1 = flat sl" by (simp only: flat_def t)
  obtain v3 where 3: "move_lock_vector_down v2 = Some v3" "keeps lockops sl1 v2 sl1 v3" "vc_level v3 = 0" "pt_dirnode (vc_path v3 ! 0) = 0"
    using vector_down_keeps [OF 1(5,4)] 1(6) by auto
  define P where "P = (\<lambda>x. (\<exists>sl' v' r'. x = Some (sl', v', r') \<and> searched key ?k lockops sl r sl' v' r'))"
  let ?out = "\<lambda>x e row. map_option (\<lambda>v. (sl1, v, sr_set x (r\<lparr>sr_found := e, sr_row := row\<rparr>))) (move_lock_vector_down v2)"
  let ?walk = "do {
         (sl, v, r, rest) \<leftarrow> lane_loop lockops sl1 v2 0 ?xs (r\<lparr>sr_row := 1\<rparr>);
         Some (sl, v, case rest of
           Some ls \<Rightarrow> linear_loop (\<lambda>b e. op_compare (sk_ops sl) e b) (of_nat (length (sk_header sl))) ls r
         | None \<Rightarrow> r) }"
  have "sl_search lockops sl v r = search_cases (\<lambda>e. op_compare (sk_ops sl) e b) ?xs ?out (?out SL_SEARCHRESULT_FLAG_EMPTY (sr_found r) (sr_row r)) ?walk"
    unfolding sl_search_def 1(1) by (simp add: 1(2) [unfolded One_nat_def] t r(1) Let_def search_cases_def)
  moreover have out: "P (?out x e row)" if "x AND place_mask = place_flag (place_of key ?k ?xs)" "e = place_elem (place_of key ?k ?xs)"
    "x AND SL_SEARCHRESULT_FLAG_DIRNODE = 0" for x e row
    using that 1(3) keepsD(2,3) [OF 3(2)] 3 r caller_flags [OF assms(7)] by (simp add: P_def searched_def found_at_def sr_set_def)
  moreover have "P ?walk" if ne: "?xs \<noteq> []" and la: "?k < key (last ?xs)"
  proof -
    let ?r = "r\<lparr>sr_row := 1\<rparr>"
    have p: "cmp_ok (sk_ops sl1) key lk" "lanes_ok sl1" "0 = pt_dirnode (vc_path v2 ! vc_level v2)" "lk (sr_lookupdata ?r) < key (last ?xs)"
      using assms(2) ok(1) 1(6) la r(1) by (simp_all add: t)
    obtain sl' v' r' rest where l: "lane_loop lockops sl1 v2 0 ?xs ?r = Some (sl', v', r', rest)" "keeps lockops sl1 v2 sl' v'" "vc_level v' = 0"
        "lane_result key (lk (sr_lookupdata ?r)) ?xs ?r r' rest" "flat sl1 \<longrightarrow> rest \<noteq> None \<and> pt_dirnode (vc_path v' ! 0) = 0"
      using lane_loop_ok [OF p(1,2) 1(5,4) p(3) ne p(4)] by blast
    have h: "sk_header sl' = ?xs" "sk_ops sl' = sk_ops sl" using keepsD(6,7) [OF l(2)] t by simp_all
    define q where "q = (case rest of Some ls \<Rightarrow> linear_loop (\<lambda>b e. op_compare (sk_ops sl) e b) (of_nat (length ?xs)) ls r' | None \<Rightarrow> r')"
    have lr: "lane_result key ?k ?xs ?r r' rest" using l(4) r(1) by simp
    have "found_at q (place_of key ?k ?xs) \<and> sr_lookupdata q = b \<and> (rest \<noteq> None \<longrightarrow> sr_flags q AND SL_SEARCHRESULT_FLAG_DIRNODE = 0)"
      by (rule walk_found [OF assms(2) lr la assms(5) _ _ _ assms(7) q_def]) (simp_all add: r)
    moreover have "?walk = Some (sl', v', q)" by (simp add: l(1) q_def h split: option.split)
    ultimately show ?thesis using keepsD(1,2,3) [OF l(2)] l(3,5) 1(3) r(1) fl by (auto simp: P_def searched_def)
  qed
  moreover have "P (?out SL_SEARCHRESULT_FLAG_EMPTY (sr_found r) (sr_row r))" if "?xs = []"
    by (rule out) (simp_all add: that place_of_def r(4) sl_flag_defs)
  ultimately have "P (sl_search lockops sl v r)"
    using search_cases_ok [where P = P and key = key and k = ?k and xs = ?xs and compare = "\<lambda>e. op_compare (sk_ops sl) e b",
        OF cmp_okD [OF assms(2), of _ b] ok(3)] by simp
  then show ?thesis by (simp add: P_def)
qed

section \<open>Giving the locks back\<close>

text \<open>
  \<open>Q is sl move\<close> holds when the levels \<open>is\<close> are still to be done. The vector \<open>w\<close> has the locks that are left.
\<close>

lemma release_levels_ok:
  assumes step: "\<And>i is sl move. Q (i # is) sl move \<Longrightarrow> \<exists>sl' move'. cb sl v i move = Some (sl', move') \<and> Q is sl' move' \<and> has sl' = has sl \<and>
      (\<forall>w. locks_ok w sl \<longrightarrow> locks_ok w sl')"
    and strip: "\<And>is sl sl' move. strip sl' = strip sl \<Longrightarrow> Q is sl move \<Longrightarrow> Q is sl' move"
    and "Q is sl move" and "locks_ok w sl" and "distinct is" and "length (vc_path w) = length (vc_path v)"
    and "\<forall>j < length (vc_path v). if j \<in> set is then vc_path w ! j = vc_path v ! j else pt_lock (vc_path w ! j) = 0"
    and "\<forall>i \<in> set is. i < length (vc_path v) \<and> has sl (pt_dirnode (vc_path v ! i)) i"
  shows "\<exists>sl' move'. release_levels cb v is (sl, move) = Some sl' \<and> Q [] sl' move' \<and> unlocked sl'"
  using assms(3-)
proof (induction "is" arbitrary: sl move w)
  case Nil
  then have "\<forall>p \<in> set (vc_path w). pt_lock p = 0" by (simp add: all_set_conv_all_nth)
  then show ?case using Nil unlocked_iff [of w sl] by auto
next
  case (Cons i "is")
  let ?p = "vc_path v ! i"
  obtain sl1 move1 where 1: "cb sl v i move = Some (sl1, move1)" "Q is sl1 move1" "has sl1 = has sl" "locks_ok w sl1"
    using step [OF Cons.prems(1)] Cons.prems(2) by blast
  have i: "i < length (vc_path v)" "has sl1 (pt_dirnode ?p) i" "vc_path w ! i = ?p" "i < length (vc_path w)"
    using Cons.prems(4-6) 1(3) by auto
  have g: "get_path v i = Some ?p" using i(1) by (simp add: get_path_def)
  let ?q = "?p\<lparr>pt_lock := 0\<rparr>"
  let ?w = "w\<lparr>vc_path := (vc_path w)[i := ?q]\<rparr>"
  obtain sl2 where 2: "(if pt_lock ?p \<noteq> 0 then upd_dirnode (pt_dirnode ?p)
        (\<lambda>dn. dn\<lparr>dn_lockers := dn_lockers dn - 1, dn_lock := dn_lock dn AND NOT (pt_lockset ?p)\<rparr>) sl1 else Some sl1) = Some sl2"
      "strip sl2 = strip sl1" "locks_ok ?w sl2"
  proof (cases "pt_lock ?p = 0")
    case True
    then have "lockers_of ?w d = lockers_of w d" for d using lockers_update [of i w ?w ?q d] i by (simp add: locks_def)
    then show thesis using that [of sl1] True 1(4) by (simp add: locks_ok_def)
  next
    case False
    then show thesis using unlock_ok [OF 1(4), of i i ?w ?q "\<lambda>dn. dn_lock dn AND NOT (pt_lockset ?p)"] i that by auto
  qed
  have "\<forall>j < length (vc_path v). if j \<in> set is then vc_path ?w ! j = vc_path v ! j else pt_lock (vc_path ?w ! j) = 0"
    using Cons.prems(3-5) i(4) by (auto simp: nth_list_update)
  moreover have "\<forall>j \<in> set is. j < length (vc_path v) \<and> has sl2 (pt_dirnode (vc_path v ! j)) j"
    using Cons.prems(6) 1(3) strip_transfer(4) [OF 2(2)] by simp
  ultimately obtain sl' move' where "release_levels cb v is (sl2, move1) = Some sl'" "Q [] sl' move'" "unlocked sl'"
    using Cons.IH [OF strip [OF 2(2) 1(2)] 2(3)] Cons.prems(3,4) by auto
  then show ?case using 1(1) 2(1) g by auto
qed

lemma remove_lock_vector_ok:
  assumes "path_ok Lockops_default v sl" and "locks_ok v sl" and "vc_level v = 0"
    and "\<And>i is sl move. Q (i # is) sl move \<Longrightarrow> \<exists>sl' move'. cb sl v i move = Some (sl', move') \<and> Q is sl' move' \<and> has sl' = has sl \<and>
      (\<forall>w. locks_ok w sl \<longrightarrow> locks_ok w sl')"
    and "\<And>is sl sl' move. strip sl' = strip sl \<Longrightarrow> Q is sl move \<Longrightarrow> Q is sl' move"
    and "Q [0..<vc_maxlevel v + 1] sl move"
  shows "\<exists>sl' move'. remove_lock_vector Lockops_default sl v cb move = Some sl' \<and> Q [] sl' move' \<and> unlocked sl'"
proof -
  note o = path_okD [OF assms(1)]
  show ?thesis
    unfolding remove_lock_vector_def sl_lockops.case assms(3)
    by (rule release_levels_ok [where Q = Q and cb = cb and v = v, OF assms(4-6,2)]) (use o(2,3) in \<open>auto simp: less_Suc_eq_le\<close>)
qed

lemma remove_nothing:
  assumes "path_ok lockops v sl" and "locks_ok v sl" and "vc_level v = 0"
  shows "\<exists>sl'. remove_lock_vector lockops sl v correct_dirnodes_ignore move = Some sl' \<and> strip sl' = strip sl \<and> unlocked sl'"
proof (cases lockops)
  case Lockops_nolock
  then show ?thesis using unlocked_iff [of v sl] path_okD(5) [OF assms(1)] assms(2) by (auto simp: remove_lock_vector_def)
next
  case Lockops_default
  show ?thesis
    using remove_lock_vector_ok [of v sl "\<lambda>is sl' move. strip sl' = strip sl" correct_dirnodes_ignore move] assms Lockops_default
    by (auto simp: correct_dirnodes_ignore_def)
qed

section \<open>Lanes without dirnodes\<close>

lemma flat_empty_lanes:
  assumes "sk_dirnodes sl = [0 \<mapsto> dn]" and "dn_junction dn = replicate (sk_maxlevel sl + 2) start_junction" and "sk_fresh sl = 1"
    and "dn_level dn = 0" "dn_compare dn = Compare_end" "dn_flags dn AND DIRNODE_FLAG_START \<noteq> 0" "dn_lock dn = 0" "dn_lockers dn = 0"
    and "key_sorted key (sk_header sl)"
  shows "sl_ok key sl \<and> flat sl"
proof -
  have g: "get_junction sl d i = (if d = 0 \<and> i < sk_maxlevel sl + 2 then Some start_junction else None)" for d i
    using assms(1,2) by (simp add: get_junction_def del: replicate_Suc add_2_eq_Suc')
  have "lanes_ok sl" unfolding lanes_ok_def jn_ok_def has_def g
    using assms(1-6) by (simp add: node_ok_def start_junction_def del: replicate_Suc)
  moreover have "unlocked sl" using assms(1,7,8) by (simp add: unlocked_def)
  moreover have "flat sl" "counts_ok b [] sl" for b by (simp_all add: flat_def counts_ok_def g start_junction_def)
  ultimately show ?thesis using assms(9) by (simp add: sl_ok_def)
qed

text \<open>A skip list of numbers, with room for three lanes.\<close>

definition start_example :: sl_dirnode_s where
  "start_example = \<lparr>dn_list = None, dn_flags = DIRNODE_FLAG_START, dn_lock = 0, dn_lockers = 0, dn_level = 0, dn_compare = Compare_end,
     dn_junction = replicate 4 start_junction\<rparr>"

definition sl_example :: "nat list \<Rightarrow> nat sl_skiplist_s" where
  "sl_example xs = \<lparr>sk_ops = \<lparr>op_compare = \<lambda>e b. int e - int b, op_get_list_element = Some\<rparr>, sk_prob = SKIPLIST_PROB, sk_flags = 0,
     sk_maxlevel = 2, sk_header = xs, sk_size = 0, sk_dirnodes = [0 \<mapsto> start_example], sk_fresh = 1\<rparr>"

lemma sl_example_ok: "key_sorted id xs \<Longrightarrow> sl_ok id (sl_example xs) \<and> flat (sl_example xs)"
  by (rule flat_empty_lanes [where dn = start_example]) (simp_all add: sl_example_def start_example_def DIRNODE_FLAG_START_def)

lemma sl_example_cmp: "cmp_ok (sk_ops (sl_example xs)) id id"
  by (auto simp: cmp_ok_def sl_example_def)

section \<open>Finding\<close>

text \<open>
  C16: the search ends and is right: in a well-formed skip list with a sorted linked list, whatever its lanes contain, with and without
  locks, \<open>sl_find\<close> leaves the skip list as it was and reports the element with the key, or else the first element after it, or that all
  elements come before it, or that the list is empty; only when there is no memory for its path it reports an error.
\<close>

theorem sl_find_correct:
  fixes key :: "nat \<Rightarrow> 'k::linorder"
  assumes "sl_ok key sl" and "cmp_ok (sk_ops sl) key lk" and "length (sk_header sl) < 2 ^ 32" and "f \<in> {0, SL_SEARCHRESULT_FLAG_EXCLUSIVE}"
  shows "\<exists>r. sl_find malloc sl (init_sl_searchresult b f) = Some (sl, r) \<and>
    (found_at r (place_of key (lk b) (sk_header sl)) \<or> sr_flags r = f OR SL_SEARCHRESULT_FLAG_ERROR \<and> \<not> (\<forall>n. malloc (Alloc_vector n)))"
proof -
  let ?r = "init_sl_searchresult b f"
  obtain dn where dn: "sk_dirnodes sl 0 = Some dn" using assms(1) by (auto simp: sl_ok_def lanes_ok_def)
  show ?thesis
  proof (cases "create_vector_path malloc (dn_level dn + 1) 0")
    case None
    then have "sl_find malloc sl ?r = Some (sl, sr_set SL_SEARCHRESULT_FLAG_ERROR ?r)" using dn by (simp add: sl_find_def sl_find_generic_def)
    moreover have "\<not> malloc (Alloc_vector (dn_level dn + 1))" using None by (simp add: create_vector_path_def split: if_splits)
    ultimately show ?thesis by (auto simp: sr_set_def init_sl_searchresult_def)
  next
    case (Some v)
    let ?lo = "lockops_of ?r"
    obtain sl' v' r' where s: "sl_search ?lo sl v ?r = Some (sl', v', r')" "searched key (lk b) ?lo sl ?r sl' v' r'"
      using sl_search_ok [OF assms(1,2) dn Some assms(3) refl assms(4)] by blast
    then have t: "strip sl' = strip sl" "locks_ok v' sl'" "path_ok ?lo v' sl'" "vc_level v' = 0" by (simp_all add: searched_def)
    obtain sl2 where 2: "remove_lock_vector ?lo sl' v' correct_dirnodes_ignore move_zero = Some sl2" "strip sl2 = strip sl'" "unlocked sl2"
      using remove_nothing [OF t(3,2,4)] by blast
    have "sl2 = sl" by (rule strip_unlocked_eq) (use 2 t(1) assms(1) in \<open>simp_all add: sl_ok_def\<close>)
    then have "sl_find malloc sl ?r = Some (sl, r')" using dn Some s(1) 2(1) by (simp add: sl_find_def sl_find_generic_def sl_find_cb_def)
    then show ?thesis using s(2) by (auto simp: searched_def)
  qed
qed

theorem sl_find_correct_witness:
  "sl_ok id (sl_example [3, 7]) \<and> (\<exists>r. sl_find (\<lambda>_. True) (sl_example [3, 7]) (init_sl_searchresult 5 0) = Some (sl_example [3, 7], r) \<and> found_at r (Before 7))"
proof -
  have ok: "sl_ok id (sl_example [3, 7])" using sl_example_ok [of "[3, 7]"] by (simp add: key_sorted_def)
  have "place_of id (id 5) (sk_header (sl_example [3, 7])) = Before 7" by (simp add: place_of_def sl_example_def)
  then show ?thesis using sl_find_correct [OF ok sl_example_cmp, of 0 "\<lambda>_. True" 5] ok by (auto simp: sl_example_def)
qed

end
