(* ===== verification/Skip_List_Insert.thy ===== *)
theory Skip_List_Insert
  imports Skip_List_Search
begin

text \<open>
  Inserting into a skip list: the locks of the path become write locks, the element is linked in, a new dirnode is placed and
  joined to the lanes while the locks are given back.
\<close>

section \<open>Upgrading the locks\<close>

text \<open>A vector with the same path and the same locks, of whatever kind.\<close>

definition same_path :: "sl_vector_s \<Rightarrow> sl_vector_s \<Rightarrow> bool" where
  "same_path v w \<longleftrightarrow> vc_level w = vc_level v \<and> vc_maxlevel w = vc_maxlevel v \<and> map pt_dirnode (vc_path w) = map pt_dirnode (vc_path v) \<and>
     map pt_lock (vc_path w) = map pt_lock (vc_path v)"

lemma same_pathD:
  assumes "same_path v w"
  shows "length (vc_path w) = length (vc_path v)" "i < length (vc_path v) \<Longrightarrow> pt_dirnode (vc_path w ! i) = pt_dirnode (vc_path v ! i)"
    "i < length (vc_path v) \<Longrightarrow> pt_lock (vc_path w ! i) = pt_lock (vc_path v ! i)" "vc_level w = vc_level v" "vc_maxlevel w = vc_maxlevel v"
proof -
  show l: "length (vc_path w) = length (vc_path v)" using assms map_eq_imp_length_eq [of pt_dirnode "vc_path w" pt_dirnode "vc_path v"]
    by (simp add: same_path_def)
  have m: "map pt_dirnode (vc_path w) ! i = map pt_dirnode (vc_path v) ! i" "map pt_lock (vc_path w) ! i = map pt_lock (vc_path v) ! i"
    using assms by (simp_all add: same_path_def)
  show "pt_dirnode (vc_path w ! i) = pt_dirnode (vc_path v ! i)" if "i < length (vc_path v)" using m(1) l that by simp
  show "pt_lock (vc_path w ! i) = pt_lock (vc_path v ! i)" if "i < length (vc_path v)" using m(2) l that by simp
qed (use assms in \<open>simp_all add: same_path_def\<close>)

lemma lockers_of_card: "lockers_of v d = card {i. i < length (vc_path v) \<and> pt_lock (vc_path v ! i) \<noteq> 0 \<and> pt_dirnode (vc_path v ! i) = d}"
  by (simp add: lockers_of_def length_filter_conv_card)

lemma same_path_lockers: "same_path v w \<Longrightarrow> lockers_of w d = lockers_of v d"
  unfolding lockers_of_card by (rule arg_cong [where f = card]) (auto simp: same_pathD)

lemma same_path_ok:
  assumes "same_path v w"
  shows "locks_ok w sl = locks_ok v sl" and "path_ok lo w sl = path_ok lo v sl"
proof -
  show "locks_ok w sl = locks_ok v sl" by (simp add: locks_ok_def same_path_lockers [OF assms])
  have l: "(\<forall>p \<in> set (vc_path w). pt_lock p = 0) = (\<forall>p \<in> set (vc_path v). pt_lock p = 0)"
    by (simp add: all_set_conv_all_nth same_pathD [OF assms])
  show "path_ok lo w sl = path_ok lo v sl"
  proof (cases "length (vc_path v) = vc_maxlevel v + 1")
    case True
    then show ?thesis unfolding path_ok_def l by (simp add: same_pathD [OF assms])
  next
    case False
    then show ?thesis unfolding path_ok_def by (simp add: same_pathD [OF assms])
  qed
qed

text \<open>A search holds the lock of a dirnode once.\<close>

lemma lockers_once:
  assumes "path_ok lo v sl"
  shows "lockers_of v d \<le> 1"
proof -
  note o = path_okD [OF assms]
  have "i = j" if "i < length (vc_path v)" "pt_lock (vc_path v ! i) \<noteq> 0" "pt_dirnode (vc_path v ! i) = d"
    "j < length (vc_path v)" "pt_lock (vc_path v ! j) \<noteq> 0" "pt_dirnode (vc_path v ! j) = d" for i j
    using o(4) [of i] o(4) [of j] o(2) that by auto
  then show ?thesis unfolding lockers_of_card One_nat_def by (subst card_le_Suc0_iff_eq) auto
qed

lemma upgrade_path_ok:
  assumes "path_ok lo v sl" and "locks_ok v sl" and "i \<le> vc_maxlevel v"
  shows "\<exists>w. upgrade_readlock_vector_path sl v i = Some (0, sl, w) \<and> same_path v w"
proof -
  note o = path_okD [OF assms(1)]
  let ?p = "vc_path v ! i"
  let ?q = "?p\<lparr>pt_lockset := (pt_lockset ?p OR DIRNODE_LOCK_WRITE) AND NOT DIRNODE_LOCK_READ\<rparr>"
  obtain dn where dn: "sk_dirnodes sl (pt_dirnode ?p) = Some dn" using o(3) [OF assms(3)] by (auto simp: has_iff)
  then have l: "dn_lock dn = 0" "dn_lockers dn = of_nat (lockers_of v (pt_dirnode ?p))" using assms(2) by (simp_all add: locks_ok_def)
  have "\<not> dn_lockers dn > 1"
  proof (cases "lockers_of v (pt_dirnode ?p) = 0")
    case False
    then have "lockers_of v (pt_dirnode ?p) = 1" using lockers_once [OF assms(1), of "pt_dirnode ?p"] by simp
    then show ?thesis by (simp add: l(2))
  qed (simp add: l(2))
  moreover have "upd_dirnode (pt_dirnode ?p) (\<lambda>dn. dn\<lparr>dn_lock := (dn_lock dn OR DIRNODE_LOCK_PREWRITE) AND DIRNODE_LOCK_WRITE AND
       NOT DIRNODE_LOCK_PREWRITE AND NOT DIRNODE_LOCK_READ, dn_lockers := dn_lockers dn + 1 - 1\<rparr>) sl = Some sl"
  proof -
    have z: "(dn_lock dn OR DIRNODE_LOCK_PREWRITE) AND DIRNODE_LOCK_WRITE AND NOT DIRNODE_LOCK_PREWRITE AND NOT DIRNODE_LOCK_READ = dn_lock dn"
      by (simp add: l(1) DIRNODE_LOCK_PREWRITE_def DIRNODE_LOCK_WRITE_def DIRNODE_LOCK_READ_def)
    have "(sk_dirnodes sl)(pt_dirnode ?p \<mapsto> dn) = sk_dirnodes sl" using dn by auto
    then show ?thesis unfolding upd_dirnode_ok [OF dn] z by simp
  qed
  moreover have "get_path v i = Some ?p" using o(2) assms(3) by (simp add: get_path_def)
  moreover have "upd_path i (\<lambda>p. p\<lparr>pt_lockset := (pt_lockset p OR DIRNODE_LOCK_WRITE) AND NOT DIRNODE_LOCK_READ\<rparr>) v =
      Some (v\<lparr>vc_path := (vc_path v)[i := ?q]\<rparr>)" using o(2) assms(3) by (simp add: upd_path_def)
  ultimately have "upgrade_readlock_vector_path sl v i = Some (0, sl, v\<lparr>vc_path := (vc_path v)[i := ?q]\<rparr>)"
    using dn l(1) by (simp add: upgrade_readlock_vector_path_def)
  moreover have "same_path v (v\<lparr>vc_path := (vc_path v)[i := ?q]\<rparr>)"
    using o(2) assms(3) by (simp add: same_path_def map_update list_update_same_conv)
  ultimately show ?thesis by blast
qed

lemma upgrade_levels_ok:
  assumes "path_ok lo v sl" and "locks_ok v sl" and "\<forall>i \<in> set ls. i \<le> vc_maxlevel v"
  shows "\<exists>w. upgrade_levels False d ls (sl, v) = Some (0, sl, w) \<and> same_path v w"
  using assms
proof (induction ls arbitrary: v)
  case (Cons i ls)
  have g: "get_path v i = Some (vc_path v ! i)" using path_okD(2) [OF Cons.prems(1)] Cons.prems(3) by (simp add: get_path_def)
  show ?case
  proof (cases "pt_lock (vc_path v ! i) = 0")
    case True
    then show ?thesis using Cons g by simp
  next
    case False
    obtain w where w: "upgrade_readlock_vector_path sl v i = Some (0, sl, w)" "same_path v w"
      using upgrade_path_ok [OF Cons.prems(1,2), of i] Cons.prems(3) by auto
    have "path_ok lo w sl" "locks_ok w sl" by (simp_all add: same_path_ok [OF w(2)] Cons.prems(1,2))
    moreover have "\<forall>i \<in> set ls. i \<le> vc_maxlevel w" using Cons.prems(3) same_pathD(5) [OF w(2)] by simp
    ultimately obtain x where x: "upgrade_levels False d ls (sl, w) = Some (0, sl, x)" "same_path w x" using Cons.IH [of w] by blast
    have "same_path v x" using w(2) x(2) by (simp add: same_path_def)
    then show ?thesis using False g w(1) x(1) by simp
  qed
qed (simp add: same_path_def)

lemma upgrade_ok:
  assumes "path_ok lo v sl" and "locks_ok v sl"
  shows "\<exists>w. upgrade_readlock_vector lockops sl v False = Some (0, sl, w) \<and> same_path v w"
proof (cases lockops)
  case Lockops_default
  have "get_path v 0 = Some (vc_path v ! 0)" using path_okD(2) [OF assms(1)] by (simp add: get_path_def)
  then show ?thesis using upgrade_levels_ok [OF assms, of "[vc_level v..<vc_maxlevel v + 1]" "pt_dirnode (vc_path v ! 0)"] Lockops_default
    by (auto simp: upgrade_readlock_vector_def)
qed (simp add: upgrade_readlock_vector_def same_path_def)

section \<open>Changing the lanes\<close>

text \<open>A change of links and steps that keeps the lanes, and has the same dirnodes and the same locks.\<close>

definition relinked :: "'b sl_skiplist_s \<Rightarrow> 'b sl_skiplist_s \<Rightarrow> bool" where
  "relinked sl sl' \<longleftrightarrow> lanes_ok sl' \<and> has sl' = has sl \<and> sk_header sl' = sk_header sl \<and> sk_ops sl' = sk_ops sl \<and>
     sk_maxlevel sl' = sk_maxlevel sl \<and> (\<forall>w. locks_ok w sl \<longrightarrow> locks_ok w sl')"

lemma relinked_trans: "relinked a b \<Longrightarrow> relinked b c \<Longrightarrow> relinked a c"
  by (simp add: relinked_def)

lemma upd_junction_ok:
  assumes "lanes_ok sl" and "get_junction sl d i = Some jn" and "jn_ok sl i (f jn)"
  shows "\<exists>sl'. upd_junction d i f sl = Some sl' \<and> relinked sl sl' \<and>
    (\<forall>x j. get_junction sl' x j = (if x = d \<and> j = i then Some (f jn) else get_junction sl x j))"
proof -
  obtain dn where dn: "sk_dirnodes sl d = Some dn" "i < length (dn_junction dn)" "jn = dn_junction dn ! i"
    using assms(2) by (auto simp: get_junction_iff)
  let ?f = "\<lambda>dn. dn\<lparr>dn_junction := (dn_junction dn)[i := f jn]\<rparr>"
  let ?sl = "sl\<lparr>sk_dirnodes := (sk_dirnodes sl)(d \<mapsto> ?f dn)\<rparr>"
  have u: "upd_junction d i f sl = Some ?sl" using assms(2) upd_dirnode_ok [OF dn(1), of ?f] by (simp add: upd_junction_def)
  have g: "get_junction ?sl x j = (if x = d \<and> j = i then Some (f jn) else get_junction sl x j)" for x j
    using dn by (simp add: get_junction_def)
  have "has ?sl x j = has sl x j" for x j unfolding has_def g by (simp add: assms(2))
  then have h: "has ?sl = has sl" by (simp add: fun_eq_iff)
  have "node_ok ?sl x y" if "sk_dirnodes ?sl x = Some y" for x y
  proof (cases "x = d")
    case True
    then have y: "y = ?f dn" using that by simp
    have "node_ok sl d dn" using assms(1) dn(1) by (simp add: lanes_ok_def)
    then show ?thesis by (simp add: node_ok_def True y)
  next
    case False
    then have "node_ok sl x y" using assms(1) that by (simp add: lanes_ok_def)
    then show ?thesis by (simp add: node_ok_def)
  qed
  moreover have "jn_ok ?sl j y" if "get_junction ?sl x j = Some y" for x j y
    using that assms(1,3) unfolding g by (auto simp: jn_ok_def h lanes_ok_def split: if_splits)
  moreover have "sk_dirnodes ?sl 0 \<noteq> None" using assms(1) by (simp add: lanes_ok_def)
  ultimately have "lanes_ok ?sl" unfolding lanes_ok_def by blast
  moreover have "locks_ok w ?sl" if "locks_ok w sl" for w using that dn(1) by (simp add: locks_ok_def)
  ultimately have "relinked sl ?sl" using h by (simp add: relinked_def)
  then show ?thesis using u g by blast
qed

lemma upd_counts:
  assumes "get_junction sl d i = Some jn" and "\<forall>x j. get_junction sl' x j = (if x = d \<and> j = i then Some (f jn) else get_junction sl x j)"
    and "counts_ok b is sl" and "d = 0 \<Longrightarrow> unat (jn_count (f jn)) + of_bool (i \<in> set ks) \<le> unat (jn_count jn) + of_bool (i \<in> set is)"
    and "set ks \<subseteq> set is"
  shows "counts_ok b ks sl'"
  unfolding counts_ok_def
proof (intro allI impI)
  fix j y assume y: "get_junction sl' 0 j = Some y"
  show "unat (jn_count y) + of_bool (j \<in> set ks) \<le> b"
  proof (cases "d = 0 \<and> j = i")
    case True
    then have "unat (jn_count y) + of_bool (j \<in> set ks) \<le> unat (jn_count jn) + of_bool (i \<in> set is)" using y assms(2,4) by simp
    also have "\<dots> \<le> b" using assms(1,3) True by (simp add: counts_ok_def)
    finally show ?thesis .
  next
    case False
    then have "get_junction sl 0 j = Some y" using y assms(2) by (metis (full_types))
    then have "unat (jn_count y) + of_bool (j \<in> set is) \<le> b" using assms(3) by (simp add: counts_ok_def)
    moreover have "of_bool (j \<in> set ks) \<le> (of_bool (j \<in> set is) :: nat)" using assms(5) by auto
    ultimately show ?thesis by linarith
  qed
qed

lemma relink_ok:
  assumes "lanes_ok sl" and "has sl d i" and "\<And>jn. jn_ok sl i jn \<Longrightarrow> jn_ok sl i (f jn)" and "\<And>jn. jn_count (f jn) = jn_count jn"
  shows "\<exists>sl'. upd_junction d i f sl = Some sl' \<and> relinked sl sl' \<and> (\<forall>b is. counts_ok b is sl \<longrightarrow> counts_ok b is sl')"
proof -
  obtain jn where j: "get_junction sl d i = Some jn" using assms(2) by (auto dest: hasE)
  then have "jn_ok sl i jn" using assms(1) by (simp add: lanes_ok_def)
  then obtain sl' where "upd_junction d i f sl = Some sl'" "relinked sl sl'"
      and g: "\<forall>x j. get_junction sl' x j = (if x = d \<and> j = i then Some (f jn) else get_junction sl x j)"
    using upd_junction_ok [OF assms(1) j, of f] assms(3) by blast
  then show ?thesis using upd_counts [where f = f, OF j g] assms(4) by auto
qed

definition linked :: "nat \<Rightarrow> nat list \<Rightarrow> 'b sl_skiplist_s \<Rightarrow> 'b sl_skiplist_s \<Rightarrow> bool" where
  "linked b is sl0 sl \<longleftrightarrow> relinked sl0 sl \<and> counts_ok b is sl"

lemma link_step:
  assumes "linked b is sl0 sl" and "has sl0 d i" and "\<And>jn. jn_ok sl0 i jn \<Longrightarrow> jn_ok sl0 i (f jn)" and "\<And>jn. jn_count (f jn) = jn_count jn"
  shows "\<exists>sl'. upd_junction d i f sl = Some sl' \<and> linked b is sl0 sl'"
proof -
  have h: "lanes_ok sl" "has sl = has sl0" "relinked sl0 sl" "counts_ok b is sl" using assms(1) by (simp_all add: linked_def relinked_def)
  have "jn_ok sl i = jn_ok sl0 i" by (simp add: fun_eq_iff jn_ok_def h(2))
  then show ?thesis using relink_ok [OF h(1), of d i f] assms(2-4) h(2-4) relinked_trans [OF h(3)] by (auto simp: linked_def)
qed

lemma count_ok:
  assumes "lanes_ok sl" and "has sl 0 i" and "counts_ok b (i # is) sl" and "i \<notin> set is"
  shows "\<exists>sl'. upd_junction 0 i (\<lambda>jn. jn\<lparr>jn_count := jn_count jn + 1\<rparr>) sl = Some sl' \<and> relinked sl sl' \<and> counts_ok b is sl'"
proof -
  obtain jn where j: "get_junction sl 0 i = Some jn" using assms(2) by (auto dest: hasE)
  then have "jn_ok sl i (jn\<lparr>jn_count := jn_count jn + 1\<rparr>)" using assms(1) by (simp add: lanes_ok_def jn_ok_def)
  then obtain sl' where u: "upd_junction 0 i (\<lambda>jn. jn\<lparr>jn_count := jn_count jn + 1\<rparr>) sl = Some sl'" "relinked sl sl'"
      and g: "\<forall>x j. get_junction sl' x j = (if x = 0 \<and> j = i then Some (jn\<lparr>jn_count := jn_count jn + 1\<rparr>) else get_junction sl x j)"
    using upd_junction_ok [OF assms(1) j, of "\<lambda>jn. jn\<lparr>jn_count := jn_count jn + 1\<rparr>"] by blast
  have "unat (jn_count jn + 1) \<le> unat (jn_count jn) + 1" by (simp add: unat_word_ariths(1))
  then have "counts_ok b is sl'" using upd_counts [where f = "\<lambda>jn. jn\<lparr>jn_count := jn_count jn + 1\<rparr>", OF j g assms(3), of "is"] assms(4) by auto
  then show ?thesis using u by blast
qed

section \<open>Joining the new dirnode to the lanes\<close>

text \<open>While the levels \<open>is\<close> are still to be done.\<close>

definition insert_todo :: "nat \<Rightarrow> sl_vector_s \<Rightarrow> 'b sl_skiplist_s \<Rightarrow> nat list \<Rightarrow> 'b sl_skiplist_s \<Rightarrow> sl_move_dirnode_s \<Rightarrow> bool" where
  "insert_todo b v sl0 is sl move \<longleftrightarrow> lanes_ok sl \<and> counts_ok b is sl \<and> distinct is \<and> sk_header sl = sk_header sl0 \<and> sk_ops sl = sk_ops sl0 \<and>
     (\<forall>d. mv_dirnode move = Some d \<longrightarrow> d \<noteq> 0 \<and> has sl d 0) \<and> (\<forall>i \<in> set is. i < length (vc_path v)) \<and>
     (\<forall>i < length (vc_path v). has sl (pt_dirnode (vc_path v ! i)) i \<and> has sl 0 i)"

lemma insert_todo_step:
  assumes "insert_todo b v sl0 (i # is) sl move" and "relinked sl sl'" and "counts_ok b is sl'" and "mv_dirnode move' = mv_dirnode move"
  shows "insert_todo b v sl0 is sl' move'"
  using assms by (simp add: insert_todo_def relinked_def)

text \<open>The lanes of a dirnode are those up to its level.\<close>

lemma has_level: "lanes_ok sl \<Longrightarrow> sk_dirnodes sl d = Some dn \<Longrightarrow> d \<noteq> 0 \<Longrightarrow> has sl d i \<longleftrightarrow> i \<le> dn_level dn"
  using lanes_okD(3) [of sl d dn] by (auto simp: has_iff)

lemma has_next: "lanes_ok sl \<Longrightarrow> get_junction sl d i = Some jn \<Longrightarrow> has sl (jn_n jn) i \<and> has sl (jn_p jn) i"
  using lanes_okD(2) by blast

text \<open>The steps to the left and right of the new dirnode, one level up.\<close>

lemma new_steps_ok:
  assumes "lanes_ok sl" and "has sl prev i" and "has sl nxt i" and "0 < i" and "i < length (vc_path v)"
    and "has sl (pt_dirnode (vc_path v ! (i - 1))) (i - 1)"
  shows "\<exists>ins'. new_steps sl v i prev nxt ins = Some ins' \<and> mv_dirnode ins' = mv_dirnode ins"
proof -
  have "get_path v (i - 1) = Some (vc_path v ! (i - 1))" using assms(4,5) by (simp add: get_path_def)
  moreover obtain a b c where j: "get_junction sl prev (i - 1) = Some a" "get_junction sl (pt_dirnode (vc_path v ! (i - 1))) (i - 1) = Some b"
      "get_junction sl nxt (i - 1) = Some c"
    using has_less [OF assms(2), of "i - 1"] has_less [OF assms(3), of "i - 1"] assms(6) by (auto dest!: hasE)
  moreover obtain d where "get_junction sl (jn_p c) (i - 1) = Some d" using has_next [OF assms(1) j(3)] by (auto dest!: hasE)
  ultimately show ?thesis by (auto simp: new_steps_def Let_def)
qed

lemma join_ok:
  assumes "insert_todo b v sl0 (i # is) sl move" and "mv_dirnode move = Some new" and "has sl new i"
  shows "\<exists>sl' move'. correct_dirnodes_insert sl v i move = Some (sl', move') \<and> relinked sl sl' \<and> counts_ok b is sl' \<and>
    mv_dirnode move' = mv_dirnode move"
proof -
  let ?prev = "pt_dirnode (vc_path v ! i)"
  have q: "lanes_ok sl" "counts_ok b (i # is) sl" "i \<notin> set is" "new \<noteq> 0" "i < length (vc_path v)" "has sl ?prev i" "has sl 0 i"
    and p: "\<forall>j < length (vc_path v). has sl (pt_dirnode (vc_path v ! j)) j"
    using assms(1,2) by (auto simp: insert_todo_def)
  obtain dn where dn: "sk_dirnodes sl new = Some dn" "i \<le> dn_level dn" using assms(3) has_level [OF q(1) _ q(4)] by (auto simp: has_iff)
  have g: "get_path v i = Some (vc_path v ! i)" using q(5) by (simp add: get_path_def)
  obtain jn where jn: "get_junction sl ?prev i = Some jn" using q(6) by (auto dest: hasE)
  then have nx: "has sl (jn_n jn) i" using has_next [OF q(1)] by blast
  have l0: "linked b (i # is) sl sl" using q(1,2) by (simp add: linked_def relinked_def)
  obtain sl1 where 1: "upd_junction ?prev i (\<lambda>jn. jn\<lparr>jn_n := new\<rparr>) sl = Some sl1" "linked b (i # is) sl sl1"
    using link_step [OF l0 q(6), of "\<lambda>jn. jn\<lparr>jn_n := new\<rparr>"] assms(3) by (auto simp: jn_ok_def)
  obtain sl2 where 2: "upd_junction new i (\<lambda>jn. jn\<lparr>jn_p := ?prev\<rparr>) sl1 = Some sl2" "linked b (i # is) sl sl2"
    using link_step [OF 1(2) assms(3), of "\<lambda>jn. jn\<lparr>jn_p := ?prev\<rparr>"] q(6) by (auto simp: jn_ok_def)
  obtain sl3 where 3: "upd_junction (jn_n jn) i (\<lambda>jn. jn\<lparr>jn_p := new\<rparr>) sl2 = Some sl3" "linked b (i # is) sl sl3"
    using link_step [OF 2(2) nx, of "\<lambda>jn. jn\<lparr>jn_p := new\<rparr>"] assms(3) by (auto simp: jn_ok_def)
  obtain sl4 where 4: "upd_junction new i (\<lambda>j. j\<lparr>jn_n := jn_n jn\<rparr>) sl3 = Some sl4" "linked b (i # is) sl sl4"
    using link_step [OF 3(2) assms(3), of "\<lambda>j. j\<lparr>jn_n := jn_n jn\<rparr>"] nx by (auto simp: jn_ok_def)
  have h4: "lanes_ok sl4" "has sl4 = has sl" using 4(2) by (simp_all add: linked_def relinked_def)
  obtain move' where m: "(if 0 < i then new_steps sl4 v i ?prev (jn_n jn) move else Some move) = Some move'" "mv_dirnode move' = mv_dirnode move"
    using new_steps_ok [OF h4(1), of ?prev i "jn_n jn" v move] q(5,6) nx p unfolding h4(2) by (cases "i = 0") auto
  obtain sl5 where 5: "upd_junction ?prev i (\<lambda>jn. jn\<lparr>jn_step := mv_left move'\<rparr>) sl4 = Some sl5" "linked b (i # is) sl sl5"
    using link_step [OF 4(2) q(6), of "\<lambda>jn. jn\<lparr>jn_step := mv_left move'\<rparr>"] by (auto simp: jn_ok_def)
  obtain sl6 where 6: "upd_junction new i (\<lambda>jn. jn\<lparr>jn_step := mv_right move'\<rparr>) sl5 = Some sl6" "linked b (i # is) sl sl6"
    using link_step [OF 5(2) assms(3), of "\<lambda>jn. jn\<lparr>jn_step := mv_right move'\<rparr>"] by (auto simp: jn_ok_def)
  have h6: "lanes_ok sl6" "has sl6 = has sl" "counts_ok b (i # is) sl6" "relinked sl sl6" using 6(2) by (simp_all add: linked_def relinked_def)
  obtain sl7 where 7: "upd_junction 0 i (\<lambda>jn. jn\<lparr>jn_count := jn_count jn + 1\<rparr>) sl6 = Some sl7" "relinked sl6 sl7" "counts_ok b is sl7"
    using count_ok [OF h6(1) _ h6(3) q(3)] q(7) unfolding h6(2) by blast
  have "correct_dirnodes_insert sl v i move = Some (sl7, move')"
    using g dn assms(2) jn 1(1) 2(1) 3(1) 4(1) m(1) 5(1) 6(1) 7(1) by (simp add: correct_dirnodes_insert_def Let_def)
  then show ?thesis using relinked_trans [OF h6(4) 7(2)] 7(3) m(2) by blast
qed

lemma correct_insert_ok:
  assumes "insert_todo b v sl0 (i # is) sl move"
  shows "\<exists>sl' move'. correct_dirnodes_insert sl v i move = Some (sl', move') \<and> insert_todo b v sl0 is sl' move' \<and> has sl' = has sl \<and>
    (\<forall>w. locks_ok w sl \<longrightarrow> locks_ok w sl')"
proof -
  let ?prev = "pt_dirnode (vc_path v ! i)"
  have q: "lanes_ok sl" "counts_ok b (i # is) sl" "i < length (vc_path v)" "has sl ?prev i" using assms by (auto simp: insert_todo_def)
  have g: "get_path v i = Some (vc_path v ! i)" using q(3) by (simp add: get_path_def)
  obtain sl' move' where "correct_dirnodes_insert sl v i move = Some (sl', move')" "relinked sl sl'" "counts_ok b is sl'" "mv_dirnode move' = mv_dirnode move"
  proof (cases "\<exists>new. mv_dirnode move = Some new \<and> has sl new i")
    case True
    then show thesis using join_ok [OF assms] that by blast
  next
    case False
    have l0: "linked b (i # is) sl sl" using q(1,2) by (simp add: linked_def relinked_def)
    obtain sl' where "upd_junction ?prev i (\<lambda>jn. jn\<lparr>jn_step := jn_step jn + 1\<rparr>) sl = Some sl'" "linked b (i # is) sl sl'"
      using link_step [OF l0 q(4), of "\<lambda>jn. jn\<lparr>jn_step := jn_step jn + 1\<rparr>"] by (auto simp: jn_ok_def)
    moreover have "(case mv_dirnode move of None \<Rightarrow> Some None
        | Some new \<Rightarrow> do { dn \<leftarrow> sk_dirnodes sl new; Some (if dn_level dn \<ge> i then Some new else None) }) = Some None"
    proof (cases "mv_dirnode move")
      case (Some new)
      then obtain dn where "sk_dirnodes sl new = Some dn" "new \<noteq> 0" using assms by (auto simp: insert_todo_def has_iff)
      then show ?thesis using Some False has_level [OF q(1)] by auto
    qed simp
    moreover have "counts_ok b is sl'" using calculation(2) by (fastforce simp: linked_def counts_ok_def)
    ultimately show thesis using that [of sl' move] g by (simp add: correct_dirnodes_insert_def linked_def Let_def)
  qed
  then show ?thesis using insert_todo_step [OF assms] by (auto simp: relinked_def)
qed

section \<open>A new dirnode\<close>

lemma levelup_loop_ok:
  assumes "\<forall>i \<in> set is. has sl 0 i" and "counts_ok b [] sl" and "b + 1 < 2 ^ 32"
  shows "\<exists>st'. levelup_loop sl is st = Some st'"
  using assms(1)
proof (induction "is" arbitrary: st)
  case (Cons i "is")
  obtain jn where j: "get_junction sl 0 i = Some jn" using Cons.prems by (auto dest: hasE)
  then have "unat (jn_count jn) \<le> b" using assms(2) by (simp add: counts_ok_def)
  then have "unat (jn_count jn + 1) = unat (jn_count jn) + 1" using assms(3) by (simp add: unat_word_ariths(1))
  then have "jn_count jn + 1 \<noteq> 0" by (metis unat_0 Suc_eq_plus1 nat.distinct(1))
  then show ?case using Cons j by (simp add: Let_def)
qed simp

lemma do_levelup_ok:
  assumes "lanes_ok sl" and "counts_ok b [] sl" and "b + 1 < 2 ^ 32"
  shows "\<exists>l. do_levelup sl = Some l"
proof -
  obtain dn where dn: "sk_dirnodes sl 0 = Some dn" "dn_level dn \<le> sk_maxlevel sl" "length (dn_junction dn) = sk_maxlevel sl + 2"
    using lanes_okD(1) [OF assms(1)] by blast
  then have "\<forall>i \<in> set [0..<dn_level dn + 1]. has sl 0 i" by (auto simp: has_iff)
  then obtain st where "levelup_loop sl [0..<dn_level dn + 1] (of_nat (length (sk_header sl)), -1) = Some st"
    using levelup_loop_ok [OF _ assms(2,3)] by blast
  then show ?thesis using dn(1) by (auto simp: do_levelup_def Let_def split: prod.split)
qed

text \<open>What placing a dirnode keeps: everything but the new dirnode, whose address is given back, and how many lanes there are.\<close>

definition placed :: "'b sl_skiplist_s \<Rightarrow> 'b sl_skiplist_s \<Rightarrow> nat option \<Rightarrow> bool" where
  "placed sl sl' new \<longleftrightarrow> lanes_ok sl' \<and> (\<forall>d i. has sl d i \<longrightarrow> has sl' d i) \<and> sk_header sl' = sk_header sl \<and> sk_ops sl' = sk_ops sl \<and>
     (\<forall>b is. counts_ok b is sl \<longrightarrow> counts_ok b is sl') \<and> (flat sl \<longrightarrow> flat sl') \<and> (\<forall>w lo. path_ok lo w sl \<longrightarrow> locks_ok w sl \<longrightarrow> locks_ok w sl') \<and>
     (case new of None \<Rightarrow> True | Some d \<Rightarrow> d \<noteq> 0 \<and> has sl' d 0)"

lemma new_dirnode_placed:
  assumes "lanes_ok sl" and "sk_dirnodes sl 0 = Some dn" and "l \<le> sk_maxlevel sl"
    and "dn_junction new = replicate (l + 1) start_junction" "dn_level new = l" "dn_compare new = Compare_ops" "dn_lock new = 0" "dn_lockers new = 0"
  shows "placed sl (sl\<lparr>sk_dirnodes := (sk_dirnodes sl)(sk_fresh sl \<mapsto> new, 0 \<mapsto> dn\<lparr>dn_level := max (dn_level dn) l\<rparr>), sk_fresh := sk_fresh sl + 1\<rparr>)
    (Some (sk_fresh sl))" (is "placed sl ?sl (Some ?f)")
proof -
  have f: "?f \<noteq> 0" "sk_dirnodes sl ?f = None" using lanes_okD(4) [OF assms(1)] assms(2) by fastforce+
  have g: "get_junction ?sl d i = (if d = ?f then if i \<le> l then Some start_junction else None else get_junction sl d i)" for d i
    using f assms(2) by (simp add: get_junction_def assms(4) less_Suc_eq_le del: replicate_Suc)
  have n0: "get_junction sl ?f i = None" for i using f(2) by (simp add: get_junction_def)
  have h: "has ?sl d i \<longleftrightarrow> has sl d i \<or> d = ?f \<and> i \<le> l" for d i unfolding has_def g by (simp add: n0)
  have h0: "has sl 0 i" if "i \<le> l" for i using lanes_okD(1) [OF assms(1)] assms(3) that by (auto simp: has_iff)
  have "node_ok ?sl d x" if dx: "sk_dirnodes ?sl d = Some x" for d x
  proof -
    consider "d = 0" "x = dn\<lparr>dn_level := max (dn_level dn) l\<rparr>" | "d = ?f" "x = new" | "d \<noteq> 0" "sk_dirnodes sl d = Some x"
      using dx f(1) by (cases "d = 0"; cases "d = ?f") auto
    then show ?thesis
    proof cases
      case 1
      have "node_ok sl 0 dn" using assms(1,2) by (simp add: lanes_ok_def)
      then show ?thesis using 1 assms(3) f(1) by (simp add: node_ok_def)
    next
      case 2
      then show ?thesis using f(1) by (simp add: node_ok_def assms(4-6))
    next
      case 3
      then have "node_ok sl d x" using assms(1) by (simp add: lanes_ok_def)
      then show ?thesis using 3(1) by (simp add: node_ok_def)
    qed
  qed
  moreover have "jn_ok ?sl i jn" if "get_junction ?sl d i = Some jn" for d i jn
    using that assms(1) h0 unfolding g jn_ok_def h by (auto simp: lanes_ok_def jn_ok_def start_junction_def split: if_splits)
  ultimately have "lanes_ok ?sl" unfolding lanes_ok_def by simp
  moreover have "locks_ok w ?sl" if "path_ok lo w sl" "locks_ok w sl" for w and lo
  proof -
    have "pt_dirnode x \<noteq> ?f" if "x \<in> set (vc_path w)" for x
      using path_okD(2,3) [OF \<open>path_ok lo w sl\<close>] that f(2) by (auto simp: in_set_conv_nth has_iff less_Suc_eq_le) (metis option.distinct(1))
    then have "lockers_of w ?f = 0" by (auto simp: lockers_of_def filter_empty_conv)
    then show ?thesis using that(2) assms(2,7,8) by (auto simp: locks_ok_def)
  qed
  moreover have "counts_ok b is ?sl = counts_ok b is sl" "flat ?sl = flat sl" for b and "is"
    using f(1) unfolding counts_ok_def flat_def g by simp_all
  ultimately show ?thesis unfolding placed_def h using f(1) by auto
qed

lemma relist_placed:
  assumes "placed sl0 sl new" and "sk_dirnodes sl d = Some dn"
  shows "placed sl0 (sl\<lparr>sk_dirnodes := (sk_dirnodes sl)(d \<mapsto> dn\<lparr>dn_list := x\<rparr>)\<rparr>) new" (is "placed sl0 ?sl new")
proof -
  have g: "get_junction ?sl = get_junction sl" using assms(2) by (simp add: fun_eq_iff get_junction_def)
  then have h: "has ?sl = has sl" by (simp add: has_def fun_eq_iff)
  have c: "counts_ok b is ?sl = counts_ok b is sl" "flat ?sl = flat sl" for b and "is" by (simp_all add: counts_ok_def flat_def g)
  have l: "lanes_ok sl" using assms(1) by (simp add: placed_def)
  have "node_ok ?sl y z" if "sk_dirnodes ?sl y = Some z" for y z
  proof (cases "y = d")
    case True
    have "node_ok sl d dn" using l assms(2) by (simp add: lanes_ok_def)
    then show ?thesis using that True by (auto simp: node_ok_def)
  next
    case False
    then have "node_ok sl y z" using l that by (simp add: lanes_ok_def)
    then show ?thesis by (simp add: node_ok_def)
  qed
  moreover have "jn_ok ?sl i jn" if "get_junction sl y i = Some jn" for y i jn using that l by (simp add: jn_ok_def h lanes_ok_def)
  ultimately have "lanes_ok ?sl" using l unfolding lanes_ok_def g by simp
  moreover have "locks_ok w ?sl" if "locks_ok w sl" for w using that assms(2) by (simp add: locks_ok_def)
  ultimately show ?thesis using assms(1) unfolding placed_def h c by (auto split: option.splits)
qed

lemma insert_sl_dirnode_ok:
  assumes "lanes_ok sl" and "counts_ok b [] sl" and "b + 1 < 2 ^ 32" and "mv_dirnode ins = None"
  shows "\<exists>sl' ins'. insert_sl_dirnode malloc sl e ins = Some (mv_dirnode ins', sl', ins') \<and> placed sl sl' (mv_dirnode ins') \<and>
    (\<forall>d. mv_dirnode ins' = Some d \<longrightarrow> (\<exists>dn. sk_dirnodes sl' d = Some dn \<and> dn_list dn = Some e))"
proof -
  obtain dn where dn: "sk_dirnodes sl 0 = Some dn" using assms(1) by (auto simp: lanes_ok_def)
  obtain l where l: "do_levelup sl = Some l" using do_levelup_ok [OF assms(1-3)] by blast
  have none: "placed sl sl None" using assms(1) by (simp add: placed_def)
  let ?l = "min (nat l) (sk_maxlevel sl)" and ?f = "sk_fresh sl"
  show ?thesis
  proof (cases "l \<ge> 0 \<and> malloc (Alloc_dirnode ?l)")
    case True
    have f: "?f \<noteq> 0" using lanes_okD(4) [OF assms(1) dn] by simp
    let ?new = "(init_sl_dirnode (?l + 1) DIRNODE_FLAG_ALLOC dirnode_zero)\<lparr>dn_compare := Compare_ops\<rparr>"
    let ?sl = "sl\<lparr>sk_dirnodes := (sk_dirnodes sl)(?f \<mapsto> ?new\<lparr>dn_list := Some e\<rparr>, 0 \<mapsto> dn\<lparr>dn_level := max (dn_level dn) ?l\<rparr>), sk_fresh := ?f + 1\<rparr>"
    have "insert_sl_dirnode malloc sl e ins = Some (Some ?f, ?sl, ins\<lparr>mv_dirnode := Some ?f\<rparr>)"
      using True l dn f by (simp add: insert_sl_dirnode_def create_sl_dirnode_def upd_dirnode_def Let_def)
    moreover have "placed sl ?sl (Some ?f)"
      by (rule new_dirnode_placed [OF assms(1) dn]) (simp_all add: init_sl_dirnode_def)
    ultimately show ?thesis using f by (intro exI [of _ ?sl] exI [of _ "ins\<lparr>mv_dirnode := Some ?f\<rparr>"]) simp
  next
    case False
    then have "insert_sl_dirnode malloc sl e ins = Some (None, sl, ins)"
      using l by (auto simp: insert_sl_dirnode_def create_sl_dirnode_def Let_def)
    then show ?thesis using none assms(4) by auto
  qed
qed

lemma move_loops_dirnode [simp]:
  "mv_dirnode (snd (move_left_loop ps e move)) = mv_dirnode move" "mv_dirnode (snd (move_right_loop ps e move)) = mv_dirnode move"
  by (induction ps arbitrary: e move) simp_all

lemma move_dirnode_ok:
  assumes "placed sl0 sl (mv_dirnode move)" and "mv_dirnode move = Some d" and "sk_dirnodes sl d = Some dn" and "dn_list dn = Some e"
    and "e \<in> set (sk_header sl)" and "\<And>e. mv_dirnode (snd (loop e move)) = mv_dirnode move"
  shows "\<exists>sl' move'. move_sl_dirnode loop apart sl move = Some (sl', move') \<and> placed sl0 sl' (mv_dirnode move')"
  using assms(1) relist_placed [OF assms(1,3), of "Some (fst (loop e move))"] assms(2-5) assms(6) [of e]
  by (auto simp: move_sl_dirnode_def upd_dirnode_def Let_def case_prod_beta)

lemma place_dirnode_ok:
  assumes "lanes_ok sl" and "counts_ok b [] sl" and "b + 1 < 2 ^ 32" and "mv_dirnode ins = None" and "e \<in> set (sk_header sl)"
  shows "\<exists>sl' ins'. place_dirnode malloc sl e ins = Some (sl', ins') \<and> placed sl sl' (mv_dirnode ins')"
proof -
  obtain sl' ins' where i: "insert_sl_dirnode malloc sl e ins = Some (mv_dirnode ins', sl', ins')" "placed sl sl' (mv_dirnode ins')"
      and d: "\<And>d. mv_dirnode ins' = Some d \<Longrightarrow> \<exists>dn. sk_dirnodes sl' d = Some dn \<and> dn_list dn = Some e"
    using insert_sl_dirnode_ok [OF assms(1-4)] by blast
  have h: "e \<in> set (sk_header sl')" using i(2) assms(5) by (simp add: placed_def)
  have "\<exists>sl'' m. insert_sl_dirnode_left malloc sl e ins = Some (sl'', m) \<and> placed sl sl'' (mv_dirnode m)"
    using i d h move_dirnode_ok [OF i(2)] by (cases "mv_dirnode ins'") (auto simp: insert_sl_dirnode_left_def move_sl_dirnode_left_def)
  moreover have "\<exists>sl'' m. insert_sl_dirnode_right malloc sl e ins = Some (sl'', m) \<and> placed sl sl'' (mv_dirnode m)"
    using i d h move_dirnode_ok [OF i(2)] by (cases "mv_dirnode ins'") (auto simp: insert_sl_dirnode_right_def move_sl_dirnode_right_def)
  moreover have "placed sl sl (mv_dirnode ins)" using assms(1,4) by (simp add: placed_def)
  ultimately show ?thesis using i by (simp add: place_dirnode_def Let_def)
qed

section \<open>The place of the new element\<close>

definition ins_key :: "(nat \<Rightarrow> 'k::linorder) \<Rightarrow> 'k \<Rightarrow> nat \<Rightarrow> nat list \<Rightarrow> nat list" where
  "ins_key key k e xs = takeWhile (\<lambda>x. key x < k) xs @ e # dropWhile (\<lambda>x. key x < k) xs"

lemma ins_key_simps [simp]: "length (ins_key key k e xs) = length xs + 1" "set (ins_key key k e xs) = insert e (set xs)"
proof -
  have "length (takeWhile (\<lambda>x. key x < k) xs @ dropWhile (\<lambda>x. key x < k) xs) = length xs" by (simp only: takeWhile_dropWhile_id)
  then show "length (ins_key key k e xs) = length xs + 1" unfolding ins_key_def by (simp del: takeWhile_dropWhile_id)
  have "set (takeWhile (\<lambda>x. key x < k) xs @ dropWhile (\<lambda>x. key x < k) xs) = set xs" by (simp only: takeWhile_dropWhile_id)
  then show "set (ins_key key k e xs) = insert e (set xs)" unfolding ins_key_def by (auto simp del: takeWhile_dropWhile_id)
qed

lemma key_sorted_split:
  assumes "key_sorted key xs"
  shows "key_sorted key (takeWhile (\<lambda>x. key x < k) xs)" "key_sorted key (dropWhile (\<lambda>x. key x < k) xs)"
    "x \<in> set (takeWhile (\<lambda>x. key x < k) xs) \<Longrightarrow> key x < k" "x \<in> set (dropWhile (\<lambda>x. key x < k) xs) \<Longrightarrow> k \<le> key x"
proof -
  have "key_sorted key (takeWhile (\<lambda>x. key x < k) xs @ dropWhile (\<lambda>x. key x < k) xs)" using assms by simp
  then show s: "key_sorted key (takeWhile (\<lambda>x. key x < k) xs)" "key_sorted key (dropWhile (\<lambda>x. key x < k) xs)"
    by (simp_all add: key_sorted_def sorted_wrt_append)
  show "key x < k" if "x \<in> set (takeWhile (\<lambda>x. key x < k) xs)" using that by (rule set_takeWhileD [THEN conjunct2])
  show "k \<le> key x" if x: "x \<in> set (dropWhile (\<lambda>x. key x < k) xs)"
  proof (cases "dropWhile (\<lambda>x. key x < k) xs")
    case (Cons y ys)
    then have "\<not> key y < k" by (auto simp: dropWhile_eq_Cons_conv)
    then show ?thesis using Cons s(2) x by (auto simp: key_sorted_def)
  next
    case Nil
    then show ?thesis using x unfolding Nil by simp
  qed
qed

lemma ins_key_sorted:
  assumes "key_sorted key xs" and "key e = k" and "k \<notin> key ` set xs"
  shows "key_sorted key (ins_key key k e xs)"
proof -
  note s = key_sorted_split [where k = k, OF assms(1)]
  have "k < key x" if "x \<in> set (dropWhile (\<lambda>x. key x < k) xs)" for x
    using s(4) [OF that] assms(3) set_dropWhileD [OF that] by (metis image_eqI order_le_less)
  then show ?thesis using s(1,2) s(3) assms(2) by (fastforce simp: ins_key_def key_sorted_def sorted_wrt_append)
qed

lemma key_sorted_distinct: "key_sorted key xs \<Longrightarrow> distinct xs"
  by (induction xs) (auto simp: key_sorted_def)

lemma place_of_cases:
  assumes "key_sorted key xs"
  shows "place_of key k xs = Nowhere \<Longrightarrow> xs = []"
    and "place_of key k xs = At b \<Longrightarrow> key b = k \<and> b \<in> set xs"
    and "place_of key k xs = Before b \<Longrightarrow> k < key b \<and> b \<in> set xs \<and> k \<notin> key ` set xs \<and> list_insert_before b e xs = ins_key key k e xs"
    and "place_of key k xs = After b \<Longrightarrow> k \<notin> key ` set xs \<and> list_insert_after b e xs = ins_key key k e xs"
proof -
  note s = key_sorted_split [where k = k, OF assms]
  show "xs = []" if "place_of key k xs = Nowhere" using that by (auto simp: place_of_def split: if_splits list.splits)
  show "key b = k \<and> b \<in> set xs" if "place_of key k xs = At b"
    using that set_dropWhileD [of b "\<lambda>e. key e < k" xs] by (auto simp: place_of_def split: if_splits list.splits)
  show "k < key b \<and> b \<in> set xs \<and> k \<notin> key ` set xs \<and> list_insert_before b e xs = ins_key key k e xs" if p: "place_of key k xs = Before b"
  proof -
    obtain zs where d: "dropWhile (\<lambda>x. key x < k) xs = b # zs" "key b \<noteq> k" using p by (auto simp: place_of_def split: if_splits list.splits)
    have kb: "k < key b" using s(4) [of b] d by auto
    have gt: "k < key x" if "x \<in> set (b # zs)" for x using that kb s(2) d(1) by (auto simp: key_sorted_def)
    have xs: "xs = takeWhile (\<lambda>x. key x < k) xs @ b # zs" using takeWhile_dropWhile_id [of "\<lambda>x. key x < k" xs] d(1) by simp
    have nb: "\<forall>x \<in> set (takeWhile (\<lambda>x. key x < k) xs). x \<noteq> b" using s(3) kb by fastforce
    have "takeWhile (\<lambda>x. x \<noteq> b) xs = takeWhile (\<lambda>x. key x < k) xs" "dropWhile (\<lambda>x. x \<noteq> b) xs = b # zs"
      using nb by (subst xs, subst takeWhile_append2 dropWhile_append2, simp_all)+
    then have "list_insert_before b e xs = ins_key key k e xs" by (simp add: list_insert_before_def ins_key_def d(1))
    moreover have "key x \<noteq> k" if "x \<in> set xs" for x
      using that s(3) [of x] gt [of x] unfolding arg_cong [OF xs, of set] by auto
    moreover have "b \<in> set xs" by (subst xs) simp
    ultimately show ?thesis using kb by blast
  qed
  show "k \<notin> key ` set xs \<and> list_insert_after b e xs = ins_key key k e xs" if p: "place_of key k xs = After b"
  proof -
    have d: "dropWhile (\<lambda>x. key x < k) xs = []" "b = last xs" "xs \<noteq> []" using p by (auto simp: place_of_def split: if_splits list.splits)
    then have lt: "\<forall>x \<in> set xs. key x < k" by (simp add: dropWhile_eq_Nil_conv)
    have xs: "xs = butlast xs @ [b]" using d(2,3) by simp
    have "b \<notin> set (butlast xs)" using key_sorted_distinct [OF assms] xs by (metis distinct_append disjoint_insert(1) list.simps(15) inf_commute)
    then have "takeWhile (\<lambda>x. x \<noteq> b) xs = butlast xs" "dropWhile (\<lambda>x. x \<noteq> b) xs = [b]"
      by (subst xs, subst takeWhile_append2 dropWhile_append2, auto)+
    then have "list_insert_after b e xs = xs @ [e]" using xs by (simp add: list_insert_after_def)
    moreover have "ins_key key k e xs = xs @ [e]" using lt d(1) by (simp add: ins_key_def takeWhile_eq_all_conv [THEN iffD2])
    ultimately show ?thesis using lt by fastforce
  qed
qed

section \<open>Inserting\<close>

lemma sk_header_update [simp]:
  "get_junction (sl\<lparr>sk_header := xs\<rparr>) = get_junction sl" "has (sl\<lparr>sk_header := xs\<rparr>) = has sl" "lanes_ok (sl\<lparr>sk_header := xs\<rparr>) = lanes_ok sl"
  "counts_ok b is (sl\<lparr>sk_header := xs\<rparr>) = counts_ok b is sl" "locks_ok v (sl\<lparr>sk_header := xs\<rparr>) = locks_ok v sl"
  "path_ok lo v (sl\<lparr>sk_header := xs\<rparr>) = path_ok lo v sl" "flat (sl\<lparr>sk_header := xs\<rparr>) = flat sl"
proof -
  show g: "get_junction (sl\<lparr>sk_header := xs\<rparr>) = get_junction sl" by (simp add: fun_eq_iff get_junction_def)
  then show h: "has (sl\<lparr>sk_header := xs\<rparr>) = has sl" by (simp add: fun_eq_iff has_def)
  show "lanes_ok (sl\<lparr>sk_header := xs\<rparr>) = lanes_ok sl" by (simp add: lanes_ok_def node_ok_def jn_ok_def g h)
  show "counts_ok b is (sl\<lparr>sk_header := xs\<rparr>) = counts_ok b is sl" by (simp add: counts_ok_def g)
  show "locks_ok v (sl\<lparr>sk_header := xs\<rparr>) = locks_ok v sl" by (simp add: locks_ok_def)
  show "path_ok lo v (sl\<lparr>sk_header := xs\<rparr>) = path_ok lo v sl" by (simp add: path_ok_def h)
  show "flat (sl\<lparr>sk_header := xs\<rparr>) = flat sl" by (simp add: flat_def g)
qed

lemma found_at_flag:
  assumes "found_at r p"
  shows "sr_flags r AND SL_SEARCHRESULT_FLAG_EMPTY \<noteq> 0 \<longleftrightarrow> p = Nowhere" "sr_flags r AND SL_SEARCHRESULT_FLAG_EXACT \<noteq> 0 \<longleftrightarrow> (\<exists>b. p = At b)"
    "sr_flags r AND SL_SEARCHRESULT_FLAG_BEFORE \<noteq> 0 \<longleftrightarrow> (\<exists>b. p = Before b)" "sr_flags r AND SL_SEARCHRESULT_FLAG_AFTER \<noteq> 0 \<longleftrightarrow> (\<exists>b. p = After b)"
    "sr_flags r AND SL_SEARCHRESULT_FLAG_OK = 0" "sr_flags r AND SL_SEARCHRESULT_FLAG_ERROR = 0"
proof -
  have m: "sr_flags r AND place_mask = place_flag p" using assms by (simp add: found_at_def)
  have "sr_flags r AND x = place_flag p AND x" if "place_mask AND x = x" for x using that by (simp add: m [symmetric] and.assoc)
  then have e: "sr_flags r AND SL_SEARCHRESULT_FLAG_EMPTY = place_flag p AND SL_SEARCHRESULT_FLAG_EMPTY"
      "sr_flags r AND SL_SEARCHRESULT_FLAG_EXACT = place_flag p AND SL_SEARCHRESULT_FLAG_EXACT"
      "sr_flags r AND SL_SEARCHRESULT_FLAG_BEFORE = place_flag p AND SL_SEARCHRESULT_FLAG_BEFORE"
      "sr_flags r AND SL_SEARCHRESULT_FLAG_AFTER = place_flag p AND SL_SEARCHRESULT_FLAG_AFTER"
      "sr_flags r AND SL_SEARCHRESULT_FLAG_OK = place_flag p AND SL_SEARCHRESULT_FLAG_OK"
      "sr_flags r AND SL_SEARCHRESULT_FLAG_ERROR = place_flag p AND SL_SEARCHRESULT_FLAG_ERROR" by (simp_all add: sl_flag_defs)
  show "sr_flags r AND SL_SEARCHRESULT_FLAG_EMPTY \<noteq> 0 \<longleftrightarrow> p = Nowhere" unfolding e by (cases p) (simp_all add: sl_flag_defs)
  show "sr_flags r AND SL_SEARCHRESULT_FLAG_EXACT \<noteq> 0 \<longleftrightarrow> (\<exists>b. p = At b)" unfolding e by (cases p) (simp_all add: sl_flag_defs)
  show "sr_flags r AND SL_SEARCHRESULT_FLAG_BEFORE \<noteq> 0 \<longleftrightarrow> (\<exists>b. p = Before b)" unfolding e by (cases p) (simp_all add: sl_flag_defs)
  show "sr_flags r AND SL_SEARCHRESULT_FLAG_AFTER \<noteq> 0 \<longleftrightarrow> (\<exists>b. p = After b)" unfolding e by (cases p) (simp_all add: sl_flag_defs)
  show "sr_flags r AND SL_SEARCHRESULT_FLAG_OK = 0" unfolding e by (cases p) (simp_all add: sl_flag_defs)
  show "sr_flags r AND SL_SEARCHRESULT_FLAG_ERROR = 0" unfolding e by (cases p) (simp_all add: sl_flag_defs)
qed

lemma first_step_placed:
  assumes "lanes_ok sl"
  shows "\<exists>sl'. upd_junction 0 0 (\<lambda>jn. jn\<lparr>jn_step := 1\<rparr>) sl = Some sl' \<and> placed sl sl' None"
proof -
  have "has sl 0 0" using lanes_okD(1) [OF assms] by (auto simp: has_iff)
  then obtain jn where j: "get_junction sl 0 0 = Some jn" by (auto dest: hasE)
  then have "jn_ok sl 0 (jn\<lparr>jn_step := 1\<rparr>)" using assms by (simp add: lanes_ok_def jn_ok_def)
  then obtain sl' where u: "upd_junction 0 0 (\<lambda>jn. jn\<lparr>jn_step := 1\<rparr>) sl = Some sl'" "relinked sl sl'"
      and g: "\<forall>x j. get_junction sl' x j = (if x = 0 \<and> j = 0 then Some (jn\<lparr>jn_step := 1\<rparr>) else get_junction sl x j)"
    using upd_junction_ok [OF assms j, of "\<lambda>jn. jn\<lparr>jn_step := 1\<rparr>"] by blast
  have "flat sl'" if "flat sl" using that j g by (auto simp: flat_def split: if_splits)
  moreover have "counts_ok b is sl'" if "counts_ok b is sl" for b and "is"
    by (rule upd_counts [where f = "\<lambda>jn. jn\<lparr>jn_step := 1\<rparr>", OF j g that]) simp_all
  ultimately have "placed sl sl' None" using u(2) by (simp add: placed_def relinked_def)
  then show ?thesis using u(1) by blast
qed

lemma link_element_ok:
  fixes key :: "nat \<Rightarrow> 'k::linorder"
  assumes "lanes_ok sl" and "counts_ok b [] sl" and "b + 1 < 2 ^ 32" and "key_sorted key (sk_header sl)" and "e \<notin> set (sk_header sl)"
    and "found_at r (place_of key k (sk_header sl))" and "\<And>x. place_of key k (sk_header sl) \<noteq> At x"
  shows "\<exists>sl' ins. link_element malloc sl jn e r = Some (sl', ins, (sr_set SL_SEARCHRESULT_FLAG_OK r)\<lparr>sr_found := Some e\<rparr>) \<and>
    placed (sl\<lparr>sk_header := ins_key key k e (sk_header sl)\<rparr>) sl' (mv_dirnode ins)"
proof -
  let ?xs = "sk_header sl"
  let ?p = "place_of key k ?xs" and ?sl = "sl\<lparr>sk_header := ins_key key k e ?xs\<rparr>"
  note pc = place_of_cases [where k = k, OF assms(4)]
  note fl = found_at_flag [OF assms(6)]
  have f: "sr_found r = place_elem ?p" using assms(6) by (simp add: found_at_def)
  have pl: "\<exists>sl' ins'. place_dirnode malloc ?sl e ins = Some (sl', ins') \<and> placed ?sl sl' (mv_dirnode ins')" if "mv_dirnode ins = None" for ins
    using place_dirnode_ok [of ?sl b ins e malloc] assms(1-3) that by simp
  show ?thesis
  proof (cases ?p)
    case Nowhere
    obtain sl' where "upd_junction 0 0 (\<lambda>jn. jn\<lparr>jn_step := 1\<rparr>) ?sl = Some sl'" "placed ?sl sl' None" using first_step_placed [of ?sl] assms(1) by auto
    moreover have "e # ?xs = ins_key key k e ?xs" using pc(1) [OF Nowhere] by (simp add: ins_key_def)
    ultimately show ?thesis using fl(1) Nowhere assms(5) by (simp add: link_element_def add_element_def Let_def move_zero_def)
  next
    case (At x)
    then show ?thesis using assms(7) by blast
  next
    case (Before x)
    have i: "list_insert_before x e ?xs = ins_key key k e ?xs" using pc(3) [OF Before] by blast
    let ?ins = "move_zero\<lparr>mv_left := sr_step r, mv_right := jn_step jn - sr_step r + 1\<rparr>"
    obtain sl' ins' where "place_dirnode malloc ?sl e ?ins = Some (sl', ins')" "placed ?sl sl' (mv_dirnode ins')"
      using pl [of ?ins] by (auto simp: move_zero_def)
    then show ?thesis using fl(1,3) Before assms(5) f i by (simp add: link_element_def add_element_def Let_def)
  next
    case (After x)
    have i: "list_insert_after x e ?xs = ins_key key k e ?xs" using pc(4) [OF After] by blast
    let ?ins = "move_zero\<lparr>mv_left := sr_step r + 1, mv_right := jn_step jn - sr_step r\<rparr>"
    obtain sl' ins' where "place_dirnode malloc ?sl e ?ins = Some (sl', ins')" "placed ?sl sl' (mv_dirnode ins')"
      using pl [of ?ins] by (auto simp: move_zero_def)
    then show ?thesis using fl(1,3,4) After assms(5) f i by (simp add: link_element_def add_element_def Let_def)
  qed
qed

lemma path_ok_mono:
  assumes "path_ok lo v sl" and "\<And>d i. has sl d i \<Longrightarrow> has sl' d i"
  shows "path_ok lo v sl'"
  using assms by (simp add: path_ok_def)

text \<open>Giving the locks back, with the new dirnode joined to the lanes when there are locks at all.\<close>

lemma remove_insert:
  assumes "placed sl0 sl (mv_dirnode ins)" and "path_ok lo v sl0" and "locks_ok v sl0" and "counts_ok b [] sl0" and "vc_level v = 0"
  shows "\<exists>sl'. remove_lock_vector lo sl v correct_dirnodes_insert ins = Some sl' \<and> lanes_ok sl' \<and> unlocked sl' \<and> counts_ok (b + 1) [] sl' \<and>
    sk_header sl' = sk_header sl0 \<and> sk_ops sl' = sk_ops sl0 \<and> (lo = Lockops_nolock \<and> flat sl0 \<longrightarrow> flat sl')"
proof -
  have q: "lanes_ok sl" "counts_ok b [] sl" "locks_ok v sl" "path_ok lo v sl" "sk_header sl = sk_header sl0" "sk_ops sl = sk_ops sl0"
    using assms path_ok_mono [OF assms(2), of sl] unfolding placed_def by blast+
  note o = path_okD [OF q(4)]
  show ?thesis
  proof (cases lo)
    case Lockops_nolock
    have "unlocked sl" using unlocked_iff [of v sl] o(5) [OF Lockops_nolock] q(3) by blast
    moreover have "counts_ok (b + 1) [] sl" using q(2) by (fastforce simp: counts_ok_def)
    ultimately show ?thesis using Lockops_nolock q assms(1) by (simp add: remove_lock_vector_def placed_def)
  next
    case Lockops_default
    let ?ls = "[0..<vc_maxlevel v + 1]"
    have c: "counts_ok (b + 1) ?ls sl"
      unfolding counts_ok_def
    proof (intro allI impI)
      fix i jn assume "get_junction sl 0 i = Some jn"
      then have "unat (jn_count jn) \<le> b" using q(2) by (simp add: counts_ok_def)
      then show "unat (jn_count jn) + of_bool (i \<in> set ?ls) \<le> b + 1" by (simp split: if_split)
    qed
    have n: "d \<noteq> 0 \<and> has sl d 0" if "mv_dirnode ins = Some d" for d using assms(1) that by (simp add: placed_def)
    have h: "has sl 0 i" if "i \<le> vc_maxlevel v" for i using has_less [OF o(6) that] .
    have t: "insert_todo (b + 1) v sl ?ls sl ins"
      unfolding insert_todo_def using q(1) c n h o(2,3) by (simp add: less_Suc_eq_le)
    have "\<exists>sl' move'. remove_lock_vector Lockops_default sl v correct_dirnodes_insert ins = Some sl' \<and> insert_todo (b + 1) v sl [] sl' move' \<and> unlocked sl'"
    proof (rule remove_lock_vector_ok [where Q = "insert_todo (b + 1) v sl"])
      show "path_ok Lockops_default v sl" using q(4) Lockops_default by simp
      show "insert_todo (b + 1) v sl is sl2 move" if "strip sl2 = strip sl1" "insert_todo (b + 1) v sl is sl1 move" for "is" sl1 sl2 move
        using that(2) unfolding insert_todo_def strip_transfer [OF that(1)] .
    qed (use q(3) assms(5) t correct_insert_ok in blast)+
    then show ?thesis using Lockops_default q(5,6) by (auto simp: insert_todo_def)
  qed
qed

text \<open>What an insertion promises: \<open>new\<close> is what the caller gives for the element, \<open>xs\<close> and \<open>xs'\<close> are the lists before and after it.\<close>

definition insert_spec :: "(nat \<Rightarrow> 'k::linorder) \<Rightarrow> 'k \<Rightarrow> nat option \<Rightarrow> nat list \<Rightarrow> nat list \<Rightarrow> 'b sl_searchresult_s \<Rightarrow> bool" where
  "insert_spec key k new xs xs' r \<longleftrightarrow> (case place_of key k xs of
     At x \<Rightarrow> xs' = xs \<and> found_at r (At x)
   | _ \<Rightarrow> (case new of
       None \<Rightarrow> xs' = xs \<and> sr_flags r AND SL_SEARCHRESULT_FLAG_ERROR \<noteq> 0
     | Some e \<Rightarrow> xs' = ins_key key k e xs \<and> sr_found r = Some e \<and> sr_flags r AND SL_SEARCHRESULT_FLAG_OK \<noteq> 0 \<and>
         sr_flags r AND SL_SEARCHRESULT_FLAG_EXACT = 0))"

lemma insert_spec_cases:
  "place_of key k xs = At x \<Longrightarrow> insert_spec key k new xs xs' r \<longleftrightarrow> xs' = xs \<and> found_at r (At x)"
  "(\<And>x. place_of key k xs \<noteq> At x) \<Longrightarrow> insert_spec key k None xs xs' r \<longleftrightarrow> xs' = xs \<and> sr_flags r AND SL_SEARCHRESULT_FLAG_ERROR \<noteq> 0"
  "(\<And>x. place_of key k xs \<noteq> At x) \<Longrightarrow> insert_spec key k (Some e) xs xs' r \<longleftrightarrow>
    xs' = ins_key key k e xs \<and> sr_found r = Some e \<and> sr_flags r AND SL_SEARCHRESULT_FLAG_OK \<noteq> 0 \<and> sr_flags r AND SL_SEARCHRESULT_FLAG_EXACT = 0"
  by (auto simp: insert_spec_def split: sl_place.split)

lemma place_At_iff: "key_sorted key xs \<Longrightarrow> (\<exists>x. place_of key k xs = At x) \<longleftrightarrow> k \<in> key ` set xs"
  using place_of_cases [of key xs k] by (cases "place_of key k xs") force+

lemma sr_set_flag: "x \<noteq> 0 \<Longrightarrow> sr_flags (sr_set x r) AND x \<noteq> 0"
  by (simp add: sr_set_def bit.conj_disj_distrib2)

lemma sl_insert_cb_ok:
  fixes key :: "nat \<Rightarrow> 'k::linorder"
  assumes "sl_ok key sl" and "searched key (lk b) lo sl r0 sl1 v r" and "sr_lookupdata r = b" and "length (sk_header sl) + 1 < 2 ^ 32"
    and "\<And>e. op_get_list_element (sk_ops sl) b = Some e \<Longrightarrow> key e = lk b"
  shows "\<exists>sl' r'. sl_insert_cb malloc lo sl1 v r = Some (sl', r') \<and> sl_ok key sl' \<and> sk_ops sl' = sk_ops sl \<and>
    insert_spec key (lk b) (op_get_list_element (sk_ops sl) b) (sk_header sl) (sk_header sl') r' \<and> (lo = Lockops_nolock \<and> flat sl \<longrightarrow> flat sl')"
proof -
  let ?xs = "sk_header sl" and ?k = "lk b" and ?new = "op_get_list_element (sk_ops sl) b"
  let ?p = "place_of key ?k ?xs"
  have s: "strip sl1 = strip sl" "locks_ok v sl1" "path_ok lo v sl1" "vc_level v = 0" "found_at r ?p" using assms(2) by (simp_all add: searched_def)
  have ok: "lanes_ok sl" "unlocked sl" "key_sorted key ?xs" "counts_ok (length ?xs) [] sl" using assms(1) by (simp_all add: sl_ok_def)
  note t = strip_transfer [OF s(1)]
  have restore: "\<exists>sl'. remove_lock_vector lo sl1 w correct_dirnodes_ignore move_zero = Some sl' \<and> sl' = sl" if w: "same_path v w" for w
  proof -
    obtain sl' where "remove_lock_vector lo sl1 w correct_dirnodes_ignore move_zero = Some sl'" "strip sl' = strip sl1" "unlocked sl'"
      using remove_nothing [of lo w sl1 move_zero] s(2-4) same_pathD(4) [OF w] unfolding same_path_ok [OF w] by auto
    then show ?thesis using strip_unlocked_eq [of sl' sl] ok(2) s(1) by simp
  qed
  show ?thesis
  proof (cases "\<exists>x. ?p = At x")
    case True
    then obtain x where x: "?p = At x" by blast
    have e: "sr_flags r AND SL_SEARCHRESULT_FLAG_EXACT \<noteq> 0" using found_at_flag(2) [OF s(5)] x by simp
    have "same_path v v" by (simp add: same_path_def)
    then have "sl_insert_cb malloc lo sl1 v r = Some (sl, r)" using e restore by (auto simp: sl_insert_cb_def Let_def)
    then show ?thesis using assms(1) s(5) x by (simp add: insert_spec_cases(1) [OF x])
  next
    case False
    then have e: "\<not> sr_flags r AND SL_SEARCHRESULT_FLAG_EXACT \<noteq> 0" and np: "\<And>x. ?p \<noteq> At x" using found_at_flag(2) [OF s(5)] by auto
    obtain w where w: "upgrade_readlock_vector lo sl1 v False = Some (0, sl1, w)" "same_path v w" using upgrade_ok [OF s(3,2)] by blast
    show ?thesis
    proof (cases ?new)
      case None
      let ?r = "sr_set SL_SEARCHRESULT_FLAG_ERROR r"
      have "sl_insert_cb malloc lo sl1 v r = Some (sl, ?r)" using e w restore [OF w(2)] None assms(3) by (auto simp: sl_insert_cb_def Let_def t(6))
      moreover have "sr_flags ?r AND SL_SEARCHRESULT_FLAG_ERROR \<noteq> 0" by (rule sr_set_flag) (simp add: sl_flag_defs)
      ultimately show ?thesis using assms(1) None by (simp add: insert_spec_cases(2) [OF np])
    next
      case (Some x)
      have kx: "key x = ?k" using assms(5) Some by blast
      have nk: "?k \<notin> key ` set ?xs" using place_At_iff [OF ok(3), of ?k] False by blast
      then have xn: "x \<notin> set ?xs" using kx by (metis image_eqI)
      let ?sl = "sl1\<lparr>sk_header := ins_key key ?k x ?xs\<rparr>" and ?r = "(sr_set SL_SEARCHRESULT_FLAG_OK r)\<lparr>sr_found := Some x\<rparr>"
      have wo: "path_ok lo w sl1" "locks_ok w sl1" "vc_level w = 0" using same_pathD(4) [OF w(2)] s(2-4) unfolding same_path_ok [OF w(2)] by simp_all
      obtain jn where jn: "get_junction sl1 (pt_dirnode (vc_path w ! 0)) 0 = Some jn" using path_okD(3) [OF wo(1), of 0] by (auto dest: hasE)
      obtain sl2 ins where 2: "link_element malloc sl1 jn x r = Some (sl2, ins, ?r)" "placed ?sl sl2 (mv_dirnode ins)"
        using link_element_ok [of sl1 "length ?xs" key x r ?k malloc jn] ok xn s(5) np assms(4) by (auto simp: t)
      obtain sl3 where 3: "remove_lock_vector lo sl2 w correct_dirnodes_insert ins = Some sl3" "lanes_ok sl3" "unlocked sl3"
          "counts_ok (length ?xs + 1) [] sl3" "sk_header sl3 = ins_key key ?k x ?xs" "sk_ops sl3 = sk_ops sl" "lo = Lockops_nolock \<and> flat sl1 \<longrightarrow> flat sl3"
        using remove_insert [OF 2(2), of lo w "length ?xs"] wo ok(4) by (auto simp: t)
      have "get_path w 0 = Some (vc_path w ! 0)" using path_okD(2) [OF wo(1)] by (simp add: get_path_def)
      then have "sl_insert_cb malloc lo sl1 v r = Some (sl3, ?r)" using e w(1) Some assms(3) jn 2(1) 3(1) by (simp add: sl_insert_cb_def Let_def t(6))
      moreover have "sl_ok key sl3" using 3 ins_key_sorted [OF ok(3) kx nk] by (simp add: sl_ok_def)
      moreover have "sr_flags ?r AND SL_SEARCHRESULT_FLAG_OK \<noteq> 0" using sr_set_flag [of SL_SEARCHRESULT_FLAG_OK r] by (simp add: sl_flag_defs)
      moreover have "sr_flags ?r AND SL_SEARCHRESULT_FLAG_EXACT = 0" using e by (simp add: sr_set_def sl_flag_defs bit.conj_disj_distrib2)
      moreover have "flat sl1 = flat sl" by (simp only: flat_def t)
      ultimately show ?thesis using 3(5-7) Some by (simp add: insert_spec_cases(3) [OF np])
    qed
  qed
qed

text \<open>The search and what is done with its result, for every operation.\<close>

lemma sl_find_generic_ok:
  fixes key :: "nat \<Rightarrow> 'k::linorder"
  assumes "sl_ok key sl" and "cmp_ok (sk_ops sl) key lk" and "length (sk_header sl) < 2 ^ 32" and "f \<in> {0, SL_SEARCHRESULT_FLAG_EXCLUSIVE}"
    and "\<forall>n. malloc (Alloc_vector n)"
    and "\<And>sl1 v r. searched key (lk b) lo sl (init_sl_searchresult b f) sl1 v r \<Longrightarrow> P (cb lo sl1 v r)"
  shows "P (sl_find_generic malloc lo cb sl (init_sl_searchresult b f))"
proof -
  obtain dn where dn: "sk_dirnodes sl 0 = Some dn" using assms(1) by (auto simp: sl_ok_def lanes_ok_def)
  obtain v where v: "create_vector_path malloc (dn_level dn + 1) 0 = Some v" using assms(5) by (simp add: create_vector_path_def)
  obtain sl1 w r where "sl_search lo sl v (init_sl_searchresult b f) = Some (sl1, w, r)" "searched key (lk b) lo sl (init_sl_searchresult b f) sl1 w r"
    using sl_search_ok [OF assms(1,2) dn v assms(3) refl assms(4)] by blast
  then show ?thesis using dn v assms(6) by (simp add: sl_find_generic_def)
qed

lemma searched_lookup: "searched key k lo sl (init_sl_searchresult b f) sl1 v r \<Longrightarrow> sr_lookupdata r = b"
  by (simp add: searched_def init_sl_searchresult_def)

lemma sl_insert_ok:
  fixes key :: "nat \<Rightarrow> 'k::linorder"
  assumes "sl_ok key sl" and "cmp_ok (sk_ops sl) key lk" and "length (sk_header sl) + 1 < 2 ^ 32" and "f \<in> {0, SL_SEARCHRESULT_FLAG_EXCLUSIVE}"
    and "\<forall>n. malloc (Alloc_vector n)" and "\<forall>e. op_get_list_element (sk_ops sl) b = Some e \<longrightarrow> key e = lk b"
  shows "\<exists>sl' r. sl_insert malloc sl (init_sl_searchresult b f) = Some (sl', r) \<and> sl_ok key sl' \<and> sk_ops sl' = sk_ops sl \<and>
    insert_spec key (lk b) (op_get_list_element (sk_ops sl) b) (sk_header sl) (sk_header sl') r \<and>
    (f = SL_SEARCHRESULT_FLAG_EXCLUSIVE \<and> flat sl \<longrightarrow> flat sl')"
proof -
  have n: "length (sk_header sl) < 2 ^ 32" using assms(3) by simp
  let ?lo = "lockops_of (init_sl_searchresult b f)"
  have lo: "?lo = Lockops_nolock" if "f = SL_SEARCHRESULT_FLAG_EXCLUSIVE"
    using that by (simp add: lockops_of_def init_sl_searchresult_def sl_flag_defs)
  show ?thesis unfolding sl_insert_def
  proof (rule sl_find_generic_ok [OF assms(1,2) n assms(4,5)])
    fix sl1 v r assume s: "searched key (lk b) ?lo sl (init_sl_searchresult b f) sl1 v r"
    obtain sl' r' where "sl_insert_cb malloc ?lo sl1 v r = Some (sl', r')" "sl_ok key sl'" "sk_ops sl' = sk_ops sl"
        "insert_spec key (lk b) (op_get_list_element (sk_ops sl) b) (sk_header sl) (sk_header sl') r'" "?lo = Lockops_nolock \<and> flat sl \<longrightarrow> flat sl'"
      using sl_insert_cb_ok [where malloc = malloc and lk = lk and b = b, OF assms(1) s searched_lookup [OF s] assms(3)] assms(6) by blast
    then show "\<exists>sl' r'. sl_insert_cb malloc ?lo sl1 v r = Some (sl', r') \<and> sl_ok key sl' \<and> sk_ops sl' = sk_ops sl \<and>
        insert_spec key (lk b) (op_get_list_element (sk_ops sl) b) (sk_header sl) (sk_header sl') r' \<and>
        (f = SL_SEARCHRESULT_FLAG_EXCLUSIVE \<and> flat sl \<longrightarrow> flat sl')"
      using lo by blast
  qed
qed

text \<open>
  C15: inserting is right, with and without locks: in a well-formed skip list, whatever its lanes contain and whether or not there is memory
  for a new dirnode, \<open>sl_insert\<close> ends, puts the element of the caller at its place among the sorted elements when its key is not there yet,
  changes nothing when it is or when the caller has no element, says which of these it was, and leaves a well-formed skip list without locks.
\<close>

theorem sl_insert_correct:
  fixes key :: "nat \<Rightarrow> 'k::linorder"
  assumes "sl_ok key sl" and "cmp_ok (sk_ops sl) key lk" and "length (sk_header sl) + 1 < 2 ^ 32" and "f \<in> {0, SL_SEARCHRESULT_FLAG_EXCLUSIVE}"
    and "\<forall>n. malloc (Alloc_vector n)" and "\<forall>e. op_get_list_element (sk_ops sl) b = Some e \<longrightarrow> key e = lk b"
  shows "\<exists>sl' r. sl_insert malloc sl (init_sl_searchresult b f) = Some (sl', r) \<and> sl_ok key sl' \<and>
    insert_spec key (lk b) (op_get_list_element (sk_ops sl) b) (sk_header sl) (sk_header sl') r"
  using sl_insert_ok [OF assms] by blast

theorem sl_insert_correct_witness:
  "sl_ok id (sl_example [3, 7]) \<and> (\<exists>sl' r. sl_insert (\<lambda>_. True) (sl_example [3, 7]) (init_sl_searchresult 5 0) = Some (sl', r) \<and>
    sl_ok id sl' \<and> sk_header sl' = [3, 5, 7])"
proof -
  have ok: "sl_ok id (sl_example [3, 7])" using sl_example_ok [of "[3, 7]"] by (simp add: key_sorted_def)
  have h: "sk_header (sl_example [3, 7]) = [3, 7]" "op_get_list_element (sk_ops (sl_example [3, 7])) 5 = Some 5" by (simp_all add: sl_example_def)
  have p: "place_of id (id 5) [3, 7] = Before 7" "ins_key id (id 5) 5 [3, 7] = [3, 5, 7]" by (simp_all add: place_of_def ins_key_def)
  show ?thesis using sl_insert_correct [OF ok sl_example_cmp, of 0 "\<lambda>_. True" 5] ok p by (auto simp: h insert_spec_def)
qed

end
