(* ===== verification/Skip_List_Table.thy ===== *)
theory Skip_List_Table
  imports Skip_List_Insert
begin

text \<open>
  The skip list as its callers use it: with exclusive access. A new skip list is well-formed, deleting takes the element out, and any
  sequence of operations behaves as on a set of keys.
\<close>

section \<open>A new skip list\<close>

lemma scast_small:
  assumes "unat (x :: u32) < 2 ^ 31"
  shows "(scast x :: u64) = ucast x"
proof -
  have "nat (uint x) < 2 ^ 31" using assms by (simp only: unat_eq_nat_uint)
  then have "uint x < 2 ^ 31" using uint_ge_0 [of x] by (simp only: nat_less_iff of_nat_power of_nat_numeral)
  then have "sint x = uint x" unfolding sint_uint by (intro signed_take_bit_int_eq_self) (simp_all add: order_trans [OF _ uint_ge_0])
  then show ?thesis by (simp only: scast_eq ucast_eq)
qed

text \<open>The number of lanes survives the computation of the size and back, as long as it fits with the extra one into a byte.\<close>

lemma size_lanes:
  assumes "unat sizeof_sl < 65536" and "maxlanes \<noteq> 255" and "get_size_sl_skiplist sizeof_sl maxlanes = (siz, n)"
  shows "n \<noteq> 0" and "unat n < 255" and "calc_nrlanes_from_size sizeof_sl siz = n"
    and "unat (ucast (ucast (siz - sizeof_sl) div SIZEOF_JUNCTION :: u64) :: u16) = unat n + 1"
    and "unat siz = unat sizeof_sl + (unat n + 1) * 32"
proof -
  have n: "n = (if maxlanes = 0 then SKIPLIST_MAXLANES else maxlanes)" and siz: "siz = sizeof_sl + (ucast n + 1) * ucast SIZEOF_JUNCTION"
    using assms(3) by (auto simp: get_size_sl_skiplist_def Let_def)
  show n0: "n \<noteq> 0" using n by (simp add: SKIPLIST_MAXLANES_def)
  have "n \<noteq> 255" using assms(2) n by (simp add: SKIPLIST_MAXLANES_def)
  then have "unat n \<noteq> unat (255 :: u8)" by (simp only: word_unat_eq_iff simp_thms)
  then have "unat n \<noteq> 255" by simp
  moreover have "unat n < 256" using unsigned_less [of n] by simp
  ultimately show nb: "unat n < 255" by simp
  have d: "siz - sizeof_sl = (ucast n + 1) * 32" by (simp add: siz SIZEOF_JUNCTION_def)
  have u: "unat (siz - sizeof_sl) = (unat n + 1) * 32"
    unfolding d using nb by (simp add: unat_word_ariths unsigned_ucast_eq take_bit_nat_eq_self)
  show us: "unat siz = unat sizeof_sl + (unat n + 1) * 32"
    using unat_u32_plus [of sizeof_sl "siz - sizeof_sl"] u assms(1) nb by simp
  have q: "unat (ucast (siz - sizeof_sl) div SIZEOF_JUNCTION :: u64) = unat n + 1"
    by (simp add: unat_div unat_ucast_u64 u SIZEOF_JUNCTION_def del: add_is_1)
  show "unat (ucast (ucast (siz - sizeof_sl) div SIZEOF_JUNCTION :: u64) :: u16) = unat n + 1"
    using nb by (simp add: unsigned_ucast_eq q take_bit_nat_eq_self)
  have "scast siz = (ucast siz :: u64)" "scast (siz - sizeof_sl) = (ucast (siz - sizeof_sl) :: u64)"
    using us u assms(1) nb by (simp_all add: scast_small)
  moreover have "\<not> (ucast siz :: u64) \<le> ucast sizeof_sl" using us by (simp add: word_le_nat_alt unat_ucast_u64)
  moreover have l: "ucast (ucast (siz - sizeof_sl) div SIZEOF_JUNCTION :: u64) = n + 1"
  proof (rule word_unat_eq_iff [THEN iffD2])
    have "unat (n + 1) = unat n + 1" using nb by (simp add: unat_word_ariths(1))
    then show "unat (ucast (ucast (siz - sizeof_sl) div SIZEOF_JUNCTION :: u64) :: u8) = unat (n + 1)"
      using nb by (simp add: unsigned_ucast_eq q take_bit_nat_eq_self)
  qed
  moreover have "\<not> n + 1 \<le> 1"
  proof -
    have "unat (n + 1) = unat n + 1" using nb by (simp add: unat_word_ariths(1))
    then show ?thesis using n0 by (simp add: word_le_nat_alt unat_gt_0)
  qed
  ultimately show "calc_nrlanes_from_size sizeof_sl siz = n" by (simp add: calc_nrlanes_from_size_def Let_def)
qed

text \<open>What \<open>create_sl_skiplist\<close> and \<open>init_sl_skiplist\<close> make of a size that \<open>get_size_sl_skiplist\<close> has computed.\<close>

lemma start_skiplist_ok:
  assumes "unat sizeof_sl < 65536" and "maxlanes \<noteq> 255" and "get_size_sl_skiplist sizeof_sl maxlanes = (siz, n)"
    and "sl = start_skiplist sizeof_sl n prob siz base"
  shows "\<exists>sl'. init_sl_skiplist (Some ops) sl = Some (0, sl') \<and> sl_ok key sl' \<and> flat sl' \<and> sk_header sl' = [] \<and> sk_ops sl' = ops"
proof -
  note l = size_lanes [OF assms(1-3)]
  have n: "0 < unat n" using l(1) by (simp add: unat_gt_0)
  have "unat (ucast n - 1 :: u16) = unat n - 1"
  proof -
    have "unat (ucast n :: u16) = unat n" using l(2) by (simp add: unsigned_ucast_eq take_bit_nat_eq_self)
    then show ?thesis using n by (simp add: unat_sub_if_size)
  qed
  then have m: "sk_maxlevel sl + 2 = unat n + 1" using n by (simp add: assms(4) start_skiplist_def)
  let ?dn = "\<lparr>dn_list = None, dn_flags = DIRNODE_FLAG_START, dn_lock = 0, dn_lockers = 0, dn_level = 0, dn_compare = Compare_ops,
    dn_junction = replicate (sk_maxlevel sl + 2) start_junction\<rparr>"
  have d: "sk_dirnodes sl = [0 \<mapsto> ?dn]"
    unfolding m by (simp add: assms(4) start_skiplist_def init_sl_dirnode_def dirnode_zero_def l(4) [unfolded One_nat_def] del: replicate_Suc)
  let ?sl = "sl\<lparr>sk_ops := ops, sk_dirnodes := [0 \<mapsto> ?dn\<lparr>dn_compare := Compare_end\<rparr>]\<rparr>"
  have i: "init_sl_skiplist (Some ops) sl = Some (0, ?sl)"
    by (simp add: init_sl_skiplist_def d upd_dirnode_def DIRNODE_FLAG_START_def start_junction_def del: replicate_Suc)
  have "sl_ok key ?sl \<and> flat ?sl"
    by (rule flat_empty_lanes [where dn = "?dn\<lparr>dn_compare := Compare_end\<rparr>"])
      (simp_all add: DIRNODE_FLAG_START_def assms(4) start_skiplist_def key_sorted_def)
  then show ?thesis using i by (simp add: assms(4) start_skiplist_def)
qed

lemma new_skiplist_ok:
  assumes "unat sizeof_sl < 65536" and "maxlanes \<noteq> 255" and "get_size_sl_skiplist sizeof_sl maxlanes = (siz, n)"
  shows "\<exists>sl sl'. create_sl_skiplist True sizeof_sl fresh_sl None prob siz = Some sl \<and> init_sl_skiplist (Some ops) sl = Some (0, sl') \<and>
    sl_ok key sl' \<and> flat sl' \<and> sk_header sl' = [] \<and> sk_ops sl' = ops"
proof -
  note l = size_lanes [OF assms]
  have "create_sl_skiplist True sizeof_sl fresh_sl None prob siz =
      Some (start_skiplist sizeof_sl n (if prob = 0 then SKIPLIST_PROB else ucast prob) siz (fresh_sl\<lparr>sk_flags := SKIPLIST_FLAG_ALLOC, sk_size := siz\<rparr>))"
    using l(1,3) by (simp add: create_sl_skiplist_def Let_def)
  then show ?thesis using start_skiplist_ok [OF assms refl] by blast
qed

text \<open>The same in memory of the caller that has been cleared.\<close>

lemma placed_skiplist_ok:
  assumes "unat sizeof_sl < 65536" and "maxlanes \<noteq> 255" and "get_size_sl_skiplist sizeof_sl maxlanes = (siz, n)" and "sk_size sl0 = 0"
  shows "\<exists>sl sl'. create_sl_skiplist malloc sizeof_sl fresh_sl (Some sl0) prob siz = Some sl \<and> init_sl_skiplist (Some ops) sl = Some (0, sl') \<and>
    sl_ok key sl' \<and> flat sl' \<and> sk_header sl' = [] \<and> sk_ops sl' = ops"
proof -
  note l = size_lanes [OF assms(1-3)]
  have "create_sl_skiplist malloc sizeof_sl fresh_sl (Some sl0) prob siz =
      Some (start_skiplist sizeof_sl n (if prob = 0 then SKIPLIST_PROB else ucast prob) siz (sl0\<lparr>sk_size := siz\<rparr>))"
  proof (cases "siz = 0")
    case True
    then have "(scast siz :: u64) \<le> ucast sizeof_sl" by simp
    then have "calc_nrlanes_from_size sizeof_sl siz = 0" by (simp add: calc_nrlanes_from_size_def)
    then show ?thesis using l(1,3) by simp
  next
    case False
    then show ?thesis using l(1,3) assms(4) by (simp add: create_sl_skiplist_def Let_def word_gt_0)
  qed
  then show ?thesis using start_skiplist_ok [OF assms(1-3) refl] by blast
qed

section \<open>Deleting\<close>

text \<open>With exclusive access to lanes without dirnodes only the list changes.\<close>

lemma delete_between_flat:
  assumes "lanes_ok sl" and "flat sl"
  shows "delete_between sl 0 e = Some (sl, move_zero\<lparr>mv_list := Some e\<rparr>)"
proof -
  obtain dn where dn: "sk_dirnodes sl 0 = Some dn" "dn_flags dn AND DIRNODE_FLAG_START \<noteq> 0" "length (dn_junction dn) = sk_maxlevel sl + 2"
    using lanes_okD(1) [OF assms(1)] by blast
  have j: "get_junction sl 0 0 = Some (dn_junction dn ! 0)" using dn(1,3) by (cases "dn_junction dn") (simp_all add: get_junction_def)
  then have "jn_n (dn_junction dn ! 0) = 0" using assms(2) by (simp add: flat_def)
  then show ?thesis using dn(1,2) j by (simp add: delete_between_def Let_def)
qed

lemma flat_counts: "flat sl \<Longrightarrow> counts_ok b [] sl"
  by (simp add: flat_def counts_ok_def)

definition delete_spec :: "(nat \<Rightarrow> 'k::linorder) \<Rightarrow> 'k \<Rightarrow> nat list \<Rightarrow> nat list \<Rightarrow> 'b sl_searchresult_s \<Rightarrow> bool" where
  "delete_spec key k xs xs' r \<longleftrightarrow> xs' = filter (\<lambda>x. key x \<noteq> k) xs \<and> (sr_flags r AND SL_SEARCHRESULT_FLAG_EXACT \<noteq> 0 \<longleftrightarrow> k \<in> key ` set xs)"

lemma remove1_key:
  assumes "key_sorted key xs" and "e \<in> set xs"
  shows "remove1 e xs = filter (\<lambda>x. key x \<noteq> key e) xs"
proof -
  have "key x \<noteq> key e" if "x \<in> set xs" "x \<noteq> e" for x
    using that assms sorted_wrt_iff_nth_less [of "\<lambda>a b. key a < key b" xs] unfolding key_sorted_def in_set_conv_nth
    by (metis less_irrefl linorder_neqE_nat)
  then have "filter (\<lambda>x. key x \<noteq> key e) xs = filter (\<lambda>x. x \<noteq> e) xs" by (intro filter_cong) auto
  then show ?thesis using distinct_remove1_removeAll [OF key_sorted_distinct [OF assms(1)], of e] by (simp add: removeAll_filter_not_eq eq_commute)
qed

lemma sl_delete_ok:
  fixes key :: "nat \<Rightarrow> 'k::linorder"
  assumes "sl_ok key sl" and "cmp_ok (sk_ops sl) key lk" and "length (sk_header sl) < 2 ^ 32" and "\<forall>n. malloc (Alloc_vector n)" and "flat sl"
  shows "\<exists>sl' r. sl_delete malloc sl (init_sl_searchresult b SL_SEARCHRESULT_FLAG_EXCLUSIVE) = Some (sl', r) \<and> sl_ok key sl' \<and> flat sl' \<and>
    sk_ops sl' = sk_ops sl \<and> delete_spec key (lk b) (sk_header sl) (sk_header sl') r"
proof -
  let ?r = "init_sl_searchresult b SL_SEARCHRESULT_FLAG_EXCLUSIVE" and ?xs = "sk_header sl" and ?k = "lk b"
  have ok: "lanes_ok sl" "unlocked sl" "key_sorted key ?xs" "counts_ok (length ?xs) [] sl" using assms(1) by (simp_all add: sl_ok_def)
  have lo: "lockops_of ?r = Lockops_nolock" by (simp add: lockops_of_def init_sl_searchresult_def sl_flag_defs)
  show ?thesis
    unfolding sl_delete_def lo
  proof (rule sl_find_generic_ok [OF assms(1-3) _ assms(4)])
    fix sl1 v r assume "searched key ?k Lockops_nolock sl ?r sl1 v r"
    then have s: "strip sl1 = strip sl" "locks_ok v sl1" "path_ok Lockops_nolock v sl1" "found_at r (place_of key ?k ?xs)"
        "pt_dirnode (vc_path v ! 0) = 0" "sr_flags r AND SL_SEARCHRESULT_FLAG_DIRNODE = 0" using assms(5) by (simp_all add: searched_def)
    have "unlocked sl1" using unlocked_iff [of v sl1] path_okD(5) [OF s(3)] s(2) by auto
    then have e: "sl1 = sl" using strip_unlocked_eq [OF s(1) ok(2)] by simp
    have g: "get_path v 0 = Some (vc_path v ! 0)" using path_okD(2) [OF s(3)] by (simp add: get_path_def)
    have iff: "sr_flags r AND SL_SEARCHRESULT_FLAG_EXACT \<noteq> 0 \<longleftrightarrow> ?k \<in> key ` set ?xs"
      using found_at_flag(2) [OF s(4)] place_At_iff [OF ok(3), of ?k] by simp
    show "\<exists>sl' r'. sl_delete_cb Lockops_nolock sl1 v r = Some (sl', r') \<and> sl_ok key sl' \<and> flat sl' \<and> sk_ops sl' = sk_ops sl \<and>
        delete_spec key ?k ?xs (sk_header sl') r'"
    proof (cases "?k \<in> key ` set ?xs")
      case False
      then have "sl_delete_cb Lockops_nolock sl1 v r = Some (sl, r)"
        using iff g by (simp add: sl_delete_cb_def remove_lock_vector_def e Let_def)
      moreover have "filter (\<lambda>x. key x \<noteq> ?k) ?xs = ?xs" using False by (intro filter_True) (metis image_eqI)
      ultimately show ?thesis using assms(1,5) iff False by (simp add: delete_spec_def)
    next
      case True
      then obtain x where x: "place_of key ?k ?xs = At x" using place_At_iff [OF ok(3), of ?k] by blast
      then have kx: "key x = ?k" "x \<in> set ?xs" using place_of_cases(2) [OF ok(3)] by auto
      have f: "sr_found r = Some x" using s(4) x by (simp add: found_at_def)
      let ?sl = "sl\<lparr>sk_header := remove1 x ?xs\<rparr>"
      have cb: "sl_delete_cb Lockops_nolock sl1 v r = Some (?sl, sr_set SL_SEARCHRESULT_FLAG_OK r)"
        using iff True g s(5,6) f delete_between_flat [OF ok(1) assms(5)]
        by (simp add: sl_delete_cb_def upgrade_readlock_vector_def remove_lock_vector_def e Let_def)
      have rem: "remove1 x ?xs = filter (\<lambda>x. key x \<noteq> ?k) ?xs" using remove1_key [OF ok(3) kx(2)] kx(1) by simp
      have "key_sorted key (filter (\<lambda>x. key x \<noteq> ?k) ?xs)" using ok(3) by (simp add: key_sorted_def sorted_wrt_filter)
      then have "sl_ok key ?sl" using ok(1,2) flat_counts [OF assms(5)] rem by (simp add: sl_ok_def unlocked_def)
      moreover have "sr_flags (sr_set SL_SEARCHRESULT_FLAG_OK r) AND SL_SEARCHRESULT_FLAG_EXACT \<noteq> 0"
        using iff True by (simp add: sr_set_def sl_flag_defs bit.conj_disj_distrib2)
      ultimately show ?thesis using cb rem assms(5) True by (simp add: delete_spec_def)
    qed
  qed simp
qed

section \<open>A table of keys\<close>

text \<open>
  The three operations a table of keys has, and their answers: whether the key was there. \<open>ins\<close>, \<open>del\<close> and \<open>mem\<close> give the answer and the
  table afterwards.
\<close>

datatype 'q table_op = Table_find 'q | Table_insert 'q | Table_delete 'q

fun table_run :: "('q \<Rightarrow> 's \<Rightarrow> (bool \<times> 's) option) \<Rightarrow> ('q \<Rightarrow> 's \<Rightarrow> (bool \<times> 's) option) \<Rightarrow> ('q \<Rightarrow> 's \<Rightarrow> (bool \<times> 's) option) \<Rightarrow>
    'q table_op list \<Rightarrow> 's \<Rightarrow> (bool list \<times> 's) option" where
  "table_run mem ins del [] s = Some ([], s)"
| "table_run mem ins del (op # ops) s = do {
     (a, s) \<leftarrow> (case op of Table_find q \<Rightarrow> mem q s | Table_insert q \<Rightarrow> ins q s | Table_delete q \<Rightarrow> del q s);
     (as, s) \<leftarrow> table_run mem ins del ops s;
     Some (a # as, s) }"

text \<open>The same on a set of keys.\<close>

fun set_run :: "('q \<Rightarrow> 'k) \<Rightarrow> 'q table_op list \<Rightarrow> 'k set \<Rightarrow> bool list \<times> 'k set" where
  "set_run lk [] K = ([], K)"
| "set_run lk (op # ops) K =
     (let (k, K') = (case op of Table_find q \<Rightarrow> (lk q, K) | Table_insert q \<Rightarrow> (lk q, insert (lk q) K) | Table_delete q \<Rightarrow> (lk q, K - {lk q}));
          (as, K'') = set_run lk ops K' in ((k \<in> K) # as, K''))"

text \<open>What a table promises as long as there are less keys in it than \<open>bound\<close>.\<close>

locale key_table =
  fixes inv :: "'s \<Rightarrow> bool" and keys :: "'s \<Rightarrow> 'k set" and lk :: "'q \<Rightarrow> 'k" and bound :: nat
    and mem :: "'q \<Rightarrow> 's \<Rightarrow> (bool \<times> 's) option" and ins :: "'q \<Rightarrow> 's \<Rightarrow> (bool \<times> 's) option" and del :: "'q \<Rightarrow> 's \<Rightarrow> (bool \<times> 's) option"
  assumes keys_finite: "inv s \<Longrightarrow> finite (keys s)"
    and mem_law: "inv s \<Longrightarrow> card (keys s) < bound \<Longrightarrow> mem q s = Some (lk q \<in> keys s, s)"
    and ins_law: "inv s \<Longrightarrow> card (keys s) < bound \<Longrightarrow> \<exists>s'. ins q s = Some (lk q \<in> keys s, s') \<and> inv s' \<and> keys s' = insert (lk q) (keys s)"
    and del_law: "inv s \<Longrightarrow> card (keys s) < bound \<Longrightarrow> \<exists>s'. del q s = Some (lk q \<in> keys s, s') \<and> inv s' \<and> keys s' = keys s - {lk q}"
begin

lemma run_ok:
  assumes "inv s" and "card (keys s) + length ops \<le> bound"
  shows "\<exists>s'. table_run mem ins del ops s = Some (fst (set_run lk ops (keys s)), s') \<and> inv s' \<and> keys s' = snd (set_run lk ops (keys s))"
  using assms
proof (induction ops arbitrary: s)
  case (Cons op ops)
  have c: "card (keys s) < bound" using Cons.prems(2) by simp
  note f = keys_finite [OF Cons.prems(1)]
  show ?case
  proof (cases op)
    case (Table_find q)
    then show ?thesis using Cons.IH [of s] Cons.prems mem_law [OF Cons.prems(1) c, of q] by (auto simp: case_prod_beta)
  next
    case (Table_insert q)
    obtain s' where s': "ins q s = Some (lk q \<in> keys s, s')" "inv s'" "keys s' = insert (lk q) (keys s)" using ins_law [OF Cons.prems(1) c] by blast
    have "card (keys s') + length ops \<le> bound" using Cons.prems(2) card_insert_le_m1 [of "card (keys s) + 1"] f by (simp add: s'(3) card_insert_if)
    then show ?thesis using Cons.IH [OF s'(2)] Table_insert s' by (auto simp: case_prod_beta)
  next
    case (Table_delete q)
    obtain s' where s': "del q s = Some (lk q \<in> keys s, s')" "inv s'" "keys s' = keys s - {lk q}" using del_law [OF Cons.prems(1) c] by blast
    have "card (keys s') \<le> card (keys s)" using f by (simp add: s'(3) card_Diff1_le)
    then show ?thesis using Cons.IH [OF s'(2)] Cons.prems(2) Table_delete s' by (auto simp: case_prod_beta)
  qed
qed simp

end

text \<open>The skip list as such a table: as its callers use it, with exclusive access, and the answer from the flags of the result.\<close>

definition sl_answer :: "('b sl_skiplist_s \<times> 'b sl_searchresult_s) option \<Rightarrow> (bool \<times> 'b sl_skiplist_s) option" where
  "sl_answer = map_option (\<lambda>(sl, r). (sr_flags r AND SL_SEARCHRESULT_FLAG_EXACT \<noteq> 0, sl))"

definition sl_mem :: "(sl_alloc \<Rightarrow> bool) \<Rightarrow> 'b \<Rightarrow> 'b sl_skiplist_s \<Rightarrow> (bool \<times> 'b sl_skiplist_s) option" where
  "sl_mem malloc b sl = sl_answer (sl_find malloc sl (init_sl_searchresult b SL_SEARCHRESULT_FLAG_EXCLUSIVE))"

definition sl_ins :: "(sl_alloc \<Rightarrow> bool) \<Rightarrow> 'b \<Rightarrow> 'b sl_skiplist_s \<Rightarrow> (bool \<times> 'b sl_skiplist_s) option" where
  "sl_ins malloc b sl = sl_answer (sl_insert malloc sl (init_sl_searchresult b SL_SEARCHRESULT_FLAG_EXCLUSIVE))"

definition sl_del :: "(sl_alloc \<Rightarrow> bool) \<Rightarrow> 'b \<Rightarrow> 'b sl_skiplist_s \<Rightarrow> (bool \<times> 'b sl_skiplist_s) option" where
  "sl_del malloc b sl = sl_answer (sl_delete malloc sl (init_sl_searchresult b SL_SEARCHRESULT_FLAG_EXCLUSIVE))"

text \<open>The invariant, with what the functions of the caller promise: they compare keys, and have an element for every key.\<close>

definition table_ok :: "(sl_alloc \<Rightarrow> bool) \<Rightarrow> (nat \<Rightarrow> 'k::linorder) \<Rightarrow> ('b \<Rightarrow> 'k) \<Rightarrow> 'b sl_skiplist_s \<Rightarrow> bool" where
  "table_ok malloc key lk sl \<longleftrightarrow> sl_ok key sl \<and> flat sl \<and> cmp_ok (sk_ops sl) key lk \<and> (\<forall>n. malloc (Alloc_vector n)) \<and>
     (\<forall>b. \<exists>e. op_get_list_element (sk_ops sl) b = Some e \<and> key e = lk b)"

lemma sl_find_exclusive:
  fixes key :: "nat \<Rightarrow> 'k::linorder"
  assumes "sl_ok key sl" and "cmp_ok (sk_ops sl) key lk" and "length (sk_header sl) < 2 ^ 32" and "\<forall>n. malloc (Alloc_vector n)"
  shows "\<exists>r. sl_find malloc sl (init_sl_searchresult b SL_SEARCHRESULT_FLAG_EXCLUSIVE) = Some (sl, r) \<and> found_at r (place_of key (lk b) (sk_header sl))"
proof -
  let ?r = "init_sl_searchresult b SL_SEARCHRESULT_FLAG_EXCLUSIVE"
  have lo: "lockops_of ?r = Lockops_nolock" by (simp add: lockops_of_def init_sl_searchresult_def sl_flag_defs)
  show ?thesis unfolding sl_find_def lo
  proof (rule sl_find_generic_ok [OF assms(1-3) _ assms(4)])
    fix sl1 v r assume "searched key (lk b) Lockops_nolock sl ?r sl1 v r"
    then have s: "strip sl1 = strip sl" "locks_ok v sl1" "path_ok Lockops_nolock v sl1" "found_at r (place_of key (lk b) (sk_header sl))"
      by (simp_all add: searched_def)
    have "unlocked sl1" using unlocked_iff [of v sl1] path_okD(5) [OF s(3)] s(2) by auto
    then have "sl1 = sl" using strip_unlocked_eq [OF s(1)] assms(1) by (simp add: sl_ok_def)
    then show "\<exists>r'. sl_find_cb Lockops_nolock sl1 v r = Some (sl, r') \<and> found_at r' (place_of key (lk b) (sk_header sl))"
      using s(4) by (simp add: sl_find_cb_def remove_lock_vector_def)
  qed simp
qed

lemma card_keys:
  assumes "key_sorted key xs"
  shows "card (key ` set xs) = length xs"
proof -
  have "distinct (map key xs)" using assms by (induction xs) (auto simp: key_sorted_def)
  then show ?thesis using distinct_card [of "map key xs"] by simp
qed

lemma ins_answer:
  assumes "key_sorted key xs" and "insert_spec key k (Some e) xs xs' r" and "key e = k"
  shows "sr_flags r AND SL_SEARCHRESULT_FLAG_EXACT \<noteq> 0 \<longleftrightarrow> k \<in> key ` set xs" and "key ` set xs' = insert k (key ` set xs)"
proof -
  have "(sr_flags r AND SL_SEARCHRESULT_FLAG_EXACT \<noteq> 0 \<longleftrightarrow> k \<in> key ` set xs) \<and> key ` set xs' = insert k (key ` set xs)"
  proof (cases "\<exists>x. place_of key k xs = At x")
    case True
    then obtain x where x: "place_of key k xs = At x" by blast
    have "xs' = xs" "found_at r (At x)" using assms(2) by (simp_all add: insert_spec_cases(1) [OF x])
    moreover have "k \<in> key ` set xs" using place_At_iff [OF assms(1)] x by blast
    ultimately show ?thesis using found_at_flag(2) [of r "At x"] by auto
  next
    case False
    then have np: "\<And>x. place_of key k xs \<noteq> At x" by blast
    have "k \<notin> key ` set xs" using place_At_iff [OF assms(1)] False by blast
    then show ?thesis using assms(2,3) by (simp add: insert_spec_cases(3) [OF np])
  qed
  then show "sr_flags r AND SL_SEARCHRESULT_FLAG_EXACT \<noteq> 0 \<longleftrightarrow> k \<in> key ` set xs" "key ` set xs' = insert k (key ` set xs)" by simp_all
qed

lemma table_okD:
  assumes "table_ok malloc key lk sl"
  shows "sl_ok key sl" "flat sl" "cmp_ok (sk_ops sl) key lk" "\<forall>n. malloc (Alloc_vector n)" "key_sorted key (sk_header sl)"
    "\<exists>e. op_get_list_element (sk_ops sl) b = Some e \<and> key e = lk b"
  using assms by (simp_all add: table_ok_def sl_ok_def)

lemma table_ok_keep: "table_ok malloc key lk sl \<Longrightarrow> sl_ok key sl' \<Longrightarrow> flat sl' \<Longrightarrow> sk_ops sl' = sk_ops sl \<Longrightarrow> table_ok malloc key lk sl'"
  by (simp add: table_ok_def)

interpretation sl_table: key_table "table_ok malloc key lk" "\<lambda>sl. key ` set (sk_header sl)" lk "2 ^ 32 - 1" "sl_mem malloc" "sl_ins malloc" "sl_del malloc"
  for malloc and key :: "nat \<Rightarrow> 'k::linorder" and lk
proof
  fix sl :: "'a sl_skiplist_s" and b assume t: "table_ok malloc key lk sl"
  note o = table_okD [OF t]
  show "finite (key ` set (sk_header sl))" by simp
  assume "card (key ` set (sk_header sl)) < 2 ^ 32 - 1"
  then have n: "length (sk_header sl) + 1 < 2 ^ 32" "length (sk_header sl) < 2 ^ 32" using card_keys [OF o(5)] by simp_all
  show "sl_mem malloc b sl = Some (lk b \<in> key ` set (sk_header sl), sl)"
    using sl_find_exclusive [OF o(1,3) n(2) o(4), of b] found_at_flag(2) place_At_iff [OF o(5), of "lk b"] by (auto simp: sl_mem_def sl_answer_def)
  obtain e where e: "op_get_list_element (sk_ops sl) b = Some e" "key e = lk b" using o(6) by blast
  obtain sl' r where i: "sl_insert malloc sl (init_sl_searchresult b SL_SEARCHRESULT_FLAG_EXCLUSIVE) = Some (sl', r)" "sl_ok key sl'"
      "sk_ops sl' = sk_ops sl" "insert_spec key (lk b) (Some e) (sk_header sl) (sk_header sl') r" "flat sl'"
    using sl_insert_ok [OF o(1,3) n(1) _ o(4), of SL_SEARCHRESULT_FLAG_EXCLUSIVE b] e o(2) by auto
  show "\<exists>sl'. sl_ins malloc b sl = Some (lk b \<in> key ` set (sk_header sl), sl') \<and> table_ok malloc key lk sl' \<and>
      key ` set (sk_header sl') = insert (lk b) (key ` set (sk_header sl))"
    using i(1) table_ok_keep [OF t i(2,5,3)] ins_answer [OF o(5) i(4) e(2)] by (simp add: sl_ins_def sl_answer_def)
  obtain sl' r where d: "sl_delete malloc sl (init_sl_searchresult b SL_SEARCHRESULT_FLAG_EXCLUSIVE) = Some (sl', r)" "sl_ok key sl'" "flat sl'"
      "sk_ops sl' = sk_ops sl" "delete_spec key (lk b) (sk_header sl) (sk_header sl') r"
    using sl_delete_ok [OF o(1,3) n(2) o(4,2), of b] by blast
  have "key ` set (filter (\<lambda>x. key x \<noteq> lk b) (sk_header sl)) = key ` set (sk_header sl) - {lk b}" by auto
  then show "\<exists>sl'. sl_del malloc b sl = Some (lk b \<in> key ` set (sk_header sl), sl') \<and> table_ok malloc key lk sl' \<and>
      key ` set (sk_header sl') = key ` set (sk_header sl) - {lk b}"
    using d(1,5) table_ok_keep [OF t d(2-4)] by (simp add: sl_del_def sl_answer_def delete_spec_def)
qed

text \<open>
  C5: a new skip list that is used with exclusive access is a table of keys: any sequence of less than \<open>2 ^ 32 - 1\<close> calls of \<open>sl_find\<close>,
  \<open>sl_insert\<close> and \<open>sl_delete\<close> ends and answers whether the key is there as the same operations on a set of keys do, and the keys of the
  list are those of the set in the end. Memory for the path must be there, memory for dirnodes need not.
\<close>

theorem sl_runs_as_set:
  fixes key :: "nat \<Rightarrow> 'k::linorder"
  assumes "unat sizeof_sl < 65536" and "maxlanes \<noteq> 255" and "get_size_sl_skiplist sizeof_sl maxlanes = (siz, n)"
    and "create_sl_skiplist True sizeof_sl fresh_sl None prob siz = Some sl0" and "init_sl_skiplist (Some ops) sl0 = Some (0, sl)"
    and "cmp_ok ops key lk" and "\<forall>b. \<exists>e. op_get_list_element ops b = Some e \<and> key e = lk b" and "\<forall>n. malloc (Alloc_vector n)"
    and "length calls < 2 ^ 32"
  shows "\<exists>sl'. table_run (sl_mem malloc) (sl_ins malloc) (sl_del malloc) calls sl = Some (fst (set_run lk calls {}), sl') \<and>
    key ` set (sk_header sl') = snd (set_run lk calls {})"
proof -
  have s: "sl_ok key sl" "flat sl" "sk_header sl = []" "sk_ops sl = ops"
    using new_skiplist_ok [OF assms(1-3), of fresh_sl prob ops key] assms(4,5) by auto
  then have "table_ok malloc key lk sl" using assms(6-8) by (simp add: table_ok_def)
  then show ?thesis using sl_table.run_ok [of malloc key lk sl calls] s(3) assms(9) by auto
qed

theorem sl_runs_as_set_witness:
  "\<exists>sl0 sl. create_sl_skiplist True 200 (sl_example []) None 0 296 = Some sl0 \<and> init_sl_skiplist (Some (sk_ops (sl_example []))) sl0 = Some (0, sl) \<and>
    (\<exists>sl'. table_run (sl_mem (\<lambda>_. True)) (sl_ins (\<lambda>_. True)) (sl_del (\<lambda>_. True))
      [Table_insert 3, Table_insert 7, Table_find 3, Table_delete 3, Table_find 3] sl = Some ([False, False, True, True, False], sl') \<and>
      id ` set (sk_header sl') = {7})"
proof -
  have z: "unat (200 :: u32) < 65536" "(2 :: u8) \<noteq> 255" "get_size_sl_skiplist 200 2 = (296, 2)"
    by (simp_all add: get_size_sl_skiplist_def SIZEOF_JUNCTION_def)
  obtain sl0 sl where c: "create_sl_skiplist True 200 (sl_example []) None 0 296 = Some sl0"
      "init_sl_skiplist (Some (sk_ops (sl_example []))) sl0 = Some (0, sl)"
    using new_skiplist_ok [OF z, of "sl_example []" 0 "sk_ops (sl_example [])" id] by blast
  have "set_run id [Table_insert 3, Table_insert 7, Table_find 3, Table_delete 3, Table_find 3] {} = ([False, False, True, True, False], {7 :: nat})"
    by (simp add: insert_commute)
  then show ?thesis using c sl_runs_as_set [OF z c sl_example_cmp, of "\<lambda>_. True" "[Table_insert 3, Table_insert 7, Table_find 3, Table_delete 3, Table_find 3]"]
    by (auto simp: sl_example_def)
qed

section \<open>The lanes\<close>

text \<open>
  The theorems above hold whatever the lanes contain. What they contain is not what they are for: with locks the first element counts twice,
  a dirnode comes before one that stands on an earlier element, and the row of an element is wrong; with exclusive access, which all callers
  use, a dirnode is made and never put into a lane.
\<close>

primrec insert_all :: "u32 \<Rightarrow> nat list \<Rightarrow> nat sl_skiplist_s \<Rightarrow> nat sl_skiplist_s option" where
  "insert_all f [] sl = Some sl"
| "insert_all f (x # xs) sl = do { (sl, r) \<leftarrow> sl_insert (\<lambda>_. True) sl (init_sl_searchresult x f); insert_all f xs sl }"

lemma first_counts_twice: "Option.bind (insert_all 0 [1] (sl_example [])) (\<lambda>sl. map_option jn_step (get_junction sl 0 0)) = Some 2"
  by code_simp

lemma lane_out_of_order:
  "Option.bind (insert_all 0 [0..<12] (sl_example [])) (\<lambda>sl. Option.bind (sk_dirnodes sl 2) (\<lambda>dn. Option.bind (sk_dirnodes sl 1) (\<lambda>dn'.
     Some (jn_n (dn_junction dn ! 0), dn_list dn, dn_list dn')))) = Some (1, Some 11, Some 5)"
  by code_simp

lemma row_wrong:
  "Option.bind (insert_all 0 [0..<14] (sl_example [])) (\<lambda>sl. map_option (\<lambda>(sl, r). (sk_header sl ! 1, sr_found r, sr_row r))
     (sl_find (\<lambda>_. True) sl (init_sl_searchresult 1 0))) = Some (1, Some 1, 10)"
  by code_simp

lemma exclusive_dirnode_lost:
  "map_option (\<lambda>sl. (sk_fresh sl, map_option jn_n (get_junction sl 0 0)))
     (insert_all SL_SEARCHRESULT_FLAG_EXCLUSIVE [0, 2, 4, 6, 8, 10, 12, 14, 16, 13] (sl_example [])) = Some (2, Some 0)"
  by code_simp

end
