(* ===== verification/Users_Cache.thy ===== *)
theory Users_Cache
  imports Users Skip_List_Table
begin

text \<open>
  The cache of users and groups by id, \<open>src/lib/users/entity.c\<close>, \<open>domain.c\<close> and \<open>cache.c\<close>: two skip lists of records, with the id on
  the server as key and the local id as value.

  A record has an address; the linked list of a skip list has these addresses. A pointer to an id points to an id on its own or to the member
  of a record. The functions of a skip list are those of the present memory. How many lanes are wanted for a number of elements,
  a quotient of two logarithms, is a parameter.
\<close>

section \<open>Data\<close>

definition NET_ENTITY_FLAG_USER :: u32 where "NET_ENTITY_FLAG_USER = 1"
definition NET_ENTITY_FLAG_GROUP :: u32 where "NET_ENTITY_FLAG_GROUP = 2"
definition NET_ENT2LOCAL_FLAG_USER :: u8 where "NET_ENT2LOCAL_FLAG_USER = 1"
definition NET_ENT2LOCAL_FLAG_GROUP :: u8 where "NET_ENT2LOCAL_FLAG_GROUP = 2"
definition NET_DOMAIN_FLAG_ALLOC :: u32 where "NET_DOMAIN_FLAG_ALLOC = 1"
definition NET_NUMBER_REMOTE_USERS_DEFAULT :: u64 where "NET_NUMBER_REMOTE_USERS_DEFAULT = 250"
definition NET_NUMBER_REMOTE_GROUPS_DEFAULT :: u64 where "NET_NUMBER_REMOTE_GROUPS_DEFAULT = 25"
definition USERS_EEXIST :: u32 where "USERS_EEXIST = 17"

record net_ent2local_s =
  el_flags :: u8
  el_remoteid :: u32
  el_localid :: u32
  el_name :: "u8 list"
  el_size :: u32

type_synonym ent_heap = "nat \<Rightarrow> net_ent2local_s option"

datatype id_ref = Id_value u32 | Id_member nat

record net_domain_s =
  nd_flags :: u32
  nd_u_sl :: "id_ref sl_skiplist_s option"
  nd_g_sl :: "id_ref sl_skiplist_s option"
  nd_size :: u32

record net_userscache_s =
  uc_domain :: net_domain_s
  uc_heap :: ent_heap
  uc_fresh :: nat

section \<open>Records\<close>

definition compare_unsigned :: "u32 \<Rightarrow> u32 \<Rightarrow> int" where
  "compare_unsigned a b = (if a > b then 1 else if a < b then -1 else 0)"

definition remoteid_at :: "ent_heap \<Rightarrow> nat \<Rightarrow> u32" where
  "remoteid_at heap e = (case heap e of Some el \<Rightarrow> el_remoteid el | None \<Rightarrow> 0)"

definition deref_id :: "ent_heap \<Rightarrow> id_ref \<Rightarrow> u32" where
  "deref_id heap b = (case b of Id_value n \<Rightarrow> n | Id_member e \<Rightarrow> remoteid_at heap e)"

definition compare_ent2local_byid :: "ent_heap \<Rightarrow> nat \<Rightarrow> id_ref \<Rightarrow> int" where
  "compare_ent2local_byid heap l b = compare_unsigned (remoteid_at heap l) (deref_id heap b)"

text \<open>The record a pointer to a member is in; for a pointer to something else it is not called.\<close>

definition get_list_element_ent2local_byid :: "id_ref \<Rightarrow> nat option" where
  "get_list_element_ent2local_byid b = (case b of Id_member e \<Rightarrow> Some e | Id_value _ \<Rightarrow> None)"

definition byid_ops :: "ent_heap \<Rightarrow> id_ref sl_ops_s" where
  "byid_ops heap = \<lparr>op_compare = compare_ent2local_byid heap, op_get_list_element = get_list_element_ent2local_byid\<rparr>"

definition find_ent2local_batch_shared ::
    "(sl_alloc \<Rightarrow> bool) \<Rightarrow> ent_heap \<Rightarrow> id_ref sl_skiplist_s \<Rightarrow> id_ref \<Rightarrow> net_entity_s \<Rightarrow> u32 \<Rightarrow> (net_entity_s \<times> u32 \<times> id_ref sl_skiplist_s) option" where
  "find_ent2local_batch_shared malloc heap sl ptr ent error = do {
     (sl, r) \<leftarrow> sl_find malloc (sl\<lparr>sk_ops := byid_ops heap\<rparr>) (init_sl_searchresult ptr SL_SEARCHRESULT_FLAG_EXCLUSIVE);
     if sr_flags r AND SL_SEARCHRESULT_FLAG_EXACT \<noteq> 0 then do {
       e \<leftarrow> sr_found r;
       el \<leftarrow> heap e;
       Some (ent\<lparr>ne_localid := el_localid el\<rparr>, error, sl) }
     else Some (ent, if sr_flags r AND SL_SEARCHRESULT_FLAG_ERROR \<noteq> 0 then USERS_EIO else USERS_ENOENT, sl) }"

definition insert_ent2local_batch_shared ::
    "(sl_alloc \<Rightarrow> bool) \<Rightarrow> ent_heap \<Rightarrow> id_ref sl_skiplist_s \<Rightarrow> id_ref \<Rightarrow> (nat option \<times> u32 \<times> id_ref sl_skiplist_s) option" where
  "insert_ent2local_batch_shared malloc heap sl ptr = do {
     (sl, r) \<leftarrow> sl_insert malloc (sl\<lparr>sk_ops := byid_ops heap\<rparr>) (init_sl_searchresult ptr SL_SEARCHRESULT_FLAG_EXCLUSIVE);
     if sr_flags r AND SL_SEARCHRESULT_FLAG_OK \<noteq> 0 then Some (sr_found r, 0, sl)
     else if sr_flags r AND SL_SEARCHRESULT_FLAG_EXACT \<noteq> 0 then Some (sr_found r, USERS_EEXIST, sl)
     else Some (None, USERS_EIO, sl) }"

definition init_ent2local :: "u32 \<Rightarrow> net_entity_s \<Rightarrow> net_ent2local_s" where
  "init_ent2local siz entity = \<lparr>el_flags =
       (if ne_flags entity AND NET_ENTITY_FLAG_USER \<noteq> 0 then NET_ENT2LOCAL_FLAG_USER
        else if ne_flags entity AND NET_ENTITY_FLAG_GROUP \<noteq> 0 then NET_ENT2LOCAL_FLAG_GROUP else 0),
     el_remoteid = ne_id entity, el_localid = ne_localid entity, el_name = [], el_size = siz\<rparr>"

text \<open>The address of the new record and the heap with it; the name is copied behind it.\<close>

definition create_ent2local :: "bool \<Rightarrow> net_userscache_s \<Rightarrow> net_entity_s \<Rightarrow> (nat option \<times> net_userscache_s) option" where
  "create_ent2local mem_ok c entity =
     (if mem_ok then do {
        name \<leftarrow> (if ne_len entity = 0 then Some [] else do { m \<leftarrow> ne_mem entity; mem_load m 0 (unat (ne_len entity)) });
        let el = (init_ent2local (ne_len entity) entity)\<lparr>el_name := name\<rparr>;
        Some (Some (uc_fresh c), c\<lparr>uc_heap := (uc_heap c)(uc_fresh c \<mapsto> el), uc_fresh := uc_fresh c + 1\<rparr>) }
      else Some (None, c))"

definition free_ent2local :: "nat \<Rightarrow> net_userscache_s \<Rightarrow> net_userscache_s" where
  "free_ent2local e c = c\<lparr>uc_heap := (uc_heap c)(e := None)\<rparr>"

definition insert_ent2local_batch_byid ::
    "(sl_alloc \<Rightarrow> bool) \<Rightarrow> ent_heap \<Rightarrow> id_ref sl_skiplist_s \<Rightarrow> nat \<Rightarrow> (nat option \<times> u32 \<times> id_ref sl_skiplist_s) option" where
  "insert_ent2local_batch_byid malloc heap sl e = insert_ent2local_batch_shared malloc heap sl (Id_member e)"

section \<open>The cache\<close>

text \<open>What is done with the skip list of the users or of the groups: \<open>get\<close> reads its pointer, \<open>put\<close> is the list changed in place.\<close>

definition add_entity_byid :: "(sl_alloc \<Rightarrow> bool) \<Rightarrow> bool \<Rightarrow> (net_domain_s \<Rightarrow> id_ref sl_skiplist_s option) \<Rightarrow>
    (id_ref sl_skiplist_s \<Rightarrow> net_domain_s \<Rightarrow> net_domain_s) \<Rightarrow> net_userscache_s \<Rightarrow> net_entity_s \<Rightarrow> (int \<times> net_userscache_s) option" where
  "add_entity_byid malloc mem_ok get put c entity = do {
     (p, c) \<leftarrow> create_ent2local mem_ok c entity;
     case p of
       None \<Rightarrow> Some (-1, c)
     | Some e \<Rightarrow> do {
         sl \<leftarrow> get (uc_domain c);
         (found, errcode, sl) \<leftarrow> insert_ent2local_batch_byid malloc (uc_heap c) sl e;
         let c = c\<lparr>uc_domain := put sl (uc_domain c)\<rparr>;
         Some (if found = Some e then (0, c) else (-1, free_ent2local e c)) } }"

definition add_net2local_map_byid :: "(sl_alloc \<Rightarrow> bool) \<Rightarrow> bool \<Rightarrow> net_userscache_s \<Rightarrow> net_entity_s \<Rightarrow> (int \<times> net_userscache_s) option" where
  "add_net2local_map_byid malloc mem_ok c entity =
     (if ne_flags entity AND NET_ENTITY_FLAG_USER \<noteq> 0 then add_entity_byid malloc mem_ok nd_u_sl (\<lambda>sl d. d\<lparr>nd_u_sl := Some sl\<rparr>) c entity
      else if ne_flags entity AND NET_ENTITY_FLAG_GROUP \<noteq> 0 then add_entity_byid malloc mem_ok nd_g_sl (\<lambda>sl d. d\<lparr>nd_g_sl := Some sl\<rparr>) c entity
      else Some (-1, c))"

definition find_user_ent2local_byid :: "(sl_alloc \<Rightarrow> bool) \<Rightarrow> net_userscache_s \<Rightarrow> net_entity_s \<Rightarrow> u32 \<Rightarrow> (net_entity_s \<times> u32 \<times> net_userscache_s) option" where
  "find_user_ent2local_byid malloc c entity err = do {
     sl \<leftarrow> nd_u_sl (uc_domain c);
     (ent, err, sl) \<leftarrow> find_ent2local_batch_shared malloc (uc_heap c) sl (Id_value (ne_id entity)) entity err;
     Some (ent, err, c\<lparr>uc_domain := (uc_domain c)\<lparr>nd_u_sl := Some sl\<rparr>\<rparr>) }"

definition find_group_ent2local_byid :: "(sl_alloc \<Rightarrow> bool) \<Rightarrow> net_userscache_s \<Rightarrow> net_entity_s \<Rightarrow> u32 \<Rightarrow> (net_entity_s \<times> u32 \<times> net_userscache_s) option" where
  "find_group_ent2local_byid malloc c entity err = do {
     sl \<leftarrow> nd_g_sl (uc_domain c);
     (ent, err, sl) \<leftarrow> find_ent2local_batch_shared malloc (uc_heap c) sl (Id_value (ne_id entity)) entity err;
     Some (ent, err, c\<lparr>uc_domain := (uc_domain c)\<lparr>nd_g_sl := Some sl\<rparr>\<rparr>) }"

text \<open>Cleared memory where a skip list comes; the function pointers in it are null and not called.\<close>

definition zero_sl :: "id_ref sl_skiplist_s" where
  "zero_sl = \<lparr>sk_ops = \<lparr>op_compare = \<lambda>_ _. 0, op_get_list_element = \<lambda>_. None\<rparr>, sk_prob = 0, sk_flags = 0, sk_maxlevel = 0, sk_header = [],
     sk_size = 0, sk_dirnodes = [0 \<mapsto> dirnode_zero], sk_fresh = 1\<rparr>"

definition get_size_net_domain :: "(u64 \<Rightarrow> u32 \<Rightarrow> u8) \<Rightarrow> u32 \<Rightarrow> u64 \<Rightarrow> u64 \<Rightarrow> u32 \<times> u32" where
  "get_size_net_domain lanes sizeof_sl u_count g_count =
     (fst (get_size_sl_skiplist sizeof_sl (lanes u_count SKIPLIST_PROB)), fst (get_size_sl_skiplist sizeof_sl (lanes g_count SKIPLIST_PROB)))"

text \<open>\<open>init_net_domain\<close> for a mapping by id: the result of \<open>create_sl_skiplist\<close> is not looked at.\<close>

definition init_domain_list :: "u32 \<Rightarrow> u32 \<Rightarrow> (int \<times> id_ref sl_skiplist_s) option" where
  "init_domain_list sizeof_sl siz =
     init_sl_skiplist (Some (byid_ops (\<lambda>_. None)))
       (case create_sl_skiplist True sizeof_sl zero_sl (Some zero_sl) 0 siz of Some sl \<Rightarrow> sl | None \<Rightarrow> zero_sl\<lparr>sk_size := siz\<rparr>)"

definition init_net_domain :: "u32 \<Rightarrow> net_domain_s \<Rightarrow> u32 \<Rightarrow> u32 \<Rightarrow> (int \<times> net_domain_s) option" where
  "init_net_domain sizeof_sl d u_size g_size =
     (if nd_size d > 0 \<and> nd_size d < u_size + g_size then Some (-1, d)
      else if nd_size d > 0 then do {
        (result, sl) \<leftarrow> init_domain_list sizeof_sl u_size;
        let d = d\<lparr>nd_u_sl := Some sl\<rparr>;
        if result = -1 then Some (-1, d)
        else do {
          (result, sl) \<leftarrow> init_domain_list sizeof_sl g_size;
          Some (result, d\<lparr>nd_g_sl := Some sl\<rparr>) } }
      else Some (0, d))"

definition create_net_userscache_byid :: "(u64 \<Rightarrow> u32 \<Rightarrow> u8) \<Rightarrow> u32 \<Rightarrow> bool \<Rightarrow> net_userscache_s option option" where
  "create_net_userscache_byid lanes sizeof_sl mem_ok = do {
     let (u_size, g_size) = get_size_net_domain lanes sizeof_sl NET_NUMBER_REMOTE_USERS_DEFAULT NET_NUMBER_REMOTE_GROUPS_DEFAULT;
     if \<not> mem_ok then Some None
     else do {
       (result, d) \<leftarrow> init_net_domain sizeof_sl \<lparr>nd_flags = NET_DOMAIN_FLAG_ALLOC, nd_u_sl = None, nd_g_sl = None, nd_size = u_size + g_size\<rparr> u_size g_size;
       Some (if result = -1 then None else Some \<lparr>uc_domain = d, uc_heap = \<lambda>_. None, uc_fresh = 1\<rparr>) } }"

text \<open>
  Clearing: the records of both lists are freed, and the domain too when it is marked as allocated. The domain of a cache by id is part of the
  cache, so that freeing it gives \<open>free\<close> a pointer it has not got from \<open>malloc\<close>.
\<close>

definition clear_net_entity_sl :: "id_ref sl_skiplist_s \<Rightarrow> ent_heap \<Rightarrow> (id_ref sl_skiplist_s \<times> ent_heap) option" where
  "clear_net_entity_sl sl heap = do {
     sl' \<leftarrow> clear_sl_skiplist sl;
     sl' \<leftarrow> clear_sl_skiplist (sl'\<lparr>sk_header := []\<rparr>);
     Some (sl', foldl (\<lambda>h e. h(e := None)) heap (sk_header sl)) }"

definition free_net_domain :: "net_userscache_s \<Rightarrow> net_userscache_s option" where
  "free_net_domain c = do {
     (g_sl, heap) \<leftarrow> (case nd_g_sl (uc_domain c) of None \<Rightarrow> Some (None, uc_heap c)
       | Some sl \<Rightarrow> map_option (\<lambda>(sl, h). (Some sl, h)) (clear_net_entity_sl sl (uc_heap c)));
     (u_sl, heap) \<leftarrow> (case nd_u_sl (uc_domain c) of None \<Rightarrow> Some (None, heap)
       | Some sl \<Rightarrow> map_option (\<lambda>(sl, h). (Some sl, h)) (clear_net_entity_sl sl heap));
     if nd_flags (uc_domain c) AND NET_DOMAIN_FLAG_ALLOC \<noteq> 0 then None
     else Some (c\<lparr>uc_domain := (uc_domain c)\<lparr>nd_u_sl := u_sl, nd_g_sl := g_sl\<rparr>, uc_heap := heap\<rparr>) }"

definition clear_net_userscache_byid :: "net_userscache_s \<Rightarrow> net_userscache_s option" where
  "clear_net_userscache_byid c = free_net_domain c"

section \<open>The cache as a map\<close>

text \<open>A list is well-formed when its records exist and it is sorted by their ids; it stands for a map from ids to local ids.\<close>

definition list_ok :: "ent_heap \<Rightarrow> id_ref sl_skiplist_s \<Rightarrow> bool" where
  "list_ok heap sl \<longleftrightarrow> sl_ok (remoteid_at heap) sl \<and> flat sl \<and> (\<forall>e \<in> set (sk_header sl). heap e \<noteq> None)"

definition list_map :: "ent_heap \<Rightarrow> nat list \<Rightarrow> u32 \<rightharpoonup> u32" where
  "list_map heap es = map_of (map (\<lambda>e. (remoteid_at heap e, el_localid (the (heap e)))) es)"

definition cache_ok :: "net_userscache_s \<Rightarrow> bool" where
  "cache_ok c \<longleftrightarrow> (\<forall>e. uc_heap c e \<noteq> None \<longrightarrow> e < uc_fresh c) \<and>
     (\<exists>u g. nd_u_sl (uc_domain c) = Some u \<and> nd_g_sl (uc_domain c) = Some g \<and> list_ok (uc_heap c) u \<and> list_ok (uc_heap c) g)"

definition user_map :: "net_userscache_s \<Rightarrow> u32 \<rightharpoonup> u32" where
  "user_map c = (case nd_u_sl (uc_domain c) of None \<Rightarrow> Map.empty | Some sl \<Rightarrow> list_map (uc_heap c) (sk_header sl))"

definition group_map :: "net_userscache_s \<Rightarrow> u32 \<rightharpoonup> u32" where
  "group_map c = (case nd_g_sl (uc_domain c) of None \<Rightarrow> Map.empty | Some sl \<Rightarrow> list_map (uc_heap c) (sk_header sl))"

lemma compare_unsigned_sign: "compare_unsigned a b < 0 \<longleftrightarrow> a < b" "compare_unsigned a b = 0 \<longleftrightarrow> a = b"
  by (auto simp: compare_unsigned_def)

lemma byid_cmp: "cmp_ok (byid_ops heap) (remoteid_at heap) (deref_id heap)"
  by (simp add: cmp_ok_def byid_ops_def compare_ent2local_byid_def compare_unsigned_sign)

lemma sl_ok_cong:
  assumes "\<And>e. e \<in> set (sk_header sl) \<Longrightarrow> key' e = key e"
  shows "sl_ok key' sl = sl_ok key sl"
proof -
  have "sorted_wrt (\<lambda>a b. key' a < key' b) xs = sorted_wrt (\<lambda>a b. key a < key b) xs" if "\<And>e. e \<in> set xs \<Longrightarrow> key' e = key e" for xs
    using that by (induction xs) auto
  then show ?thesis using assms by (simp add: sl_ok_def key_sorted_def)
qed

lemma sk_ops_update [simp]:
  "get_junction (sl\<lparr>sk_ops := ops\<rparr>) = get_junction sl" "sl_ok key (sl\<lparr>sk_ops := ops\<rparr>) = sl_ok key sl" "flat (sl\<lparr>sk_ops := ops\<rparr>) = flat sl"
proof -
  show g: "get_junction (sl\<lparr>sk_ops := ops\<rparr>) = get_junction sl" by (simp add: fun_eq_iff get_junction_def)
  then have h: "has (sl\<lparr>sk_ops := ops\<rparr>) = has sl" by (simp add: fun_eq_iff has_def)
  have "lanes_ok (sl\<lparr>sk_ops := ops\<rparr>) = lanes_ok sl" by (simp add: lanes_ok_def node_ok_def jn_ok_def g h)
  then show "sl_ok key (sl\<lparr>sk_ops := ops\<rparr>) = sl_ok key sl" by (simp add: sl_ok_def unlocked_def counts_ok_def g)
  show "flat (sl\<lparr>sk_ops := ops\<rparr>) = flat sl" by (simp add: flat_def g)
qed

lemma list_okD:
  assumes "list_ok heap sl"
  shows "sl_ok (remoteid_at heap) sl" "flat sl" "\<forall>e \<in> set (sk_header sl). heap e \<noteq> None" "key_sorted (remoteid_at heap) (sk_header sl)"
  using assms by (simp_all add: list_ok_def sl_ok_def)

lemma list_map_None: "list_map heap es n = None \<longleftrightarrow> n \<notin> remoteid_at heap ` set es"
  by (auto simp: list_map_def map_of_eq_None_iff image_image)

lemma list_map_Some:
  assumes "key_sorted (remoteid_at heap) es" and "e \<in> set es"
  shows "list_map heap es (remoteid_at heap e) = Some (el_localid (the (heap e)))"
proof -
  have "distinct (map (remoteid_at heap) es)" using assms(1) by (induction es) (auto simp: key_sorted_def)
  then have "distinct (map fst (map (\<lambda>e. (remoteid_at heap e, el_localid (the (heap e)))) es))" by (simp add: comp_def)
  then show ?thesis using assms(2) by (auto simp: list_map_def)
qed

lemma list_map_heap: "(\<And>e. e \<in> set es \<Longrightarrow> heap' e = heap e) \<Longrightarrow> list_map heap' es = list_map heap es"
  by (simp add: list_map_def remoteid_at_def cong: map_cong)

text \<open>The keys are in any order as far as the map goes.\<close>

lemma list_map_set:
  assumes "key_sorted (remoteid_at heap) es" and "key_sorted (remoteid_at heap) es'" and "set es' = insert e (set es)" and "e \<notin> set es"
  shows "list_map heap es' = (list_map heap es)(remoteid_at heap e \<mapsto> el_localid (the (heap e)))"
proof
  fix n
  show "list_map heap es' n = ((list_map heap es)(remoteid_at heap e \<mapsto> el_localid (the (heap e)))) n"
  proof (cases "n = remoteid_at heap e")
    case True
    then show ?thesis using list_map_Some [OF assms(2), of e] assms(3) by simp
  next
    case False
    show ?thesis
    proof (cases "n \<in> remoteid_at heap ` set es")
      case True
      then obtain x where "x \<in> set es" "n = remoteid_at heap x" by blast
      then show ?thesis using list_map_Some [OF assms(1), of x] list_map_Some [OF assms(2), of x] assms(3) False by simp
    next
      case no: False
      then have "list_map heap es n = None" "list_map heap es' n = None" using False assms(3) by (auto simp: list_map_None)
      then show ?thesis using False by simp
    qed
  qed
qed

lemma find_batch_ok:
  assumes "list_ok heap sl" and "length (sk_header sl) < 2 ^ 32" and "\<forall>n. malloc (Alloc_vector n)"
  shows "find_ent2local_batch_shared malloc heap sl (Id_value n) ent error = Some (case list_map heap (sk_header sl) n of
      Some l \<Rightarrow> (ent\<lparr>ne_localid := l\<rparr>, error, sl\<lparr>sk_ops := byid_ops heap\<rparr>)
    | None \<Rightarrow> (ent, USERS_ENOENT, sl\<lparr>sk_ops := byid_ops heap\<rparr>))"
proof -
  let ?sl = "sl\<lparr>sk_ops := byid_ops heap\<rparr>" and ?xs = "sk_header sl" and ?key = "remoteid_at heap"
  have ok: "sl_ok ?key ?sl" "key_sorted ?key ?xs" "\<forall>e \<in> set ?xs. heap e \<noteq> None" using list_okD [OF assms(1)] by simp_all
  have c: "cmp_ok (sk_ops ?sl) ?key (deref_id heap)" using byid_cmp [of heap] by simp
  obtain r where r: "sl_find malloc ?sl (init_sl_searchresult (Id_value n) SL_SEARCHRESULT_FLAG_EXCLUSIVE) = Some (?sl, r)"
      "found_at r (place_of ?key n ?xs)"
    using sl_find_exclusive [OF ok(1) c _ assms(3), of "Id_value n"] assms(2) by (auto simp: deref_id_def)
  show ?thesis
  proof (cases "n \<in> ?key ` set ?xs")
    case True
    then obtain x where x: "place_of ?key n ?xs = At x" using place_At_iff [OF ok(2), of n] by blast
    then have kx: "?key x = n" "x \<in> set ?xs" using place_of_cases(2) [OF ok(2)] by auto
    have "sr_flags r AND SL_SEARCHRESULT_FLAG_EXACT \<noteq> 0" "sr_found r = Some x" using found_at_flag(2) [OF r(2)] r(2) x by (simp_all add: found_at_def)
    then show ?thesis using r(1) kx ok(3) list_map_Some [OF ok(2) kx(2)] by (auto simp: find_ent2local_batch_shared_def)
  next
    case False
    then have "\<not> sr_flags r AND SL_SEARCHRESULT_FLAG_EXACT \<noteq> 0" using place_At_iff [OF ok(2), of n] found_at_flag(2) [OF r(2)] by simp
    then show ?thesis using r(1) False found_at_flag(6) [OF r(2)] by (simp add: find_ent2local_batch_shared_def list_map_None [THEN iffD2])
  qed
qed

text \<open>A new record in the heap changes nothing for the lists that do not have it.\<close>

lemma list_ok_heap:
  assumes "\<And>e. e \<in> set (sk_header sl) \<Longrightarrow> heap' e = heap e"
  shows "list_ok heap' sl = list_ok heap sl"
proof -
  have "sl_ok (remoteid_at heap') sl = sl_ok (remoteid_at heap) sl" by (rule sl_ok_cong) (simp add: remoteid_at_def assms)
  then show ?thesis using assms by (simp add: list_ok_def)
qed

lemma insert_batch_ok:
  assumes "list_ok heap sl" and "length (sk_header sl) + 1 < 2 ^ 32" and "\<forall>n. malloc (Alloc_vector n)" and "heap e = None"
    and "heap' = heap(e \<mapsto> el)"
  shows "\<exists>found err sl'. insert_ent2local_batch_byid malloc heap' sl e = Some (found, err, sl') \<and>
    (if list_map heap (sk_header sl) (el_remoteid el) = None
     then found = Some e \<and> err = 0 \<and> list_ok heap' sl' \<and> e \<in> set (sk_header sl') \<and> length (sk_header sl') = length (sk_header sl) + 1 \<and>
       list_map heap' (sk_header sl') = (list_map heap (sk_header sl))(el_remoteid el \<mapsto> el_localid el)
     else found \<noteq> Some e \<and> err = USERS_EEXIST \<and> sk_header sl' = sk_header sl \<and> list_ok heap sl')"
proof -
  let ?sl = "sl\<lparr>sk_ops := byid_ops heap'\<rparr>" and ?xs = "sk_header sl" and ?key = "remoteid_at heap'" and ?n = "el_remoteid el"
  have en: "e \<notin> set ?xs" using list_okD(3) [OF assms(1)] assms(4) by auto
  then have same: "heap' x = heap x" if "x \<in> set ?xs" for x using that assms(5) by auto
  have ok': "list_ok heap' sl" using list_ok_heap [of sl heap' heap] same assms(1) by blast
  note o = list_okD [OF ok']
  have ke: "?key e = ?n" "deref_id heap' (Id_member e) = ?n" by (simp_all add: remoteid_at_def deref_id_def assms(5))
  have mp: "list_map heap' ?xs = list_map heap ?xs" using same by (rule list_map_heap)
  obtain sl' r where i: "sl_insert malloc ?sl (init_sl_searchresult (Id_member e) SL_SEARCHRESULT_FLAG_EXCLUSIVE) = Some (sl', r)" "sl_ok ?key sl'"
      "insert_spec ?key ?n (Some e) ?xs (sk_header sl') r" "flat sl'"
    using sl_insert_ok [of ?key ?sl "deref_id heap'" SL_SEARCHRESULT_FLAG_EXCLUSIVE malloc "Id_member e"] o assms(2,3) byid_cmp [of heap'] ke
    by (auto simp: byid_ops_def get_list_element_ent2local_byid_def)
  show ?thesis
  proof (cases "list_map heap ?xs ?n = None")
    case True
    then have nk: "?n \<notin> ?key ` set ?xs" using list_map_None [of heap' ?xs ?n] mp by simp
    then have np: "\<And>x. place_of ?key ?n ?xs \<noteq> At x" using place_At_iff [OF o(4), of ?n] by blast
    have h: "sk_header sl' = ins_key ?key ?n e ?xs" "sr_found r = Some e" "sr_flags r AND SL_SEARCHRESULT_FLAG_OK \<noteq> 0"
      using i(3) by (simp_all add: insert_spec_cases(3) [OF np])
    have l: "list_ok heap' sl'" using i(2,4) h(1) o(3) assms(5) by (simp add: list_ok_def)
    have "list_map heap' (sk_header sl') = (list_map heap ?xs)(?n \<mapsto> el_localid el)"
      using list_map_set [OF o(4) list_okD(4) [OF l], of e] en h(1) mp ke assms(5) by simp
    then show ?thesis using True i(1) h l by (simp add: insert_ent2local_batch_byid_def insert_ent2local_batch_shared_def)
  next
    case False
    then have "?n \<in> ?key ` set ?xs" using list_map_None [of heap' ?xs ?n] mp by auto
    then obtain x where x: "place_of ?key ?n ?xs = At x" using place_At_iff [OF o(4), of ?n] by blast
    then have f: "sk_header sl' = ?xs" "found_at r (At x)" "x \<in> set ?xs" using i(3) place_of_cases(2) [OF o(4)] by (auto simp: insert_spec_cases(1) [OF x])
    have "sr_flags r AND SL_SEARCHRESULT_FLAG_EXACT \<noteq> 0" "sr_flags r AND SL_SEARCHRESULT_FLAG_OK = 0" "sr_found r = Some x"
      using found_at_flag(2,5) [OF f(2)] f(2) by (auto simp: found_at_def)
    moreover have "list_ok heap sl'"
    proof -
      have "list_ok heap' sl'" using i(2,4) f(1) o(3) by (simp add: list_ok_def)
      then show ?thesis using list_ok_heap [of sl' heap' heap] same f(1) by simp
    qed
    ultimately show ?thesis using False i(1) f en by (auto simp: insert_ent2local_batch_byid_def insert_ent2local_batch_shared_def)
  qed
qed

section \<open>Adding and finding\<close>

definition name_readable :: "net_entity_s \<Rightarrow> bool" where
  "name_readable ent \<longleftrightarrow> ne_len ent = 0 \<or> (\<exists>m. ne_mem ent = Some m \<and> unat (ne_len ent) \<le> length m)"

lemma create_ent2local_ok:
  assumes "name_readable entity"
  shows "\<exists>el. create_ent2local True c entity = Some (Some (uc_fresh c), c\<lparr>uc_heap := (uc_heap c)(uc_fresh c \<mapsto> el), uc_fresh := uc_fresh c + 1\<rparr>) \<and>
    el_remoteid el = ne_id entity \<and> el_localid el = ne_localid entity"
  using assms by (auto simp: create_ent2local_def name_readable_def mem_load_def init_ent2local_def Let_def)

text \<open>What adding an entity means for a map: the first local id of an id stays.\<close>

definition map_insert :: "(u32 \<rightharpoonup> u32) \<Rightarrow> net_entity_s \<Rightarrow> int \<times> (u32 \<rightharpoonup> u32)" where
  "map_insert M e = (if M (ne_id e) = None then (0, M(ne_id e \<mapsto> ne_localid e)) else (-1, M))"

lemma add_entity_ok:
  assumes "get (uc_domain c) = Some sl" and "list_ok (uc_heap c) sl" and "length (sk_header sl) + 1 < 2 ^ 32" and "\<forall>n. malloc (Alloc_vector n)"
    and "uc_heap c (uc_fresh c) = None" and "name_readable entity"
  shows "\<exists>res sl' heap. add_entity_byid malloc True get put c entity =
      Some (res, c\<lparr>uc_domain := put sl' (uc_domain c), uc_heap := heap, uc_fresh := uc_fresh c + 1\<rparr>) \<and>
    (\<forall>e. e \<noteq> uc_fresh c \<longrightarrow> heap e = uc_heap c e) \<and> list_ok heap sl' \<and>
    length (sk_header sl') \<le> length (sk_header sl) + 1 \<and>
    (res, list_map heap (sk_header sl')) = map_insert (list_map (uc_heap c) (sk_header sl)) entity"
proof -
  let ?f = "uc_fresh c" and ?h = "uc_heap c"
  obtain el where el: "create_ent2local True c entity = Some (Some ?f, c\<lparr>uc_heap := ?h(?f \<mapsto> el), uc_fresh := ?f + 1\<rparr>)"
      "el_remoteid el = ne_id entity" "el_localid el = ne_localid entity" using create_ent2local_ok [OF assms(6)] by blast
  obtain found err sl' where i: "insert_ent2local_batch_byid malloc (?h(?f \<mapsto> el)) sl ?f = Some (found, err, sl')"
      "if list_map ?h (sk_header sl) (ne_id entity) = None
       then found = Some ?f \<and> list_ok (?h(?f \<mapsto> el)) sl' \<and> length (sk_header sl') = length (sk_header sl) + 1 \<and> list_map (?h(?f \<mapsto> el)) (sk_header sl') = (list_map ?h (sk_header sl))(ne_id entity \<mapsto> ne_localid entity)
       else found \<noteq> Some ?f \<and> sk_header sl' = sk_header sl \<and> list_ok ?h sl'"
    using insert_batch_ok [OF assms(2-5) refl, of el] unfolding el(2,3) by (auto split: if_splits)
  show ?thesis
  proof (cases "list_map ?h (sk_header sl) (ne_id entity) = None")
    case True
    then show ?thesis using el(1) i assms(1)
      by (intro exI [of _ 0] exI [of _ sl'] exI [of _ "?h(?f \<mapsto> el)"]) (simp add: add_entity_byid_def map_insert_def Let_def)
  next
    case False
    have "?h(?f := None) = ?h" using assms(5) by auto
    then show ?thesis using False el(1) i assms(1)
      by (intro exI [of _ "-1"] exI [of _ sl'] exI [of _ ?h]) (simp add: add_entity_byid_def free_ent2local_def map_insert_def Let_def)
  qed
qed

definition cache_room :: "net_userscache_s \<Rightarrow> bool" where
  "cache_room c \<longleftrightarrow> (\<forall>sl. Some sl \<in> {nd_u_sl (uc_domain c), nd_g_sl (uc_domain c)} \<longrightarrow> length (sk_header sl) + 1 < 2 ^ 32)"

definition add_spec :: "net_entity_s \<Rightarrow> (u32 \<rightharpoonup> u32) \<Rightarrow> (u32 \<rightharpoonup> u32) \<Rightarrow> int \<times> (u32 \<rightharpoonup> u32) \<times> (u32 \<rightharpoonup> u32)" where
  "add_spec e U G =
     (if ne_flags e AND NET_ENTITY_FLAG_USER \<noteq> 0 then let (res, U) = map_insert U e in (res, U, G)
      else if ne_flags e AND NET_ENTITY_FLAG_GROUP \<noteq> 0 then let (res, G) = map_insert G e in (res, U, G)
      else (-1, U, G))"

lemma cache_okE:
  assumes "cache_ok c"
  obtains u g where "nd_u_sl (uc_domain c) = Some u" "nd_g_sl (uc_domain c) = Some g" "list_ok (uc_heap c) u" "list_ok (uc_heap c) g"
    "uc_heap c (uc_fresh c) = None" "\<forall>e. uc_heap c e \<noteq> None \<longrightarrow> e < uc_fresh c"
  using assms unfolding cache_ok_def by (metis less_irrefl)

lemma fresh_unlisted:
  assumes "list_ok heap sl" and "heap f = None" and "\<forall>e. e \<noteq> f \<longrightarrow> heap' e = heap e"
  shows "list_ok heap' sl" "list_map heap' (sk_header sl) = list_map heap (sk_header sl)"
proof -
  have "heap' e = heap e" if "e \<in> set (sk_header sl)" for e using that list_okD(3) [OF assms(1)] assms(2,3) by metis
  then show "list_ok heap' sl" "list_map heap' (sk_header sl) = list_map heap (sk_header sl)"
    using list_ok_heap [of sl heap' heap] list_map_heap [of "sk_header sl" heap' heap] assms(1) by auto
qed

text \<open>The number of records in the lists, which bounds what a search counts.\<close>

definition cache_count :: "net_userscache_s \<Rightarrow> nat" where
  "cache_count c = (case nd_u_sl (uc_domain c) of Some sl \<Rightarrow> length (sk_header sl) | None \<Rightarrow> 0) +
     (case nd_g_sl (uc_domain c) of Some sl \<Rightarrow> length (sk_header sl) | None \<Rightarrow> 0)"

lemma cache_count_room: "cache_count c + 1 < 2 ^ 32 \<Longrightarrow> cache_room c"
  by (auto simp: cache_count_def cache_room_def split: option.splits)

lemma cache_add_ok:
  assumes "cache_ok c" and "cache_room c" and "\<forall>n. malloc (Alloc_vector n)" and "name_readable entity"
  shows "\<exists>res c'. add_net2local_map_byid malloc True c entity = Some (res, c') \<and> cache_ok c' \<and> cache_count c' \<le> cache_count c + 1 \<and>
    (res, user_map c', group_map c') = add_spec entity (user_map c) (group_map c)"
proof -
  obtain u g where c: "nd_u_sl (uc_domain c) = Some u" "nd_g_sl (uc_domain c) = Some g" "list_ok (uc_heap c) u" "list_ok (uc_heap c) g"
      and f: "uc_heap c (uc_fresh c) = None" "\<forall>e. uc_heap c e \<noteq> None \<longrightarrow> e < uc_fresh c" using assms(1) by (rule cache_okE)
  have n: "length (sk_header u) + 1 < 2 ^ 32" "length (sk_header g) + 1 < 2 ^ 32" using assms(2) c(1,2) by (simp_all add: cache_room_def)
  have fr: "\<forall>e. heap e \<noteq> None \<longrightarrow> e < uc_fresh c + 1" if "\<forall>e. e \<noteq> uc_fresh c \<longrightarrow> heap e = uc_heap c e" for heap
    using that f(2) by (metis less_Suc_eq Suc_eq_plus1)
  consider "ne_flags entity AND NET_ENTITY_FLAG_USER \<noteq> 0" | "ne_flags entity AND NET_ENTITY_FLAG_USER = 0" "ne_flags entity AND NET_ENTITY_FLAG_GROUP \<noteq> 0"
    | "ne_flags entity AND NET_ENTITY_FLAG_USER = 0" "ne_flags entity AND NET_ENTITY_FLAG_GROUP = 0" by blast
  then show ?thesis
  proof cases
    case 1
    obtain res sl' heap where a: "add_entity_byid malloc True nd_u_sl (\<lambda>sl d. d\<lparr>nd_u_sl := Some sl\<rparr>) c entity =
          Some (res, c\<lparr>uc_domain := (uc_domain c)\<lparr>nd_u_sl := Some sl'\<rparr>, uc_heap := heap, uc_fresh := uc_fresh c + 1\<rparr>)"
        "\<forall>e. e \<noteq> uc_fresh c \<longrightarrow> heap e = uc_heap c e" "list_ok heap sl'" "length (sk_header sl') \<le> length (sk_header u) + 1"
        "(res, list_map heap (sk_header sl')) = map_insert (list_map (uc_heap c) (sk_header u)) entity"
      using add_entity_ok [of nd_u_sl, OF c(1,3) n(1) assms(3) f(1) assms(4), of "\<lambda>sl d. d\<lparr>nd_u_sl := Some sl\<rparr>"]
      by blast
    note k = fresh_unlisted [OF c(4) f(1) a(2)]
    show ?thesis using 1 a(1,3,4) k c(1,2) fr [OF a(2)]
      by (auto simp: add_net2local_map_byid_def cache_ok_def user_map_def group_map_def add_spec_def cache_count_def a(5) [symmetric])
  next
    case 2
    obtain res sl' heap where a: "add_entity_byid malloc True nd_g_sl (\<lambda>sl d. d\<lparr>nd_g_sl := Some sl\<rparr>) c entity =
          Some (res, c\<lparr>uc_domain := (uc_domain c)\<lparr>nd_g_sl := Some sl'\<rparr>, uc_heap := heap, uc_fresh := uc_fresh c + 1\<rparr>)"
        "\<forall>e. e \<noteq> uc_fresh c \<longrightarrow> heap e = uc_heap c e" "list_ok heap sl'" "length (sk_header sl') \<le> length (sk_header g) + 1"
        "(res, list_map heap (sk_header sl')) = map_insert (list_map (uc_heap c) (sk_header g)) entity"
      using add_entity_ok [of nd_g_sl, OF c(2,4) n(2) assms(3) f(1) assms(4), of "\<lambda>sl d. d\<lparr>nd_g_sl := Some sl\<rparr>"]
      by blast
    note k = fresh_unlisted [OF c(3) f(1) a(2)]
    show ?thesis using 2 a(1,3,4) k c(1,2) fr [OF a(2)]
      by (auto simp: add_net2local_map_byid_def cache_ok_def user_map_def group_map_def add_spec_def cache_count_def a(5) [symmetric])
  next
    case 3
    then show ?thesis using assms(1) by (simp add: add_net2local_map_byid_def add_spec_def)
  qed
qed

text \<open>
  C14: the cache of users and groups by id is a pair of maps from the ids of the server to local ids: adding an entity gives its id the local
  id and returns 0 when the id has none yet, and changes nothing and returns -1 when it has one or when the entity is neither user nor
  group; a record that is not added is freed.
\<close>

theorem userscache_add_refines:
  assumes "cache_ok c" and "cache_room c" and "\<forall>n. malloc (Alloc_vector n)" and "name_readable entity"
  shows "\<exists>res c'. add_net2local_map_byid malloc True c entity = Some (res, c') \<and> cache_ok c' \<and>
    (res, user_map c', group_map c') = add_spec entity (user_map c) (group_map c)"
  using cache_add_ok [OF assms] by blast

lemma list_ok_ops [simp]: "list_ok heap (sl\<lparr>sk_ops := ops\<rparr>) = list_ok heap sl"
  by (simp add: list_ok_def)

lemma find_user_ok:
  assumes "cache_ok c" and "cache_room c" and "\<forall>n. malloc (Alloc_vector n)"
  shows "\<exists>err' c'. find_user_ent2local_byid malloc c e err =
      Some (e\<lparr>ne_localid := (case user_map c (ne_id e) of Some l \<Rightarrow> l | None \<Rightarrow> ne_localid e)\<rparr>, err', c') \<and>
    err' = (case user_map c (ne_id e) of Some l \<Rightarrow> err | None \<Rightarrow> USERS_ENOENT) \<and> cache_ok c' \<and> user_map c' = user_map c \<and> group_map c' = group_map c"
proof -
  obtain u g where c: "nd_u_sl (uc_domain c) = Some u" "nd_g_sl (uc_domain c) = Some g" "list_ok (uc_heap c) u" "list_ok (uc_heap c) g"
      "\<forall>e. uc_heap c e \<noteq> None \<longrightarrow> e < uc_fresh c" using assms(1) by (rule cache_okE) blast
  have "length (sk_header u) + 1 < 2 ^ 32" using assms(2) c(1) by (simp add: cache_room_def)
  then have "length (sk_header u) < 2 ^ 32" by simp
  then show ?thesis using c find_batch_ok [OF c(3) _ assms(3), of "ne_id e" e err]
    by (auto simp: find_user_ent2local_byid_def user_map_def group_map_def cache_ok_def split: option.split)
qed

lemma find_group_ok:
  assumes "cache_ok c" and "cache_room c" and "\<forall>n. malloc (Alloc_vector n)"
  shows "\<exists>err' c'. find_group_ent2local_byid malloc c e err =
      Some (e\<lparr>ne_localid := (case group_map c (ne_id e) of Some l \<Rightarrow> l | None \<Rightarrow> ne_localid e)\<rparr>, err', c') \<and>
    err' = (case group_map c (ne_id e) of Some l \<Rightarrow> err | None \<Rightarrow> USERS_ENOENT) \<and> cache_ok c' \<and> user_map c' = user_map c \<and> group_map c' = group_map c"
proof -
  obtain u g where c: "nd_u_sl (uc_domain c) = Some u" "nd_g_sl (uc_domain c) = Some g" "list_ok (uc_heap c) u" "list_ok (uc_heap c) g"
      "\<forall>e. uc_heap c e \<noteq> None \<longrightarrow> e < uc_fresh c" using assms(1) by (rule cache_okE) blast
  have "length (sk_header g) + 1 < 2 ^ 32" using assms(2) c(2) by (simp add: cache_room_def)
  then have "length (sk_header g) < 2 ^ 32" by simp
  then show ?thesis using c find_batch_ok [OF c(4) _ assms(3), of "ne_id e" e err]
    by (auto simp: find_group_ent2local_byid_def user_map_def group_map_def cache_ok_def split: option.split)
qed

text \<open>A cache that has just been made is empty.\<close>

lemma init_domain_list_ok:
  assumes "unat sizeof_sl < 65536" and "n \<noteq> 255"
  shows "\<exists>sl. init_domain_list sizeof_sl (fst (get_size_sl_skiplist sizeof_sl n)) = Some (0, sl) \<and> list_ok (\<lambda>_. None) sl \<and> sk_header sl = []"
proof -
  obtain siz k where s: "get_size_sl_skiplist sizeof_sl n = (siz, k)" by fastforce
  obtain sl sl' where "create_sl_skiplist True sizeof_sl zero_sl (Some zero_sl) 0 siz = Some sl" "init_sl_skiplist (Some (byid_ops (\<lambda>_. None))) sl = Some (0, sl')"
      "sl_ok (remoteid_at (\<lambda>_. None)) sl'" "flat sl'" "sk_header sl' = []"
    using placed_skiplist_ok [OF assms s, of zero_sl True zero_sl 0 "byid_ops (\<lambda>_. None)" "remoteid_at (\<lambda>_. None)"] by (auto simp: zero_sl_def)
  then show ?thesis by (simp add: init_domain_list_def s list_ok_def)
qed

lemma size_small:
  assumes "unat sizeof_sl < 65536" and "\<And>n p. lanes n p \<noteq> 255"
  shows "0 < unat (fst (get_size_sl_skiplist sizeof_sl (lanes n p)))" "unat (fst (get_size_sl_skiplist sizeof_sl (lanes n' p'))) < 2 ^ 31"
proof -
  obtain siz k siz' k' where "get_size_sl_skiplist sizeof_sl (lanes n p) = (siz, k)" "get_size_sl_skiplist sizeof_sl (lanes n' p') = (siz', k')"
    by fastforce
  then show "0 < unat (fst (get_size_sl_skiplist sizeof_sl (lanes n p)))" "unat (fst (get_size_sl_skiplist sizeof_sl (lanes n' p'))) < 2 ^ 31"
    using size_lanes(2,5) [OF assms(1) assms(2) [of n p]] size_lanes(2,5) [OF assms(1) assms(2) [of n' p']] assms(1) by fastforce+
qed

lemma new_cache_ok:
  assumes "unat sizeof_sl < 65536" and "\<And>n p. lanes n p \<noteq> 255"
  shows "\<exists>c. create_net_userscache_byid lanes sizeof_sl True = Some (Some c) \<and> cache_ok c \<and> cache_room c \<and> cache_count c = 0 \<and> user_map c = Map.empty \<and>
    group_map c = Map.empty \<and> nd_flags (uc_domain c) = NET_DOMAIN_FLAG_ALLOC"
proof -
  let ?u = "lanes NET_NUMBER_REMOTE_USERS_DEFAULT SKIPLIST_PROB" and ?g = "lanes NET_NUMBER_REMOTE_GROUPS_DEFAULT SKIPLIST_PROB"
  obtain u where u: "init_domain_list sizeof_sl (fst (get_size_sl_skiplist sizeof_sl ?u)) = Some (0, u)" "list_ok (\<lambda>_. None) u" "sk_header u = []"
    using init_domain_list_ok [OF assms] by blast
  obtain g where g: "init_domain_list sizeof_sl (fst (get_size_sl_skiplist sizeof_sl ?g)) = Some (0, g)" "list_ok (\<lambda>_. None) g" "sk_header g = []"
    using init_domain_list_ok [OF assms] by blast
  have pos: "0 < fst (get_size_sl_skiplist sizeof_sl ?u) + fst (get_size_sl_skiplist sizeof_sl ?g)"
    using size_small [of sizeof_sl lanes, OF assms, of NET_NUMBER_REMOTE_USERS_DEFAULT SKIPLIST_PROB]
      size_small(2) [of sizeof_sl lanes, OF assms, of NET_NUMBER_REMOTE_GROUPS_DEFAULT SKIPLIST_PROB] by (simp add: word_less_nat_alt unat_u32_plus)
  let ?d = "\<lparr>nd_flags = NET_DOMAIN_FLAG_ALLOC, nd_u_sl = Some u, nd_g_sl = Some g,
    nd_size = fst (get_size_sl_skiplist sizeof_sl ?u) + fst (get_size_sl_skiplist sizeof_sl ?g)\<rparr>"
  have "create_net_userscache_byid lanes sizeof_sl True = Some (Some \<lparr>uc_domain = ?d, uc_heap = \<lambda>_. None, uc_fresh = 1\<rparr>)"
    using u(1) g(1) pos by (simp add: create_net_userscache_byid_def get_size_net_domain_def init_net_domain_def Let_def)
  then show ?thesis using u(2,3) g(2,3)
    by (simp add: cache_ok_def cache_room_def cache_count_def user_map_def group_map_def list_map_def)
qed

text \<open>Clearing a cache that has been made this way frees a pointer into the middle of an allocation.\<close>

lemma clear_byid_unsafe:
  assumes "nd_flags (uc_domain c) = NET_DOMAIN_FLAG_ALLOC"
  shows "clear_net_userscache_byid c = None"
  using assms by (cases "nd_g_sl (uc_domain c)"; cases "nd_u_sl (uc_domain c)")
    (auto simp: clear_net_userscache_byid_def free_net_domain_def NET_DOMAIN_FLAG_ALLOC_def Option.bind_eq_None_conv split: prod.splits)

theorem userscache_add_refines_witness:
  "\<exists>c c'. create_net_userscache_byid (\<lambda>_ _. 3) 100 True = Some (Some c) \<and>
    add_net2local_map_byid (\<lambda>_. True) True c (entity_example\<lparr>ne_flags := NET_ENTITY_FLAG_USER, ne_id := 501, ne_localid := 1000\<rparr>) = Some (0, c') \<and>
    user_map c' 501 = Some 1000"
proof -
  let ?e = "entity_example\<lparr>ne_flags := NET_ENTITY_FLAG_USER, ne_id := 501, ne_localid := 1000\<rparr>"
  obtain c where c: "create_net_userscache_byid (\<lambda>_ _. 3) 100 True = Some (Some c)" "cache_ok c" "cache_room c" "user_map c = Map.empty"
    using new_cache_ok [of 100 "\<lambda>_ _. 3"] by auto
  have s: "add_spec ?e (user_map c) (group_map c) = (0, [501 \<mapsto> 1000], group_map c)"
    by (simp add: add_spec_def map_insert_def c(4) NET_ENTITY_FLAG_USER_def)
  have "name_readable ?e" by (simp add: name_readable_def entity_example_def)
  then show ?thesis using userscache_add_refines [OF c(2,3), of "\<lambda>_. True" ?e] c(1) unfolding s by auto
qed

section \<open>Lookups in the cache\<close>

text \<open>
  What the mapping of users relies on: a cache is a map for the users and one for the groups, and its \<open>find\<close> functions set the local id of an
  entity to the value of its id, when there is one.
\<close>

definition set_localid :: "net_entity_s \<Rightarrow> u32 option \<Rightarrow> net_entity_s" where
  "set_localid e l = (case l of Some n \<Rightarrow> e\<lparr>ne_localid := n\<rparr> | None \<Rightarrow> e)"

definition cached_id :: "(u32 \<rightharpoonup> u32) \<Rightarrow> u32 \<Rightarrow> u32 \<Rightarrow> u32 \<Rightarrow> u32 \<Rightarrow> u32" where
  "cached_id M conn loc unknown n = (if n = conn then loc else if n = 0 then 0 else case M n of Some l \<Rightarrow> l | None \<Rightarrow> unknown)"

locale ent_cache =
  fixes cache_inv :: "'c \<Rightarrow> bool"
    and users_of :: "'c \<Rightarrow> u32 \<rightharpoonup> u32"
    and groups_of :: "'c \<Rightarrow> u32 \<rightharpoonup> u32"
    and lookup_of :: "'c \<Rightarrow> users_cache_ops"
  assumes find_user: "cache_inv c \<Longrightarrow> map_option fst (find_user_ent2local (lookup_of c) e) = Some (set_localid e (users_of c (ne_id e)))"
    and find_group: "cache_inv c \<Longrightarrow> map_option fst (find_group_ent2local (lookup_of c) e) = Some (set_localid e (groups_of c (ne_id e)))"
begin

lemma p2l_cached:
  assumes "cache_inv c" and "im_flags m0 AND NET_IDMAPPING_FLAG_SHARED = 0" and "flags AND NET_IDMAPPING_FLAG_MAPBYID \<noteq> 0"
    and "im_flags m0 AND NET_IDMAPPING_FLAG_CACHE \<noteq> 0" and "im_cache m0 = Some (lookup_of c)"
  shows "call_user_p2l db (set_net_entity_map_func m0 flags) e =
      Some (e\<lparr>ne_localid := cached_id (users_of c) (gf_id (im_su m0)) (im_pw_uid m0) (im_unknown_uid m0) (ne_id e)\<rparr>)"
    and "call_group_p2l db (set_net_entity_map_func m0 flags) e =
      Some (e\<lparr>ne_localid := cached_id (groups_of c) (gf_id (im_sg m0)) (im_pw_gid m0) (im_unknown_gid m0) (ne_id e)\<rparr>)"
proof -
  note f = map_func_byid [OF assms(2,3) refl] and u = find_user [OF assms(1)] and g = find_group [OF assms(1)]
  show "call_user_p2l db (set_net_entity_map_func m0 flags) e =
      Some (e\<lparr>ne_localid := cached_id (users_of c) (gf_id (im_su m0)) (im_pw_uid m0) (im_unknown_uid m0) (ne_id e)\<rparr>)"
    using assms(4,5) by (auto simp: call_user_p2l_def f get_user_p2l_nonshared_byid_def call_lookup_user_def lookup_user_cache_def u cached_id_def
      set_localid_def Let_def split: option.split)
  show "call_group_p2l db (set_net_entity_map_func m0 flags) e =
      Some (e\<lparr>ne_localid := cached_id (groups_of c) (gf_id (im_sg m0)) (im_pw_gid m0) (im_unknown_gid m0) (ne_id e)\<rparr>)"
    using assms(4,5) by (auto simp: call_group_p2l_def f get_group_p2l_nonshared_byid_def call_lookup_group_def lookup_group_cache_def g cached_id_def
      set_localid_def Let_def split: option.split)
qed

end

text \<open>
  The functions of a cache by id. A search leaves the records and lists as they are, so that a lookup keeps only its answer. The allocator
  is part of the state.
\<close>

definition byid_inv :: "(sl_alloc \<Rightarrow> bool) \<times> net_userscache_s \<Rightarrow> bool" where
  "byid_inv s \<longleftrightarrow> (\<forall>n. fst s (Alloc_vector n)) \<and> cache_ok (snd s) \<and> cache_room (snd s)"

definition byid_lookup :: "(sl_alloc \<Rightarrow> bool) \<times> net_userscache_s \<Rightarrow> users_cache_ops" where
  "byid_lookup s =
     \<lparr>find_user_ent2local = \<lambda>e. map_option (\<lambda>(e, err, c). (e, err)) (find_user_ent2local_byid (fst s) (snd s) e 0),
      find_group_ent2local = \<lambda>e. map_option (\<lambda>(e, err, c). (e, err)) (find_group_ent2local_byid (fst s) (snd s) e 0)\<rparr>"

interpretation byid_cache: ent_cache byid_inv "\<lambda>s. user_map (snd s)" "\<lambda>s. group_map (snd s)" byid_lookup
proof
  fix s e
  assume "byid_inv s"
  then have s: "cache_ok (snd s)" "cache_room (snd s)" "\<forall>n. fst s (Alloc_vector n)" by (simp_all add: byid_inv_def)
  have eq: "e\<lparr>ne_localid := case l of Some l \<Rightarrow> l | None \<Rightarrow> ne_localid e\<rparr> = set_localid e l" for l by (simp add: set_localid_def split: option.split)
  show "map_option fst (find_user_ent2local (byid_lookup s) e) = Some (set_localid e (user_map (snd s) (ne_id e)))"
    using find_user_ok [OF s, of e 0] by (auto simp: byid_lookup_def eq)
  show "map_option fst (find_group_ent2local (byid_lookup s) e) = Some (set_localid e (group_map (snd s) (ne_id e)))"
    using find_group_ok [OF s, of e 0] by (auto simp: byid_lookup_def eq)
qed

text \<open>
  With a cache, a mapping by id gives an id of the server the local id the cache has for it: the connection's own user and root are
  treated first, and an id the cache does not know becomes the unknown user; the same holds for groups.
\<close>

lemma cached_byid_lookup:
  assumes "cache_ok c" and "cache_room c" and "\<forall>n. malloc (Alloc_vector n)" and "im_flags m0 AND NET_IDMAPPING_FLAG_SHARED = 0"
    and "flags AND NET_IDMAPPING_FLAG_MAPBYID \<noteq> 0" and "im_flags m0 AND NET_IDMAPPING_FLAG_CACHE \<noteq> 0" and "im_cache m0 = Some (byid_lookup (malloc, c))"
  shows "call_user_p2l db (set_net_entity_map_func m0 flags) u =
      Some (u\<lparr>ne_localid := cached_id (user_map c) (gf_id (im_su m0)) (im_pw_uid m0) (im_unknown_uid m0) (ne_id u)\<rparr>) \<and>
    call_group_p2l db (set_net_entity_map_func m0 flags) g =
      Some (g\<lparr>ne_localid := cached_id (group_map c) (gf_id (im_sg m0)) (im_pw_gid m0) (im_unknown_gid m0) (ne_id g)\<rparr>)"
  using byid_cache.p2l_cached [of "(malloc, c)" m0 flags db] assms by (simp add: byid_inv_def)

end
