(* ===== verification/Users_Setup.thy ===== *)
theory Users_Setup
  imports Users_Cache
begin

text \<open>
  Setting up the mapping of users of a connection, \<open>src/ssh/users/mapping.c\<close>, and the choice of the SFTP client, \<open>src/sftp/usermapping.c\<close>:
  the local user for ids that are not known, the user and group of the connection on the server, whether the ids are shared, and a cache that
  is filled with the users and groups the server lists.

  The context of the session, the commands that run on the server and the user database of the system are arguments. A flag is written with
  its macro where the value does not depend on how the macro is expanded; \<open>~\<close> in front of a macro \<open>1 << n\<close> is \<open>(~1) << n\<close>.
\<close>

section \<open>Data\<close>

definition NET_IDMAPPING_FLAG_STARTED :: u32 where "NET_IDMAPPING_FLAG_STARTED = 4"
definition NET_IDMAPPING_FLAG_COMPLETE :: u32 where "NET_IDMAPPING_FLAG_COMPLETE = 8"
definition NET_IDMAPPING_FLAG_SERVER :: u32 where "NET_IDMAPPING_FLAG_SERVER = 512"
definition GETENT_FLAG_USER :: u8 where "GETENT_FLAG_USER = 1"

definition not_shared_mask :: u32 where "not_shared_mask = push_bit 10 (NOT 1)"
definition not_started_mask :: u32 where "not_started_mask = push_bit 2 (NOT 1)"

datatype io_option_s = Io_zero | Io_int u32 | Io_pchar "u8 list" | Io_pvoid | Io_buffer mem u32

text \<open>
  What comes from outside: the two signal functions, \<open>getpwnam\<close> with the user and group id it gives, and the result of the command that lists
  the users together with what its callback gets for every line: the memory of the payload and its length, if there is one, and whether the
  line comes from the error stream.
\<close>

record users_env =
  ev_ssh2ctx :: "string \<Rightarrow> int \<times> io_option_s"
  ev_ssh2remote :: "string \<Rightarrow> int \<times> io_option_s"
  ev_getpwnam :: "u8 list \<Rightarrow> (u32 \<times> u32) option"
  ev_enumusers :: "int \<times> ((mem \<times> nat) option \<times> bool) list"

text \<open>The characters of a text of the source.\<close>

definition bytes_of :: "string \<Rightarrow> u8 list" where
  "bytes_of s = map (\<lambda>c. of_nat (of_char c)) s"

section \<open>The users of both sides\<close>

definition user_option :: "users_env \<Rightarrow> string \<Rightarrow> u8 list option" where
  "user_option env what = (case ev_ssh2ctx env what of (r, opt) \<Rightarrow> if r \<ge> 0 then (case opt of Io_pchar name \<Rightarrow> Some name | _ \<Rightarrow> None) else None)"

definition get_local_unknown_user :: "users_env \<Rightarrow> net_idmapping_s \<Rightarrow> net_idmapping_s" where
  "get_local_unknown_user env mapping =
     (let try1 = Option.bind (user_option env ''option:net.usermapping.user-unknown'') (ev_getpwnam env);
          try2 = Option.bind (user_option env ''option:net.usermapping.user-nobody'') (ev_getpwnam env);
          try3 = ev_getpwnam env (bytes_of ''unknown'');
          try4 = ev_getpwnam env (bytes_of ''nobody'');
          pwd = (case try1 of Some p \<Rightarrow> Some p | None \<Rightarrow> case try2 of Some p \<Rightarrow> Some p | None \<Rightarrow> case try3 of Some p \<Rightarrow> Some p | None \<Rightarrow> try4) in
      case pwd of
        Some (uid, gid) \<Rightarrow> mapping\<lparr>im_unknown_uid := uid, im_unknown_gid := gid\<rparr>
      | None \<Rightarrow> mapping\<lparr>im_unknown_uid := -1, im_unknown_gid := -1\<rparr>)"

definition get_buffer_option :: "users_env \<Rightarrow> string \<Rightarrow> string \<Rightarrow> int \<times> io_option_s" where
  "get_buffer_option env how what =
     (let answer = (\<lambda>(r, opt). if r \<ge> 0 then (case opt of Io_buffer m len \<Rightarrow> (0, opt) | _ \<Rightarrow> (-1, opt)) else (-1, opt)) in
      if how = ''remote'' then answer (ev_ssh2remote env what)
      else if how = ''context'' then answer (ev_ssh2ctx env what)
      else (-1, Io_zero))"

definition take_su :: "int \<times> io_option_s \<Rightarrow> net_idmapping_s \<Rightarrow> net_idmapping_s" where
  "take_su ro mapping = (case ro of (r, Io_buffer m len) \<Rightarrow> if r = 0 then mapping\<lparr>im_getent_su := m, im_getent_su_len := len\<rparr> else mapping | _ \<Rightarrow> mapping)"

definition take_sg :: "int \<times> io_option_s \<Rightarrow> net_idmapping_s \<Rightarrow> net_idmapping_s" where
  "take_sg ro mapping = (case ro of (r, Io_buffer m len) \<Rightarrow> if r = 0 then mapping\<lparr>im_getent_sg := m, im_getent_sg_len := len\<rparr> else mapping | _ \<Rightarrow> mapping)"

definition get_remote_identity_getents :: "users_env \<Rightarrow> net_idmapping_s \<Rightarrow> (int \<times> net_idmapping_s) option" where
  "get_remote_identity_getents env mapping = do {
     let user = get_buffer_option env ''remote'' ''info:getentuser:'';
     let mapping = take_su user mapping;
     (parsed_u, m, su) \<leftarrow> get_getent_fields (im_getent_su mapping) (im_getent_su_len mapping)
       ((im_su mapping)\<lparr>gf_flags := gf_flags (im_su mapping) OR GETENT_FLAG_USER\<rparr>);
     let mapping = mapping\<lparr>im_getent_su := m, im_su := su\<rparr>;
     let grp = get_buffer_option env ''remote'' ''info:getentgroup:'';
     let mapping = take_sg grp mapping;
     (parsed_g, m, sg) \<leftarrow> get_getent_fields (im_getent_sg mapping) (im_getent_sg_len mapping)
       ((im_sg mapping)\<lparr>gf_flags := gf_flags (im_sg mapping) OR GETENT_FLAG_GROUP\<rparr>);
     let mapping = mapping\<lparr>im_getent_sg := m, im_sg := sg\<rparr>;
     Some (if fst user = 0 \<and> parsed_u = 0 \<and> fst grp = 0 \<and> parsed_g = 0 then 0 else -1, mapping) }"

section \<open>Filling the cache\<close>

text \<open>
  The fields between colons: their number and, for the first \<open>count\<close> of them, where they start. Colons are overwritten when there is an array
  for the positions. An empty field at the end does not count.
\<close>

function scan_loop :: "nat \<Rightarrow> nat \<Rightarrow> mem \<Rightarrow> nat \<Rightarrow> nat \<Rightarrow> nat list \<Rightarrow> (mem \<times> nat \<times> nat list) option" where
  "scan_loop len count m pos ctr ptrs = do {
     sep \<leftarrow> c_memchr m pos 58 (len - pos);
     let ptrs = (if ctr < count then ptrs @ [pos] else ptrs);
     case sep of
       None \<Rightarrow> Some (m, ctr + 1, ptrs)
     | Some i \<Rightarrow>
         let m = (if count > 0 then m[i := 0] else m) in
         if i + 1 < len then scan_loop len count m (i + 1) (ctr + 1) ptrs else Some (m, ctr + 1, ptrs) }"
  by pat_completeness auto

lemma memchr_from: "c_memchr m pos c n = Some (Some i) \<Longrightarrow> pos \<le> i"
  by (auto simp: c_memchr_def Let_def split: if_splits)

termination scan_loop
  by (relation "measure (\<lambda>(len, count, m, pos, ctr, ptrs). len - pos)") (auto dest: memchr_from)

definition scan_str2array :: "mem \<Rightarrow> nat \<Rightarrow> nat \<Rightarrow> (mem \<times> nat \<times> nat list) option" where
  "scan_str2array data len count = scan_loop len count data 0 0 []"

text \<open>The entity of a line: its name is the first field, its id the third.\<close>

definition line_entity :: "u32 \<Rightarrow> u32 \<Rightarrow> mem \<Rightarrow> nat list \<Rightarrow> net_entity_s option" where
  "line_entity flags unknown m aptr = do {
     n \<leftarrow> c_strlen (drop (aptr ! 0) m);
     v \<leftarrow> c_atoi m (aptr ! 2);
     Some \<lparr>ne_flags = flags, ne_mem = Some (drop (aptr ! 0) m), ne_len = of_nat n, ne_domain = None, ne_id = word_of_int v, ne_localid = unknown\<rparr> }"

definition add_user2cache ::
    "user_db \<Rightarrow> (sl_alloc \<Rightarrow> bool) \<Rightarrow> bool \<Rightarrow> net_idmapping_s \<Rightarrow> mem \<Rightarrow> nat \<Rightarrow> net_userscache_s \<Rightarrow> net_userscache_s option" where
  "add_user2cache db malloc mem_ok mapping buffer len c = do {
     (_, count, _) \<leftarrow> scan_str2array buffer len 0;
     if count \<ge> 3 \<and> count \<le> 20 then do {
       (m, count, aptr) \<leftarrow> scan_str2array buffer len count;
       ent \<leftarrow> line_entity NET_ENTITY_FLAG_USER (im_unknown_uid mapping) m aptr;
       (ent, errcode) \<leftarrow> lookup_user_byname_system db ent;
       (result, c) \<leftarrow> add_net2local_map_byid malloc mem_ok c ent;
       Some c }
     else Some c }"

definition add_group2cache ::
    "user_db \<Rightarrow> (sl_alloc \<Rightarrow> bool) \<Rightarrow> bool \<Rightarrow> net_idmapping_s \<Rightarrow> mem \<Rightarrow> nat \<Rightarrow> net_userscache_s \<Rightarrow> net_userscache_s option" where
  "add_group2cache db malloc mem_ok mapping buffer len c = do {
     (_, count, _) \<leftarrow> scan_str2array buffer len 0;
     if count \<ge> 3 \<and> count \<le> 20 then do {
       (m, count, aptr) \<leftarrow> scan_str2array buffer len count;
       ent \<leftarrow> line_entity NET_ENTITY_FLAG_GROUP (im_unknown_gid mapping) m aptr;
       (ent, errcode) \<leftarrow> lookup_group_byname_system db ent;
       (result, c) \<leftarrow> add_net2local_map_byid malloc mem_ok c ent;
       Some c }
     else Some c }"

text \<open>
  The callback for one line. The bytes of a payload, which stand behind the \<open>hdr\<close> bytes of its header, are moved to its start; what stood at
  the end stays there.
\<close>

definition cb_enumusers_exec ::
    "user_db \<Rightarrow> (sl_alloc \<Rightarrow> bool) \<Rightarrow> bool \<Rightarrow> nat \<Rightarrow> net_idmapping_s \<Rightarrow> (mem \<times> nat) option \<times> bool \<Rightarrow> net_userscache_s \<Rightarrow> net_userscache_s option" where
  "cb_enumusers_exec db malloc mem_ok hdr mapping recv c = (case fst recv of
     None \<Rightarrow> Some c
   | Some (payload, len) \<Rightarrow> do {
       bs \<leftarrow> mem_load payload hdr len;
       let buffer = bs @ drop len payload;
       if \<not> snd recv \<and> len > 5 then
         if take 5 buffer = bytes_of ''0001:'' then add_user2cache db malloc mem_ok mapping (drop 5 buffer) (len - 5) c
         else if take 5 buffer = bytes_of ''0002:'' then add_group2cache db malloc mem_ok mapping (drop 5 buffer) (len - 5) c
         else Some c
       else Some c })"

primrec enum_lines :: "((mem \<times> nat) option \<times> bool \<Rightarrow> net_userscache_s \<Rightarrow> net_userscache_s option) \<Rightarrow> ((mem \<times> nat) option \<times> bool) list \<Rightarrow>
    net_userscache_s \<Rightarrow> net_userscache_s option" where
  "enum_lines cb [] c = Some c"
| "enum_lines cb (l # ls) c = do { c \<leftarrow> cb l c; enum_lines cb ls c }"

definition get_remote_usersinfo ::
    "users_env \<Rightarrow> user_db \<Rightarrow> (sl_alloc \<Rightarrow> bool) \<Rightarrow> bool \<Rightarrow> nat \<Rightarrow> net_idmapping_s \<Rightarrow> net_userscache_s \<Rightarrow> (int \<times> net_userscache_s) option" where
  "get_remote_usersinfo env db malloc mem_ok hdr mapping c = do {
     c \<leftarrow> enum_lines (cb_enumusers_exec db malloc mem_ok hdr mapping) (snd (ev_enumusers env)) c;
     Some (fst (ev_enumusers env), c) }"

section \<open>The setup\<close>

text \<open>
  The cache for the flags of a mapping. A mapping that has just been initialised has the flag for ids; the cache by name is not modelled and
  has no result here.
\<close>

definition create_net_userscache :: "(u64 \<Rightarrow> u32 \<Rightarrow> u8) \<Rightarrow> u32 \<Rightarrow> bool \<Rightarrow> u32 \<Rightarrow> net_userscache_s option option" where
  "create_net_userscache lanes sizeof_sl mem_ok flags =
     (if flags AND NET_IDMAPPING_FLAG_MAPBYNAME \<noteq> 0 then None
      else if flags AND NET_IDMAPPING_FLAG_MAPBYID \<noteq> 0 then create_net_userscache_byid lanes sizeof_sl mem_ok
      else Some None)"

record users_build =
  bd_db :: user_db
  bd_malloc :: "sl_alloc \<Rightarrow> bool"
  bd_mem_ok :: bool
  bd_lanes :: "u64 \<Rightarrow> u32 \<Rightarrow> u8"
  bd_sizeof_sl :: u32
  bd_hdr :: nat

text \<open>Whether the ids are shared, as the context of the session says.\<close>

definition option_is :: "mem \<Rightarrow> u32 \<Rightarrow> string \<Rightarrow> bool option" where
  "option_is m len name = (if unat len = length name then do { bs \<leftarrow> mem_load m 0 (unat len); Some (bs = bytes_of name) } else Some False)"

definition set_shared :: "users_env \<Rightarrow> net_idmapping_s \<Rightarrow> net_idmapping_s option" where
  "set_shared env mapping = (case get_buffer_option env ''context'' ''option:net.usermapping.type'' of (r, opt) \<Rightarrow>
     if r = 0 then
       (case opt of
          Io_buffer m len \<Rightarrow> do {
            none \<leftarrow> option_is m len ''none'';
            shared \<leftarrow> option_is m len ''shared'';
            mapped \<leftarrow> option_is m len ''map'';
            nonshared \<leftarrow> option_is m len ''nonshared'';
            Some (if none \<or> shared then mapping\<lparr>im_flags := im_flags mapping OR NET_IDMAPPING_FLAG_SHARED\<rparr>
              else if mapped \<or> nonshared then mapping\<lparr>im_flags := im_flags mapping AND not_shared_mask\<rparr>
              else mapping) }
        | _ \<Rightarrow> Some mapping)
     else Some (mapping\<lparr>im_flags := im_flags mapping AND not_shared_mask\<rparr>))"

definition make_cache :: "users_build \<Rightarrow> users_env \<Rightarrow> net_idmapping_s \<Rightarrow> (net_idmapping_s \<times> net_userscache_s option) option" where
  "make_cache bd env mapping =
     (if im_flags mapping AND NET_IDMAPPING_FLAG_SHARED = 0 then do {
        cache \<leftarrow> create_net_userscache (bd_lanes bd) (bd_sizeof_sl bd) (bd_mem_ok bd) (im_flags mapping);
        case cache of
          None \<Rightarrow> Some (mapping\<lparr>im_cache := None\<rparr>, None)
        | Some c \<Rightarrow> do {
            (result, c) \<leftarrow> get_remote_usersinfo env (bd_db bd) (bd_malloc bd) (bd_mem_ok bd) (bd_hdr bd) mapping c;
            let flags = (if result > 0 then im_flags mapping OR NET_IDMAPPING_FLAG_CACHE else im_flags mapping);
            Some (mapping\<lparr>im_flags := flags, im_cache := Some (byid_lookup (bd_malloc bd, c))\<rparr>, Some c) } }
      else Some (mapping, None))"

definition setup_net_usermapping :: "users_build \<Rightarrow> users_env \<Rightarrow> net_idmapping_s \<Rightarrow> u32 \<Rightarrow> (int \<times> net_idmapping_s \<times> net_userscache_s option) option" where
  "setup_net_usermapping bd env mapping flags =
     (if flags AND (NET_IDMAPPING_FLAG_MAPBYID OR NET_IDMAPPING_FLAG_MAPBYNAME) = 0 then Some (-1, mapping, None)
      else if im_flags mapping AND (NET_IDMAPPING_FLAG_STARTED OR NET_IDMAPPING_FLAG_COMPLETE) \<noteq> 0 then
        Some (0, mapping\<lparr>im_setup := Some Setup_done\<rparr>, None)
      else do {
        let mapping = mapping\<lparr>im_flags := im_flags mapping OR NET_IDMAPPING_FLAG_STARTED\<rparr>;
        let mapping = get_local_unknown_user env mapping;
        (result, mapping) \<leftarrow> get_remote_identity_getents env mapping;
        (mapping, cache) \<leftarrow> (if result = 0 then do {
            mapping \<leftarrow> set_shared env mapping;
            (mapping, cache) \<leftarrow> make_cache bd env mapping;
            Some (mapping\<lparr>im_flags := im_flags mapping OR (flags AND (NET_IDMAPPING_FLAG_MAPBYID OR NET_IDMAPPING_FLAG_MAPBYNAME OR
              NET_IDMAPPING_FLAG_CLIENT OR NET_IDMAPPING_FLAG_SERVER))\<rparr>, cache) }
          else Some (mapping, None));
        let mapping = set_net_entity_map_func mapping flags;
        Some (1, mapping\<lparr>im_setup := Some Setup_done, im_flags := im_flags mapping AND not_started_mask OR NET_IDMAPPING_FLAG_COMPLETE\<rparr>, cache) })"

definition init_ssh_usermapping :: "u32 \<Rightarrow> u32 \<Rightarrow> net_idmapping_s" where
  "init_ssh_usermapping pw_uid pw_gid = (init_net_idmapping pw_uid pw_gid)\<lparr>im_setup := Some Setup_net\<rparr>"

text \<open>The call of the SFTP client through the pointer \<open>setup\<close>: versions after 3 send names.\<close>

definition get_sftp_usermapping :: "users_build \<Rightarrow> users_env \<Rightarrow> u32 \<Rightarrow> net_idmapping_s \<Rightarrow> (int \<times> net_idmapping_s \<times> net_userscache_s option) option" where
  "get_sftp_usermapping bd env version mapping = do {
     let flag = (if version > 3 then NET_IDMAPPING_FLAG_MAPBYNAME else NET_IDMAPPING_FLAG_MAPBYID);
     setup \<leftarrow> im_setup mapping;
     case setup of
       Setup_net \<Rightarrow> setup_net_usermapping bd env mapping flag
     | Setup_done \<Rightarrow> Some (0, mapping, None) }"

section \<open>Reading a line\<close>

text \<open>The number of fields: one more than the colons that have something behind them.\<close>

definition colon_fields :: "u8 list \<Rightarrow> nat" where
  "colon_fields l = (if l = [] then 0 else length (filter (\<lambda>b. b = 58) (butlast l)) + 1)"

lemma colon_fields_none: "58 \<notin> set l \<Longrightarrow> l \<noteq> [] \<Longrightarrow> colon_fields l = 1"
  using in_set_butlastD [of 58 l] by (auto simp: colon_fields_def filter_empty_conv)

lemma colon_fields_cons: "58 \<notin> set f \<Longrightarrow> colon_fields (f @ 58 # r) = colon_fields r + 1"
  by (auto simp: colon_fields_def butlast_append filter_empty_conv)

lemma memchr_cases:
  assumes "pos + n \<le> length m"
  obtains "c_memchr m pos c n = Some None" "c \<notin> set (take n (drop pos m))"
  | f r where "c_memchr m pos c n = Some (Some (pos + length f))" "take n (drop pos m) = f @ c # r" "c \<notin> set f"
proof (cases "c \<in> set (take n (drop pos m))")
  case False
  then have t: "takeWhile (\<lambda>b. b \<noteq> c) (take n (drop pos m)) = take n (drop pos m)" by (simp add: takeWhile_eq_all_conv) blast
  have "length (takeWhile (\<lambda>b. b \<noteq> c) (take n (drop pos m))) = n" using arg_cong [OF t, of length] assms by simp
  then show ?thesis using False assms by (intro that(1)) (simp_all add: c_memchr_def)
next
  case True
  then obtain f r where fr: "take n (drop pos m) = f @ c # r" "c \<notin> set f" by (metis split_list_first)
  have "length f < n" using arg_cong [OF fr(1), of length] assms by simp
  moreover have "length (takeWhile (\<lambda>b. b \<noteq> c) (take n (drop pos m))) = length f" unfolding fr(1) using fr(2) by (simp add: takeWhile_upto)
  ultimately show ?thesis using fr assms by (intro that(2) [of f r]) (simp_all add: c_memchr_def)
qed

declare scan_loop.simps [simp del]

lemma scan_loop_fields:
  assumes "pos < len" and "len \<le> length m"
  shows "\<exists>m' ps. scan_loop len count m pos ctr ptrs = Some (m', ctr + colon_fields (drop pos (take len m)), ptrs @ ps) \<and>
    length m' = length m \<and> take pos m' = take pos m \<and> (count = 0 \<longrightarrow> m' = m)"
  using assms
proof (induction len count m pos ctr ptrs rule: scan_loop.induct)
  case (1 len count m pos ctr ptrs)
  have r: "drop pos (take len m) = take (len - pos) (drop pos m)" by (simp add: drop_take)
  let ?ptrs = "if ctr < count then ptrs @ [pos] else ptrs"
  have ne: "take (len - pos) (drop pos m) \<noteq> []" using "1.prems" by simp
  from "1.prems" have "pos + (len - pos) \<le> length m" by simp
  then show ?case
  proof (cases rule: memchr_cases [where c = 58])
    case 1
    then show ?thesis using colon_fields_none [OF _ ne] unfolding r by (simp add: scan_loop.simps [of len count m pos] 1(1))
  next
    case (2 f r')
    let ?m = "if 0 < count then m[pos + length f := 0] else m" and ?i = "pos + length f"
    have len: "length f + 1 + length r' = len - pos" using arg_cong [OF 2(2), of length] "1.prems" by simp
    have cf: "colon_fields (drop pos (take len m)) = colon_fields r' + 1" unfolding r 2(2) using 2(3) by (simp add: colon_fields_cons)
    show ?thesis
    proof (cases "?i + 1 < len")
      case False
      then have "length r' = 0" using len by linarith
      then show ?thesis unfolding cf using False by (simp add: scan_loop.simps [of len count m pos] 2(1) colon_fields_def)
    next
      case True
      have r': "drop (?i + 1) (take len ?m) = r'"
      proof -
        have "drop (length f + 1) (drop pos (take len m)) = r'" unfolding r 2(2) by simp
        then show ?thesis by (simp add: take_update_swap add.commute)
      qed
      have lm: "length ?m = length m" "len \<le> length ?m" using "1.prems" by simp_all
      obtain m' ps where ih: "scan_loop len count ?m (?i + 1) (ctr + 1) ?ptrs = Some (m', ctr + 1 + colon_fields r', ?ptrs @ ps)"
          "length m' = length m" "take (?i + 1) m' = take (?i + 1) ?m" "count = 0 \<longrightarrow> m' = ?m"
        using "1.IH" [OF 2(1) refl refl refl True True lm(2)] unfolding r' lm(1) by (simp del: One_nat_def) blast
      have "take pos m' = take pos m"
      proof -
        have "take pos (take (?i + 1) m') = take pos (take (?i + 1) ?m)" using ih(3) by (rule arg_cong)
        then show ?thesis by (simp add: min_def)
      qed
      then show ?thesis using ih(1,2,4) True unfolding cf by (auto simp: scan_loop.simps [of len count m pos] 2(1))
    qed
  qed
qed

lemma scan_step:
  assumes "58 \<notin> set f" and "length pre + length f < len"
  shows "scan_loop len count (pre @ f @ 58 # post) (length pre) ctr ptrs =
    (let m = (if count > 0 then pre @ f @ 0 # post else pre @ f @ 58 # post); ptrs = (if ctr < count then ptrs @ [length pre] else ptrs) in
     if length pre + length f + 1 < len then scan_loop len count m (length pre + length f + 1) (ctr + 1) ptrs else Some (m, ctr + 1, ptrs))"
proof -
  have "c_memchr (pre @ f @ 58 # post) (length pre) 58 (len - length pre) = Some (Some (length pre + length f))"
    by (rule memchr_found) (use assms in simp_all)
  moreover have "(pre @ f @ 58 # post)[length pre + length f := 0] = pre @ f @ 0 # post" by (simp add: list_update_append)
  ultimately show ?thesis by (simp add: scan_loop.simps [of len count "pre @ f @ 58 # post"] Let_def)
qed

text \<open>Of a line with a name, a password and a number, the second pass finds the name and the number.\<close>

lemma scan_line:
  fixes rest :: "u8 list"
  assumes "getent_start name pw num" and "3 \<le> count"
  defines "line \<equiv> name @ 58 # pw @ 58 # num @ 58 # rest"
  shows "\<exists>m ps. scan_str2array (line @ tail) (length line) count =
      Some ((name @ 0 # pw @ 0 # num @ [0]) @ m, colon_fields line, 0 # (length name + 1) # (length name + length pw + 2) # ps)"
proof -
  have g: "58 \<notin> set name" "58 \<notin> set pw" "58 \<notin> set num"
    using assms(1) digits_no_colon [of num] by (auto simp: getent_start_def)
  let ?p = "name @ 0 # pw @ 0 # num @ [0]" and ?ptrs = "[0, length name + 1, length name + length pw + 2]"
  have 1: "scan_str2array (line @ tail) (length line) count = scan_loop (length line) count (name @ 0 # pw @ 58 # num @ 58 # rest @ tail) (length name + 1) 1 [0]"
    using scan_step [OF g(1), of "[]" "length line" count "pw @ 58 # num @ 58 # rest @ tail" 0 "[]"] assms(2) by (simp add: scan_str2array_def line_def)
  have 2: "scan_loop (length line) count (name @ 0 # pw @ 58 # num @ 58 # rest @ tail) (length name + 1) 1 [0] =
      scan_loop (length line) count (name @ 0 # pw @ 0 # num @ 58 # rest @ tail) (length name + length pw + 2) 2 [0, length name + 1]"
    using scan_step [OF g(2), of "name @ [0]" "length line" count "num @ 58 # rest @ tail" 1 "[0]"] assms(2) by (simp add: line_def numeral_2_eq_2)
  have 3: "scan_loop (length line) count (name @ 0 # pw @ 0 # num @ 58 # rest @ tail) (length name + length pw + 2) 2 [0, length name + 1] =
      (if rest \<noteq> [] then scan_loop (length line) count (?p @ rest @ tail) (length ?p) 3 ?ptrs else Some (?p @ rest @ tail, 3, ?ptrs))"
    using scan_step [OF g(3), of "name @ 0 # pw @ [0]" "length line" count "rest @ tail" 2 "[0, length name + 1]"] assms(2)
    by (simp add: line_def numeral_2_eq_2 numeral_3_eq_3 add.assoc)
  have cf: "colon_fields line = 3 + colon_fields rest" using g by (simp add: line_def colon_fields_cons)
  show ?thesis
  proof (cases "rest = []")
    case True
    then show ?thesis unfolding 1 2 3 cf by (simp add: colon_fields_def)
  next
    case False
    have "drop (length p) (take (length p + length rest) (p @ rest @ tail)) = rest" for p by simp
    moreover have "length line = length ?p + length rest" by (simp add: line_def)
    ultimately have d: "drop (length ?p) (take (length line) (?p @ rest @ tail)) = rest" by metis
    obtain m ps where s: "scan_loop (length line) count (?p @ rest @ tail) (length ?p) 3 ?ptrs = Some (m, 3 + colon_fields rest, ?ptrs @ ps)"
        "length m = length (?p @ rest @ tail)" "take (length ?p) m = take (length ?p) (?p @ rest @ tail)"
      using scan_loop_fields [of "length ?p" "length line" "?p @ rest @ tail" count 3 ?ptrs] False unfolding d by (auto simp: line_def)
    have "take (length p) (p @ x) = p" for p x :: "u8 list" by simp
    then have "m = ?p @ drop (length ?p) m" using s(3) append_take_drop_id [of "length ?p" m] by metis
    then show ?thesis unfolding 1 2 3 cf using s(1) False by (metis append_Cons append_Nil)
  qed
qed

text \<open>What a line adds: the id of the entity and the local id for its name.\<close>

definition line_ok :: "u8 list \<times> u8 list \<times> u8 list \<times> u8 list \<Rightarrow> bool" where
  "line_ok l = (case l of (name, pw, num, rest) \<Rightarrow> getent_start name pw num \<and> colon_fields (name @ 58 # pw @ 58 # num @ 58 # rest) \<le> 20 \<and> length name + 1 < 2 ^ 32)"

definition line_bytes :: "u8 list \<times> u8 list \<times> u8 list \<times> u8 list \<Rightarrow> u8 list" where
  "line_bytes l = (case l of (name, pw, num, rest) \<Rightarrow> name @ 58 # pw @ 58 # num @ 58 # rest)"

definition line_pair :: "(u8 list \<Rightarrow> u32 option) \<Rightarrow> u32 \<Rightarrow> u8 list \<times> u8 list \<times> u8 list \<times> u8 list \<Rightarrow> u32 \<times> u32" where
  "line_pair db unknown l = (case l of (name, pw, num, rest) \<Rightarrow>
     (of_nat (digits_value num), case db name of Some n \<Rightarrow> n | None \<Rightarrow> unknown))"

definition read_entity :: "u32 \<Rightarrow> u32 \<Rightarrow> u8 list \<Rightarrow> u8 list \<Rightarrow> mem \<Rightarrow> net_entity_s" where
  "read_entity flags unknown name num m = \<lparr>ne_flags = flags, ne_mem = Some (name @ 0 # m), ne_len = of_nat (length name), ne_domain = None,
     ne_id = of_nat (digits_value num), ne_localid = unknown\<rparr>"

lemma line_entity_ok:
  assumes "getent_start name pw num" and "m = (name @ 0 # pw @ 0 # num @ [0]) @ x"
  shows "line_entity flags unknown m (0 # k # (length name + length pw + 2) # ps) = Some (read_entity flags unknown name num (pw @ 0 # num @ 0 # x))"
proof -
  have g: "0 \<notin> set name" "\<forall>d \<in> set num. c_isdigit d" "digits_value num < 2 ^ 31" using assms(1) by (simp_all add: getent_start_def)
  have "c_strlen m = Some (length name)" using strlen_prefix [OF g(1)] assms(2) by simp
  moreover have "c_atoi m (length name + length pw + 2) = Some (int (digits_value num))"
    using atoi_digits [OF g(2,3), of "name @ 0 # pw @ [0]" x] assms(2) by simp
  ultimately show ?thesis by (simp add: line_entity_def read_entity_def assms(2))
qed

lemma scan_count:
  assumes "line \<noteq> []"
  shows "\<exists>ps. scan_str2array (line @ tail) (length line) 0 = Some (line @ tail, colon_fields line, ps)"
  using scan_loop_fields [of 0 "length line" "line @ tail" 0 0 "[]"] assms by (auto simp: scan_str2array_def)

text \<open>A line is read as one entity; the lookup by name then only changes its local id.\<close>

lemma scan_entity:
  assumes "line_ok (name, pw, num, rest)"
  defines "line \<equiv> line_bytes (name, pw, num, rest)"
  obtains ps aptr m where "scan_str2array (line @ tail) (length line) 0 = Some (line @ tail, colon_fields line, ps)"
    "3 \<le> colon_fields line" "colon_fields line \<le> 20"
    "scan_str2array (line @ tail) (length line) (colon_fields line) = Some (name @ 0 # m, colon_fields line, aptr)"
    "line_entity flags unknown (name @ 0 # m) aptr = Some (read_entity flags unknown name num m)"
proof -
  have l: "line = name @ 58 # pw @ 58 # num @ 58 # rest" "getent_start name pw num" "colon_fields line \<le> 20"
    using assms(1) by (simp_all add: line_def line_bytes_def line_ok_def)
  have g: "58 \<notin> set name" "58 \<notin> set pw" "58 \<notin> set num" using l(2) digits_no_colon [of num] by (auto simp: getent_start_def)
  have c3: "3 \<le> colon_fields line" using g by (simp add: l(1) colon_fields_cons)
  obtain ps where 1: "scan_str2array (line @ tail) (length line) 0 = Some (line @ tail, colon_fields line, ps)" using scan_count [of line tail] l(1) by auto
  obtain m qs where 2: "scan_str2array (line @ tail) (length line) (colon_fields line) =
      Some ((name @ 0 # pw @ 0 # num @ [0]) @ m, colon_fields line, 0 # (length name + 1) # (length name + length pw + 2) # qs)"
    using scan_line [OF l(2) c3, of rest tail] unfolding l(1) by blast
  show ?thesis using that [OF 1 c3 l(3), of "pw @ 0 # num @ 0 # m"] 2 line_entity_ok [OF l(2) refl] by simp
qed

lemma name_entity:
  assumes "line_ok (name, pw, num, rest)" and ent_def: "ent = read_entity flags unknown name num m"
  shows "\<exists>err. lookup_user_byname_system db ent = Some (ent\<lparr>ne_localid := snd (line_pair (db_uid_byname db) unknown (name, pw, num, rest))\<rparr>, err)"
    and "\<exists>err. lookup_group_byname_system db ent = Some (ent\<lparr>ne_localid := snd (line_pair (db_gid_byname db) unknown (name, pw, num, rest))\<rparr>, err)"
    and "name_readable (ent\<lparr>ne_localid := n\<rparr>)"
proof -
  have l: "unat (of_nat (length name) :: u32) = length name" "0 \<notin> set name"
    using assms(1) by (simp_all add: line_ok_def getent_start_def unsigned_of_nat take_bit_nat_eq_self)
  have t: "takeWhile (\<lambda>b. b \<noteq> 0) (name @ [0]) = name" using l(2) by (subst takeWhile_append2) auto
  have m: "stack_name ent = Some (name @ [0])"
    using stack_name_eq [of ent "name @ 0 # m"] assms(1) l(1) by (simp add: ent_def read_entity_def line_ok_def)
  show "\<exists>err. lookup_user_byname_system db ent = Some (ent\<lparr>ne_localid := snd (line_pair (db_uid_byname db) unknown (name, pw, num, rest))\<rparr>, err)"
    unfolding lookup_user_byname_system_def by (simp add: m t) (simp add: ent_def read_entity_def get_local_uid_byname_def line_pair_def split: option.split)
  show "\<exists>err. lookup_group_byname_system db ent = Some (ent\<lparr>ne_localid := snd (line_pair (db_gid_byname db) unknown (name, pw, num, rest))\<rparr>, err)"
    unfolding lookup_group_byname_system_def by (simp add: m t) (simp add: ent_def read_entity_def get_local_gid_byname_def line_pair_def split: option.split)
  show "name_readable (ent\<lparr>ne_localid := n\<rparr>)" using l(1) by (simp add: name_readable_def ent_def read_entity_def)
qed

lemma map_insert_first: "snd (map_insert M e) = [ne_id e \<mapsto> ne_localid e] ++ M"
  by (auto simp: map_insert_def fun_eq_iff map_add_def split: option.split)

lemma add_user_ok:
  assumes "line_ok l" and "cache_ok c" and "cache_count c + 1 < 2 ^ 32" and "\<forall>n. malloc (Alloc_vector n)"
  shows "\<exists>c'. add_user2cache db malloc True mapping (line_bytes l @ tail) (length (line_bytes l)) c = Some c' \<and> cache_ok c' \<and>
    cache_count c' \<le> cache_count c + 1 \<and> user_map c' = map_of [line_pair (db_uid_byname db) (im_unknown_uid mapping) l] ++ user_map c \<and>
    group_map c' = group_map c"
proof -
  obtain name pw num rest where l: "l = (name, pw, num, rest)" by (cases l) blast
  obtain ps aptr m where s: "scan_str2array (line_bytes l @ tail) (length (line_bytes l)) 0 = Some (line_bytes l @ tail, colon_fields (line_bytes l), ps)"
    "3 \<le> colon_fields (line_bytes l)" "colon_fields (line_bytes l) \<le> 20"
    "scan_str2array (line_bytes l @ tail) (length (line_bytes l)) (colon_fields (line_bytes l)) = Some (name @ 0 # m, colon_fields (line_bytes l), aptr)"
    "line_entity NET_ENTITY_FLAG_USER (im_unknown_uid mapping) (name @ 0 # m) aptr =
      Some (read_entity NET_ENTITY_FLAG_USER (im_unknown_uid mapping) name num m)"
    using scan_entity [OF assms(1) [unfolded l]] unfolding l by blast
  let ?ent = "read_entity NET_ENTITY_FLAG_USER (im_unknown_uid mapping) name num m"
  let ?e = "?ent\<lparr>ne_localid := snd (line_pair (db_uid_byname db) (im_unknown_uid mapping) l)\<rparr>"
  obtain err where n: "lookup_user_byname_system db ?ent = Some (?e, err)" "name_readable ?e"
    using name_entity(1,3) [OF assms(1) [unfolded l] refl] unfolding l by blast
  obtain res c' where a: "add_net2local_map_byid malloc True c ?e = Some (res, c')" "cache_ok c'" "cache_count c' \<le> cache_count c + 1"
      "(res, user_map c', group_map c') = add_spec ?e (user_map c) (group_map c)"
    using cache_add_ok [OF assms(2) cache_count_room [OF assms(3)] assms(4) n(2)] by blast
  have "user_map c' = snd (map_insert (user_map c) ?e)" "group_map c' = group_map c"
    using a(4) by (simp_all add: add_spec_def read_entity_def NET_ENTITY_FLAG_USER_def split: prod.splits)
  then show ?thesis using s n(1) a(1-3) by (simp add: add_user2cache_def map_insert_first l line_pair_def read_entity_def)
qed

lemma add_group_ok:
  assumes "line_ok l" and "cache_ok c" and "cache_count c + 1 < 2 ^ 32" and "\<forall>n. malloc (Alloc_vector n)"
  shows "\<exists>c'. add_group2cache db malloc True mapping (line_bytes l @ tail) (length (line_bytes l)) c = Some c' \<and> cache_ok c' \<and>
    cache_count c' \<le> cache_count c + 1 \<and> group_map c' = map_of [line_pair (db_gid_byname db) (im_unknown_gid mapping) l] ++ group_map c \<and>
    user_map c' = user_map c"
proof -
  obtain name pw num rest where l: "l = (name, pw, num, rest)" by (cases l) blast
  obtain ps aptr m where s: "scan_str2array (line_bytes l @ tail) (length (line_bytes l)) 0 = Some (line_bytes l @ tail, colon_fields (line_bytes l), ps)"
    "3 \<le> colon_fields (line_bytes l)" "colon_fields (line_bytes l) \<le> 20"
    "scan_str2array (line_bytes l @ tail) (length (line_bytes l)) (colon_fields (line_bytes l)) = Some (name @ 0 # m, colon_fields (line_bytes l), aptr)"
    "line_entity NET_ENTITY_FLAG_GROUP (im_unknown_gid mapping) (name @ 0 # m) aptr =
      Some (read_entity NET_ENTITY_FLAG_GROUP (im_unknown_gid mapping) name num m)"
    using scan_entity [OF assms(1) [unfolded l]] unfolding l by blast
  let ?ent = "read_entity NET_ENTITY_FLAG_GROUP (im_unknown_gid mapping) name num m"
  let ?e = "?ent\<lparr>ne_localid := snd (line_pair (db_gid_byname db) (im_unknown_gid mapping) l)\<rparr>"
  obtain err where n: "lookup_group_byname_system db ?ent = Some (?e, err)" "name_readable ?e"
    using name_entity(2,3) [OF assms(1) [unfolded l] refl] unfolding l by blast
  obtain res c' where a: "add_net2local_map_byid malloc True c ?e = Some (res, c')" "cache_ok c'" "cache_count c' \<le> cache_count c + 1"
      "(res, user_map c', group_map c') = add_spec ?e (user_map c) (group_map c)"
    using cache_add_ok [OF assms(2) cache_count_room [OF assms(3)] assms(4) n(2)] by blast
  have "group_map c' = snd (map_insert (group_map c) ?e)" "user_map c' = user_map c"
    using a(4) by (simp_all add: add_spec_def read_entity_def NET_ENTITY_FLAG_USER_def NET_ENTITY_FLAG_GROUP_def split: prod.splits)
  then show ?thesis using s n(1) a(1-3) by (simp add: add_group2cache_def map_insert_first l line_pair_def read_entity_def)
qed

text \<open>
  What the callback gets for a line of the list: behind the header of the payload the code of users or groups and the line. \<open>True\<close> is a user.
\<close>

type_synonym enum_line = "bool \<times> u8 list \<times> u8 list \<times> u8 list \<times> u8 list"

definition enum_code :: "bool \<Rightarrow> u8 list" where
  "enum_code user = (if user then bytes_of ''0001:'' else bytes_of ''0002:'')"

definition recv_ok :: "nat \<Rightarrow> (mem \<times> nat) option \<times> bool \<Rightarrow> enum_line \<Rightarrow> bool" where
  "recv_ok hdr recv l \<longleftrightarrow> line_ok (snd l) \<and> \<not> snd recv \<and>
     (\<exists>h x. length h = hdr \<and> fst recv = Some (h @ (enum_code (fst l) @ line_bytes (snd l)) @ x, 5 + length (line_bytes (snd l))))"

definition enum_pairs :: "(u8 list \<Rightarrow> u32 option) \<Rightarrow> u32 \<Rightarrow> bool \<Rightarrow> enum_line list \<Rightarrow> (u32 \<times> u32) list" where
  "enum_pairs db unknown user ls = map (\<lambda>l. line_pair db unknown (snd l)) (filter (\<lambda>l. fst l = user) ls)"

lemma enum_code_bytes: "length (enum_code u) = 5" "enum_code True = bytes_of ''0001:''" "enum_code False = bytes_of ''0002:''"
    "bytes_of ''0001:'' \<noteq> bytes_of ''0002:''"
  by (simp_all add: enum_code_def bytes_of_def)

lemma enum_line_ok:
  assumes "recv_ok hdr recv l" and "cache_ok c" and "cache_count c + 1 < 2 ^ 32" and "\<forall>n. malloc (Alloc_vector n)"
  shows "\<exists>c'. cb_enumusers_exec db malloc True hdr mapping recv c = Some c' \<and> cache_ok c' \<and> cache_count c' \<le> cache_count c + 1 \<and>
    user_map c' = map_of (enum_pairs (db_uid_byname db) (im_unknown_uid mapping) True [l]) ++ user_map c \<and>
    group_map c' = map_of (enum_pairs (db_gid_byname db) (im_unknown_gid mapping) False [l]) ++ group_map c"
proof -
  let ?line = "line_bytes (snd l)" and ?code = "enum_code (fst l)"
  obtain h x where r: "line_ok (snd l)" "\<not> snd recv" "length h = hdr" "fst recv = Some (h @ (?code @ ?line) @ x, 5 + length ?line)"
    using assms(1) by (auto simp: recv_ok_def)
  have m: "mem_load (h @ (?code @ ?line) @ x) hdr (5 + length ?line) = Some (?code @ ?line)"
    using r(3) by (simp add: mem_load_def enum_code_bytes(1))
  have n: "5 < 5 + length ?line" using r(1) by (cases "snd l") (simp add: line_bytes_def)
  define tail where "tail = drop (5 + length ?line) (h @ (?code @ ?line) @ x)"
  have b: "take 5 ((?code @ ?line) @ tail) = ?code" "drop 5 ((?code @ ?line) @ tail) = ?line @ tail" by (simp_all add: enum_code_bytes(1))
  have "cb_enumusers_exec db malloc True hdr mapping recv c =
      (if ?code = bytes_of ''0001:'' then add_user2cache db malloc True mapping (?line @ tail) (length ?line) c
       else if ?code = bytes_of ''0002:'' then add_group2cache db malloc True mapping (?line @ tail) (length ?line) c else Some c)"
    unfolding cb_enumusers_exec_def r(4)
    by (simp only: option.case prod.case m Option.bind.bind_lunit Let_def tail_def [symmetric] b r(2) n add_diff_cancel_left' simp_thms if_True not_False_eq_True)
  then have cb: "cb_enumusers_exec db malloc True hdr mapping recv c =
      (if fst l then add_user2cache db malloc True mapping (?line @ tail) (length ?line) c else add_group2cache db malloc True mapping (?line @ tail) (length ?line) c)"
    using enum_code_bytes(4) by (cases "fst l") (auto simp: enum_code_def)
  show ?thesis
  proof (cases "fst l")
    case True
    then show ?thesis unfolding cb using add_user_ok [OF r(1) assms(2-4), of db mapping tail] by (auto simp: enum_pairs_def)
  next
    case False
    then show ?thesis unfolding cb using add_group_ok [OF r(1) assms(2-4), of db mapping tail] by (auto simp: enum_pairs_def)
  qed
qed

lemma enum_pairs_Cons: "map_of (enum_pairs db unknown user (l # ls)) = map_of (enum_pairs db unknown user ls) ++ map_of (enum_pairs db unknown user [l])"
  by (auto simp: enum_pairs_def fun_eq_iff map_add_def)

lemma enum_lines_ok:
  assumes "list_all2 (recv_ok hdr) rs ls" and "cache_ok c" and "cache_count c + length ls < 2 ^ 32" and "\<forall>n. malloc (Alloc_vector n)"
  shows "\<exists>c'. enum_lines (cb_enumusers_exec db malloc True hdr mapping) rs c = Some c' \<and> cache_ok c' \<and> cache_count c' \<le> cache_count c + length ls \<and>
    user_map c' = map_of (enum_pairs (db_uid_byname db) (im_unknown_uid mapping) True ls) ++ user_map c \<and>
    group_map c' = map_of (enum_pairs (db_gid_byname db) (im_unknown_gid mapping) False ls) ++ group_map c"
  using assms(1-3)
proof (induction rs ls arbitrary: c rule: list_all2_induct)
  case Nil
  then show ?case by (simp add: enum_pairs_def)
next
  case (Cons r rs l ls)
  obtain c1 where c1: "cb_enumusers_exec db malloc True hdr mapping r c = Some c1" "cache_ok c1" "cache_count c1 \<le> cache_count c + 1"
      "user_map c1 = map_of (enum_pairs (db_uid_byname db) (im_unknown_uid mapping) True [l]) ++ user_map c"
      "group_map c1 = map_of (enum_pairs (db_gid_byname db) (im_unknown_gid mapping) False [l]) ++ group_map c"
    using enum_line_ok [OF Cons.hyps(1) Cons.prems(1) _ assms(4)] Cons.prems(2) by fastforce
  obtain c2 where "enum_lines (cb_enumusers_exec db malloc True hdr mapping) rs c1 = Some c2" "cache_ok c2" "cache_count c2 \<le> cache_count c1 + length ls"
      "user_map c2 = map_of (enum_pairs (db_uid_byname db) (im_unknown_uid mapping) True ls) ++ user_map c1"
      "group_map c2 = map_of (enum_pairs (db_gid_byname db) (im_unknown_gid mapping) False ls) ++ group_map c1"
    using Cons.IH [OF c1(2)] Cons.prems(2) c1(3) by fastforce
  then show ?case using c1 by (simp add: enum_pairs_Cons [of _ _ _ l ls])
qed

section \<open>From the setup to a lookup\<close>

definition setup_identity :: "users_env \<Rightarrow> u32 \<Rightarrow> u32 \<Rightarrow> (int \<times> net_idmapping_s) option" where
  "setup_identity env uid gid = (let mapping = init_ssh_usermapping uid gid in
     get_remote_identity_getents env (get_local_unknown_user env (mapping\<lparr>im_flags := im_flags mapping OR NET_IDMAPPING_FLAG_STARTED\<rparr>)))"

lemma take_keeps [simp]:
  "im_flags (take_su ro m) = im_flags m" "im_pw_uid (take_su ro m) = im_pw_uid m" "im_pw_gid (take_su ro m) = im_pw_gid m"
  "im_flags (take_sg ro m) = im_flags m" "im_pw_uid (take_sg ro m) = im_pw_uid m" "im_pw_gid (take_sg ro m) = im_pw_gid m"
  by (simp_all add: take_su_def take_sg_def split: prod.split io_option_s.split)

lemma identity_keeps:
  assumes "get_remote_identity_getents env m = Some (r, m')"
  shows "im_flags m' = im_flags m" "im_pw_uid m' = im_pw_uid m" "im_pw_gid m' = im_pw_gid m"
  using assms by (auto simp: get_remote_identity_getents_def Let_def bind_eq_Some_conv)

lemma unknown_keeps:
  "im_flags (get_local_unknown_user env m) = im_flags m" "im_pw_uid (get_local_unknown_user env m) = im_pw_uid m"
  "im_pw_gid (get_local_unknown_user env m) = im_pw_gid m"
  by (simp_all add: get_local_unknown_user_def Let_def split: option.split prod.split)

lemma setup_identity_flags:
  assumes "setup_identity env uid gid = Some (r, m)"
  shows "im_flags m = 1048581" "im_pw_uid m = uid" "im_pw_gid m = gid"
  using identity_keeps [OF assms [unfolded setup_identity_def Let_def]]
  by (simp_all add: unknown_keeps init_ssh_usermapping_def init_net_idmapping_def set_net_entity_map_func_def Let_def NET_IDMAPPING_FLAG_INIT_def
    NET_IDMAPPING_FLAG_SHARED_def NET_IDMAPPING_FLAG_MAPBYID_def NET_IDMAPPING_FLAG_MAPBYNAME_def NET_IDMAPPING_FLAG_STARTED_def)

lemma p2l_keeps:
  assumes "im_p2l m = Some P2l_nonshared_byid"
  shows "call_user_p2l db (m\<lparr>im_setup := x, im_flags := y\<rparr>) e = call_user_p2l db m e"
    and "call_group_p2l db (m\<lparr>im_setup := x, im_flags := y\<rparr>) e = call_group_p2l db m e"
  using assms by (cases "im_lookup m"; simp add: call_user_p2l_def call_group_p2l_def get_user_p2l_nonshared_byid_def get_group_p2l_nonshared_byid_def
    call_lookup_user_def call_lookup_group_def lookup_user_cache_def lookup_group_cache_def Let_def)+

text \<open>The cache that is made for ids that are not shared.\<close>

lemma make_cache_ok:
  assumes "im_flags m = 1048576" and "bd_mem_ok bd" and "unat (bd_sizeof_sl bd) < 65536" and "\<And>n p. bd_lanes bd n p \<noteq> 255"
    and "\<forall>n. bd_malloc bd (Alloc_vector n)" and "list_all2 (recv_ok (bd_hdr bd)) (snd (ev_enumusers env)) ls" and "length ls + 1 < 2 ^ 32"
    and "0 < fst (ev_enumusers env)"
  shows "\<exists>c. make_cache bd env m = Some (m\<lparr>im_flags := im_flags m OR NET_IDMAPPING_FLAG_CACHE, im_cache := Some (byid_lookup (bd_malloc bd, c))\<rparr>, Some c) \<and>
    byid_inv (bd_malloc bd, c) \<and> user_map c = map_of (enum_pairs (db_uid_byname (bd_db bd)) (im_unknown_uid m) True ls) \<and>
    group_map c = map_of (enum_pairs (db_gid_byname (bd_db bd)) (im_unknown_gid m) False ls)"
proof -
  obtain c0 where c0: "create_net_userscache_byid (bd_lanes bd) (bd_sizeof_sl bd) True = Some (Some c0)" "cache_ok c0" "cache_count c0 = 0"
      "user_map c0 = Map.empty" "group_map c0 = Map.empty"
    using new_cache_ok [OF assms(3), of "bd_lanes bd"] assms(4) by blast
  have f: "im_flags m AND NET_IDMAPPING_FLAG_SHARED = 0" "im_flags m AND NET_IDMAPPING_FLAG_MAPBYNAME = 0" "im_flags m AND NET_IDMAPPING_FLAG_MAPBYID \<noteq> 0"
    by (simp_all add: assms(1) NET_IDMAPPING_FLAG_SHARED_def NET_IDMAPPING_FLAG_MAPBYNAME_def NET_IDMAPPING_FLAG_MAPBYID_def)
  obtain c where c: "enum_lines (cb_enumusers_exec (bd_db bd) (bd_malloc bd) True (bd_hdr bd) m) (snd (ev_enumusers env)) c0 = Some c" "cache_ok c"
      "cache_count c \<le> length ls" "user_map c = map_of (enum_pairs (db_uid_byname (bd_db bd)) (im_unknown_uid m) True ls)"
      "group_map c = map_of (enum_pairs (db_gid_byname (bd_db bd)) (im_unknown_gid m) False ls)"
    using enum_lines_ok [OF assms(6) c0(2) _ assms(5), of "bd_db bd" m] assms(7) c0(3-5) by auto
  have "byid_inv (bd_malloc bd, c)" using c(2,3) assms(5,7) cache_count_room [of c] by (simp add: byid_inv_def)
  then show ?thesis using c f c0(1) assms(2,8)
    by (simp add: make_cache_def create_net_userscache_def get_remote_usersinfo_def)
qed

lemma set_shared_map:
  assumes "ev_ssh2ctx env ''option:net.usermapping.type'' = (r, Io_buffer (bytes_of ''map'' @ x) 3)" and "0 \<le> r"
  shows "set_shared env m = Some (m\<lparr>im_flags := im_flags m AND not_shared_mask\<rparr>)"
proof -
  have "get_buffer_option env ''context'' ''option:net.usermapping.type'' = (0, Io_buffer (bytes_of ''map'' @ x) 3)"
    using assms by (simp add: get_buffer_option_def)
  moreover have "length (bytes_of ''map'') = 3" by (simp add: bytes_of_def)
  ultimately show ?thesis by (simp add: set_shared_def option_is_def mem_load_def)
qed

text \<open>
  The mapping the SFTP client of version 3 sets up for ids that are not shared gives a user id of the server the local id of the user with
  the name the server has listed for this id, and the unknown user when the name does not exist or the id is not listed; the user of the
  connection and root come first. The same holds for groups. This goes from the lines the server sends through the parser, the lookup of the
  names, the cache and its skip lists up to the mapping of an attribute.
\<close>

lemma setup_users_mapped:
  assumes "setup_identity env uid gid = Some (0, mi)" and "ev_ssh2ctx env ''option:net.usermapping.type'' = (r, Io_buffer (bytes_of ''map'' @ x) 3)" and "0 \<le> r"
    and "bd_mem_ok bd" and "unat (bd_sizeof_sl bd) < 65536" and "\<And>n p. bd_lanes bd n p \<noteq> 255" and "\<forall>n. bd_malloc bd (Alloc_vector n)"
    and "list_all2 (recv_ok (bd_hdr bd)) (snd (ev_enumusers env)) ls" and "length ls + 1 < 2 ^ 32" and "0 < fst (ev_enumusers env)"
  shows "\<exists>m c. get_sftp_usermapping bd env 3 (init_ssh_usermapping uid gid) = Some (1, m, Some c) \<and>
    (\<forall>u. call_user_p2l db m u = Some (u\<lparr>ne_localid := cached_id (map_of (enum_pairs (db_uid_byname (bd_db bd)) (im_unknown_uid mi) True ls))
      (gf_id (im_su mi)) uid (im_unknown_uid mi) (ne_id u)\<rparr>)) \<and>
    (\<forall>g. call_group_p2l db m g = Some (g\<lparr>ne_localid := cached_id (map_of (enum_pairs (db_gid_byname (bd_db bd)) (im_unknown_gid mi) False ls))
      (gf_id (im_sg mi)) gid (im_unknown_gid mi) (ne_id g)\<rparr>))"
proof -
  let ?start = "init_ssh_usermapping uid gid" and ?id = NET_IDMAPPING_FLAG_MAPBYID
  note i = setup_identity_flags [OF assms(1)]
  let ?mask = "mi\<lparr>im_flags := im_flags mi AND not_shared_mask\<rparr>"
  have f1: "im_flags ?mask = 1048576" by (simp add: i(1) not_shared_mask_def)
  obtain c where c: "make_cache bd env ?mask = Some (?mask\<lparr>im_flags := im_flags ?mask OR NET_IDMAPPING_FLAG_CACHE, im_cache := Some (byid_lookup (bd_malloc bd, c))\<rparr>, Some c)"
      "byid_inv (bd_malloc bd, c)" "user_map c = map_of (enum_pairs (db_uid_byname (bd_db bd)) (im_unknown_uid ?mask) True ls)"
      "group_map c = map_of (enum_pairs (db_gid_byname (bd_db bd)) (im_unknown_gid ?mask) False ls)"
    using make_cache_ok [OF f1 assms(4-10)] by blast
  define m2 where "m2 = mi\<lparr>im_flags := 9437184, im_cache := Some (byid_lookup (bd_malloc bd, c))\<rparr>"
  have m0: "im_setup ?start = Some Setup_net" "im_flags ?start AND (NET_IDMAPPING_FLAG_STARTED OR NET_IDMAPPING_FLAG_COMPLETE) = 0"
    by (simp_all add: init_ssh_usermapping_def init_net_idmapping_def set_net_entity_map_func_def Let_def NET_IDMAPPING_FLAG_INIT_def
      NET_IDMAPPING_FLAG_SHARED_def NET_IDMAPPING_FLAG_MAPBYID_def NET_IDMAPPING_FLAG_MAPBYNAME_def NET_IDMAPPING_FLAG_STARTED_def
      NET_IDMAPPING_FLAG_COMPLETE_def)
  let ?m = "(set_net_entity_map_func m2 ?id)\<lparr>im_setup := Some Setup_done,
    im_flags := im_flags (set_net_entity_map_func m2 ?id) AND not_started_mask OR NET_IDMAPPING_FLAG_COMPLETE\<rparr>"
  have g: "(?id AND (?id OR NET_IDMAPPING_FLAG_MAPBYNAME) = 0) = False"
    by (simp add: NET_IDMAPPING_FLAG_MAPBYID_def NET_IDMAPPING_FLAG_MAPBYNAME_def)
  have id: "get_remote_identity_getents env (get_local_unknown_user env (?start\<lparr>im_flags := im_flags ?start OR NET_IDMAPPING_FLAG_STARTED\<rparr>)) = Some (0, mi)"
    using assms(1) by (simp only: setup_identity_def Let_def)
  let ?filled = "?mask\<lparr>im_flags := im_flags ?mask OR NET_IDMAPPING_FLAG_CACHE, im_cache := Some (byid_lookup (bd_malloc bd, c))\<rparr>"
  have m2: "?filled\<lparr>im_flags := im_flags ?filled OR (?id AND (?id OR NET_IDMAPPING_FLAG_MAPBYNAME OR NET_IDMAPPING_FLAG_CLIENT OR NET_IDMAPPING_FLAG_SERVER))\<rparr> = m2"
    by (simp add: m2_def i(1) not_shared_mask_def NET_IDMAPPING_FLAG_MAPBYID_def NET_IDMAPPING_FLAG_MAPBYNAME_def NET_IDMAPPING_FLAG_CACHE_def
      NET_IDMAPPING_FLAG_CLIENT_def NET_IDMAPPING_FLAG_SERVER_def)
  have "setup_net_usermapping bd env ?start ?id = Some (1, ?m, Some c)"
    unfolding setup_net_usermapping_def Let_def g m0(2) id if_False
    by (simp only: if_True if_False simp_thms Option.bind.bind_lunit prod.case set_shared_map [OF assms(2,3)] c(1) m2)
  then have s: "get_sftp_usermapping bd env 3 ?start = Some (1, ?m, Some c)" using m0(1) by (simp add: get_sftp_usermapping_def)
  have m2f: "im_flags m2 AND NET_IDMAPPING_FLAG_SHARED = 0" "?id AND ?id \<noteq> 0" "im_flags m2 AND NET_IDMAPPING_FLAG_CACHE \<noteq> 0"
      "im_cache m2 = Some (byid_lookup (bd_malloc bd, c))"
    by (simp_all add: m2_def NET_IDMAPPING_FLAG_SHARED_def NET_IDMAPPING_FLAG_CACHE_def NET_IDMAPPING_FLAG_MAPBYID_def)
  note p = byid_cache.p2l_cached [OF c(2) m2f, unfolded snd_conv]
  have "call_user_p2l db ?m u = Some (u\<lparr>ne_localid := cached_id (user_map c) (gf_id (im_su mi)) uid (im_unknown_uid mi) (ne_id u)\<rparr>)"
      "call_group_p2l db ?m g = Some (g\<lparr>ne_localid := cached_id (group_map c) (gf_id (im_sg mi)) gid (im_unknown_gid mi) (ne_id g)\<rparr>)" for u g
    using i(2,3) by (simp_all only: p2l_keeps [OF map_func_byid(1) [OF m2f(1,2) refl]] p) (simp_all add: m2_def)
  moreover have "im_unknown_uid ?mask = im_unknown_uid mi" "im_unknown_gid ?mask = im_unknown_gid mi" by simp_all
  ultimately show ?thesis using s unfolding c(3,4) by (intro exI [of _ ?m] exI [of _ c]) simp
qed

text \<open>A server with the user \<open>b:x:5:6:d:h:s\<close> and the group \<open>g:x:7:\<close> that lists the user \<open>j\<close> with the id 502.\<close>

definition env_example :: users_env where
  "env_example =
     \<lparr>ev_ssh2ctx = (\<lambda>what. if what = ''option:net.usermapping.type'' then (0, Io_buffer (bytes_of ''map'' @ []) 3) else (-1, Io_zero)),
      ev_ssh2remote = (\<lambda>what. if what = ''info:getentuser:'' then (0, Io_buffer [98, 58, 120, 58, 53, 58, 54, 58, 100, 58, 104, 58, 115] 13)
        else (0, Io_buffer [103, 58, 120, 58, 55, 58] 6)),
      ev_getpwnam = (\<lambda>_. None),
      ev_enumusers = (1, [(Some ([] @ (enum_code True @ line_bytes ([106], [120], [53, 48, 50], [])) @ [], 5 + length (line_bytes ([106], [120], [53, 48, 50], []))), False)])\<rparr>"

definition build_example :: users_build where
  "build_example = \<lparr>bd_db = db_none\<lparr>db_uid_byname := [[106] \<mapsto> 1001]\<rparr>, bd_malloc = \<lambda>_. True, bd_mem_ok = True, bd_lanes = \<lambda>_ _. 3, bd_sizeof_sl = 100, bd_hdr = 0\<rparr>"

text \<open>
  The macros of the flags have no parentheses: taking a flag away clears all lower ones too. With ids that are not shared the mark that the
  setup has started is gone before the lines of the server are read, and a second thread starts the setup again.
\<close>

lemma masks_clear_lower: "not_shared_mask = NOT 2047" "not_started_mask = NOT 7"
  by (simp_all add: not_shared_mask_def not_started_mask_def)

lemma started_lost: "(flags OR NET_IDMAPPING_FLAG_STARTED) AND not_shared_mask AND NET_IDMAPPING_FLAG_STARTED = 0"
  by (simp add: not_shared_mask_def NET_IDMAPPING_FLAG_STARTED_def and.assoc)

end
