(* ===== verification/Spec2Isabelle.thy ===== *)
theory Spec2Isabelle
  imports Msg_Buffer Simple_List Locking Kex_Compare Sftp_Wire Sftp_Send Sftp_Recv Users_Setup
begin

text \<open>
  OSNS is a set of network services in C: programs that browse and mount remote file systems with FUSE, over SSH connections with an SFTP
  client, and a server with an SFTP subsystem. All of it rests on one library. Paths below are relative to the directory \<open>src\<close> of the
  repository's sources.

  \<^bold>\<open>How the parts work together.\<close> A session starts with the exchange of two \<open>KEXINIT\<close> messages, from which both sides choose their
  algorithms (\<open>ssh/keyexchange/compare.c\<close>, over comma separated names and the table of public key algorithms). Messages are written and
  read with two cursors over bytes, the attribute buffer and the message buffer, both over network integers and counted strings. A
  call of a file system becomes an SFTP request: it is built and sent (\<open>sftp/send\<close>), put in a table under its id and waited
  for (\<open>sftp/request-hash.c\<close>), answered by the subsystem (\<open>ssh/subsystem/sftp/send.c\<close>), and the reply is checked, matched with the request
  and taken apart (\<open>sftp/recv.c\<close>, \<open>sftp/recv\<close>). Attributes of files in these messages are read and written by tables of callbacks for each version of
  the protocol (\<open>lib/sftp\<close>) from and into the attributes of the system (\<open>lib/system/stat.c\<close>); owners and groups go through the mapping
  of users of the connection (\<open>lib/users\<close>, \<open>ssh/users/mapping.c\<close>), which keeps the users of the server in skip lists (\<open>lib/sl\<close>). Linked
  lists, the lock of lists and the queued locks serve all of them.

  \<^bold>\<open>Conventions.\<close> A structure of the code is a record, an integer has the width it has in C, memory is a list of bytes with checked
  loads and stores. A function into \<open>option\<close> has no result, \<open>None\<close>, where the code has no defined behaviour or does not
  return: an access outside an object, a null or dangling pointer, an invalid free, a wait that nothing ends. That a function gives \<open>Some\<close>
  is thus a statement of safety and termination, and the theorems claim it as such. Pointers to functions are names of a datatype with a
  function that calls them. The allocator, system calls, the user database, the clock, random choices and the other side of a
  connection are arguments. Logging is left out.

  \<^bold>\<open>The theories.\<close>

  \<^item> \<open>Prelude\<close>: words, bytes, checked memory and comma separated lists; the facts all components use.
  \<^item> \<open>Ssh_Uint\<close> (\<open>lib/datatypes/ssh-uint.c\<close>), \<open>Ssh_String\<close> (\<open>lib/ssh/ssh-string.c\<close>): integers and counted strings. What is
    written is read back; a string whose length does not wrap lies inside the message; counting strings ends with their number on
    well-formed bytes, and does not end on one particular length.
  \<^item> \<open>Attr_Buffer\<close> (\<open>lib/datatypes/buffer.c\<close>), \<open>Msg_Buffer\<close> (\<open>lib/datatypes/ssh-msg-buffer.c\<close>): the cursors. The pass that counts and
    the pass that writes agree; values are read back; nothing is written outside of memory that is too small.
  \<^item> \<open>System_Time\<close>, \<open>System_Stat\<close> (\<open>lib/system/time.c\<close>, \<open>lib/system/stat.c\<close>): exact arithmetic on times, the attributes of a file and the
    system calls that apply them, with their order and the stop at the first error.
  \<^item> \<open>List_Lock\<close> (\<open>lib/list/lock.c\<close>): a step relation over threads whose steps are the regions under the mutex. A writer is alone,
    and one wake up lets a waiting thread go on.
  \<^item> \<open>Simple_List\<close> (\<open>lib/list/simple-list.c\<close>): headers, sentinels and elements on a heap, related to a sequence. Every
    operation refines the one on sequences, searches end; the locale \<open>fifo\<close> states what a queue promises and is interpreted on the list.
  \<^item> \<open>Locking\<close> (\<open>lib/lock/locking.c\<close>): the queued locks with upgrade and downgrade as runs of calls by threads, where a call that faults is an
    outcome of the run. For threads that keep to the discipline of the calls none faults, the invariant of the queues holds, and at most one
    lock is upgraded.
  \<^item> \<open>Namelist\<close> (\<open>lib/datatypes/ssh-namelist.c\<close>), \<open>Pk_Algo\<close> (\<open>ssh/pk/pk-types.c\<close>, \<open>ssh/ssh-pubkey.c\<close>), \<open>Kex_Compare\<close>
    (\<open>ssh/keyexchange/compare.c\<close>): the search for a name in place, over zero terminated memory, agrees with the search in the list of names; the
    choice is the first name of the client the server offers too.
  \<^item> \<open>Sftp_Attr\<close> (\<open>lib/sftp/attr/read-attr-v0*.c\<close> and \<open>write-attr-v0*.c\<close>), \<open>Sftp_Context\<close> (\<open>lib/sftp/attr-context.c\<close>, \<open>init-attr-v0*.c\<close>),
    \<open>Sftp_Generic\<close> (\<open>lib/sftp/rw-attr-generic.c\<close>), \<open>Sftp_Wire\<close>: attributes one by one, the tables and contexts of the versions 3 to 6, sets of
    attributes with the cache of their orders, and what this does to the bytes. The locales \<open>attr_parser\<close> and \<open>recording_parser\<close>
    are the contract of the callback that handles one attribute; the readers, the writers, the sizing and the masks are its
    interpretations. The order is that of the version, the cache is consistent and changes no result, the computed size is enough, and
    attributes of version 3 are read back.
  \<^item> \<open>Sftp_Msg\<close>, \<open>Sftp_Request\<close> (\<open>sftp/request-hash.c\<close>), \<open>Sftp_Send\<close> (\<open>sftp/send.c\<close>, \<open>sftp/send\<close>), \<open>Sftp_Recv\<close> (\<open>sftp/recv.c\<close>, \<open>sftp/recv\<close>,
    \<open>ssh/subsystem/sftp/send.c\<close>): messages as stores into an array of the computed size; the table of requests (locale
    \<open>reply_table\<close>) and the threads that wait and receive as a step relation; the requests are the messages of the protocol, written
    down independently of the code, and lemmas show the few calls where they are not; every reply reaches the
    one request it is for, also when it is cut off, and no request is found after its thread has returned, as long as its memory is not
    used again while a receiving thread holds it, which the code does not ensure.
  \<^item> \<open>Skip_List\<close> (\<open>lib/sl\<close>): the model, one definition for each function: levels, lanes, dirnodes, the vector with the path of a search, the two
    tables of lock functions, search, insertion, deletion and clearing. \<open>Skip_List_Search\<close>: a search of a well-formed list ends and finds the
    place of a key, and gives back its locks. \<open>Skip_List_Insert\<close>: so does an insertion, which keeps the list well-formed.
    \<open>Skip_List_Table\<close>: with exclusive access, as all callers use it, creation, search, insertion and deletion are those of a set of keys, by the
    locale \<open>key_table\<close>. The lemmas at its end show where the lanes are not what they are meant to be; these
    faults cost speed and the row numbers, not the answers.
  \<^item> \<open>Users\<close> (\<open>lib/users/getent.c\<close>, \<open>local.c\<close>, \<open>lookup.c\<close>, \<open>mapcb_p2l.c\<close>, \<open>mapcb_l2p.c\<close>, \<open>mapping.c\<close>): the fields of a line of
    the user database, and the mapping in both directions. \<open>Users_Cache\<close> (\<open>lib/users/entity.c\<close>, \<open>domain.c\<close>, \<open>cache.c\<close>): the cache by id, two skip
    lists of records, is a pair of maps; the locale \<open>ent_cache\<close> gives its users the lookups. \<open>Users_Setup\<close> (\<open>ssh/users/mapping.c\<close>,
    \<open>sftp/usermapping.c\<close>): the setup of a connection, with the cache filled from the lines the server sends.
  \<^item> This theory: the owner and group of a file, from the setup of the connection through the cache to the attribute in a message, and back.

  \<^bold>\<open>Bounds and termination.\<close> No function has fuel. Loops over lists and bytes are recursive with a measure; loops that can run forever
  (the searches of linked lists, the counting of strings, the clearing of a skip list) are partial functions, and where they end this is
  proved. Hypotheses on sizes say that sums of 32 bit lengths, the sizes of arrays on the stack among them, do not wrap, or that a list has fewer elements than its 32 or 64 bit
  counter can count; without them the code does not do what is stated, and lemmas next to the theorems show examples. The setup of a
  connection assumes that the allocator and the commands to the server succeed, as the statement says.

  \<^bold>\<open>Granularity of the steps.\<close> Steps of threads are the regions under a mutex or the lock of a list. Where the code writes to shared state
  without a lock (the status and the reply of a request between its lookup and the signal, and after a wait has been given up) the
  assignments that belong together are one step of their own. Setting flags in a status is one read and write. The operations of skip lists run one after the other: the locks on dirnodes are modelled with what the code does to their bits, but not
  the interleaving of two searches, as the callers hold a lock on the whole list.

  \<^bold>\<open>Not modelled.\<close>

  \<^item> Cryptography and what contains it: keys, Diffie-Hellman, signatures, authentication, the packets of the transport and \<open>ssh-mpint.c\<close>
    are sequences of calls of libgcrypt on its own representations.
  \<^item> Input and output: sockets, the event loop, FUSE devices, name resolution, the mount table, the resource database, files of the
    subsystem, and the threads of sessions and channels. They have no state of their own beyond what the kernel or a library holds, or
    are tied to the threads of the transport.
  \<^item> The file systems and the tree of FUSE entries: each call is passed on as one request, which is modelled; the message layouts come from the kernel's
    headers.
  \<^item> Contexts, interfaces and options: signals by name between services; where a modelled function asks them, the answer is an argument.
  \<^item> The cache of users by name: its list of domains gets no functions and its lookups take the address of a pointer for the list, so that it
    has no defined behaviour to model. The mutexes around the user database, \<open>user_is_groupmember\<close> and the release of a mapping.
  \<^item> Floating point: conversions of times from and to \<open>double\<close>, and the estimate of the number of lanes of a skip list, which is an argument.
  \<^item> Names with an index, hash tables of lists, payloads and paths: only used by parts that are not modelled.
\<close>

section \<open>Users and groups in the attributes of files\<close>

text \<open>
  The mapping of a connection as the table of callbacks the attributes of SFTP use. The callers fill in the id or the local id only; an
  entity without a name has no memory for one. A callback that is undefined gives 0 here, and the theorems below show that it is not.
\<close>

definition entity_byid :: "u32 \<Rightarrow> u32 \<Rightarrow> net_entity_s" where
  "entity_byid rid loc = \<lparr>ne_flags = 0, ne_mem = None, ne_len = 0, ne_domain = None, ne_id = rid, ne_localid = loc\<rparr>"

definition byid_mapcb :: "user_db \<Rightarrow> net_idmapping_s \<Rightarrow> net_mapcb_s" where
  "byid_mapcb db m =
     \<lparr>get_user_p2l = \<lambda>n name. (case call_user_p2l db m (entity_byid n 0) of Some e \<Rightarrow> ne_localid e | None \<Rightarrow> 0),
      get_group_p2l = \<lambda>n name. (case call_group_p2l db m (entity_byid n 0) of Some e \<Rightarrow> ne_localid e | None \<Rightarrow> 0),
      get_user_l2p = \<lambda>n space. (case call_user_l2p db m (entity_byid 0 n) of Some e \<Rightarrow> (ne_id e, []) | None \<Rightarrow> (0, [])),
      get_group_l2p = \<lambda>n space. (case call_group_l2p db m (entity_byid 0 n) of Some e \<Rightarrow> (ne_id e, []) | None \<Rightarrow> (0, []))\<rparr>"



text \<open>
  C8: the attributes a client of version 3 writes are the attributes it reads when the bytes come back, with the mapping by id for a database that
  is not shared and has no cache: the owner and the group go through the mapping in both directions, the other attributes through the message
  only. The owner is the local user of the connection or root, and the group that of the local user or 0; for root the remote user of the
  connection has to be another one than root, and for the group 0 its group another one than 0. If the remote user is root, both
  are sent as 0, and 0 comes back as the local user, as the lemma after this shows.
\<close>

theorem owner_round_trip:
  assumes "ac_version actx \<le> 3" and "cache_inv tab" and "cache_inv tab'" and "28 \<le> length buffer" and "length buffer < 4294967296"
    and "ac_mapping actx = byid_mapcb db (set_net_entity_map_func m0 flags)" and "im_flags m0 AND NET_IDMAPPING_FLAG_SHARED = 0"
    and "flags AND NET_IDMAPPING_FLAG_MAPBYID \<noteq> 0" and "im_flags m0 AND NET_IDMAPPING_FLAG_CACHE = 0"
    and "get_uid_system_stat stat = im_pw_uid m0 \<or> get_uid_system_stat stat = 0 \<and> gf_id (im_su m0) \<noteq> 0"
    and "get_gid_system_stat stat = im_pw_gid m0 \<or> get_gid_system_stat stat = 0 \<and> gf_id (im_sg m0) \<noteq> 0"
  shows "\<exists>ab1 r1 b1 tab2 ab2 r2 stat2.
    write_attributes_generic tab (set_sftp_attr_context actx) (set_attr_buffer_write ab buffer (of_nat (length buffer)))
      init_rw_attr_result stat valid = Some (ab1, r1, stat) \<and>
    ab_buffer ab1 = Some b1 \<and>
    read_attributes_generic malloc_ok tab' (set_sftp_attr_context actx) (set_attr_buffer_read ab' b1 (ab_pos ab1))
      init_rw_attr_result stat0 (sv_mask valid AND 0xF) = Some (tab2, ab2, r2, stat2) \<and>
    ab_left ab2 = 0 \<and> same_attrs_v03 (sv_mask valid) stat stat2"
proof (rule v03_round_trip [OF assms(1-5)])
  note l = l2p_byid [OF assms(7,8)] and p = p2l_byid [OF assms(7-9)]
  show "get_user_p2l (ac_mapping actx) (fst (get_user_l2p (ac_mapping actx) (get_uid_system_stat stat) 0)) [] = get_uid_system_stat stat"
    using assms(10) by (auto simp: assms(6) byid_mapcb_def entity_byid_def l p local_uid_def)
  show "get_group_p2l (ac_mapping actx) (fst (get_group_l2p (ac_mapping actx) (get_gid_system_stat stat) 0)) [] = get_gid_system_stat stat"
    using assms(11) by (auto simp: assms(6) byid_mapcb_def entity_byid_def l p local_gid_def)
qed

lemma owner_root_remote:
  assumes "im_flags m0 AND NET_IDMAPPING_FLAG_SHARED = 0" and "flags AND NET_IDMAPPING_FLAG_MAPBYID \<noteq> 0"
    and "im_flags m0 AND NET_IDMAPPING_FLAG_CACHE = 0" and "gf_id (im_su m0) = 0" and "m = byid_mapcb db (set_net_entity_map_func m0 flags)"
  shows "get_user_p2l m (fst (get_user_l2p m 0 space)) name = im_pw_uid m0"
  using assms(4,5) l2p_byid [OF assms(1,2)] p2l_byid [OF assms(1-3)] by (auto simp: byid_mapcb_def entity_byid_def local_uid_def)

definition owner_context :: attr_context_s where
  "owner_context = (context_0 3)\<lparr>ac_mapping := byid_mapcb db_none (set_net_entity_map_func mapping_example NET_IDMAPPING_FLAG_MAPBYID)\<rparr>"

theorem owner_round_trip_witness:
  "\<exists>ab1 r1 b1 tab2 ab2 r2 stat2.
    write_attributes_generic cache_0 (set_sftp_attr_context owner_context)
      (set_attr_buffer_write init_nowrite_attr_buffer (replicate 28 0) (of_nat (length (replicate 28 (0 :: u8)))))
      init_rw_attr_result (set_uid_system_stat stat_0 1000) \<lparr>sv_flags = 0, sv_mask = 2\<rparr> = Some (ab1, r1, set_uid_system_stat stat_0 1000) \<and>
    ab_buffer ab1 = Some b1 \<and>
    read_attributes_generic True cache_0 (set_sftp_attr_context owner_context)
      (set_attr_buffer_read init_read_attr_buffer b1 (ab_pos ab1))
      init_rw_attr_result stat_0 (sv_mask \<lparr>sv_flags = 0, sv_mask = 2\<rparr> AND 0xF) = Some (tab2, ab2, r2, stat2) \<and>
    ab_left ab2 = 0 \<and> same_attrs_v03 (sv_mask \<lparr>sv_flags = 0, sv_mask = 2\<rparr>) (set_uid_system_stat stat_0 1000) stat2"
proof (rule owner_round_trip)
  have f: "im_flags mapping_example = 1048577" "gf_id (im_su mapping_example) = 1001" "gf_id (im_sg mapping_example) = 101"
      "im_pw_uid mapping_example = 1000" "im_pw_gid mapping_example = 100"
    by (simp_all add: mapping_example_def init_net_idmapping_def set_net_entity_map_func_def Let_def NET_IDMAPPING_FLAG_INIT_def
      NET_IDMAPPING_FLAG_SHARED_def NET_IDMAPPING_FLAG_MAPBYID_def NET_IDMAPPING_FLAG_MAPBYNAME_def)
  show "ac_mapping owner_context = byid_mapcb db_none (set_net_entity_map_func mapping_example NET_IDMAPPING_FLAG_MAPBYID)" by (simp add: owner_context_def)
  show "im_flags mapping_example AND NET_IDMAPPING_FLAG_SHARED = 0" "NET_IDMAPPING_FLAG_MAPBYID AND NET_IDMAPPING_FLAG_MAPBYID \<noteq> 0"
    "im_flags mapping_example AND NET_IDMAPPING_FLAG_CACHE = 0"
    by (simp_all add: f NET_IDMAPPING_FLAG_SHARED_def NET_IDMAPPING_FLAG_CACHE_def NET_IDMAPPING_FLAG_MAPBYID_def)
  show "get_uid_system_stat (set_uid_system_stat stat_0 1000) = im_pw_uid mapping_example \<or>
      get_uid_system_stat (set_uid_system_stat stat_0 1000) = 0 \<and> gf_id (im_su mapping_example) \<noteq> 0"
    by (simp add: f get_uid_system_stat_def set_uid_system_stat_def sst_mark_def stx_upd_def)
  show "get_gid_system_stat (set_uid_system_stat stat_0 1000) = im_pw_gid mapping_example \<or>
      get_gid_system_stat (set_uid_system_stat stat_0 1000) = 0 \<and> gf_id (im_sg mapping_example) \<noteq> 0"
    unfolding f by code_simp
  show "ac_version owner_context \<le> 3" using context_0_lengths [of 3] by (simp add: owner_context_def)
qed (use cache_step_inv [OF cache_0_step cache_inv_empty] in simp_all)

end
